(* ===== verification/Py_Stdlib.thy ===== *)
theory Py_Stdlib
  imports Complex_Main "HOL-Library.Word"
begin

text \<open>
  What the source uses of the Python standard library, as executable definitions: text as its UTF-8
  bytes (\<^verbatim>\<open>str.encode\<close> is then the identity), lower-case hexadecimal, decimal integers,
  \<^verbatim>\<open>hashlib.sha256\<close> and the SHA-1 behind \<^verbatim>\<open>uuid.uuid5\<close>, \<^verbatim>\<open>str(UUID)\<close>, aware datetimes as
  microseconds since the Unix epoch with their ISO text, and \<^verbatim>\<open>timedelta(seconds=...)\<close>.
  The hashes are the real functions (FIPS 180-4), so that no theorem can rest on an idealised
  injective hash: statements about fingerprints speak of SHA-256 collisions explicitly.
\<close>

unbundle bit_operations_syntax

section \<open>Text\<close>

text \<open>
  A Python \<^verbatim>\<open>str\<close> is represented by its UTF-8 encoding, one \<^typ>\<open>char\<close> per byte. \<open>py_len\<close> is
  \<^verbatim>\<open>len(s)\<close>, which counts code points: every byte that is not a continuation byte.
\<close>

definition byte_of :: "char \<Rightarrow> nat" where
  "byte_of c = of_char c"

definition is_continuation :: "char \<Rightarrow> bool" where
  "is_continuation c = (128 \<le> byte_of c \<and> byte_of c < 192)"

definition py_len :: "string \<Rightarrow> nat" where
  "py_len s = length (filter (\<lambda>c. \<not> is_continuation c) s)"

definition hex_digit :: "nat \<Rightarrow> char" where
  "hex_digit n = ''0123456789abcdef'' ! (n mod 16)"

fun hex_fixed :: "nat \<Rightarrow> nat \<Rightarrow> string" where
  "hex_fixed 0 n = []"
| "hex_fixed (Suc k) n = hex_fixed k (n div 16) @ [hex_digit n]"

definition is_hex :: "char \<Rightarrow> bool" where
  "is_hex c = (c \<in> set ''0123456789abcdef'')"

text \<open>The pattern \<^verbatim>\<open>^[0-9a-f]{64}$\<close> of every digest field.\<close>

definition is_digest :: "string \<Rightarrow> bool" where
  "is_digest s = (length s = 64 \<and> list_all is_hex s)"

fun dec_digits :: "nat \<Rightarrow> string" where
  "dec_digits n = (if n < 10 then [hex_digit n] else dec_digits (n div 10) @ [hex_digit (n mod 10)])"

declare dec_digits.simps [simp del]

definition int_str :: "int \<Rightarrow> string" where
  "int_str i = (if i < 0 then CHR ''-'' # dec_digits (nat (- i)) else dec_digits (nat i))"

definition dec_fixed :: "nat \<Rightarrow> nat \<Rightarrow> string" where
  "dec_fixed k n = replicate (k - length (dec_digits n)) (CHR ''0'') @ dec_digits n"

definition starts_with :: "string \<Rightarrow> string \<Rightarrow> bool" where
  "starts_with p s = (take (length p) s = p)"

text \<open>\<^verbatim>\<open>s.split(sep)\<close> for a one-character separator: never the empty list.\<close>

fun split_on :: "char \<Rightarrow> string \<Rightarrow> string list" where
  "split_on c [] = [[]]"
| "split_on c (x # xs) =
     (if x = c then [] # split_on c xs
      else (case split_on c xs of [] \<Rightarrow> [[x]] | p # ps \<Rightarrow> (x # p) # ps))"

section \<open>SHA-256 and SHA-1\<close>

type_synonym u32 = "32 word"

text \<open>
  The constants of SHA-256 are the first 32 bits of the fractional parts of the cube roots of the
  first 64 primes, and of the square roots of the first eight. \<open>int_root k n b 0\<close> is the integer
  \<open>k\<close>-th root of \<open>n\<close>, found bit by bit from bit \<open>b - 1\<close>; all roots here are below \<open>2 ^ 35\<close>.
\<close>

fun int_root :: "nat \<Rightarrow> nat \<Rightarrow> nat \<Rightarrow> nat \<Rightarrow> nat" where
  "int_root k n 0 r = r"
| "int_root k n (Suc b) r = int_root k n b (if (r + 2 ^ b) ^ k \<le> n then r + 2 ^ b else r)"

definition small_primes :: "nat list" where
  "small_primes = filter (\<lambda>p. list_all (\<lambda>d. p mod d \<noteq> 0) [2..<p]) [2..<312]"

definition root_fraction :: "nat \<Rightarrow> nat \<Rightarrow> u32" where
  "root_fraction k p = of_nat (int_root k (p * 2 ^ (32 * k)) 35 0)"

definition sha256_k :: "u32 list" where
  "sha256_k = map (root_fraction 3) small_primes"

definition sha256_start :: "u32 list" where
  "sha256_start = map (root_fraction 2) [2, 3, 5, 7, 11, 13, 17, 19]"

definition rotr :: "nat \<Rightarrow> u32 \<Rightarrow> u32" where
  "rotr n x = (drop_bit n x) OR (push_bit (32 - n) x)"

definition rotl :: "nat \<Rightarrow> u32 \<Rightarrow> u32" where
  "rotl n x = (push_bit n x) OR (drop_bit (32 - n) x)"

text \<open>Padding common to both hashes: the bit 1, zeros, and the 64-bit big-endian bit length.\<close>

definition sha_pad :: "string \<Rightarrow> nat list" where
  "sha_pad s =
     (let n = length s; z = (119 - n mod 64) mod 64; bits = 8 * n
      in map byte_of s @ [128] @ replicate z 0
         @ map (\<lambda>i. (bits div 256 ^ (7 - i)) mod 256) [0..<8])"

fun be_words :: "nat list \<Rightarrow> u32 list" where
  "be_words (a # b # c # d # xs) =
     of_nat (((a * 256 + b) * 256 + c) * 256 + d) # be_words xs"
| "be_words _ = []"

fun blocks16 :: "nat \<Rightarrow> u32 list \<Rightarrow> u32 list list" where
  "blocks16 0 ws = []"
| "blocks16 (Suc n) ws = take 16 ws # blocks16 n (drop 16 ws)"

definition message_blocks :: "string \<Rightarrow> u32 list list" where
  "message_blocks s = (let ws = be_words (sha_pad s) in blocks16 (length ws div 16) ws)"

text \<open>The message schedule is kept newest first while it grows.\<close>

definition sha256_next :: "u32 list \<Rightarrow> u32" where
  "sha256_next w =
     (let a = w ! 14; b = w ! 1
      in w ! 15 + (rotr 7 a XOR rotr 18 a XOR drop_bit 3 a) + w ! 6
         + (rotr 17 b XOR rotr 19 b XOR drop_bit 10 b))"

primrec grow :: "(u32 list \<Rightarrow> u32) \<Rightarrow> nat \<Rightarrow> u32 list \<Rightarrow> u32 list" where
  "grow f 0 w = w"
| "grow f (Suc n) w = grow f n (f w # w)"

fun sha256_round :: "u32 list \<Rightarrow> u32 \<times> u32 \<Rightarrow> u32 list" where
  "sha256_round [a, b, c, d, e, f, g, h] (k, w) =
     (let t1 = h + (rotr 6 e XOR rotr 11 e XOR rotr 25 e) + ((e AND f) XOR ((NOT e) AND g)) + k + w;
          t2 = (rotr 2 a XOR rotr 13 a XOR rotr 22 a) + ((a AND b) XOR (a AND c) XOR (b AND c))
      in [t1 + t2, a, b, c, d + t1, e, f, g])"
| "sha256_round s _ = s"

definition sha256_block :: "u32 list \<Rightarrow> u32 list \<Rightarrow> u32 list" where
  "sha256_block hs blk =
     map2 (+) hs (foldl sha256_round hs (zip sha256_k (rev (grow sha256_next 48 (rev blk)))))"

definition words_hex :: "u32 list \<Rightarrow> string" where
  "words_hex ws = concat (map (\<lambda>w. hex_fixed 8 (unat w)) ws)"

definition sha256_hex :: "string \<Rightarrow> string" where
  "sha256_hex s =
     words_hex (foldl sha256_block sha256_start (message_blocks s))"

text \<open>The hash is always a digest in the sense of the pattern \<open>is_digest\<close>.\<close>

lemma is_hex_hex_digit: "is_hex (hex_digit n)"
proof -
  have "n mod 16 < length ''0123456789abcdef''" by simp
  then show ?thesis unfolding is_hex_def hex_digit_def by (rule nth_mem)
qed

lemma hex_fixed_shape: "length (hex_fixed k n) = k" "list_all is_hex (hex_fixed k n)"
  by (induction k n rule: hex_fixed.induct) (simp_all add: is_hex_hex_digit)

lemma words_hex_shape: "length (words_hex ws) = 8 * length ws" "list_all is_hex (words_hex ws)"
  by (induction ws) (simp_all add: words_hex_def hex_fixed_shape)

lemma length_sha256_round: "length (sha256_round s kw) = length s"
  by (cases "(s, kw)" rule: sha256_round.cases) (simp_all add: Let_def)

lemma length_sha256_rounds: "length (foldl sha256_round s kws) = length s"
  by (induction kws arbitrary: s) (simp_all add: length_sha256_round)

lemma length_sha256_blocks: "length (foldl sha256_block s bs) = length s"
  by (induction bs arbitrary: s) (simp_all add: sha256_block_def length_sha256_rounds)

lemma is_digest_sha256: "is_digest (sha256_hex s)"
  by (simp add: is_digest_def sha256_hex_def words_hex_shape length_sha256_blocks sha256_start_def)

definition sha1_next :: "u32 list \<Rightarrow> u32" where
  "sha1_next w = rotl 1 (w ! 2 XOR w ! 7 XOR w ! 13 XOR w ! 15)"

definition sha1_f :: "nat \<Rightarrow> u32 \<Rightarrow> u32 \<Rightarrow> u32 \<Rightarrow> u32" where
  "sha1_f t b c d =
     (if t < 20 then (b AND c) OR ((NOT b) AND d)
      else if t < 40 then b XOR c XOR d
      else if t < 60 then (b AND c) OR (b AND d) OR (c AND d)
      else b XOR c XOR d)"

definition sha1_k :: "nat \<Rightarrow> u32" where
  "sha1_k t = (if t < 20 then 0x5a827999 else if t < 40 then 0x6ed9eba1
               else if t < 60 then 0x8f1bbcdc else 0xca62c1d6)"

fun sha1_round :: "u32 list \<Rightarrow> nat \<times> u32 \<Rightarrow> u32 list" where
  "sha1_round [a, b, c, d, e] (t, w) = [rotl 5 a + sha1_f t b c d + e + sha1_k t + w, a, rotl 30 b, c, d]"
| "sha1_round s _ = s"

definition sha1_block :: "u32 list \<Rightarrow> u32 list \<Rightarrow> u32 list" where
  "sha1_block hs blk =
     map2 (+) hs (foldl sha1_round hs (zip [0..<80] (rev (grow sha1_next 64 (rev blk)))))"

definition sha1_words :: "string \<Rightarrow> u32 list" where
  "sha1_words s =
     foldl sha1_block [0x67452301, 0xefcdab89, 0x98badcfe, 0x10325476, 0xc3d2e1f0] (message_blocks s)"

section \<open>UUIDs, times\<close>

text \<open>A \<^verbatim>\<open>uuid.UUID\<close> is its 128-bit integer value.\<close>

type_synonym uuid = nat

definition uuid_str :: "uuid \<Rightarrow> string" where
  "uuid_str u =
     (let h = hex_fixed 32 u
      in take 8 h @ ''-'' @ take 4 (drop 8 h) @ ''-'' @ take 4 (drop 12 h) @ ''-''
         @ take 4 (drop 16 h) @ ''-'' @ drop 20 h)"

fun be_bytes :: "nat \<Rightarrow> nat \<Rightarrow> nat list" where
  "be_bytes 0 n = []"
| "be_bytes (Suc k) n = be_bytes k (n div 256) @ [n mod 256]"

text \<open>\<^verbatim>\<open>uuid5(namespace, name)\<close>: the first 128 bits of SHA-1, with version 5 and the RFC variant set.\<close>

definition uuid5 :: "uuid \<Rightarrow> string \<Rightarrow> uuid" where
  "uuid5 ns name =
     (let ws = sha1_words (map char_of (be_bytes 16 ns) @ name);
          n = foldl (\<lambda>acc w. acc * 2 ^ 32 + unat w) 0 (take 4 ws);
          hi = n div 2 ^ 80;
          mid = n div 2 ^ 64 mod 2 ^ 16;
          lo = n mod 2 ^ 64
      in hi * 2 ^ 80 + (mid mod 2 ^ 12 + 5 * 2 ^ 12) * 2 ^ 64 + (lo mod 2 ^ 62 + 2 ^ 63))"

text \<open>Aware datetimes are instants: microseconds since 1970-01-01T00:00:00Z.\<close>

type_synonym datetime = int

definition civil_of_days :: "int \<Rightarrow> int \<times> int \<times> int" where
  "civil_of_days z0 =
     (let z = z0 + 719468;
          era = z div 146097;
          doe = z - era * 146097;
          yoe = (doe - doe div 1460 + doe div 36524 - doe div 146096) div 365;
          doy = doe - (365 * yoe + yoe div 4 - yoe div 100);
          mp = (5 * doy + 2) div 153;
          d = doy - (153 * mp + 2) div 5 + 1;
          m = (if mp < 10 then mp + 3 else mp - 9);
          y = yoe + era * 400 + (if m \<le> 2 then 1 else 0)
      in (y, m, d))"

text \<open>The ISO text pydantic writes for a UTC datetime, \<^verbatim>\<open>2026-01-31T12:00:00.000001Z\<close>.\<close>

definition iso_utc :: "datetime \<Rightarrow> string" where
  "iso_utc t =
     (let days = t div 86400000000; rest = t mod 86400000000; us = rest mod 1000000;
          secs = rest div 1000000; (y, m, d) = civil_of_days days
      in dec_fixed 4 (nat y) @ ''-'' @ dec_fixed 2 (nat m) @ ''-'' @ dec_fixed 2 (nat d) @ ''T''
         @ dec_fixed 2 (nat (secs div 3600)) @ '':'' @ dec_fixed 2 (nat (secs mod 3600 div 60))
         @ '':'' @ dec_fixed 2 (nat (secs mod 60))
         @ (if us = 0 then [] else ''.'' @ dec_fixed 6 (nat us)) @ ''Z'')"

text \<open>
  A finite Python float is its exact rational value together with the text \<^verbatim>\<open>repr\<close> prints for it;
  the three non-finite values are constants of their own.
\<close>

datatype pyfloat = Finite rat string | PosInf | NegInf | NotANumber

definition float_repr :: "pyfloat \<Rightarrow> string" where
  "float_repr f =
     (case f of Finite _ s \<Rightarrow> s | PosInf \<Rightarrow> ''Infinity'' | NegInf \<Rightarrow> ''-Infinity'' | NotANumber \<Rightarrow> ''NaN'')"

definition float_rat :: "pyfloat \<Rightarrow> rat" where
  "float_rat f = (case f of Finite r _ \<Rightarrow> r | _ \<Rightarrow> 0)"

definition is_finite :: "pyfloat \<Rightarrow> bool" where
  "is_finite f = (case f of Finite _ _ \<Rightarrow> True | _ \<Rightarrow> False)"

text \<open>\<^verbatim>\<open>timedelta(seconds=r)\<close> in microseconds, rounded half to even.\<close>

definition timedelta_us :: "rat \<Rightarrow> int" where
  "timedelta_us r =
     (let x = r * 1000000; f = \<lfloor>x\<rfloor>; frac = x - of_int f
      in if frac < 1 / 2 then f else if 1 / 2 < frac then f + 1 else if even f then f else f + 1)"

section \<open>Elementary facts\<close>

lemma length_hex_fixed [simp]: "length (hex_fixed k n) = k"
  by (induction k arbitrary: n) auto

lemma hex_digit_is_hex: "is_hex (hex_digit n)"
proof -
  have "n mod 16 < length ''0123456789abcdef''"
    by simp
  then show ?thesis
    unfolding is_hex_def hex_digit_def by (rule nth_mem)
qed

lemma hex_fixed_is_hex: "list_all is_hex (hex_fixed k n)"
  by (induction k arbitrary: n) (auto simp: hex_digit_is_hex)

lemma timedelta_us_mono:
  assumes "r \<le> s"
  shows "timedelta_us r \<le> timedelta_us s"
proof -
  let ?x = "r * 1000000" and ?y = "s * 1000000"
  have xy: "?x \<le> ?y" using assms by simp
  then have fl: "\<lfloor>?x\<rfloor> \<le> \<lfloor>?y\<rfloor>" by (rule floor_mono)
  show ?thesis
  proof (cases "\<lfloor>?x\<rfloor> = \<lfloor>?y\<rfloor>")
    case True
    with xy show ?thesis by (auto simp: timedelta_us_def Let_def)
  next
    case False
    with fl have "\<lfloor>?x\<rfloor> + 1 \<le> \<lfloor>?y\<rfloor>" by simp
    then show ?thesis by (auto simp: timedelta_us_def Let_def)
  qed
qed

end
