(* ===== verification/Prelude.thy ===== *)
theory Prelude
  imports Py_Stdlib "HOL-Library.Monad_Syntax"
begin

text \<open>
  Shared vocabulary of the development: the exceptions the source raises as values of a sum type,
  the guard \<open>require\<close> and the sequencing \<open>bindE\<close> every reducer is written with, the list idioms of
  the source (replace the element with a given identity, duplicate tests, dictionaries built from
  lists), and the locale of event-driven machines whose interpretation lifts one-step facts to
  whole transcripts.
\<close>

named_theorems guard_simps \<open>inversion of guarded computations\<close>
named_theorems view_simps \<open>projections of the history and its items\<close>

section \<open>Exceptions as values\<close>

text \<open>
  \<^verbatim>\<open>KernelError(code, message)\<close> keeps its stable code; the localised message carries no state.
  \<^verbatim>\<open>ValueError\<close> covers pydantic's \<^verbatim>\<open>ValidationError\<close>, a subclass of it.
\<close>

datatype py_error = KernelError string | ValueError | AssertionError

type_synonym 'a result = "py_error + 'a"

abbreviation invalid_event :: py_error where
  "invalid_event \<equiv> KernelError ''invalid_event''"

definition require :: "bool \<Rightarrow> 'a result \<Rightarrow> 'a result" where
  "require b k = (if b then k else Inl invalid_event)"

definition check :: "bool \<Rightarrow> py_error \<Rightarrow> 'a result \<Rightarrow> 'a result" where
  "check b e k = (if b then k else Inl e)"

definition bindE :: "'a result \<Rightarrow> ('a \<Rightarrow> 'b result) \<Rightarrow> 'b result" where
  "bindE m f = (case m of Inl e \<Rightarrow> Inl e | Inr x \<Rightarrow> f x)"

text \<open>
  \<^verbatim>\<open>try: m except (KernelError, ValueError): raise KernelError("invalid_event")\<close>; an
  \<^verbatim>\<open>AssertionError\<close> is not caught.
\<close>

definition as_invalid_event :: "'a result \<Rightarrow> 'a result" where
  "as_invalid_event m =
     (case m of Inl AssertionError \<Rightarrow> Inl AssertionError | Inl _ \<Rightarrow> Inl invalid_event | Inr x \<Rightarrow> Inr x)"

lemma require_Inr [guard_simps, simp]: "require b k = Inr x \<longleftrightarrow> b \<and> k = Inr x"
  by (simp add: require_def)

lemma check_Inr [guard_simps, simp]: "check b e k = Inr x \<longleftrightarrow> b \<and> k = Inr x"
  by (simp add: check_def)

lemma bindE_Inr [guard_simps, simp]: "bindE m f = Inr y \<longleftrightarrow> (\<exists>x. m = Inr x \<and> f x = Inr y)"
  by (cases m) (auto simp: bindE_def)

lemma as_invalid_event_Inr [guard_simps, simp]: "as_invalid_event m = Inr x \<longleftrightarrow> m = Inr x"
  by (auto simp: as_invalid_event_def split: sum.splits py_error.splits)

lemma require_True [simp]: "require True k = k"
  and require_False [simp]: "require False k = Inl invalid_event"
  by (simp_all add: require_def)

lemma check_True [simp]: "check True e k = k"
  and check_False [simp]: "check False e k = Inl e"
  by (simp_all add: check_def)

lemma bindE_Inl [simp]: "bindE (Inl e) f = Inl e"
  and bindE_Inr_apply [simp]: "bindE (Inr x) f = f x"
  by (simp_all add: bindE_def)

text \<open>Python's \<^verbatim>\<open>for\<close> loop over a list with an accumulator and early exit by an exception.\<close>

fun foldE :: "('s \<Rightarrow> 'a \<Rightarrow> 's result) \<Rightarrow> 's \<Rightarrow> 'a list \<Rightarrow> 's result" where
  "foldE f s [] = Inr s"
| "foldE f s (x # xs) = bindE (f s x) (\<lambda>s'. foldE f s' xs)"

lemma foldE_append: "foldE f s (xs @ ys) = bindE (foldE f s xs) (\<lambda>s'. foldE f s' ys)"
proof (induction xs arbitrary: s)
  case Nil
  then show ?case by simp
next
  case (Cons x xs)
  then show ?case by (cases "f s x") simp_all
qed

lemma foldE_invariant:
  assumes step: "\<And>s x s'. P s \<Longrightarrow> x \<in> set xs \<Longrightarrow> f s x = Inr s' \<Longrightarrow> P s'"
    and "P s" and "foldE f s xs = Inr s'"
  shows "P s'"
  using assms
proof (induction xs arbitrary: s)
  case Nil
  then show ?case by simp
next
  case (Cons x xs)
  from Cons.prems(3) obtain t where t: "f s x = Inr t" "foldE f t xs = Inr s'"
    by auto
  have "P t" by (rule Cons.prems(1) [OF Cons.prems(2) _ t(1)]) simp
  moreover have "\<And>s y s'. P s \<Longrightarrow> y \<in> set xs \<Longrightarrow> f s y = Inr s' \<Longrightarrow> P s'"
    by (rule Cons.prems(1)) simp_all
  ultimately show ?case using Cons.IH t(2) by blast
qed

section \<open>List idioms of the source\<close>

text \<open>\<^verbatim>\<open>tuple(new if k(x) == k(new) else x for x in xs)\<close>.\<close>

definition replace_by :: "('a \<Rightarrow> 'k) \<Rightarrow> 'a \<Rightarrow> 'a list \<Rightarrow> 'a list" where
  "replace_by k y xs = map (\<lambda>x. if k x = k y then y else x) xs"

lemma replace_by_Nil [simp]: "replace_by k y [] = []"
  and replace_by_Cons [simp]:
    "replace_by k y (x # xs) = (if k x = k y then y else x) # replace_by k y xs"
  and replace_by_append [simp]: "replace_by k y (xs @ ys) = replace_by k y xs @ replace_by k y ys"
  and length_replace_by [simp]: "length (replace_by k y xs) = length xs"
  by (simp_all add: replace_by_def)

lemma map_replace_by [simp]: "map k (replace_by k y xs) = map k xs"
  by (simp add: replace_by_def)

lemma replace_by_absent: "k y \<notin> k ` set xs \<Longrightarrow> replace_by k y xs = xs"
  by (induction xs) auto

lemma set_replace_by_subset: "set (replace_by k y xs) \<subseteq> insert y (set xs)"
  by (auto simp: replace_by_def)

lemma in_replace_by:
  "x \<in> set (replace_by k y xs) \<longleftrightarrow>
     (x = y \<and> k y \<in> k ` set xs) \<or> (x \<in> set xs \<and> k x \<noteq> k y)"
  by (induction xs) auto

lemma replace_by_split:
  assumes "distinct (map k xs)" and "x \<in> set xs" and "k x = k y"
  obtains us vs where "xs = us @ x # vs" and "replace_by k y xs = us @ y # vs"
proof -
  from assms(2) obtain us vs where xs: "xs = us @ x # vs"
    by (auto dest: split_list)
  with assms(1,3) have "k y \<notin> k ` set us" "k y \<notin> k ` set vs"
    by auto
  with xs assms(3) have "replace_by k y xs = us @ y # vs"
    by (simp add: replace_by_absent)
  with xs show ?thesis by (rule that)
qed

text \<open>\<^verbatim>\<open>next((x for x in xs if P(x)), None)\<close> is \<^const>\<open>find\<close>.\<close>

lemma find_SomeD: "find P xs = Some x \<Longrightarrow> x \<in> set xs \<and> P x"
  by (induction xs) (auto split: if_splits)

lemma find_None_iff_all: "find P xs = None \<longleftrightarrow> (\<forall>x \<in> set xs. \<not> P x)"
  by (induction xs) auto

lemma find_by_key:
  assumes "distinct (map k xs)" and "x \<in> set xs"
  shows "find (\<lambda>y. k y = k x) xs = Some x"
  using assms by (induction xs) (auto simp: image_iff)

text \<open>Insertion of one element before the first one that satisfies a predicate, else at the end.\<close>

fun insert_before_first :: "('a \<Rightarrow> bool) \<Rightarrow> 'a \<Rightarrow> 'a list \<Rightarrow> 'a list" where
  "insert_before_first P y [] = [y]"
| "insert_before_first P y (x # xs) = (if P x then y # x # xs else x # insert_before_first P y xs)"

lemma set_insert_before_first [simp]: "set (insert_before_first P y xs) = insert y (set xs)"
  by (induction xs) auto

lemma insert_before_first_split:
  obtains us vs where "xs = us @ vs" and "insert_before_first P y xs = us @ y # vs"
    and "\<forall>u \<in> set us. \<not> P u" and "vs = [] \<or> P (hd vs)"
proof -
  have "\<exists>us vs. xs = us @ vs \<and> insert_before_first P y xs = us @ y # vs
          \<and> (\<forall>u \<in> set us. \<not> P u) \<and> (vs = [] \<or> P (hd vs))"
  proof (induction xs)
    case Nil
    then show ?case by simp
  next
    case (Cons x xs)
    then obtain us vs where *: "xs = us @ vs" "insert_before_first P y xs = us @ y # vs"
        "\<forall>u \<in> set us. \<not> P u" "vs = [] \<or> P (hd vs)"
      by blast
    show ?case
    proof (cases "P x")
      case True
      then show ?thesis by (intro exI [of _ "[]"] exI [of _ "x # xs"]) simp
    next
      case False
      with * show ?thesis by (intro exI [of _ "x # us"] exI [of _ vs]) simp
    qed
  qed
  then show ?thesis using that by blast
qed

text \<open>Numeric sums over optional values count a missing one as zero, as \<^verbatim>\<open>x or 0\<close> does.\<close>

definition or_zero :: "int option \<Rightarrow> int" where
  "or_zero x = (case x of None \<Rightarrow> 0 | Some n \<Rightarrow> n)"

lemma or_zero_simps [simp]: "or_zero None = 0" "or_zero (Some n) = n"
  by (simp_all add: or_zero_def)

section \<open>Event-driven machines\<close>

text \<open>
  A machine applies one event at a time and may refuse it. The laws are those the reducers promise:
  the start states satisfy the invariant and every accepted event keeps it. What follows once here
  is then available for each machine by interpretation: whole transcripts keep the invariant, a
  transcript can be cut anywhere, and a refusal at some event is a refusal of every extension.
\<close>

locale event_machine =
  fixes apply_ev :: "'s \<Rightarrow> 'e \<Rightarrow> 's result"
    and start :: "'s \<Rightarrow> bool"
    and inv :: "'s \<Rightarrow> bool"
  assumes start_inv: "start s \<Longrightarrow> inv s"
    and step_inv: "inv s \<Longrightarrow> apply_ev s e = Inr t \<Longrightarrow> inv t"
begin

lemma run_inv: "inv s \<Longrightarrow> foldE apply_ev s es = Inr t \<Longrightarrow> inv t"
  by (rule foldE_invariant [where P = inv]) (auto intro: step_inv)

lemma run_from_start: "start s \<Longrightarrow> foldE apply_ev s es = Inr t \<Longrightarrow> inv t"
  by (rule run_inv [OF start_inv])

lemma run_prefix:
  assumes "foldE apply_ev s (es @ fs) = Inr u"
  obtains t where "foldE apply_ev s es = Inr t" and "foldE apply_ev t fs = Inr u"
  using assms by (auto simp: foldE_append)

lemma run_refused: "foldE apply_ev s es = Inl x \<Longrightarrow> foldE apply_ev s (es @ fs) = Inl x"
  by (simp add: foldE_append)

end

end
