(* ===== verification/Py_Json.thy ===== *)
theory Py_Json
  imports Prelude "HOL-Library.Char_ord" "HOL-Library.List_Lexorder"
begin

text \<open>
  JSON values and the one textual form the source hashes:
  \<^verbatim>\<open>json.dumps(value, ensure_ascii=False, sort_keys=True, separators=(",", ":"))\<close>.
  A Python dictionary is kept as an association list with strictly increasing keys, so equality of
  dictionaries is equality of values and the sorted dump reads the list in order. A float is the
  text its \<^verbatim>\<open>repr\<close> prints.
  The main result is that the canonical text determines the value; with it a fingerprint
  (\<open>digest\<close>, the SHA-256 of the canonical text) determines its subject up to a SHA-256 collision.
\<close>

section \<open>Values\<close>

datatype json =
    JNull
  | JBool bool
  | JInt int
  | JFloat string
  | JStr string
  | JArr "json list"
  | JObj "(string \<times> json) list"

fun dict_set :: "string \<Rightarrow> 'v \<Rightarrow> (string \<times> 'v) list \<Rightarrow> (string \<times> 'v) list" where
  "dict_set k v [] = [(k, v)]"
| "dict_set k v ((k', v') # kvs) =
     (if k < k' then (k, v) # (k', v') # kvs
      else if k = k' then (k, v) # kvs
      else (k', v') # dict_set k v kvs)"

definition jobj :: "(string \<times> json) list \<Rightarrow> json" where
  "jobj kvs = JObj (foldl (\<lambda>d (k, v). dict_set k v d) [] kvs)"

definition jopt :: "('a \<Rightarrow> json) \<Rightarrow> 'a option \<Rightarrow> json" where
  "jopt f x = (case x of None \<Rightarrow> JNull | Some y \<Rightarrow> f y)"

definition jget :: "string \<Rightarrow> json \<Rightarrow> json option" where
  "jget k j = (case j of JObj kvs \<Rightarrow> map_of kvs k | _ \<Rightarrow> None)"

definition is_dict :: "json \<Rightarrow> bool" where
  "is_dict j = (case j of JObj _ \<Rightarrow> True | _ \<Rightarrow> False)"

definition jkeys :: "json \<Rightarrow> string list" where
  "jkeys j = (case j of JObj kvs \<Rightarrow> map fst kvs | _ \<Rightarrow> [])"

text \<open>Every number finite: the condition under which \<^verbatim>\<open>allow_nan=False\<close> does not raise.\<close>

definition finite_text :: "string \<Rightarrow> bool" where
  "finite_text s = (s \<notin> {''Infinity'', ''-Infinity'', ''NaN''})"

fun json_finite :: "json \<Rightarrow> bool" where
  "json_finite (JFloat s) = finite_text s"
| "json_finite (JArr xs) = list_all json_finite xs"
| "json_finite (JObj kvs) = list_all (\<lambda>kv. json_finite (snd kv)) kvs"
| "json_finite _ = True"

section \<open>Canonical text\<close>

definition json_escape :: "char \<Rightarrow> string" where
  "json_escape c =
     (if c = CHR 0x22 then [CHR 0x5C, CHR 0x22]
      else if c = CHR 0x5C then [CHR 0x5C, CHR 0x5C]
      else if c = CHR 0x0A then [CHR 0x5C, CHR ''n'']
      else if c = CHR 0x0D then [CHR 0x5C, CHR ''r'']
      else if c = CHR 0x09 then [CHR 0x5C, CHR ''t'']
      else if c = CHR 0x0C then [CHR 0x5C, CHR ''f'']
      else if c = CHR 0x08 then [CHR 0x5C, CHR ''b'']
      else if byte_of c < 32 then [CHR 0x5C, CHR ''u''] @ hex_fixed 4 (byte_of c)
      else [c])"

definition json_quote :: "string \<Rightarrow> string" where
  "json_quote s = [CHR 0x22] @ concat (map json_escape s) @ [CHR 0x22]"

fun json_dumps :: "json \<Rightarrow> string"
  and dumps_elems :: "json list \<Rightarrow> string"
  and dumps_fields :: "(string \<times> json) list \<Rightarrow> string" where
  "json_dumps JNull = ''null''"
| "json_dumps (JBool b) = (if b then ''true'' else ''false'')"
| "json_dumps (JInt i) = int_str i"
| "json_dumps (JFloat s) = s"
| "json_dumps (JStr s) = json_quote s"
| "json_dumps (JArr xs) = ''['' @ dumps_elems xs @ '']''"
| "json_dumps (JObj kvs) = ''{'' @ dumps_fields kvs @ ''}''"
| "dumps_elems [] = []"
| "dumps_elems [x] = json_dumps x"
| "dumps_elems (x # y # xs) = json_dumps x @ '','' @ dumps_elems (y # xs)"
| "dumps_fields [] = []"
| "dumps_fields [(k, v)] = json_quote k @ '':'' @ json_dumps v"
| "dumps_fields ((k, v) # kv # kvs) =
     json_quote k @ '':'' @ json_dumps v @ '','' @ dumps_fields (kv # kvs)"

text \<open>\<^verbatim>\<open>digest\<close> of tools/workspace.py; \<^verbatim>\<open>_fingerprint\<close> of agent/approvals.py hashes the same text.\<close>

definition digest :: "json \<Rightarrow> string" where
  "digest v = sha256_hex (json_dumps v)"

text \<open>Two values with different texts and one SHA-256: the only way fingerprints can fail to bind.\<close>

definition digest_collision :: "json \<Rightarrow> json \<Rightarrow> bool" where
  "digest_collision a b =
     (json_dumps a \<noteq> json_dumps b \<and> sha256_hex (json_dumps a) = sha256_hex (json_dumps b))"

section \<open>The canonical text determines the value\<close>

text \<open>
  Texts of finite floats: number characters only, and a point or an exponent, which no integer has.
\<close>

definition num_char :: "char \<Rightarrow> bool" where
  "num_char c = (c \<in> set ''0123456789+-.e'')"

definition float_text :: "string \<Rightarrow> bool" where
  "float_text s = (list_all num_char s \<and> (CHR ''.'' \<in> set s \<or> CHR ''e'' \<in> set s))"

fun json_wf :: "json \<Rightarrow> bool" where
  "json_wf (JFloat s) = float_text s"
| "json_wf (JArr xs) = list_all json_wf xs"
| "json_wf (JObj kvs) = list_all (\<lambda>kv. json_wf (snd kv)) kvs"
| "json_wf _ = True"

lemma hex_digit_inj: "m < 16 \<Longrightarrow> n < 16 \<Longrightarrow> hex_digit m = hex_digit n \<Longrightarrow> m = n"
proof -
  have d: "distinct ''0123456789abcdef''" by simp
  assume "m < 16" "n < 16" "hex_digit m = hex_digit n"
  then show "m = n"
    using nth_eq_iff_index_eq [OF d, of m n] by (simp add: hex_digit_def)
qed

lemma hex_fixed_inj: "m < 16 ^ k \<Longrightarrow> n < 16 ^ k \<Longrightarrow> hex_fixed k m = hex_fixed k n \<Longrightarrow> m = n"
proof (induction k arbitrary: m n)
  case 0
  then show ?case by simp
next
  case (Suc k)
  from Suc.prems have "m div 16 < 16 ^ k" "n div 16 < 16 ^ k"
    by (auto simp: less_mult_imp_div_less mult.commute)
  moreover from Suc.prems(3) have "hex_fixed k (m div 16) = hex_fixed k (n div 16)"
    and "hex_digit m = hex_digit n"
    by auto
  ultimately have "m div 16 = n div 16" by (intro Suc.IH)
  moreover have "m mod 16 = n mod 16"
    using hex_digit_inj [of "m mod 16" "n mod 16"] \<open>hex_digit m = hex_digit n\<close>
    by (simp add: hex_digit_def)
  ultimately show ?case by (metis div_mult_mod_eq)
qed

lemma dec_digits_not_Nil [simp]: "dec_digits n \<noteq> []"
  by (subst dec_digits.simps) simp

lemma dec_digits_small: "n < 10 \<Longrightarrow> dec_digits n = [hex_digit n]"
  and dec_digits_large: "\<not> n < 10 \<Longrightarrow> dec_digits n = dec_digits (n div 10) @ [hex_digit (n mod 10)]"
  by (subst dec_digits.simps, simp)+

lemma dec_digits_inj: "dec_digits m = dec_digits n \<Longrightarrow> m = n"
proof (induction m arbitrary: n rule: dec_digits.induct)
  case (1 m)
  consider (small) "m < 10" "n < 10" | (large) "\<not> m < 10" "\<not> n < 10"
    using 1(2) by (cases "m < 10"; cases "n < 10") (auto simp: dec_digits_small dec_digits_large dest: sym)
  then show ?case
  proof cases
    case small
    with 1(2) have "hex_digit m = hex_digit n" by (simp add: dec_digits_small)
    with small show ?thesis by (intro hex_digit_inj) auto
  next
    case large
    with 1(2) have "dec_digits (m div 10) = dec_digits (n div 10)"
      and h: "hex_digit (m mod 10) = hex_digit (n mod 10)"
      by (auto simp: dec_digits_large)
    then have "m div 10 = n div 10" using 1(1) [OF large(1)] by blast
    moreover have "m mod 10 = n mod 10"
      by (rule hex_digit_inj [OF _ _ h]) (auto intro: less_trans [of _ 10])
    ultimately show ?thesis by (metis div_mult_mod_eq)
  qed
qed

definition dec_chars :: string where
  "dec_chars = ''0123456789''"

lemma hex_digit_dec: "k < 10 \<Longrightarrow> hex_digit k \<in> set dec_chars"
proof -
  assume k: "k < 10"
  have "''0123456789abcdef'' = dec_chars @ ''abcdef''" by (simp add: dec_chars_def)
  moreover have "length dec_chars = 10" by (simp add: dec_chars_def)
  ultimately have "hex_digit k = dec_chars ! k"
    using k by (simp only: hex_digit_def nth_append) simp
  with k \<open>length dec_chars = 10\<close> show ?thesis by simp
qed

lemma dec_digits_chars: "set (dec_digits n) \<subseteq> set dec_chars"
proof (induction n rule: dec_digits.induct)
  case (1 n)
  then show ?case
    by (cases "n < 10") (simp_all add: dec_digits_small dec_digits_large hex_digit_dec)
qed

lemma int_str_chars: "set (int_str i) \<subseteq> insert (CHR ''-'') (set dec_chars)"
  using dec_digits_chars by (auto simp: int_str_def)

lemma int_str_not_Nil [simp]: "int_str i \<noteq> []"
  by (simp add: int_str_def)

lemma int_str_inj: "int_str i = int_str j \<Longrightarrow> i = j"
proof -
  have "CHR ''-'' \<notin> set dec_chars" by (simp add: dec_chars_def)
  then have no: "dec_digits n \<noteq> CHR ''-'' # xs" for n xs
    using dec_digits_chars [of n] by force
  assume eq: "int_str i = int_str j"
  show "i = j"
  proof (cases "i < 0")
    case True
    with eq no [THEN not_sym] have "j < 0" and "dec_digits (nat (- i)) = dec_digits (nat (- j))"
      by (auto simp: int_str_def split: if_splits)
    with True show ?thesis using dec_digits_inj by force
  next
    case False
    with eq no have "\<not> j < 0" and "dec_digits (nat i) = dec_digits (nat j)"
      by (auto simp: int_str_def split: if_splits)
    with False show ?thesis using dec_digits_inj by force
  qed
qed

text \<open>Escapes form a prefix code none of whose words starts with a quotation mark.\<close>

lemma json_escape_cases:
  obtains (quote) "c = CHR 0x22" "json_escape c = [CHR 0x5C, CHR 0x22]"
  | (backslash) "c = CHR 0x5C" "json_escape c = [CHR 0x5C, CHR 0x5C]"
  | (newline) "c = CHR 0x0A" "json_escape c = [CHR 0x5C, CHR ''n'']"
  | (return) "c = CHR 0x0D" "json_escape c = [CHR 0x5C, CHR ''r'']"
  | (tab) "c = CHR 0x09" "json_escape c = [CHR 0x5C, CHR ''t'']"
  | (feed) "c = CHR 0x0C" "json_escape c = [CHR 0x5C, CHR ''f'']"
  | (backspace) "c = CHR 0x08" "json_escape c = [CHR 0x5C, CHR ''b'']"
  | (control) "byte_of c < 32" "json_escape c = [CHR 0x5C, CHR ''u''] @ hex_fixed 4 (byte_of c)"
  | (plain) "c \<noteq> CHR 0x22" "c \<noteq> CHR 0x5C" "json_escape c = [c]"
proof -
  consider "c \<in> {CHR 0x22, CHR 0x5C, CHR 0x0A, CHR 0x0D, CHR 0x09, CHR 0x0C, CHR 0x08}"
    | "c \<notin> {CHR 0x22, CHR 0x5C, CHR 0x0A, CHR 0x0D, CHR 0x09, CHR 0x0C, CHR 0x08}" "byte_of c < 32"
    | "c \<notin> {CHR 0x22, CHR 0x5C, CHR 0x0A, CHR 0x0D, CHR 0x09, CHR 0x0C, CHR 0x08}" "\<not> byte_of c < 32"
    by blast
  then show ?thesis
  proof cases
    case 1
    then show ?thesis
      by (elim insertE emptyE) (use that(1-7) in \<open>simp_all add: json_escape_def\<close>)
  next
    case 2
    then show ?thesis using that(8) by (simp add: json_escape_def)
  next
    case 3
    then show ?thesis using that(9) by (simp add: json_escape_def)
  qed
qed

lemma byte_of_inj: "byte_of c = byte_of d \<Longrightarrow> c = d"
  by (simp add: byte_of_def)

lemma json_escape_prefix:
  assumes "json_escape c @ x = json_escape d @ y"
  shows "c = d \<and> x = y"
  using assms
  by (cases c rule: json_escape_cases; cases d rule: json_escape_cases)
     (auto simp: append_eq_append_conv dest!: byte_of_inj hex_fixed_inj [rotated 2])

lemma json_escape_no_quote: "json_escape c @ x \<noteq> CHR 0x22 # y"
  by (cases c rule: json_escape_cases) auto

lemma json_escapes_prefix:
  "concat (map json_escape s) @ CHR 0x22 # x = concat (map json_escape t) @ CHR 0x22 # y \<Longrightarrow>
     s = t \<and> x = y"
proof (induction s arbitrary: t)
  case Nil
  then show ?case
    by (cases t) (auto simp: json_escape_no_quote dest: sym [THEN json_escape_no_quote [THEN notE]])
next
  case (Cons c s)
  show ?case
  proof (cases t)
    case Nil
    with Cons.prems show ?thesis by (simp add: json_escape_no_quote)
  next
    case (Cons d t')
    with Cons.prems have "c = d" and
      "concat (map json_escape s) @ CHR 0x22 # x = concat (map json_escape t') @ CHR 0x22 # y"
      by (auto dest: json_escape_prefix)
    with Cons Cons.IH show ?thesis by blast
  qed
qed

lemma json_quote_prefix: "json_quote s @ x = json_quote t @ y \<Longrightarrow> s = t \<and> x = y"
  using json_escapes_prefix [of s x t y] by (simp add: json_quote_def)

lemma json_quote_head: "\<exists>xs. json_quote s = CHR 0x22 # xs"
  by (simp add: json_quote_def)

text \<open>A text is delimited when what follows it cannot continue a number.\<close>

definition delimited :: "string \<Rightarrow> bool" where
  "delimited x = (x = [] \<or> \<not> num_char (hd x))"

lemma delimited_Cons [simp]: "delimited (c # x) \<longleftrightarrow> \<not> num_char c"
  by (simp add: delimited_def)

lemma not_num_char [simp]:
  "\<not> num_char (CHR '','')" "\<not> num_char (CHR '']'')" "\<not> num_char (CHR ''}'')"
  "\<not> num_char (CHR '':'')" "\<not> num_char (CHR ''['')" "\<not> num_char (CHR ''{'')"
  "\<not> num_char (CHR ''n'')" "\<not> num_char (CHR ''t'')" "\<not> num_char (CHR ''f'')"
  "\<not> num_char (CHR 0x22)"
  by (simp_all add: num_char_def)

lemma int_str_num: "list_all num_char (int_str i)"
proof -
  have "insert (CHR ''-'') (set dec_chars) \<subseteq> Collect num_char"
    by (simp add: dec_chars_def num_char_def)
  with int_str_chars [of i] show ?thesis by (auto simp: list_all_iff)
qed

lemma num_prefix:
  assumes "list_all num_char s" "list_all num_char t" "delimited x" "delimited y" "s @ x = t @ y"
  shows "s = t \<and> x = y"
proof -
  have tw: "takeWhile num_char (u @ z) = u" if "list_all num_char u" "delimited z" for u z
    using that by (cases z) (auto simp: list_all_iff takeWhile_append2)
  have "s = t" using tw [OF assms(1,3)] tw [OF assms(2,4)] assms(5) by simp
  with assms(5) show ?thesis by simp
qed

text \<open>The texts of numbers, and the first character of every other text.\<close>

definition is_num :: "json \<Rightarrow> bool" where
  "is_num j = (case j of JInt _ \<Rightarrow> True | JFloat _ \<Rightarrow> True | _ \<Rightarrow> False)"

lemma json_dumps_num: "json_wf j \<Longrightarrow> is_num j \<Longrightarrow> list_all num_char (json_dumps j) \<and> json_dumps j \<noteq> []"
  by (cases j) (auto simp: is_num_def int_str_num float_text_def)

lemma json_dumps_num_inj:
  assumes "json_wf a" "json_wf b" "is_num a" "is_num b" "json_dumps a = json_dumps b"
  shows "a = b"
proof -
  have no_point: "\<not> float_text (int_str i)" for i
  proof -
    have "CHR ''.'' \<notin> insert (CHR ''-'') (set dec_chars)" "CHR ''e'' \<notin> insert (CHR ''-'') (set dec_chars)"
      by (simp_all add: dec_chars_def)
    with int_str_chars [of i] show ?thesis by (auto simp: float_text_def)
  qed
  show ?thesis
    using assms no_point by (cases a; cases b) (auto simp: is_num_def dest: int_str_inj)
qed

definition jhead :: "json \<Rightarrow> char" where
  "jhead j = (case j of JNull \<Rightarrow> CHR ''n'' | JBool b \<Rightarrow> (if b then CHR ''t'' else CHR ''f'')
              | JStr _ \<Rightarrow> CHR 0x22 | JArr _ \<Rightarrow> CHR ''['' | _ \<Rightarrow> CHR ''{'')"

lemma jhead_not_num: "\<not> num_char (jhead j)"
  by (cases j) (simp_all add: jhead_def)

lemma json_dumps_head: "\<not> is_num j \<Longrightarrow> \<exists>xs. json_dumps j = jhead j # xs"
proof (cases j)
  case (JBool b)
  then show ?thesis by (cases b) (simp_all add: jhead_def)
qed (simp_all add: is_num_def jhead_def json_quote_def)

lemma json_dumps_not_closing:
  assumes "json_wf j"
  shows "\<exists>c xs. json_dumps j = c # xs \<and> c \<noteq> CHR '']'' \<and> c \<noteq> CHR ''}''"
proof (cases "is_num j")
  case True
  with json_dumps_num [OF assms True] show ?thesis
    by (cases "json_dumps j") auto
next
  case False
  then obtain xs where "json_dumps j = jhead j # xs"
    using json_dumps_head by blast
  then show ?thesis by (cases j) (auto simp: jhead_def split: if_splits)
qed

definition jtag :: "json \<Rightarrow> nat" where
  "jtag j = (case j of JNull \<Rightarrow> 0 | JBool _ \<Rightarrow> 1 | JInt _ \<Rightarrow> 2 | JFloat _ \<Rightarrow> 2 | JStr _ \<Rightarrow> 3
             | JArr _ \<Rightarrow> 4 | JObj _ \<Rightarrow> 5)"

lemma is_num_jtag: "is_num j \<longleftrightarrow> jtag j = 2"
  by (cases j) (simp_all add: is_num_def jtag_def)

lemma json_dumps_tag:
  assumes "json_wf a" "json_wf b" "json_dumps a @ x = json_dumps b @ y"
  shows "jtag a = jtag b"
proof -
  have mixed: "False" if "is_num u" "\<not> is_num v" "json_wf u" "json_dumps u @ s = json_dumps v @ t" for u v s t
  proof -
    from json_dumps_num [OF that(3,1)] obtain c us where "json_dumps u = c # us" "num_char c"
      by (cases "json_dumps u") auto
    moreover from \<open>\<not> is_num v\<close> obtain vs where "json_dumps v = jhead v # vs"
      using json_dumps_head by blast
    ultimately show False using that jhead_not_num [of v] by simp
  qed
  show ?thesis
  proof (cases "is_num a \<or> is_num b")
    case True
    with mixed [of a b x y] mixed [of b a y x] assms have "is_num a" "is_num b" by metis+
    then show ?thesis by (simp add: is_num_jtag)
  next
    case False
    then obtain xs ys where "json_dumps a = jhead a # xs" "json_dumps b = jhead b # ys"
      by (meson json_dumps_head)
    with assms(3) have "jhead a = jhead b" by simp
    with False show ?thesis
      by (cases a; cases b) (simp_all add: jtag_def is_num_def jhead_def split: if_splits)
  qed
qed

lemma json_dumps_nums:
  assumes "json_wf a" "json_wf b" "jtag a = 2" "delimited x" "delimited y"
    "json_dumps a @ x = json_dumps b @ y"
  shows "a = b \<and> x = y"
proof -
  from json_dumps_tag [OF assms(1,2,6)] assms(3) have n: "is_num a" "is_num b"
    by (simp_all add: is_num_jtag)
  have "json_dumps a = json_dumps b \<and> x = y"
    using json_dumps_num [OF assms(1) n(1)] json_dumps_num [OF assms(2) n(2)] assms(4-6)
    by (intro num_prefix) auto
  with json_dumps_num_inj [OF assms(1,2) n] show ?thesis by blast
qed

lemma field_list_cases [case_names 1 2 3]:
  obtains "kvs = []"
  | k v where "kvs = [(k, v)]"
  | k v kv rest where "kvs = (k, v) # kv # rest"
  by (cases kvs rule: remdups_adj.cases) auto

lemma json_dumps_prefix_all:
  "\<And>b x y. json_wf a \<Longrightarrow> json_wf b \<Longrightarrow> delimited x \<Longrightarrow> delimited y \<Longrightarrow>
     json_dumps a @ x = json_dumps b @ y \<Longrightarrow> a = b \<and> x = y"
  "\<And>ys x y. list_all json_wf xs \<Longrightarrow> list_all json_wf ys \<Longrightarrow>
     dumps_elems xs @ CHR '']'' # x = dumps_elems ys @ CHR '']'' # y \<Longrightarrow> xs = ys \<and> x = y"
  "\<And>ls x y. list_all (\<lambda>kv. json_wf (snd kv)) ks \<Longrightarrow> list_all (\<lambda>kv. json_wf (snd kv)) ls \<Longrightarrow>
     dumps_fields ks @ CHR ''}'' # x = dumps_fields ls @ CHR ''}'' # y \<Longrightarrow> ks = ls \<and> x = y"
proof (induction a and xs and ks rule: json_dumps_dumps_elems_dumps_fields.induct)
  case 1
  from json_dumps_tag [OF 1(1,2,5)] 1 show ?case by (cases b) (auto simp: jtag_def)
next
  case (2 v)
  from json_dumps_tag [OF 2(1,2,5)] 2 show ?case
    by (cases b) (auto simp: jtag_def split: if_splits)
next
  case (3 i)
  then show ?case using json_dumps_nums [OF 3(1,2) _ 3(3-5)] by (simp add: jtag_def)
next
  case (4 s)
  then show ?case using json_dumps_nums [OF 4(1,2) _ 4(3-5)] by (simp add: jtag_def)
next
  case (5 s)
  from json_dumps_tag [OF 5(1,2,5)] 5 show ?case
    by (cases b) (auto simp: jtag_def dest: json_quote_prefix)
next
  case (6 xs)
  from json_dumps_tag [OF 6(2,3,6)] obtain ys where b: "b = JArr ys"
    by (cases b) (auto simp: jtag_def)
  with 6(6) have "dumps_elems xs @ CHR '']'' # x = dumps_elems ys @ CHR '']'' # y" by simp
  with 6(1) [of ys x y] 6(2,3) b show ?case by simp
next
  case (7 kvs)
  from json_dumps_tag [OF 7(2,3,6)] obtain ls where b: "b = JObj ls"
    by (cases b) (auto simp: jtag_def)
  with 7(6) have "dumps_fields kvs @ CHR ''}'' # x = dumps_fields ls @ CHR ''}'' # y" by simp
  with 7(1) [of ls x y] 7(2,3) b show ?case by simp
next
  case 8
  then show ?case
  proof (cases ys rule: remdups_adj.cases)
    case (2 z)
    with 8 json_dumps_not_closing [of z] show ?thesis by auto
  next
    case (3 z w zs)
    with 8 json_dumps_not_closing [of z] show ?thesis by auto
  qed auto
next
  case (9 v)
  show ?case
  proof (cases ys rule: remdups_adj.cases)
    case 1
    with 9(2,4) json_dumps_not_closing [of v] show ?thesis by auto
  next
    case (2 z)
    with 9(3,4) 9(1) [of z "CHR '']'' # x" "CHR '']'' # y"] 9(2) show ?thesis by simp
  next
    case (3 z w zs)
    with 9(3,4) 9(1) [of z "CHR '']'' # x" "'','' @ dumps_elems (w # zs) @ CHR '']'' # y"] 9(2)
    show ?thesis by simp
  qed
next
  case (10 v u vs)
  show ?case
  proof (cases ys rule: remdups_adj.cases)
    case 1
    with 10(3,5) json_dumps_not_closing [of v] show ?thesis by auto
  next
    case (2 z)
    with 10(4,5) 10(1) [of z "'','' @ dumps_elems (u # vs) @ CHR '']'' # x" "CHR '']'' # y"] 10(3)
    show ?thesis by simp
  next
    case (3 z w zs)
    with 10(4,5) 10(1) [of z "'','' @ dumps_elems (u # vs) @ CHR '']'' # x"
        "'','' @ dumps_elems (w # zs) @ CHR '']'' # y"] 10(3)
    have "v = z" and eq: "dumps_elems (u # vs) @ CHR '']'' # x = dumps_elems (w # zs) @ CHR '']'' # y"
      by simp_all
    with 10(2) [OF _ _ eq] 10(3,4) 3 show ?thesis by simp
  qed
next
  case 11
  then show ?case
    by (cases ls rule: field_list_cases) (auto simp: json_quote_def)
next
  case (12 k v)
  show ?case
  proof (cases ls rule: field_list_cases)
    case 1
    with 12(4) show ?thesis by (simp add: json_quote_def)
  next
    case (2 l w)
    with 12(4) have "json_quote k @ '':'' @ json_dumps v @ CHR ''}'' # x
        = json_quote l @ '':'' @ json_dumps w @ CHR ''}'' # y" by simp
    from json_quote_prefix [OF this] 12(1) [of w "CHR ''}'' # x" "CHR ''}'' # y"] 12(2,3) 2
    show ?thesis by simp
  next
    case (3 l w kv kvs)
    with 12(4) have "json_quote k @ '':'' @ json_dumps v @ CHR ''}'' # x
        = json_quote l @ '':'' @ json_dumps w @ '','' @ dumps_fields (kv # kvs) @ CHR ''}'' # y" by simp
    from json_quote_prefix [OF this] 12(2,3) 3
      12(1) [of w "CHR ''}'' # x" "'','' @ dumps_fields (kv # kvs) @ CHR ''}'' # y"]
    show ?thesis by simp
  qed
next
  case (13 k v kv kvs)
  show ?case
  proof (cases ls rule: field_list_cases)
    case 1
    with 13(5) show ?thesis by (simp add: json_quote_def)
  next
    case (2 l w)
    with 13(5) have "json_quote k @ '':'' @ json_dumps v @ '','' @ dumps_fields (kv # kvs) @ CHR ''}'' # x
        = json_quote l @ '':'' @ json_dumps w @ CHR ''}'' # y" by simp
    from json_quote_prefix [OF this] 13(3,4) 2
      13(1) [of w "'','' @ dumps_fields (kv # kvs) @ CHR ''}'' # x" "CHR ''}'' # y"]
    show ?thesis by simp
  next
    case (3 l w lw lws)
    with 13(5) have "json_quote k @ '':'' @ json_dumps v @ '','' @ dumps_fields (kv # kvs) @ CHR ''}'' # x
        = json_quote l @ '':'' @ json_dumps w @ '','' @ dumps_fields (lw # lws) @ CHR ''}'' # y" by simp
    from json_quote_prefix [OF this] 13(3,4) 3
      13(1) [of w "'','' @ dumps_fields (kv # kvs) @ CHR ''}'' # x"
        "'','' @ dumps_fields (lw # lws) @ CHR ''}'' # y"]
    have "k = l" "v = w" and eq: "dumps_fields (kv # kvs) @ CHR ''}'' # x = dumps_fields (lw # lws) @ CHR ''}'' # y"
      by simp_all
    with 13(2) [OF _ _ eq] 13(3,4) 3 show ?thesis by simp
  qed
qed

lemma json_dumps_inj: "json_wf a \<Longrightarrow> json_wf b \<Longrightarrow> json_dumps a = json_dumps b \<Longrightarrow> a = b"
  using json_dumps_prefix_all(1) [of a b "[]" "[]"] by (simp add: delimited_def)

lemma digest_binds:
  assumes "json_wf a" "json_wf b" "digest a = digest b"
  shows "a = b \<or> digest_collision a b"
  using assms json_dumps_inj by (auto simp: digest_def digest_collision_def)

section \<open>Dictionaries\<close>

lemma map_of_dict_set: "map_of (dict_set k v d) = (map_of d)(k \<mapsto> v)"
  by (induction k v d rule: dict_set.induct) (auto simp: fun_eq_iff)

lemma set_dict_set: "set (dict_set k v d) \<subseteq> insert (k, v) (set d)"
  by (induction k v d rule: dict_set.induct) auto

lemma foldl_dict_set_map_of:
  "map_of (foldl (\<lambda>d (k, v). dict_set k v d) d kvs) = map_of d ++ map_of (rev kvs)"
  by (induction kvs arbitrary: d) (auto simp: map_of_dict_set fun_eq_iff map_add_def split: option.splits)

lemma foldl_dict_set_subset:
  "set (foldl (\<lambda>d (k, v). dict_set k v d) d kvs) \<subseteq> set d \<union> set kvs"
proof (induction kvs arbitrary: d)
  case (Cons kv kvs)
  obtain k v where kv: "kv = (k, v)" by (cases kv)
  show ?case using Cons [of "dict_set k v d"] set_dict_set [of k v d] kv by auto
qed simp

text \<open>Reading a dictionary built from a list of fields: the last binding of the key.\<close>

lemma jget_jobj: "jget k (jobj kvs) = map_of (rev kvs) k"
  by (simp add: jget_def jobj_def foldl_dict_set_map_of)

lemma json_wf_jobj: "list_all (\<lambda>kv. json_wf (snd kv)) kvs \<Longrightarrow> json_wf (jobj kvs)"
  using foldl_dict_set_subset [of "[]" kvs] by (auto simp: jobj_def list_all_iff)

lemma jobj_field:
  assumes "jobj kvs = jobj lws" and "map_of (rev kvs) k = Some v" and "map_of (rev lws) k = Some w"
  shows "v = w"
  using assms by (metis jget_jobj option.inject)

lemma uuid_str_inj:
  assumes "u < 2 ^ 128" "v < 2 ^ 128" "uuid_str u = uuid_str v"
  shows "u = v"
proof -
  let ?h = "hex_fixed 32 u" and ?g = "hex_fixed 32 v"
  have parts: "x = take 8 x @ take 4 (drop 8 x) @ take 4 (drop 12 x) @ take 4 (drop 16 x) @ drop 20 x"
    for x :: string
  proof -
    have "drop 16 x = take 4 (drop 16 x) @ drop 20 x"
      using append_take_drop_id [of 4 "drop 16 x"] by simp
    moreover have "drop 12 x = take 4 (drop 12 x) @ drop 16 x"
      using append_take_drop_id [of 4 "drop 12 x"] by simp
    moreover have "drop 8 x = take 4 (drop 8 x) @ drop 12 x"
      using append_take_drop_id [of 4 "drop 8 x"] by simp
    moreover have "x = take 8 x @ drop 8 x" by simp
    ultimately show ?thesis by simp
  qed
  have "take 8 ?h = take 8 ?g \<and> take 4 (drop 8 ?h) = take 4 (drop 8 ?g)
      \<and> take 4 (drop 12 ?h) = take 4 (drop 12 ?g) \<and> take 4 (drop 16 ?h) = take 4 (drop 16 ?g)
      \<and> drop 20 ?h = drop 20 ?g"
    using assms(3) unfolding uuid_str_def Let_def by (simp add: append_eq_append_conv)
  then have "?h = ?g" by (metis parts)
  with hex_fixed_inj [of u 32 v] assms(1,2) show ?thesis by simp
qed

end
