(* ===== verification/Domain_Models.thy ===== *)
theory Domain_Models
  imports Py_Json
begin

text \<open>
  The shared domain contracts (src/src/harnessix/domain/models.py, agent/errors.py,
  artifacts/contracts.py): effect classes, the life cycle of an Action with its table of allowed
  transitions, approval decisions, structured failures with their classification, and references
  to artifacts. Enumerations are datatypes, contract classes are records, and the constraints of
  a class (pydantic field bounds and validators) are boolean functions \<open>..._ok\<close>.
\<close>

section \<open>Effect classes and Action life cycle\<close>

datatype effect_class = READ_ONLY | IDEMPOTENT_WRITE | NON_IDEMPOTENT_WRITE | DESTRUCTIVE

definition effect_class_value :: "effect_class \<Rightarrow> string" where
  "effect_class_value e =
     (case e of READ_ONLY \<Rightarrow> ''read_only'' | IDEMPOTENT_WRITE \<Rightarrow> ''idempotent_write''
      | NON_IDEMPOTENT_WRITE \<Rightarrow> ''non_idempotent_write'' | DESTRUCTIVE \<Rightarrow> ''destructive'')"

datatype action_status =
    RECEIVED | VALIDATED | POLICY_EVALUATED | DENIED | PENDING_APPROVAL | READY | LEASED
  | RUNNING | SUCCEEDED | FAILED | UNKNOWN | RECONCILING | MANUAL_INTERVENTION

definition action_status_value :: "action_status \<Rightarrow> string" where
  "action_status_value s =
     (case s of RECEIVED \<Rightarrow> ''received'' | VALIDATED \<Rightarrow> ''validated''
      | POLICY_EVALUATED \<Rightarrow> ''policy_evaluated'' | DENIED \<Rightarrow> ''denied''
      | PENDING_APPROVAL \<Rightarrow> ''pending_approval'' | READY \<Rightarrow> ''ready'' | LEASED \<Rightarrow> ''leased''
      | RUNNING \<Rightarrow> ''running'' | SUCCEEDED \<Rightarrow> ''succeeded'' | FAILED \<Rightarrow> ''failed''
      | UNKNOWN \<Rightarrow> ''unknown'' | RECONCILING \<Rightarrow> ''reconciling''
      | MANUAL_INTERVENTION \<Rightarrow> ''manual_intervention'')"

definition TERMINAL_ACTION_STATUSES :: "action_status list" where
  "TERMINAL_ACTION_STATUSES = [DENIED, SUCCEEDED, FAILED, MANUAL_INTERVENTION]"

fun ALLOWED_ACTION_TRANSITIONS :: "action_status \<Rightarrow> action_status list" where
  "ALLOWED_ACTION_TRANSITIONS RECEIVED = [VALIDATED, FAILED]"
| "ALLOWED_ACTION_TRANSITIONS VALIDATED = [POLICY_EVALUATED, FAILED]"
| "ALLOWED_ACTION_TRANSITIONS POLICY_EVALUATED = [DENIED, PENDING_APPROVAL, READY]"
| "ALLOWED_ACTION_TRANSITIONS PENDING_APPROVAL = [DENIED, READY]"
| "ALLOWED_ACTION_TRANSITIONS READY = [LEASED]"
| "ALLOWED_ACTION_TRANSITIONS LEASED = [READY, RUNNING]"
| "ALLOWED_ACTION_TRANSITIONS RUNNING = [SUCCEEDED, FAILED, UNKNOWN]"
| "ALLOWED_ACTION_TRANSITIONS UNKNOWN = [RECONCILING, MANUAL_INTERVENTION]"
| "ALLOWED_ACTION_TRANSITIONS RECONCILING = [SUCCEEDED, FAILED, UNKNOWN, MANUAL_INTERVENTION]"
| "ALLOWED_ACTION_TRANSITIONS DENIED = []"
| "ALLOWED_ACTION_TRANSITIONS SUCCEEDED = []"
| "ALLOWED_ACTION_TRANSITIONS FAILED = []"
| "ALLOWED_ACTION_TRANSITIONS MANUAL_INTERVENTION = []"

section \<open>Approval decisions, trace context\<close>

datatype approval_outcome = APPROVED | REJECTED

record approval_decision =
  d_outcome :: approval_outcome
  d_actor :: string
  d_reason :: "string option"

definition approval_decision_ok :: "approval_decision \<Rightarrow> bool" where
  "approval_decision_ok d =
     (1 \<le> py_len (d_actor d) \<and> py_len (d_actor d) \<le> 256
      \<and> (case d_reason d of None \<Rightarrow> True | Some r \<Rightarrow> py_len r \<le> 2000))"

record approval_record =
  ar_outcome :: approval_outcome
  ar_actor :: string
  ar_reason :: "string option"
  ar_request_fingerprint :: string
  ar_decided_at :: datetime

record trace_context =
  traceparent :: string
  tracestate :: "string option"

section \<open>Failures\<close>

datatype failure_category =
    Fc_INPUT | Fc_PROVIDER | Fc_TOOL | Fc_APPROVAL | Fc_BUDGET | Fc_CANCELLED | Fc_INTERRUPTED
  | Fc_STORAGE | Fc_CONFLICT | Fc_INTERNAL

definition failure_category_value :: "failure_category \<Rightarrow> string" where
  "failure_category_value c =
     (case c of Fc_INPUT \<Rightarrow> ''input'' | Fc_PROVIDER \<Rightarrow> ''provider'' | Fc_TOOL \<Rightarrow> ''tool''
      | Fc_APPROVAL \<Rightarrow> ''approval'' | Fc_BUDGET \<Rightarrow> ''budget'' | Fc_CANCELLED \<Rightarrow> ''cancelled''
      | Fc_INTERRUPTED \<Rightarrow> ''interrupted'' | Fc_STORAGE \<Rightarrow> ''storage'' | Fc_CONFLICT \<Rightarrow> ''conflict''
      | Fc_INTERNAL \<Rightarrow> ''internal'')"

definition starts_with_any :: "string list \<Rightarrow> string \<Rightarrow> bool" where
  "starts_with_any ps s = list_ex (\<lambda>p. starts_with p s) ps"

definition failure_category :: "string \<Rightarrow> failure_category" where
  "failure_category code =
    (if code \<in> set [''cancelled'', ''provider_cancelled''] then Fc_CANCELLED
     else if code \<in> set [''process_interrupted'', ''uncertain_effect'', ''retry_unsafe_effect'']
     then Fc_INTERRUPTED
     else if code \<in> set [''public_input_limit'', ''public_input_timeout'', ''budget_exceeded'',
         ''time_budget_exceeded'', ''model_output_too_large'', ''tool_output_too_large'',
         ''context_budget_exceeded'', ''context_compaction_retained_overflow'',
         ''context_compaction_source_overflow'', ''context_compaction_summary_overflow'',
         ''context_compaction_no_progress'']
     then Fc_BUDGET
     else if code \<in> set [''request_conflict'', ''sequence_conflict'', ''event_conflict'',
         ''runtime_busy'', ''turn_busy'', ''turn_retry_not_latest'',
         ''context_compaction_source_changed'']
     then Fc_CONFLICT
     else if starts_with_any [''storage_'', ''projection_'', ''event_corrupt'', ''database_'',
         ''schema_'', ''migration_''] code
       \<or> code \<in> set [''wrong_database'', ''invalid_migration'']
     then Fc_STORAGE
     else if starts_with ''approval_'' code then Fc_APPROVAL
     else if starts_with ''provider_'' code \<or> code = ''invalid_provider_output'' then Fc_PROVIDER
     else if starts_with ''context_'' code then Fc_INPUT
     else if starts_with_any [''tool_'', ''patch_'', ''process_'', ''artifact_'', ''test_'',
         ''git_'', ''workspace_'', ''mcp_''] code
       \<or> code \<in> set [''unknown_tool'', ''duplicate_tool'']
     then Fc_TOOL
     else if code \<in> set [''public_input_secret_leak'', ''invalid_event'', ''invalid_batch'',
         ''invalid_cursor'', ''invalid_history_request'', ''thread_not_found'', ''turn_not_found'',
         ''turn_not_retryable'', ''empty_transcript'']
     then Fc_INPUT
     else Fc_INTERNAL)"

record agent_failure =
  f_code :: string
  f_message :: string
  f_retryable :: bool
  f_category :: failure_category

definition agent_failure_ok :: "agent_failure \<Rightarrow> bool" where
  "agent_failure_ok f =
     (1 \<le> py_len (f_code f) \<and> py_len (f_code f) \<le> 128 \<and> py_len (f_message f) \<le> 2000)"

text \<open>\<^verbatim>\<open>classify_missing_category\<close>: the category a failure gets when the caller leaves it out.\<close>

definition AgentFailure :: "string \<Rightarrow> string \<Rightarrow> bool \<Rightarrow> failure_category option \<Rightarrow> agent_failure" where
  "AgentFailure code message retryable category =
     \<lparr>f_code = code, f_message = message, f_retryable = retryable,
      f_category = (case category of None \<Rightarrow> failure_category code | Some c \<Rightarrow> c)\<rparr>"

definition failure_json :: "agent_failure \<Rightarrow> json" where
  "failure_json f = jobj [(''code'', JStr (f_code f)), (''message'', JStr (f_message f)),
     (''retryable'', JBool (f_retryable f)),
     (''category'', JStr (failure_category_value (f_category f)))]"

section \<open>Artifact references\<close>

definition MAX_ARTIFACT_BYTES :: int where "MAX_ARTIFACT_BYTES = 1024 * 1024"
definition MAX_ARTIFACT_RECORDS :: int where "MAX_ARTIFACT_RECORDS = 10000"
definition MAX_PAGE_BYTES :: int where "MAX_PAGE_BYTES = 24 * 1024"

record artifact_ref =
  artifact_id :: uuid
  af_sha256 :: string
  af_size_bytes :: int
  af_records :: int
  af_complete :: bool
  af_expires_at :: datetime

definition artifact_ref_ok :: "artifact_ref \<Rightarrow> bool" where
  "artifact_ref_ok a =
     (is_digest (af_sha256 a) \<and> 0 \<le> af_size_bytes a \<and> af_size_bytes a \<le> MAX_ARTIFACT_BYTES
      \<and> 0 \<le> af_records a \<and> af_records a \<le> MAX_ARTIFACT_RECORDS)"

definition artifact_json :: "artifact_ref \<Rightarrow> json" where
  "artifact_json a = jobj [(''artifact_id'', JStr (uuid_str (artifact_id a))),
     (''sha256'', JStr (af_sha256 a)), (''size_bytes'', JInt (af_size_bytes a)),
     (''records'', JInt (af_records a)), (''format'', JStr ''jsonl/v1''),
     (''complete'', JBool (af_complete a)), (''expires_at'', JStr (iso_utc (af_expires_at a)))]"

record artifact_page =
  pg_artifact :: artifact_ref
  pg_offset :: int
  pg_text :: string
  pg_next_offset :: "int option"

text \<open>The page validator \<^verbatim>\<open>valid_page\<close>, with the field bounds of the class.\<close>

definition artifact_page_ok :: "artifact_page \<Rightarrow> bool" where
  "artifact_page_ok p =
    (let count = int (length (filter (\<lambda>c. c = CHR 0x0A) (pg_text p)));
         end = pg_offset p + count
     in artifact_ref_ok (pg_artifact p) \<and> 0 \<le> pg_offset p \<and> pg_offset p \<le> MAX_ARTIFACT_RECORDS
        \<and> int (length (pg_text p)) \<le> MAX_PAGE_BYTES
        \<and> (pg_text p = [] \<or> last (pg_text p) = CHR 0x0A)
        \<and> count \<le> 200 \<and> end \<le> af_records (pg_artifact p)
        \<and> (case pg_next_offset p of
             Some n \<Rightarrow> count \<noteq> 0 \<and> n = end \<and> end < af_records (pg_artifact p)
           | None \<Rightarrow> end = af_records (pg_artifact p)))"

text \<open>
  \<^verbatim>\<open>paginate_artifact_lines\<close>: the loop over \<^verbatim>\<open>lines[offset : offset + limit]\<close> that stops at the
  first line that would exceed the page; it returns the text and the exclusive end offset.
\<close>

fun take_page :: "string list \<Rightarrow> int \<Rightarrow> string list" where
  "take_page [] used = []"
| "take_page (l # ls) used =
     (let encoded = int (length l) + 1
      in if used + encoded > MAX_PAGE_BYTES then []
         else (l @ [CHR 0x0A]) # take_page ls (used + encoded))"

definition paginate_artifact_lines :: "string list \<Rightarrow> nat \<Rightarrow> nat \<Rightarrow> string \<times> nat" where
  "paginate_artifact_lines lines offset limit =
     (let selected = take_page (take limit (drop offset lines)) 0
      in (concat selected, offset + length selected))"

section \<open>Facts\<close>

lemma terminal_action_statuses:
  "s \<in> set TERMINAL_ACTION_STATUSES \<longleftrightarrow> ALLOWED_ACTION_TRANSITIONS s = []"
  by (cases s) (simp_all add: TERMINAL_ACTION_STATUSES_def)

lemma take_page_length: "length (take_page ls used) \<le> length ls"
  by (induction ls used rule: take_page.induct) (auto simp: Let_def)

lemma take_page_bytes:
  "0 \<le> used \<Longrightarrow> used \<le> MAX_PAGE_BYTES \<Longrightarrow>
     used + int (length (concat (take_page ls used))) \<le> MAX_PAGE_BYTES"
  by (induction ls used rule: take_page.induct) (auto simp: Let_def add.assoc)

lemma take_page_prefix: "\<exists>n. take_page ls used = map (\<lambda>l. l @ [CHR 0x0A]) (take n ls)"
proof (induction ls used rule: take_page.induct)
  case (2 l ls used)
  show ?case
  proof (cases "used + (int (length l) + 1) > MAX_PAGE_BYTES")
    case True
    then show ?thesis by (intro exI [of _ 0]) simp
  next
    case False
    with 2 obtain n where "take_page ls (used + (int (length l) + 1)) = map (\<lambda>l. l @ [CHR 0x0A]) (take n ls)"
      by auto
    with False show ?thesis by (intro exI [of _ "Suc n"]) (simp add: Let_def)
  qed
qed simp

text \<open>C26. A page of an artifact is never larger than the page limit, holds whole lines only, starts
  at the requested offset and reports the offset after its last line: the text is the lines
  \<open>offset \<dots> next - 1\<close>, each ended by a line feed, and there are at most \<open>limit\<close> of them.\<close>

theorem pagination_bounded:
  assumes "paginate_artifact_lines lines offset limit = (page, after)" and "offset \<le> length lines"
  shows "int (length page) \<le> MAX_PAGE_BYTES
    \<and> offset \<le> after \<and> after \<le> offset + limit \<and> after \<le> length lines
    \<and> page = concat (map (\<lambda>l. l @ [CHR 0x0A]) (take (after - offset) (drop offset lines)))"
proof -
  let ?sel = "take limit (drop offset lines)"
  obtain n where n: "take_page ?sel 0 = map (\<lambda>l. l @ [CHR 0x0A]) (take n ?sel)"
    using take_page_prefix by blast
  from assms have page: "page = concat (take_page ?sel 0)"
    and after: "after = offset + length (take_page ?sel 0)"
    by (simp_all add: paginate_artifact_lines_def Let_def)
  have "take n ?sel = take (after - offset) (drop offset lines)"
    by (cases "min limit n \<le> length (drop offset lines)") (auto simp: after n min_def)
  then have "page = concat (map (\<lambda>l. l @ [CHR 0x0A]) (take (after - offset) (drop offset lines)))"
    by (simp only: page n)
  moreover have "int (length page) \<le> MAX_PAGE_BYTES"
    using take_page_bytes [of 0 ?sel] by (simp add: page MAX_PAGE_BYTES_def)
  moreover have "offset \<le> after" "after \<le> offset + limit" "after \<le> length lines"
    using take_page_length [of ?sel 0] assms(2) by (auto simp: after)
  ultimately show ?thesis by blast
qed

theorem pagination_bounded_witness:
  "paginate_artifact_lines [''ab'', ''c''] 1 5 = ([CHR ''c'', CHR 0x0A], 2)
   \<and> int (length [CHR ''c'', CHR 0x0A]) \<le> MAX_PAGE_BYTES"
  using pagination_bounded [of "[''ab'', ''c'']" 1 5 "[CHR ''c'', CHR 0x0A]" 2]
  by (simp add: paginate_artifact_lines_def MAX_PAGE_BYTES_def)

end
