(* ===== verification/Patch_Contracts.thy ===== *)
theory Patch_Contracts
  imports Domain_Models
begin

text \<open>
  Contracts of managed patches (src/src/harnessix/patches/: contracts.py, batch_contracts.py,
  managed_contracts.py, batch_approval_contracts.py, bridge_contracts.py, batch_bridge_contracts.py,
  batch_run_contracts.py): proposals of exact edits, manifests, call plans whose fingerprints chain
  the Agent call to the file images, and the effect of an ordered group run. The validators are the
  boolean functions; what they establish about effects of a group is proved at the end.
\<close>

section \<open>Paths\<close>

definition control_byte :: "char \<Rightarrow> bool" where
  "control_byte c = (byte_of c < 32 \<or> byte_of c = 127)"

text \<open>\<^verbatim>\<open>_parts\<close> of tools/workspace.py; \<open>None\<close> is \<^verbatim>\<open>ReadToolError("path_denied")\<close>.\<close>

definition path_parts :: "string \<Rightarrow> nat \<Rightarrow> nat \<Rightarrow> string list option" where
  "path_parts path max_bytes max_parts =
    (if path = [] \<or> length path > max_bytes \<or> CHR 0x5C \<in> set path \<or> list_ex control_byte path
     then None
     else if path = ''.'' then Some []
     else (let parts = split_on (CHR ''/'') path
           in if length parts > max_parts
                \<or> list_ex (\<lambda>p. p \<in> {[], ''.'', ''..''} \<or> length p > 255) parts
              then None else Some parts))"

definition patch_path_ok :: "string \<Rightarrow> bool" where
  "patch_path_ok path = (case path_parts path 1024 64 of None \<Rightarrow> False | Some ps \<Rightarrow> ps \<noteq> [])"

section \<open>Proposals\<close>

definition MAX_PATCH_BYTES :: int where "MAX_PATCH_BYTES = 1024 * 1024"
definition MAX_EDIT_BYTES :: int where "MAX_EDIT_BYTES = 128 * 1024"
definition MAX_PROPOSAL_BYTES :: int where "MAX_PROPOSAL_BYTES = 256 * 1024"
definition MAX_EDITS :: int where "MAX_EDITS = 32"
definition MAX_BATCH_FILES :: int where "MAX_BATCH_FILES = 16"
definition MAX_BATCH_PROPOSAL_BYTES :: int where "MAX_BATCH_PROPOSAL_BYTES = 512 * 1024"
definition MAX_BATCH_IMAGE_BYTES :: int where "MAX_BATCH_IMAGE_BYTES = 8 * 1024 * 1024"

definition text_ok :: "string \<Rightarrow> bool" where
  "text_ok s =
     list_all (\<lambda>c. \<not> ((byte_of c < 32 \<and> c \<notin> {CHR 0x09, CHR 0x0D, CHR 0x0A}) \<or> byte_of c = 127)) s"

record exact_edit =
  old_text :: string
  new_text :: string

definition edit_bytes :: "exact_edit \<Rightarrow> int" where
  "edit_bytes e = int (length (old_text e)) + int (length (new_text e))"

definition exact_edit_ok :: "exact_edit \<Rightarrow> bool" where
  "exact_edit_ok e =
     (1 \<le> py_len (old_text e) \<and> int (py_len (old_text e)) \<le> MAX_EDIT_BYTES
      \<and> int (py_len (new_text e)) \<le> MAX_EDIT_BYTES
      \<and> old_text e \<noteq> new_text e \<and> text_ok (old_text e) \<and> text_ok (new_text e)
      \<and> edit_bytes e \<le> MAX_EDIT_BYTES)"

record patch_proposal =
  pp_path :: string
  pp_expected_revision :: string
  pp_edits :: "exact_edit list"

definition patch_proposal_ok :: "patch_proposal \<Rightarrow> bool" where
  "patch_proposal_ok p =
     (1 \<le> py_len (pp_path p) \<and> py_len (pp_path p) \<le> 1024 \<and> patch_path_ok (pp_path p)
      \<and> is_digest (pp_expected_revision p)
      \<and> pp_edits p \<noteq> [] \<and> int (length (pp_edits p)) \<le> MAX_EDITS
      \<and> list_all exact_edit_ok (pp_edits p)
      \<and> sum_list (map edit_bytes (pp_edits p)) \<le> MAX_PROPOSAL_BYTES)"

definition edit_json :: "exact_edit \<Rightarrow> json" where
  "edit_json e = jobj [(''old_text'', JStr (old_text e)), (''new_text'', JStr (new_text e))]"

definition proposal_json :: "patch_proposal \<Rightarrow> json" where
  "proposal_json p = jobj [(''path'', JStr (pp_path p)),
     (''expected_revision'', JStr (pp_expected_revision p)),
     (''edits'', JArr (map edit_json (pp_edits p)))]"

record patch_batch_proposal =
  pbp_files :: "patch_proposal list"

definition patch_batch_proposal_ok :: "patch_batch_proposal \<Rightarrow> bool" where
  "patch_batch_proposal_ok p =
     (pbp_files p \<noteq> [] \<and> int (length (pbp_files p)) \<le> MAX_BATCH_FILES
      \<and> list_all patch_proposal_ok (pbp_files p)
      \<and> distinct (map pp_path (pbp_files p))
      \<and> sum_list (map (\<lambda>q. sum_list (map edit_bytes (pp_edits q))) (pbp_files p))
          \<le> MAX_BATCH_PROPOSAL_BYTES)"

definition batch_proposal_json :: "patch_batch_proposal \<Rightarrow> json" where
  "batch_proposal_json p = jobj [(''files'', JArr (map proposal_json (pbp_files p)))]"

section \<open>Manifests\<close>

record patch_manifest =
  pm_path :: string
  pm_workspace_scope :: string
  pm_source_revision :: string
  pm_source_mode :: int
  pm_proposal_sha256 :: string
  pm_before_sha256 :: string
  pm_after_sha256 :: string
  pm_before_bytes :: int
  pm_after_bytes :: int
  pm_edit_count :: int
  pm_fingerprint :: string

definition manifest_fields :: "patch_manifest \<Rightarrow> (string \<times> json) list" where
  "manifest_fields m = [(''version'', JStr ''patch-plan/v1''), (''path'', JStr (pm_path m)),
     (''workspace_scope'', JStr (pm_workspace_scope m)),
     (''source_revision'', JStr (pm_source_revision m)), (''source_mode'', JInt (pm_source_mode m)),
     (''proposal_sha256'', JStr (pm_proposal_sha256 m)),
     (''before_sha256'', JStr (pm_before_sha256 m)), (''after_sha256'', JStr (pm_after_sha256 m)),
     (''before_bytes'', JInt (pm_before_bytes m)), (''after_bytes'', JInt (pm_after_bytes m)),
     (''edit_count'', JInt (pm_edit_count m))]"

definition manifest_json :: "patch_manifest \<Rightarrow> json" where
  "manifest_json m = jobj (manifest_fields m @ [(''fingerprint'', JStr (pm_fingerprint m))])"

definition patch_manifest_ok :: "patch_manifest \<Rightarrow> bool" where
  "patch_manifest_ok m =
     (1 \<le> py_len (pm_path m) \<and> py_len (pm_path m) \<le> 1024 \<and> patch_path_ok (pm_path m)
      \<and> list_all is_digest [pm_workspace_scope m, pm_source_revision m, pm_proposal_sha256 m,
           pm_before_sha256 m, pm_after_sha256 m, pm_fingerprint m]
      \<and> 0 \<le> pm_source_mode m \<and> pm_source_mode m \<le> 511
      \<and> 0 \<le> pm_before_bytes m \<and> pm_before_bytes m \<le> MAX_PATCH_BYTES
      \<and> 0 \<le> pm_after_bytes m \<and> pm_after_bytes m \<le> MAX_PATCH_BYTES
      \<and> 1 \<le> pm_edit_count m \<and> pm_edit_count m \<le> MAX_EDITS
      \<and> pm_fingerprint m = digest (jobj (manifest_fields m))
      \<and> pm_before_sha256 m \<noteq> pm_after_sha256 m)"

record patch_batch_manifest =
  pbm_workspace_scope :: string
  pbm_proposal_sha256 :: string
  pbm_files :: "patch_manifest list"
  pbm_fingerprint :: string

definition batch_manifest_fields :: "patch_batch_manifest \<Rightarrow> (string \<times> json) list" where
  "batch_manifest_fields m = [(''version'', JStr ''patch-batch-plan/v1''),
     (''workspace_scope'', JStr (pbm_workspace_scope m)),
     (''proposal_sha256'', JStr (pbm_proposal_sha256 m)),
     (''files'', JArr (map manifest_json (pbm_files m)))]"

definition batch_manifest_json :: "patch_batch_manifest \<Rightarrow> json" where
  "batch_manifest_json m =
     jobj (batch_manifest_fields m @ [(''fingerprint'', JStr (pbm_fingerprint m))])"

definition patch_batch_manifest_ok :: "patch_batch_manifest \<Rightarrow> bool" where
  "patch_batch_manifest_ok m =
     (list_all is_digest [pbm_workspace_scope m, pbm_proposal_sha256 m, pbm_fingerprint m]
      \<and> pbm_files m \<noteq> [] \<and> int (length (pbm_files m)) \<le> MAX_BATCH_FILES
      \<and> list_all patch_manifest_ok (pbm_files m)
      \<and> distinct (map pm_path (pbm_files m))
      \<and> list_all (\<lambda>f. pm_workspace_scope f = pbm_workspace_scope m) (pbm_files m)
      \<and> sum_list (map (\<lambda>f. pm_before_bytes f + pm_after_bytes f) (pbm_files m)) \<le> MAX_BATCH_IMAGE_BYTES
      \<and> pbm_fingerprint m = digest (jobj (batch_manifest_fields m)))"

section \<open>Single-file call plan\<close>

datatype patch_state =
    Ps_pending | Ps_approved | Ps_rejected | Ps_started | Ps_applied | Ps_failed | Ps_uncertain
  | Ps_observed_before | Ps_observed_after | Ps_diverged | Ps_missing | Ps_unavailable

definition patch_state_value :: "patch_state \<Rightarrow> string" where
  "patch_state_value s =
     (case s of Ps_pending \<Rightarrow> ''pending'' | Ps_approved \<Rightarrow> ''approved'' | Ps_rejected \<Rightarrow> ''rejected''
      | Ps_started \<Rightarrow> ''started'' | Ps_applied \<Rightarrow> ''applied'' | Ps_failed \<Rightarrow> ''failed''
      | Ps_uncertain \<Rightarrow> ''uncertain'' | Ps_observed_before \<Rightarrow> ''observed_before''
      | Ps_observed_after \<Rightarrow> ''observed_after'' | Ps_diverged \<Rightarrow> ''diverged''
      | Ps_missing \<Rightarrow> ''missing'' | Ps_unavailable \<Rightarrow> ''unavailable'')"

definition call_request_id :: "uuid \<Rightarrow> uuid \<Rightarrow> uuid \<Rightarrow> string \<Rightarrow> string" where
  "call_request_id thread_id turn_id call_id fingerprint =
     digest (JArr [JStr ''managed-patch-call/v1'', JStr (uuid_str thread_id),
       JStr (uuid_str turn_id), JStr (uuid_str call_id), JStr fingerprint])"

record managed_patch_call_plan =
  mp_thread_id :: uuid
  mp_turn_id :: uuid
  mp_call_id :: uuid
  mp_call_fingerprint :: string
  mp_request_id :: string
  mp_workspace_id :: uuid
  mp_plan_id :: uuid
  mp_manifest :: patch_manifest
  mp_backend_fingerprint :: string
  mp_approval_fingerprint :: string

definition patch_plan_fields :: "managed_patch_call_plan \<Rightarrow> (string \<times> json) list" where
  "patch_plan_fields p = [(''version'', JStr ''managed-patch-call/v1''),
     (''thread_id'', JStr (uuid_str (mp_thread_id p))), (''turn_id'', JStr (uuid_str (mp_turn_id p))),
     (''call_id'', JStr (uuid_str (mp_call_id p))), (''call_fingerprint'', JStr (mp_call_fingerprint p)),
     (''request_id'', JStr (mp_request_id p)), (''workspace_id'', JStr (uuid_str (mp_workspace_id p))),
     (''plan_id'', JStr (uuid_str (mp_plan_id p))), (''manifest'', manifest_json (mp_manifest p)),
     (''backend_fingerprint'', JStr (mp_backend_fingerprint p))]"

definition managed_patch_call_plan_ok :: "managed_patch_call_plan \<Rightarrow> bool" where
  "managed_patch_call_plan_ok p =
     (list_all is_digest [mp_call_fingerprint p, mp_request_id p, mp_backend_fingerprint p,
        mp_approval_fingerprint p]
      \<and> patch_manifest_ok (mp_manifest p)
      \<and> mp_request_id p
          = call_request_id (mp_thread_id p) (mp_turn_id p) (mp_call_id p) (mp_call_fingerprint p)
      \<and> mp_backend_fingerprint p
          = digest (JArr [JStr (uuid_str (mp_workspace_id p)), JStr (uuid_str (mp_plan_id p)),
              JStr (mp_request_id p), JStr (pm_fingerprint (mp_manifest p))])
      \<and> mp_approval_fingerprint p = digest (jobj (patch_plan_fields p)))"

section \<open>Group call plan\<close>

definition batch_call_request_id :: "uuid \<Rightarrow> uuid \<Rightarrow> uuid \<Rightarrow> string \<Rightarrow> string" where
  "batch_call_request_id thread_id turn_id call_id fingerprint =
     digest (JArr [JStr ''managed-patch-batch-call/v1'', JStr (uuid_str thread_id),
       JStr (uuid_str turn_id), JStr (uuid_str call_id), JStr fingerprint])"

definition member_request_id :: "uuid \<Rightarrow> uuid \<Rightarrow> string \<Rightarrow> nat \<Rightarrow> string \<Rightarrow> string" where
  "member_request_id workspace_id batch_id request_id position fingerprint =
     digest (JArr [JStr ''managed-patch-batch-member/v1'', JStr (uuid_str workspace_id),
       JStr (uuid_str batch_id), JStr request_id, JInt (int position), JStr fingerprint])"

record patch_batch_member =
  bm_plan_id :: uuid
  bm_request_id :: string
  bm_approval_fingerprint :: string

record managed_patch_batch_plan =
  bp_batch_id :: uuid
  bp_workspace_id :: uuid
  bp_request_id :: string
  bp_manifest :: patch_batch_manifest
  bp_members :: "patch_batch_member list"
  bp_approval_fingerprint :: string

definition batch_member_json :: "patch_batch_member \<Rightarrow> json" where
  "batch_member_json m = jobj [(''plan_id'', JStr (uuid_str (bm_plan_id m))),
     (''request_id'', JStr (bm_request_id m)),
     (''approval_fingerprint'', JStr (bm_approval_fingerprint m))]"

definition batch_plan_fields :: "managed_patch_batch_plan \<Rightarrow> (string \<times> json) list" where
  "batch_plan_fields p = [(''version'', JStr ''managed-patch-batch-plan/v1''),
     (''batch_id'', JStr (uuid_str (bp_batch_id p))),
     (''workspace_id'', JStr (uuid_str (bp_workspace_id p))), (''request_id'', JStr (bp_request_id p)),
     (''manifest'', batch_manifest_json (bp_manifest p)),
     (''members'', JArr (map batch_member_json (bp_members p)))]"

definition batch_plan_json :: "managed_patch_batch_plan \<Rightarrow> json" where
  "batch_plan_json p =
     jobj (batch_plan_fields p @ [(''approval_fingerprint'', JStr (bp_approval_fingerprint p))])"

definition MAX_BATCH_PLAN_BYTES :: int where "MAX_BATCH_PLAN_BYTES = 64 * 1024"

definition batch_member_ok ::
  "managed_patch_batch_plan \<Rightarrow> nat \<Rightarrow> patch_batch_member \<Rightarrow> patch_manifest \<Rightarrow> bool" where
  "batch_member_ok p position member manifest =
     (bm_request_id member
        = member_request_id (bp_workspace_id p) (bp_batch_id p) (bp_request_id p) position
            (pm_fingerprint manifest)
      \<and> bm_approval_fingerprint member
        = digest (JArr [JStr (uuid_str (bp_workspace_id p)), JStr (uuid_str (bm_plan_id member)),
            JStr (bm_request_id member), JStr (pm_fingerprint manifest)]))"

definition managed_patch_batch_plan_ok :: "managed_patch_batch_plan \<Rightarrow> bool" where
  "managed_patch_batch_plan_ok p =
     (1 \<le> py_len (bp_request_id p) \<and> py_len (bp_request_id p) \<le> 128
      \<and> patch_batch_manifest_ok (bp_manifest p)
      \<and> bp_members p \<noteq> [] \<and> int (length (bp_members p)) \<le> MAX_BATCH_FILES
      \<and> list_all (\<lambda>m. is_digest (bm_request_id m) \<and> is_digest (bm_approval_fingerprint m)) (bp_members p)
      \<and> is_digest (bp_approval_fingerprint p)
      \<and> length (bp_members p) = length (pbm_files (bp_manifest p))
      \<and> distinct (map bm_plan_id (bp_members p))
      \<and> list_all (\<lambda>(i, m, f). batch_member_ok p i m f)
          (zip [0..<length (bp_members p)] (zip (bp_members p) (pbm_files (bp_manifest p))))
      \<and> bp_approval_fingerprint p = digest (jobj (batch_plan_fields p))
      \<and> int (length (json_dumps (batch_plan_json p))) \<le> MAX_BATCH_PLAN_BYTES)"

record managed_patch_batch_call_plan =
  bc_thread_id :: uuid
  bc_turn_id :: uuid
  bc_call_id :: uuid
  bc_call_fingerprint :: string
  bc_backend :: managed_patch_batch_plan
  bc_approval_fingerprint :: string

definition batch_call_fields :: "managed_patch_batch_call_plan \<Rightarrow> (string \<times> json) list" where
  "batch_call_fields p = [(''version'', JStr ''managed-patch-batch-call/v1''),
     (''thread_id'', JStr (uuid_str (bc_thread_id p))), (''turn_id'', JStr (uuid_str (bc_turn_id p))),
     (''call_id'', JStr (uuid_str (bc_call_id p))), (''call_fingerprint'', JStr (bc_call_fingerprint p)),
     (''backend'', batch_plan_json (bc_backend p))]"

definition MAX_BATCH_CALL_BYTES :: int where "MAX_BATCH_CALL_BYTES = MAX_BATCH_PLAN_BYTES + 1024"

definition managed_patch_batch_call_plan_ok :: "managed_patch_batch_call_plan \<Rightarrow> bool" where
  "managed_patch_batch_call_plan_ok p =
     (list_all is_digest [bc_call_fingerprint p, bc_approval_fingerprint p]
      \<and> managed_patch_batch_plan_ok (bc_backend p)
      \<and> bp_request_id (bc_backend p)
          = batch_call_request_id (bc_thread_id p) (bc_turn_id p) (bc_call_id p) (bc_call_fingerprint p)
      \<and> bc_approval_fingerprint p = digest (jobj (batch_call_fields p))
      \<and> int (length (json_dumps (jobj (batch_call_fields p
            @ [(''approval_fingerprint'', JStr (bc_approval_fingerprint p))])))) \<le> MAX_BATCH_CALL_BYTES)"

section \<open>Effect of a group run\<close>

datatype stop_reason = Sr_completed | Sr_cancelled | Sr_timeout | Sr_failed | Sr_interrupted
datatype member_effect = Me_not_applied | Me_applied | Me_unknown
datatype batch_effect = Be_not_applied | Be_applied | Be_partial | Be_unknown
datatype run_phase = Rp_not_started | Rp_started | Rp_finished

definition APPLIED_STATES :: "patch_state list" where
  "APPLIED_STATES = [Ps_applied, Ps_observed_after]"

definition member_effect_of :: "patch_state \<Rightarrow> member_effect" where
  "member_effect_of s =
     (if s \<in> set APPLIED_STATES then Me_applied
      else if s \<in> set [Ps_pending, Ps_approved, Ps_failed, Ps_observed_before] then Me_not_applied
      else Me_unknown)"

text \<open>\<^verbatim>\<open>ordered_progress\<close> with its loop variable \<^verbatim>\<open>stopped\<close>; \<open>False\<close> where it raises.\<close>

fun ordered_progress_from :: "bool \<Rightarrow> patch_state list \<Rightarrow> bool" where
  "ordered_progress_from stopped [] = True"
| "ordered_progress_from stopped (s # ss) =
     (if s = Ps_rejected \<or> (stopped \<and> s \<noteq> Ps_pending) then False
      else ordered_progress_from (stopped \<or> s \<notin> set APPLIED_STATES) ss)"

definition ordered_progress :: "patch_state list \<Rightarrow> bool" where
  "ordered_progress ss = ordered_progress_from False ss"

record batch_run_record =
  rr_batch_id :: uuid
  rr_workspace_id :: uuid
  rr_approval_fingerprint :: string
  rr_phase :: run_phase
  rr_stop_reason :: "stop_reason option"
  rr_error_code :: "string option"

definition lower_code :: "string \<Rightarrow> bool" where
  "lower_code s = (s \<noteq> [] \<and> list_all (\<lambda>c. c \<in> set ''abcdefghijklmnopqrstuvwxyz0123456789_'') s)"

definition error_code_ok :: "string option \<Rightarrow> bool" where
  "error_code_ok e = (case e of None \<Rightarrow> True | Some s \<Rightarrow> length s \<le> 128 \<and> lower_code s)"

definition stop_reason_value :: "stop_reason \<Rightarrow> string" where
  "stop_reason_value r = (case r of Sr_completed \<Rightarrow> ''completed'' | Sr_cancelled \<Rightarrow> ''cancelled''
     | Sr_timeout \<Rightarrow> ''timeout'' | Sr_failed \<Rightarrow> ''failed'' | Sr_interrupted \<Rightarrow> ''interrupted'')"

definition run_phase_value :: "run_phase \<Rightarrow> string" where
  "run_phase_value p = (case p of Rp_not_started \<Rightarrow> ''not_started'' | Rp_started \<Rightarrow> ''started''
     | Rp_finished \<Rightarrow> ''finished'')"

definition run_record_json :: "batch_run_record \<Rightarrow> json" where
  "run_record_json r = jobj [(''version'', JStr ''managed-patch-batch-run/v1''),
     (''batch_id'', JStr (uuid_str (rr_batch_id r))),
     (''workspace_id'', JStr (uuid_str (rr_workspace_id r))),
     (''approval_fingerprint'', JStr (rr_approval_fingerprint r)),
     (''phase'', JStr (run_phase_value (rr_phase r))),
     (''stop_reason'', jopt (\<lambda>x. JStr (stop_reason_value x)) (rr_stop_reason r)),
     (''error_code'', jopt JStr (rr_error_code r))]"

definition batch_run_record_ok :: "batch_run_record \<Rightarrow> bool" where
  "batch_run_record_ok r =
     (is_digest (rr_approval_fingerprint r) \<and> rr_phase r \<noteq> Rp_not_started
      \<and> error_code_ok (rr_error_code r)
      \<and> (rr_phase r = Rp_started) = (rr_stop_reason r = None)
      \<and> (rr_phase r = Rp_started \<or> rr_stop_reason r \<in> {Some Sr_completed, Some Sr_interrupted}
           \<longrightarrow> rr_error_code r = None)
      \<and> length (json_dumps (run_record_json r)) \<le> 1024)"

record batch_member_effect =
  be_plan_id :: uuid
  be_state :: patch_state
  be_effect :: member_effect
  be_error_code :: "string option"

definition batch_member_effect_ok :: "batch_member_effect \<Rightarrow> bool" where
  "batch_member_effect_ok m =
     (error_code_ok (be_error_code m) \<and> be_state m \<noteq> Ps_rejected
      \<and> be_effect m = member_effect_of (be_state m))"

definition aggregate_effects :: "member_effect list \<Rightarrow> batch_effect" where
  "aggregate_effects es =
     (if Me_unknown \<in> set es then Be_unknown
      else if set es = {Me_applied} then Be_applied
      else if Me_applied \<in> set es then Be_partial else Be_not_applied)"

definition aggregate :: "batch_member_effect list \<Rightarrow> batch_effect" where
  "aggregate members = aggregate_effects (map be_effect members)"

record batch_execution_result =
  br_run :: batch_run_record
  br_members :: "batch_member_effect list"
  br_effect :: batch_effect

definition batch_execution_result_ok :: "batch_execution_result \<Rightarrow> bool" where
  "batch_execution_result_ok r =
     (batch_run_record_ok (br_run r) \<and> br_members r \<noteq> []
      \<and> int (length (br_members r)) \<le> MAX_BATCH_FILES
      \<and> list_all batch_member_effect_ok (br_members r)
      \<and> distinct (map be_plan_id (br_members r))
      \<and> ordered_progress (map be_state (br_members r))
      \<and> br_effect r = aggregate (br_members r)
      \<and> (rr_stop_reason (br_run r) = Some Sr_completed \<longrightarrow> br_effect r = Be_applied))"

text \<open>The public summary of a group run.\<close>

record batch_file_output =
  fo_path :: string
  fo_state :: patch_state
  fo_effect :: member_effect
  fo_before_sha256 :: string
  fo_after_sha256 :: string

definition batch_file_output_ok :: "batch_file_output \<Rightarrow> bool" where
  "batch_file_output_ok f =
     (1 \<le> py_len (fo_path f) \<and> py_len (fo_path f) \<le> 1024 \<and> patch_path_ok (fo_path f)
      \<and> is_digest (fo_before_sha256 f) \<and> is_digest (fo_after_sha256 f)
      \<and> fo_state f \<noteq> Ps_rejected \<and> fo_effect f = member_effect_of (fo_state f))"

record managed_patch_batch_output =
  bo_phase :: run_phase
  bo_stop_reason :: "stop_reason option"
  bo_effect :: batch_effect
  bo_files :: "batch_file_output list"

definition member_effect_value :: "member_effect \<Rightarrow> string" where
  "member_effect_value e = (case e of Me_not_applied \<Rightarrow> ''not_applied'' | Me_applied \<Rightarrow> ''applied''
     | Me_unknown \<Rightarrow> ''unknown'')"

definition batch_effect_value :: "batch_effect \<Rightarrow> string" where
  "batch_effect_value e = (case e of Be_not_applied \<Rightarrow> ''not_applied'' | Be_applied \<Rightarrow> ''applied''
     | Be_partial \<Rightarrow> ''partial'' | Be_unknown \<Rightarrow> ''unknown'')"

definition file_output_json :: "batch_file_output \<Rightarrow> json" where
  "file_output_json f = jobj [(''path'', JStr (fo_path f)),
     (''state'', JStr (patch_state_value (fo_state f))),
     (''effect'', JStr (member_effect_value (fo_effect f))),
     (''before_sha256'', JStr (fo_before_sha256 f)), (''after_sha256'', JStr (fo_after_sha256 f))]"

definition batch_output_json :: "managed_patch_batch_output \<Rightarrow> json" where
  "batch_output_json b = jobj [(''version'', JStr ''managed-patch-batch-output/v1''),
     (''phase'', JStr (run_phase_value (bo_phase b))),
     (''stop_reason'', jopt (\<lambda>x. JStr (stop_reason_value x)) (bo_stop_reason b)),
     (''effect'', JStr (batch_effect_value (bo_effect b))),
     (''files'', JArr (map file_output_json (bo_files b)))]"

definition managed_patch_batch_output_ok :: "managed_patch_batch_output \<Rightarrow> bool" where
  "managed_patch_batch_output_ok b =
     (bo_files b \<noteq> [] \<and> int (length (bo_files b)) \<le> MAX_BATCH_FILES
      \<and> list_all batch_file_output_ok (bo_files b)
      \<and> distinct (map fo_path (bo_files b))
      \<and> ordered_progress (map fo_state (bo_files b))
      \<and> bo_effect b = aggregate_effects (map fo_effect (bo_files b))
      \<and> (bo_phase b = Rp_finished) = (bo_stop_reason b \<noteq> None)
      \<and> (bo_phase b = Rp_not_started \<longrightarrow> list_all (\<lambda>f. fo_state f = Ps_pending) (bo_files b))
      \<and> (bo_stop_reason b = Some Sr_completed \<longrightarrow> bo_effect b = Be_applied)
      \<and> length (json_dumps (batch_output_json b)) \<le> 48 * 1024)"

section \<open>What the validators establish\<close>

lemma ordered_progress_stopped:
  "ordered_progress_from True ss \<longleftrightarrow> list_all (\<lambda>s. s = Ps_pending) ss"
  by (induction ss) auto

text \<open>
  A valid group is a prefix of applied members, at most one member that neither was applied nor
  refused, and a suffix of members that were never started.
\<close>

lemma ordered_progress_split:
  "ordered_progress ss \<Longrightarrow>
     \<exists>done mid rest. ss = done @ mid @ rest \<and> set done \<subseteq> set APPLIED_STATES \<and> length mid \<le> 1
        \<and> Ps_rejected \<notin> set mid \<and> set rest \<subseteq> {Ps_pending}"
proof (induction ss)
  case Nil
  then show ?case by simp
next
  case (Cons s ss)
  show ?case
  proof (cases "s \<in> set APPLIED_STATES")
    case True
    with Cons.prems have "ordered_progress ss"
      by (auto simp: ordered_progress_def split: if_splits)
    with Cons.IH obtain d m r where "ss = d @ m @ r" "set d \<subseteq> set APPLIED_STATES" "length m \<le> 1"
        "Ps_rejected \<notin> set m" "set r \<subseteq> {Ps_pending}"
      by blast
    with True show ?thesis by (intro exI [of _ "s # d"] exI [of _ m] exI [of _ r]) simp
  next
    case False
    with Cons.prems have "s \<noteq> Ps_rejected" "set ss \<subseteq> {Ps_pending}"
      by (auto simp: ordered_progress_def ordered_progress_stopped list_all_iff split: if_splits)
    then show ?thesis by (intro exI [of _ "[]"] exI [of _ "[s]"] exI [of _ ss]) simp
  qed
qed

lemma ordered_progress_join:
  assumes "set d \<subseteq> set APPLIED_STATES" "length m \<le> 1" "Ps_rejected \<notin> set m" "set r \<subseteq> {Ps_pending}"
  shows "ordered_progress (d @ m @ r)"
  using assms(1)
proof (induction d)
  case Nil
  have r: "ordered_progress_from b r" for b
    using assms(4) by (induction r arbitrary: b) auto
  with assms(2,3) show ?case
    by (cases m) (auto simp: ordered_progress_def)
next
  case (Cons s d)
  then have "s \<noteq> Ps_rejected" "s \<in> set APPLIED_STATES" by (auto simp: APPLIED_STATES_def)
  with Cons show ?case by (simp add: ordered_progress_def)
qed

lemma aggregate_applied_iff:
  "aggregate_effects es = Be_applied \<longleftrightarrow> es \<noteq> [] \<and> set es \<subseteq> {Me_applied}"
  by (cases es) (auto simp: aggregate_effects_def)

text \<open>The progress check of a patch group accepts a list of member states exactly when it is a
  run of applied members, then at most one member that was not refused, then members that are still
  pending: a group is applied strictly in order and stops at its first failure.\<close>

theorem ordered_progress_characterised:
  "ordered_progress ss \<longleftrightarrow>
     (\<exists>done mid rest. ss = done @ mid @ rest \<and> set done \<subseteq> set APPLIED_STATES \<and> length mid \<le> 1
        \<and> Ps_rejected \<notin> set mid \<and> set rest \<subseteq> {Ps_pending})"
  using ordered_progress_split ordered_progress_join by blast

end
