(* ===== verification/Process_Contracts.thy ===== *)
theory Process_Contracts
  imports Patch_Contracts
begin

text \<open>
  Contracts that bind an Agent call to a host process Action (src/src/harnessix/processes/:
  bridge_contracts.py, contracts.py, test_contracts.py).
\<close>

definition PROCESS_AGENT_FRONTENDS :: "string list" where
  "PROCESS_AGENT_FRONTENDS = [''host.process'', ''run_tests'']"

definition PROCESS_ACTION_NAMESPACE :: uuid where
  "PROCESS_ACTION_NAMESPACE = 0x6bdd9f7c58cf56ba956145aa4030bf71"

definition process_call_request_id :: "uuid \<Rightarrow> uuid \<Rightarrow> uuid \<Rightarrow> string \<Rightarrow> string \<Rightarrow> string" where
  "process_call_request_id thread_id turn_id call_id workspace call_fingerprint =
     digest (JArr [JStr ''agent-host-process/v1'', JStr (uuid_str thread_id), JStr (uuid_str turn_id),
       JStr (uuid_str call_id), JStr workspace, JStr call_fingerprint])"

definition process_action_identity ::
  "string \<Rightarrow> string \<Rightarrow> string \<Rightarrow> string \<Rightarrow> string \<Rightarrow> string" where
  "process_action_identity request_id action_fingerprint action_tool_version binding_fingerprint
     principal_fingerprint =
     digest (JArr [JStr ''agent-host-process/v1'', JStr request_id, JStr action_fingerprint,
       JStr action_tool_version, JStr binding_fingerprint, JStr principal_fingerprint])"

text \<open>\<^verbatim>\<open>process_binding_from_version\<close>; \<open>None\<close> where it raises \<^verbatim>\<open>ValueError\<close>.\<close>

definition process_binding_from_version :: "string \<Rightarrow> string option" where
  "process_binding_from_version version =
    (let prefix = ''host-process-action/v1.'';
         binding = (if starts_with prefix version then drop (length prefix) version else version)
     in if \<not> starts_with prefix version \<or> length binding \<noteq> 64 \<or> \<not> list_all is_hex binding
        then None else Some binding)"

record agent_process_call_plan =
  ap_thread_id :: uuid
  ap_turn_id :: uuid
  ap_call_id :: uuid
  ap_workspace :: string
  ap_call_fingerprint :: string
  ap_request_id :: string
  ap_action_id :: uuid
  ap_action_fingerprint :: string
  ap_action_tool_version :: string
  ap_binding_fingerprint :: string
  ap_principal_fingerprint :: string
  ap_idempotency_key :: string
  ap_program :: string
  ap_arguments_sha256 :: string
  ap_timeout_seconds :: pyfloat
  ap_approval_fingerprint :: string

definition process_plan_fields :: "agent_process_call_plan \<Rightarrow> (string \<times> json) list" where
  "process_plan_fields p = [(''version'', JStr ''agent-host-process/v1''),
     (''thread_id'', JStr (uuid_str (ap_thread_id p))), (''turn_id'', JStr (uuid_str (ap_turn_id p))),
     (''call_id'', JStr (uuid_str (ap_call_id p))), (''workspace'', JStr (ap_workspace p)),
     (''call_fingerprint'', JStr (ap_call_fingerprint p)), (''request_id'', JStr (ap_request_id p)),
     (''action_id'', JStr (uuid_str (ap_action_id p))),
     (''action_fingerprint'', JStr (ap_action_fingerprint p)),
     (''action_tool_version'', JStr (ap_action_tool_version p)),
     (''binding_fingerprint'', JStr (ap_binding_fingerprint p)),
     (''principal_fingerprint'', JStr (ap_principal_fingerprint p)),
     (''idempotency_key'', JStr (ap_idempotency_key p)), (''program'', JStr (ap_program p)),
     (''arguments_sha256'', JStr (ap_arguments_sha256 p)),
     (''timeout_seconds'', JFloat (float_repr (ap_timeout_seconds p)))]"

text \<open>The pattern \<^verbatim>\<open>^[a-zA-Z0-9][a-zA-Z0-9_.-]{0,63}$\<close> of program and profile names.\<close>

definition alnum_char :: "char \<Rightarrow> bool" where
  "alnum_char c = (c \<in> set ''abcdefghijklmnopqrstuvwxyzABCDEFGHIJKLMNOPQRSTUVWXYZ0123456789'')"

definition program_name_ok :: "string \<Rightarrow> bool" where
  "program_name_ok s =
     (case s of [] \<Rightarrow> False
      | c # cs \<Rightarrow> alnum_char c \<and> length cs \<le> 63
          \<and> list_all (\<lambda>d. alnum_char d \<or> d \<in> set ''_.-'') cs)"

definition process_timeout_ok :: "pyfloat \<Rightarrow> bool" where
  "process_timeout_ok t = (is_finite t \<and> 0 < float_rat t \<and> float_rat t \<le> 3600)"

text \<open>\<^verbatim>\<open>Path(value).is_absolute()\<close> on a POSIX host.\<close>

definition is_absolute :: "string \<Rightarrow> bool" where
  "is_absolute s = (s \<noteq> [] \<and> hd s = CHR ''/'')"

definition agent_process_call_plan_ok :: "agent_process_call_plan \<Rightarrow> bool" where
  "agent_process_call_plan_ok p =
    (let request_id = process_call_request_id (ap_thread_id p) (ap_turn_id p) (ap_call_id p)
           (ap_workspace p) (ap_call_fingerprint p);
         identity = process_action_identity request_id (ap_action_fingerprint p)
           (ap_action_tool_version p) (ap_binding_fingerprint p) (ap_principal_fingerprint p)
     in list_all is_digest [ap_call_fingerprint p, ap_request_id p, ap_action_fingerprint p,
          ap_binding_fingerprint p, ap_principal_fingerprint p, ap_arguments_sha256 p,
          ap_approval_fingerprint p]
        \<and> 1 \<le> py_len (ap_workspace p) \<and> py_len (ap_workspace p) \<le> 4096 \<and> is_absolute (ap_workspace p)
        \<and> 1 \<le> py_len (ap_action_tool_version p) \<and> py_len (ap_action_tool_version p) \<le> 128
        \<and> 1 \<le> py_len (ap_idempotency_key p) \<and> py_len (ap_idempotency_key p) \<le> 256
        \<and> program_name_ok (ap_program p) \<and> process_timeout_ok (ap_timeout_seconds p)
        \<and> ap_request_id p = request_id
        \<and> ap_action_id p = uuid5 PROCESS_ACTION_NAMESPACE identity
        \<and> ap_idempotency_key p = ''agent-process:'' @ identity
        \<and> process_binding_from_version (ap_action_tool_version p) = Some (ap_binding_fingerprint p)
        \<and> ap_approval_fingerprint p = digest (jobj (process_plan_fields p)))"

record process_request =
  pr_program :: string
  pr_arguments :: "string list"
  pr_timeout_seconds :: pyfloat

definition process_request_ok :: "process_request \<Rightarrow> bool" where
  "process_request_ok r =
     (program_name_ok (pr_program r) \<and> length (pr_arguments r) \<le> 128
      \<and> process_timeout_ok (pr_timeout_seconds r)
      \<and> list_all (\<lambda>a. CHR 0x00 \<notin> set a) (pr_arguments r)
      \<and> sum_list (map (\<lambda>a. length a + 1) (pr_arguments r)) \<le> 65536)"

record run_tests_input =
  rt_profile :: string

definition run_tests_input_ok :: "run_tests_input \<Rightarrow> bool" where
  "run_tests_input_ok r = program_name_ok (rt_profile r)"

lemma starts_with_drop: "starts_with p s \<Longrightarrow> s = p @ drop (length p) s"
  by (metis append_take_drop_id starts_with_def)

text \<open>A tool version names exactly one host binding.\<close>

lemma process_binding_determines_version:
  assumes "process_binding_from_version v = Some b"
  shows "is_digest b \<and> v = ''host-process-action/v1.'' @ b"
proof -
  define p :: string where "p = ''host-process-action/v1.''"
  from assms have "starts_with p v" "b = drop (length p) v" "length b = 64" "list_all is_hex b"
    unfolding process_binding_from_version_def p_def [symmetric] Let_def
    by (auto split: if_splits)
  with starts_with_drop [of p v] show ?thesis by (simp add: is_digest_def p_def)
qed

end
