(* ===== verification/Usage.thy ===== *)
theory Usage
  imports Domain_Models
begin

text \<open>
  Model attempts and their cumulative token observations (src/src/harnessix/agent/: usage.py,
  billing.py, attempt_accounting.py). An observation is a cumulative snapshot; a later snapshot may
  add detail but never lose or lower a known count, and a complete one is final. \<open>settle_observation\<close>
  turns a snapshot into the token deltas a Turn is charged with.
\<close>

datatype completeness = Unknown | Partial | Complete

record usage_observation =
  completeness :: completeness
  input_tokens :: "int option"
  output_tokens :: "int option"
  uncached_input_tokens :: "int option"
  cache_read_input_tokens :: "int option"
  cache_creation_input_tokens :: "int option"
  reasoning_output_tokens :: "int option"

definition TOKEN_FIELDS :: "(usage_observation \<Rightarrow> int option) list" where
  "TOKEN_FIELDS = [input_tokens, output_tokens, uncached_input_tokens, cache_read_input_tokens,
     cache_creation_input_tokens, reasoning_output_tokens]"

definition no_usage :: usage_observation where
  "no_usage = \<lparr>completeness = Unknown, input_tokens = None, output_tokens = None,
     uncached_input_tokens = None, cache_read_input_tokens = None,
     cache_creation_input_tokens = None, reasoning_output_tokens = None\<rparr>"

text \<open>Field bounds (\<^verbatim>\<open>TokenCount\<close>, \<open>\<ge> 0\<close>) and \<^verbatim>\<open>validate_counts\<close>.\<close>

definition usage_observation_ok :: "usage_observation \<Rightarrow> bool" where
  "usage_observation_ok u =
    (let known = list_ex (\<lambda>f. f u \<noteq> None) TOKEN_FIELDS;
         partitions = [uncached_input_tokens u, cache_read_input_tokens u,
           cache_creation_input_tokens u];
         subtotal = sum_list (map or_zero partitions)
     in list_all (\<lambda>f. case f u of None \<Rightarrow> True | Some n \<Rightarrow> 0 \<le> n) TOKEN_FIELDS
        \<and> \<not> (completeness u = Unknown \<and> known)
        \<and> \<not> (completeness u \<noteq> Unknown \<and> \<not> known)
        \<and> \<not> (completeness u = Complete \<and> (input_tokens u = None \<or> output_tokens u = None))
        \<and> (case input_tokens u of None \<Rightarrow> True
           | Some n \<Rightarrow> subtotal \<le> n \<and> (list_all (\<lambda>v. v \<noteq> None) partitions \<longrightarrow> subtotal = n))
        \<and> (case (output_tokens u, reasoning_output_tokens u) of
             (Some n, Some r) \<Rightarrow> r \<le> n | _ \<Rightarrow> True))"

text \<open>\<^verbatim>\<open>validate_successor\<close>: \<open>usage_successor_ok u previous\<close> where the method does not raise.\<close>

definition usage_successor_ok :: "usage_observation \<Rightarrow> usage_observation \<Rightarrow> bool" where
  "usage_successor_ok u previous =
     (\<not> (completeness previous = Complete \<and> completeness u \<noteq> Complete)
      \<and> list_all (\<lambda>f. case f previous of None \<Rightarrow> True
          | Some before \<Rightarrow> (case f u of None \<Rightarrow> False
              | Some after \<Rightarrow> before \<le> after \<and> (completeness previous = Complete \<longrightarrow> after = before)))
          TOKEN_FIELDS)"

record response_billing =
  service_tier :: "string option"
  inference_geo :: "string option"
  cache_creation_5m_tokens :: "int option"
  cache_creation_1h_tokens :: "int option"

text \<open>The pattern \<^verbatim>\<open>^[A-Za-z0-9_.:/-]+$\<close> of labels and identifiers, with its length bound.\<close>

definition label_ok :: "nat \<Rightarrow> string \<Rightarrow> bool" where
  "label_ok n s =
     (s \<noteq> [] \<and> length s \<le> n
      \<and> list_all (\<lambda>c. c \<in> set ''ABCDEFGHIJKLMNOPQRSTUVWXYZabcdefghijklmnopqrstuvwxyz0123456789_.:/-'') s)"

definition model_identifier_ok :: "string \<Rightarrow> bool" where
  "model_identifier_ok s = label_ok 256 s"

definition response_billing_ok :: "response_billing \<Rightarrow> bool" where
  "response_billing_ok b =
     (list_all (\<lambda>x. case x of None \<Rightarrow> True | Some s \<Rightarrow> label_ok 128 s) [service_tier b, inference_geo b]
      \<and> list_all (\<lambda>x. case x of None \<Rightarrow> True | Some n \<Rightarrow> 0 \<le> n)
          [cache_creation_5m_tokens b, cache_creation_1h_tokens b])"

definition no_billing :: response_billing where
  "no_billing = \<lparr>service_tier = None, inference_geo = None, cache_creation_5m_tokens = None,
     cache_creation_1h_tokens = None\<rparr>"

definition billing_observed :: "response_billing \<Rightarrow> bool" where
  "billing_observed b =
     (service_tier b \<noteq> None \<or> inference_geo b \<noteq> None \<or> cache_creation_5m_tokens b \<noteq> None
      \<or> cache_creation_1h_tokens b \<noteq> None)"

definition billing_successor_ok :: "response_billing \<Rightarrow> response_billing \<Rightarrow> bool" where
  "billing_successor_ok b previous =
     (list_all (\<lambda>f. f previous = None \<or> f previous = f b) [service_tier, inference_geo]
      \<and> list_all (\<lambda>f. case f previous of None \<Rightarrow> True
          | Some before \<Rightarrow> (case f b of None \<Rightarrow> False | Some after \<Rightarrow> before \<le> after))
          [cache_creation_5m_tokens, cache_creation_1h_tokens])"

definition billing_usage_ok :: "response_billing \<Rightarrow> usage_observation \<Rightarrow> bool" where
  "billing_usage_ok b u =
     (case cache_creation_input_tokens u of None \<Rightarrow> True
      | Some n \<Rightarrow> or_zero (cache_creation_5m_tokens b) + or_zero (cache_creation_1h_tokens b) \<le> n)"

section \<open>Attempts and their events\<close>

datatype attempt_status = At_running | At_completed | At_failed | At_cancelled | At_interrupted

record model_attempt_started =
  ms_attempt_id :: uuid
  ms_step :: nat
  ms_index :: nat
  ms_provider :: string
  ms_requested_model :: string

record model_usage_observed =
  mo_attempt_id :: uuid
  mo_usage :: usage_observation
  mo_actual_model :: "string option"
  mo_response_id :: "string option"
  mo_billing :: "response_billing option"

record model_attempt_finished =
  mf_attempt_id :: uuid
  mf_outcome :: attempt_status
  mf_error :: "agent_failure option"

text \<open>The provider pattern \<^verbatim>\<open>^[a-z][a-z0-9_-]*$\<close> and the bounds of the started event.\<close>

definition provider_ok :: "string \<Rightarrow> bool" where
  "provider_ok s =
     (length s \<le> 64 \<and> (case s of [] \<Rightarrow> False
        | c # cs \<Rightarrow> c \<in> set ''abcdefghijklmnopqrstuvwxyz''
            \<and> list_all (\<lambda>d. d \<in> set ''abcdefghijklmnopqrstuvwxyz0123456789_-'') cs))"

definition model_attempt_started_ok :: "model_attempt_started \<Rightarrow> bool" where
  "model_attempt_started_ok p =
     (1 \<le> ms_step p \<and> 1 \<le> ms_index p \<and> ms_index p \<le> 32 \<and> provider_ok (ms_provider p)
      \<and> model_identifier_ok (ms_requested_model p))"

definition model_usage_observed_ok :: "model_usage_observed \<Rightarrow> bool" where
  "model_usage_observed_ok p =
     (usage_observation_ok (mo_usage p)
      \<and> list_all (\<lambda>x. case x of None \<Rightarrow> True | Some s \<Rightarrow> model_identifier_ok s)
          [mo_actual_model p, mo_response_id p]
      \<and> (case mo_billing p of None \<Rightarrow> True
         | Some b \<Rightarrow> response_billing_ok b \<and> billing_usage_ok b (mo_usage p)))"

definition model_attempt_finished_ok :: "model_attempt_finished \<Rightarrow> bool" where
  "model_attempt_finished_ok p =
     (mf_outcome p \<noteq> At_running \<and> (mf_outcome p = At_completed) = (mf_error p = None)
      \<and> (case mf_error p of None \<Rightarrow> True | Some f \<Rightarrow> agent_failure_ok f))"

record model_attempt =
  attempt_id :: uuid
  a_step :: nat
  a_index :: nat
  a_provider :: string
  a_requested_model :: string
  a_actual_model :: "string option"
  a_response_id :: "string option"
  a_usage :: usage_observation
  a_billing :: response_billing
  a_status :: attempt_status
  a_error :: "agent_failure option"
  a_started_at :: datetime
  a_finished_at :: "datetime option"

text \<open>\<^verbatim>\<open>ModelAttempt.validate_state\<close>.\<close>

definition model_attempt_ok :: "model_attempt \<Rightarrow> bool" where
  "model_attempt_ok a =
     (usage_observation_ok (a_usage a) \<and> billing_usage_ok (a_billing a) (a_usage a)
      \<and> (if a_status a = At_running then a_error a = None \<and> a_finished_at a = None
         else a_finished_at a \<noteq> None \<and> (a_status a = At_completed) = (a_error a = None)
           \<and> (a_status a = At_completed \<longrightarrow>
                completeness (a_usage a) = Complete \<and> a_actual_model a \<noteq> None
                \<and> a_response_id a \<noteq> None)))"

text \<open>\<^verbatim>\<open>ModelAttempt(**payload.model_dump(exclude={"type"}), started_at=...)\<close>.\<close>

definition new_attempt :: "model_attempt_started \<Rightarrow> datetime \<Rightarrow> model_attempt" where
  "new_attempt p now =
     \<lparr>attempt_id = ms_attempt_id p, a_step = ms_step p, a_index = ms_index p,
      a_provider = ms_provider p, a_requested_model = ms_requested_model p,
      a_actual_model = None, a_response_id = None, a_usage = no_usage, a_billing = no_billing,
      a_status = At_running, a_error = None, a_started_at = now, a_finished_at = None\<rparr>"

datatype observation = Observed model_usage_observed | Finished model_attempt_finished

definition obs_attempt_id :: "observation \<Rightarrow> uuid" where
  "obs_attempt_id p = (case p of Observed o' \<Rightarrow> mo_attempt_id o' | Finished f \<Rightarrow> mf_attempt_id f)"

text \<open>\<^verbatim>\<open>a or b\<close> on optional strings; identifiers are never empty.\<close>

definition or_else :: "'a option \<Rightarrow> 'a option \<Rightarrow> 'a option" where
  "or_else a b = (case a of None \<Rightarrow> b | Some x \<Rightarrow> Some x)"

definition same_identity :: "'a option \<Rightarrow> 'a option \<Rightarrow> bool" where
  "same_identity before after = (before = None \<or> after = None \<or> before = after)"

definition settle_observation ::
  "model_attempt \<Rightarrow> observation \<Rightarrow> datetime \<Rightarrow> (model_attempt \<times> int \<times> int) result" where
  "settle_observation attempt payload occurred_at =
     require (attempt_id attempt = obs_attempt_id payload \<and> a_status attempt = At_running)
     (case payload of
        Observed p \<Rightarrow>
          (let billing = (case mo_billing p of None \<Rightarrow> a_billing attempt | Some b \<Rightarrow> b)
           in require (usage_successor_ok (mo_usage p) (a_usage attempt)
                \<and> billing_successor_ok billing (a_billing attempt)
                \<and> billing_usage_ok billing (mo_usage p))
              (require (same_identity (a_actual_model attempt) (mo_actual_model p)
                  \<and> same_identity (a_response_id attempt) (mo_response_id p))
               (Inr (attempt\<lparr>a_usage := mo_usage p, a_billing := billing,
                       a_actual_model := or_else (mo_actual_model p) (a_actual_model attempt),
                       a_response_id := or_else (mo_response_id p) (a_response_id attempt)\<rparr>,
                     or_zero (input_tokens (mo_usage p)) - or_zero (input_tokens (a_usage attempt)),
                     or_zero (output_tokens (mo_usage p)) - or_zero (output_tokens (a_usage attempt))))))
      | Finished p \<Rightarrow>
          require (mf_outcome p = At_completed \<longrightarrow>
              completeness (a_usage attempt) = Complete
              \<and> a_actual_model attempt \<noteq> None \<and> a_response_id attempt \<noteq> None)
          (Inr (attempt\<lparr>a_status := mf_outcome p, a_error := mf_error p,
                  a_finished_at := Some occurred_at\<rparr>, 0, 0)))"

section \<open>The accounting contract\<close>

lemma token_fields [simp]:
  "input_tokens \<in> set TOKEN_FIELDS" "output_tokens \<in> set TOKEN_FIELDS"
  by (simp_all add: TOKEN_FIELDS_def)

lemma usage_observation_nonneg:
  assumes "usage_observation_ok u" and "f \<in> set TOKEN_FIELDS"
  shows "0 \<le> or_zero (f u)"
  using assms by (auto simp: usage_observation_ok_def Let_def list_all_iff or_zero_def
      split: option.splits)

lemma successor_mono:
  assumes "usage_observation_ok u" "usage_successor_ok u v" "f \<in> set TOKEN_FIELDS"
  shows "or_zero (f v) \<le> or_zero (f u)"
proof (cases "f v")
  case None
  with usage_observation_nonneg [OF assms(1,3)] show ?thesis by simp
next
  case (Some n)
  with assms(2,3) obtain m where "f u = Some m" "n \<le> m"
    by (auto simp: usage_successor_ok_def list_all_iff split: option.splits)
  with Some show ?thesis by simp
qed

lemma usage_successor_refl: "usage_successor_ok u u"
  by (auto simp: usage_successor_ok_def list_all_iff split: option.splits)

lemma usage_successor_trans:
  assumes "usage_successor_ok w v" "usage_successor_ok v u"
  shows "usage_successor_ok w u"
proof -
  have "\<forall>f \<in> set TOKEN_FIELDS. case f u of None \<Rightarrow> True
          | Some before \<Rightarrow> (case f w of None \<Rightarrow> False
              | Some after \<Rightarrow> before \<le> after \<and> (completeness u = Complete \<longrightarrow> after = before))"
  proof
    fix f assume f: "f \<in> set TOKEN_FIELDS"
    show "case f u of None \<Rightarrow> True
          | Some before \<Rightarrow> (case f w of None \<Rightarrow> False
              | Some after \<Rightarrow> before \<le> after \<and> (completeness u = Complete \<longrightarrow> after = before))"
      using bspec [OF assms(1) [unfolded usage_successor_ok_def list_all_iff, THEN conjunct2] f]
        bspec [OF assms(2) [unfolded usage_successor_ok_def list_all_iff, THEN conjunct2] f]
        assms(2)
      by (auto simp: usage_successor_ok_def split: option.splits)
  qed
  with assms show ?thesis by (auto simp: usage_successor_ok_def list_all_iff)
qed

lemma settle_growth:
  assumes "settle_observation a p now = Inr (b, i, out)" and "model_attempt_ok a"
    and "case p of Observed q \<Rightarrow> model_usage_observed_ok q | Finished q \<Rightarrow> model_attempt_finished_ok q"
  shows "i = or_zero (input_tokens (a_usage b)) - or_zero (input_tokens (a_usage a)) \<and> 0 \<le> i
    \<and> out = or_zero (output_tokens (a_usage b)) - or_zero (output_tokens (a_usage a)) \<and> 0 \<le> out
    \<and> model_attempt_ok b \<and> attempt_id b = attempt_id a"
proof (cases p)
  case (Observed q)
  with assms have ok: "usage_observation_ok (mo_usage q)" "usage_successor_ok (mo_usage q) (a_usage a)"
    by (auto simp: settle_observation_def model_usage_observed_ok_def Let_def)
  from assms Observed show ?thesis
    using successor_mono [OF ok token_fields(1)] successor_mono [OF ok token_fields(2)]
    by (auto simp: settle_observation_def model_usage_observed_ok_def model_attempt_ok_def Let_def)
next
  case (Finished q)
  with assms show ?thesis
    by (auto simp: settle_observation_def model_attempt_finished_ok_def model_attempt_ok_def)
qed

section \<open>Property\<close>

text \<open>Settling an observation never lowers an account: for a well formed observation of a
  running attempt the two deltas charged to the Turn are the growth of the attempt's own input and
  output counts, they are not negative, the new attempt is well formed again, and a finished attempt
  charges nothing.\<close>

theorem settle_observation_charges_growth:
  assumes "settle_observation a p now = Inr (b, i, out)" and "model_attempt_ok a"
    and "case p of Observed q \<Rightarrow> model_usage_observed_ok q | Finished q \<Rightarrow> model_attempt_finished_ok q"
  shows "i = or_zero (input_tokens (a_usage b)) - or_zero (input_tokens (a_usage a)) \<and> 0 \<le> i
    \<and> out = or_zero (output_tokens (a_usage b)) - or_zero (output_tokens (a_usage a)) \<and> 0 \<le> out
    \<and> model_attempt_ok b \<and> attempt_id b = attempt_id a"
  using assms by (rule settle_growth)

theorem settle_observation_charges_growth_witness:
  "\<exists>a p b i out. settle_observation a p 7 = Inr (b, i, out) \<and> 0 \<le> i \<and> i = 5"
proof -
  define start :: model_attempt_started where
    "start = \<lparr>ms_attempt_id = 1, ms_step = 1, ms_index = 1, ms_provider = ''p'', ms_requested_model = ''m''\<rparr>"
  define u where "u = no_usage\<lparr>completeness := Partial, input_tokens := Some 5\<rparr>"
  define q :: model_usage_observed where
    "q = \<lparr>mo_attempt_id = 1, mo_usage = u, mo_actual_model = None, mo_response_id = None, mo_billing = None\<rparr>"
  define a where "a = new_attempt start 0"
  define b where "b = a\<lparr>a_usage := u\<rparr>"
  have run: "settle_observation a (Observed q) 7 = Inr (b, 5, 0)"
    by (simp add: settle_observation_def a_def b_def q_def u_def start_def new_attempt_def no_usage_def
        no_billing_def obs_attempt_id_def usage_successor_ok_def TOKEN_FIELDS_def
        billing_successor_ok_def billing_usage_ok_def same_identity_def or_else_def)
  have "model_attempt_ok a"
    by (simp add: a_def start_def new_attempt_def model_attempt_ok_def usage_observation_ok_def
        TOKEN_FIELDS_def no_usage_def no_billing_def billing_usage_ok_def)
  moreover have "model_usage_observed_ok q"
    by (simp add: q_def u_def model_usage_observed_ok_def usage_observation_ok_def TOKEN_FIELDS_def no_usage_def)
  ultimately have "0 \<le> (5::int)"
    using settle_observation_charges_growth [OF run] by simp
  with run show ?thesis by blast
qed

end
