(* ===== verification/Context_Contracts.thy ===== *)
theory Context_Contracts
  imports Usage
begin

text \<open>
  Contracts of the model context (src/src/harnessix/context/: tool_result_contracts.py,
  contracts.py, compaction_contracts.py, compaction_ledger_contracts.py): decisions about the model
  view of tool results, inspection records, and the plan, summary and ledger record of a compaction.
\<close>

section \<open>Model views of tool results\<close>

record tool_result_view_policy =
  max_inline_utf8_bytes :: nat

definition view_policy_ok :: "tool_result_view_policy \<Rightarrow> bool" where
  "view_policy_ok p = (1024 \<le> max_inline_utf8_bytes p \<and> max_inline_utf8_bytes p \<le> 1000000)"

definition view_policy_json :: "tool_result_view_policy \<Rightarrow> json" where
  "view_policy_json p = jobj [(''spec_version'', JStr ''harnessix.tool-result-model-view/v1''),
     (''max_inline_utf8_bytes'', JInt (int (max_inline_utf8_bytes p)))]"

datatype binding_purpose =
    Bp_tool_result | Bp_process_output | Bp_batch_effect | Bp_action_review | Bp_action_output
  | Bp_artifact_page

definition binding_purpose_value :: "binding_purpose \<Rightarrow> string" where
  "binding_purpose_value p = (case p of Bp_tool_result \<Rightarrow> ''tool_result''
     | Bp_process_output \<Rightarrow> ''process_output'' | Bp_batch_effect \<Rightarrow> ''batch_effect''
     | Bp_action_review \<Rightarrow> ''action_review'' | Bp_action_output \<Rightarrow> ''action_output''
     | Bp_artifact_page \<Rightarrow> ''artifact_page'')"

record artifact_binding =
  ab_purpose :: binding_purpose
  ab_artifact :: artifact_ref

definition binding_json :: "artifact_binding \<Rightarrow> json" where
  "binding_json b = jobj [(''purpose'', JStr (binding_purpose_value (ab_purpose b))),
     (''artifact'', artifact_json (ab_artifact b))]"

datatype view_strategy = Inline | Artifact_reference

record view_decision =
  vd_item_id :: uuid
  vd_call_id :: uuid
  vd_strategy :: view_strategy
  vd_limit_utf8_bytes :: nat
  vd_source_sha256 :: string
  vd_source_utf8_bytes :: nat
  vd_view_sha256 :: string
  vd_view_utf8_bytes :: nat
  vd_references :: "artifact_binding list"
  vd_replacement_output :: json

definition omission_json :: "nat \<Rightarrow> string \<Rightarrow> string \<Rightarrow> json" where
  "omission_json source_utf8_bytes source_sha256 omitted_field =
     jobj [(''spec_version'', JStr ''harnessix.tool-result-omission/v1''),
       (''reason'', JStr ''inline_budget_exceeded''),
       (''source_utf8_bytes'', JInt (int source_utf8_bytes)),
       (''source_sha256'', JStr source_sha256), (''omitted_field'', JStr omitted_field)]"

text \<open>The replacement part of \<^verbatim>\<open>strategy_is_consistent\<close>.\<close>

definition replacement_ok :: "view_decision \<Rightarrow> bool" where
  "replacement_ok d =
    (let bindings = filter (\<lambda>b. ab_purpose b = Bp_tool_result) (vd_references d);
         r = vd_replacement_output d; preview = jget ''preview'' r
     in vd_limit_utf8_bytes d < vd_source_utf8_bytes d
        \<and> length bindings = 1 \<and> af_complete (ab_artifact (hd bindings)) \<and> is_dict r
        \<and> set (jkeys r) = {''preview'', ''artifact'', ''model_view''}
        \<and> jget ''artifact'' r = Some (artifact_json (ab_artifact (hd bindings)))
        \<and> (case jget ''model_view'' r of None \<Rightarrow> False
           | Some omission \<Rightarrow> is_dict omission \<and>
               (case jget ''omitted_field'' omission of
                  Some (JStr field) \<Rightarrow>
                    field \<in> set [''preview'', ''matches'', ''paths'']
                    \<and> (field = ''preview'' \<longrightarrow> preview \<in> {None, Some JNull})
                    \<and> (field \<noteq> ''preview'' \<longrightarrow>
                         (case preview of None \<Rightarrow> False | Some pv \<Rightarrow> is_dict pv \<and> field \<notin> set (jkeys pv)))
                    \<and> omission = omission_json (vd_source_utf8_bytes d) (vd_source_sha256 d) field
                | _ \<Rightarrow> False)))"

definition view_decision_ok :: "view_decision \<Rightarrow> bool" where
  "view_decision_ok d =
     (1024 \<le> vd_limit_utf8_bytes d \<and> vd_limit_utf8_bytes d \<le> 1000000
      \<and> is_digest (vd_source_sha256 d) \<and> is_digest (vd_view_sha256 d)
      \<and> 1 \<le> vd_source_utf8_bytes d \<and> vd_source_utf8_bytes d \<le> 8388608
      \<and> 1 \<le> vd_view_utf8_bytes d \<and> vd_view_utf8_bytes d \<le> 1000000
      \<and> length (vd_references d) \<le> 2
      \<and> distinct (map ab_purpose (vd_references d))
      \<and> distinct (map (\<lambda>b. artifact_id (ab_artifact b)) (vd_references d))
      \<and> vd_view_utf8_bytes d \<le> vd_limit_utf8_bytes d
      \<and> (if vd_strategy d = Inline
         then vd_replacement_output d = JNull \<and> vd_source_sha256 d = vd_view_sha256 d
           \<and> vd_source_utf8_bytes d = vd_view_utf8_bytes d
         else replacement_ok d))"

definition decision_json :: "view_decision \<Rightarrow> json" where
  "decision_json d = jobj [(''spec_version'', JStr ''harnessix.tool-result-model-view/v1''),
     (''item_id'', JStr (uuid_str (vd_item_id d))), (''call_id'', JStr (uuid_str (vd_call_id d))),
     (''strategy'', JStr (case vd_strategy d of Inline \<Rightarrow> ''inline''
        | Artifact_reference \<Rightarrow> ''artifact_reference'')),
     (''limit_utf8_bytes'', JInt (int (vd_limit_utf8_bytes d))),
     (''source_sha256'', JStr (vd_source_sha256 d)),
     (''source_utf8_bytes'', JInt (int (vd_source_utf8_bytes d))),
     (''view_sha256'', JStr (vd_view_sha256 d)),
     (''view_utf8_bytes'', JInt (int (vd_view_utf8_bytes d))),
     (''references'', JArr (map binding_json (vd_references d))),
     (''replacement_output'', vd_replacement_output d)]"

section \<open>Model history inspections\<close>

record model_history_inspection =
  mh_model_step :: nat
  mh_policy :: tool_result_view_policy
  mh_history_items :: nat
  mh_tool_results :: nat
  mh_inline_results :: nat
  mh_artifact_reference_results :: nat
  mh_artifact_bindings :: nat
  mh_source_tool_result_utf8_bytes :: nat
  mh_view_tool_result_utf8_bytes :: nat
  mh_source_history_sha256 :: string
  mh_view_history_sha256 :: string
  mh_decisions_sha256 :: string

record window_binding =
  wb_window_id :: uuid
  wb_window_history_sha256 :: string
  wb_raw_history_items :: nat

record working_set_binding =
  ws_retain_recent_result_groups :: nat
  ws_stale_results :: nat

text \<open>
  The three versions share the fields of the first; the second adds the active window, the third the
  working set.
\<close>

datatype inspection_record =
    Inspection_v1 (inspection_base: model_history_inspection)
  | Inspection_v2 (inspection_base: model_history_inspection) (inspection_window: window_binding)
  | Inspection_v3 (inspection_base: model_history_inspection) (inspection_working: working_set_binding)

abbreviation inspection_step :: "inspection_record \<Rightarrow> nat" where
  "inspection_step r \<equiv> mh_model_step (inspection_base r)"

definition model_history_inspection_ok :: "model_history_inspection \<Rightarrow> bool" where
  "model_history_inspection_ok h =
     (1 \<le> mh_model_step h \<and> mh_model_step h \<le> 1000 \<and> view_policy_ok (mh_policy h)
      \<and> 1 \<le> mh_history_items h \<and> mh_history_items h \<le> 8192
      \<and> mh_tool_results h \<le> 8192 \<and> mh_inline_results h \<le> 8192
      \<and> mh_artifact_reference_results h \<le> 8192 \<and> mh_artifact_bindings h \<le> 16384
      \<and> mh_source_tool_result_utf8_bytes h \<le> 8388608 \<and> mh_view_tool_result_utf8_bytes h \<le> 8388608
      \<and> is_digest (mh_source_history_sha256 h) \<and> is_digest (mh_view_history_sha256 h)
      \<and> is_digest (mh_decisions_sha256 h)
      \<and> mh_tool_results h = mh_inline_results h + mh_artifact_reference_results h
      \<and> mh_tool_results h \<le> mh_history_items h
      \<and> mh_view_tool_result_utf8_bytes h \<le> mh_source_tool_result_utf8_bytes h)"

definition inspection_record_ok :: "inspection_record \<Rightarrow> bool" where
  "inspection_record_ok r =
     (case r of
        Inspection_v1 h \<Rightarrow> model_history_inspection_ok h
      | Inspection_v2 h w \<Rightarrow> model_history_inspection_ok h \<and> is_digest (wb_window_history_sha256 w)
          \<and> 1 \<le> wb_raw_history_items w \<and> wb_raw_history_items w \<le> 8388608
      | Inspection_v3 h w \<Rightarrow> model_history_inspection_ok h
          \<and> 1 \<le> ws_retain_recent_result_groups w \<and> ws_retain_recent_result_groups w \<le> 64
          \<and> ws_stale_results w \<le> 8192 \<and> ws_stale_results w \<le> mh_tool_results h)"

section \<open>Context inspections\<close>

datatype fragment_kind =
    RUNTIME_INSTRUCTION | USER_INSTRUCTION | PROJECT_INSTRUCTION | WORKSPACE | GIT | ENVIRONMENT

datatype context_trust = Trust_RUNTIME | Trust_USER | Trust_PROJECT | Trust_EXTERNAL

record document_snapshot =
  ds_source :: string
  ds_revision :: string
  ds_utf8_bytes :: int
  ds_fragment_id :: "string option"

record source_snapshot =
  ss_source_id :: string
  ss_kind :: fragment_kind
  ss_available :: bool
  ss_workspace_scope :: string
  ss_source_revision :: string
  ss_documents :: "document_snapshot list"

definition snapshot_fragments :: "source_snapshot \<Rightarrow> string list" where
  "snapshot_fragments s = List.map_filter ds_fragment_id (ss_documents s)"

text \<open>\<^verbatim>\<open>str.strip\<close> on ASCII whitespace: a text is blank when it has no other character.\<close>

definition ascii_space :: "char \<Rightarrow> bool" where
  "ascii_space c =
     (c = CHR '' '' \<or> (9 \<le> byte_of c \<and> byte_of c \<le> 13) \<or> (28 \<le> byte_of c \<and> byte_of c \<le> 31))"

definition source_text_ok :: "string \<Rightarrow> bool" where
  "source_text_ok s =
     (1 \<le> py_len s \<and> py_len s \<le> 4096 \<and> CHR 0x00 \<notin> set s \<and> \<not> list_all ascii_space s)"

definition document_snapshot_ok :: "document_snapshot \<Rightarrow> bool" where
  "document_snapshot_ok d =
     (source_text_ok (ds_source d) \<and> is_digest (ds_revision d)
      \<and> 0 \<le> ds_utf8_bytes d \<and> ds_utf8_bytes d \<le> 262144
      \<and> (case ds_fragment_id d of None \<Rightarrow> True | Some f \<Rightarrow> is_digest f))"

text \<open>\<^verbatim>\<open>status_matches_documents\<close>; \<open>ss_available\<close> is \<^verbatim>\<open>status == "available"\<close>.\<close>

definition source_snapshot_ok :: "source_snapshot \<Rightarrow> bool" where
  "source_snapshot_ok s =
     (\<not> (ss_available s \<and> snapshot_fragments s = []) \<and> \<not> (\<not> ss_available s \<and> snapshot_fragments s \<noteq> [])
      \<and> distinct (map ds_source (ss_documents s)) \<and> distinct (snapshot_fragments s)
      \<and> length (ss_documents s) \<le> 64 \<and> list_all document_snapshot_ok (ss_documents s)
      \<and> is_digest (ss_workspace_scope s) \<and> is_digest (ss_source_revision s))"

record context_limits =
  context_window_tokens :: int
  reserved_output_tokens :: int
  provider_overhead_tokens :: int
  safety_margin_tokens :: int

definition available_input_tokens :: "context_limits \<Rightarrow> int" where
  "available_input_tokens l =
     context_window_tokens l - reserved_output_tokens l - provider_overhead_tokens l
     - safety_margin_tokens l"

definition context_limits_ok :: "context_limits \<Rightarrow> bool" where
  "context_limits_ok l =
     (1024 \<le> context_window_tokens l \<and> context_window_tokens l \<le> 10000000
      \<and> 1 \<le> reserved_output_tokens l \<and> reserved_output_tokens l \<le> 1000000
      \<and> 0 \<le> provider_overhead_tokens l \<and> provider_overhead_tokens l \<le> 1000000
      \<and> 0 \<le> safety_margin_tokens l \<and> safety_margin_tokens l \<le> 1000000
      \<and> 1 \<le> available_input_tokens l)"

record fragment_decision =
  fd_fragment_id :: string
  fd_kind :: fragment_kind
  fd_source :: string
  fd_trust :: context_trust
  fd_priority :: int
  fd_required :: bool
  fd_estimated_tokens :: int
  fd_included :: bool

text \<open>The field bounds and \<^verbatim>\<open>required_is_included\<close>.\<close>

definition fragment_decision_ok :: "fragment_decision \<Rightarrow> bool" where
  "fragment_decision_ok d =
     (is_digest (fd_fragment_id d) \<and> 1 \<le> py_len (fd_source d) \<and> py_len (fd_source d) \<le> 4096
      \<and> 100 \<le> fd_priority d \<and> fd_priority d \<le> 600 \<and> 1 \<le> fd_estimated_tokens d
      \<and> (fd_required d \<longrightarrow> fd_included d))"

record context_inspection_base =
  ci_model_step :: nat
  ci_limits :: context_limits
  ci_available_input_tokens :: int
  ci_history_tokens :: int
  ci_tool_tokens :: int
  ci_instruction_tokens :: int
  ci_estimated_input_tokens :: int
  ci_instruction_fingerprint :: string
  ci_fragments :: "fragment_decision list"

record consistency_snapshot =
  cs_source_count :: nat
  cs_workspace_scope :: string

datatype context_inspection =
    Context_v1 (context_base: context_inspection_base)
  | Context_v2 (context_base: context_inspection_base) (context_sources: "source_snapshot list")
  | Context_v3 (context_base: context_inspection_base) (context_sources: "source_snapshot list")
      (context_consistency: consistency_snapshot)

abbreviation context_step :: "context_inspection \<Rightarrow> nat" where
  "context_step c \<equiv> ci_model_step (context_base c)"

text \<open>The checks the three \<^verbatim>\<open>internally_consistent\<close> validators share.\<close>

definition context_base_ok :: "context_inspection_base \<Rightarrow> bool" where
  "context_base_ok c =
     (context_limits_ok (ci_limits c) \<and> 1 \<le> ci_model_step c \<and> ci_model_step c \<le> 1000
      \<and> 0 \<le> ci_history_tokens c \<and> 0 \<le> ci_tool_tokens c \<and> 0 \<le> ci_instruction_tokens c
      \<and> ci_available_input_tokens c = available_input_tokens (ci_limits c)
      \<and> ci_estimated_input_tokens c
          = ci_history_tokens c + ci_tool_tokens c + ci_instruction_tokens c
      \<and> ci_estimated_input_tokens c \<le> ci_available_input_tokens c
      \<and> is_digest (ci_instruction_fingerprint c) \<and> length (ci_fragments c) \<le> 128
      \<and> list_all fragment_decision_ok (ci_fragments c)
      \<and> distinct (map fd_fragment_id (ci_fragments c)))"

definition document_matches :: "fragment_decision list \<Rightarrow> source_snapshot \<Rightarrow> document_snapshot \<Rightarrow> bool" where
  "document_matches fragments source document =
     (case ds_fragment_id document of None \<Rightarrow> True
      | Some fid \<Rightarrow> (case find (\<lambda>f. fd_fragment_id f = fid) fragments of None \<Rightarrow> False
          | Some d \<Rightarrow> fd_kind d = ss_kind source \<and> fd_source d = ds_source document
              \<and> fd_estimated_tokens d = max 1 (ds_utf8_bytes document)))"

definition context_sources_ok :: "context_inspection_base \<Rightarrow> source_snapshot list \<Rightarrow> bool" where
  "context_sources_ok c sources =
     (list_all source_snapshot_ok sources
      \<and> distinct (map ss_source_id sources)
      \<and> distinct (concat (map snapshot_fragments sources))
      \<and> set (concat (map snapshot_fragments sources)) \<subseteq> set (map fd_fragment_id (ci_fragments c))
      \<and> list_all (\<lambda>s. list_all (document_matches (ci_fragments c) s) (ss_documents s)) sources)"

definition context_inspection_ok :: "context_inspection \<Rightarrow> bool" where
  "context_inspection_ok c =
     (case c of
        Context_v1 b \<Rightarrow> context_base_ok b
      | Context_v2 b ss \<Rightarrow> context_base_ok b \<and> context_sources_ok b ss
          \<and> 1 \<le> length ss \<and> length ss \<le> 16
      | Context_v3 b ss k \<Rightarrow> context_base_ok b \<and> context_sources_ok b ss
          \<and> 2 \<le> length ss \<and> length ss \<le> 16 \<and> cs_source_count k = length ss
          \<and> list_all (\<lambda>s. ss_workspace_scope s = cs_workspace_scope k) ss)"

section \<open>Compaction plans and summaries\<close>

record compaction_policy =
  target_history_tokens :: int
  summary_reserve_tokens :: int
  max_summary_input_tokens :: int
  retain_recent_groups :: nat
  min_savings_tokens :: int

definition compaction_policy_ok :: "compaction_policy \<Rightarrow> bool" where
  "compaction_policy_ok p =
     (512 \<le> target_history_tokens p \<and> target_history_tokens p \<le> 8388608
      \<and> 256 \<le> summary_reserve_tokens p \<and> summary_reserve_tokens p \<le> 1000000
      \<and> 512 \<le> max_summary_input_tokens p \<and> max_summary_input_tokens p \<le> 8388608
      \<and> 1 \<le> retain_recent_groups p \<and> retain_recent_groups p \<le> 8192
      \<and> 1 \<le> min_savings_tokens p \<and> min_savings_tokens p \<le> 8388608
      \<and> summary_reserve_tokens p < target_history_tokens p)"

record compaction_anchor =
  an_item_id :: uuid
  an_source_sha256 :: string

record compaction_plan =
  compaction_id :: uuid
  cp_thread_id :: uuid
  cp_turn_id :: uuid
  cp_source_event_sequence :: nat
  cp_model_step :: nat
  cp_policy :: compaction_policy
  cp_tool_result_view_policy :: tool_result_view_policy
  cp_anchors :: "compaction_anchor list"
  cp_source_item_ids :: "uuid list"
  cp_covered_item_ids :: "uuid list"
  cp_retained_item_ids :: "uuid list"
  cp_pinned_item_ids :: "uuid list"
  cp_source_history_sha256 :: string
  cp_model_history_sha256 :: string
  cp_decisions_sha256 :: string
  cp_summary_source_sha256 :: string
  cp_retained_history_sha256 :: string
  cp_source_history_tokens :: int
  cp_retained_history_tokens :: int
  cp_summary_input_tokens :: int

text \<open>\<^verbatim>\<open>partition_and_budgets\<close> without the plain field bounds.\<close>

definition partition_and_budgets :: "compaction_plan \<Rightarrow> bool" where
  "partition_and_budgets p =
    (let source = cp_source_item_ids p; covered = cp_covered_item_ids p;
         retained = cp_retained_item_ids p; pinned = cp_pinned_item_ids p;
         anchor_ids = map an_item_id (cp_anchors p);
         reserved = cp_retained_history_tokens p + summary_reserve_tokens (cp_policy p)
     in distinct source \<and> distinct covered \<and> distinct retained \<and> distinct pinned
        \<and> set covered \<inter> set retained = {} \<and> set covered \<union> set retained = set source
        \<and> set pinned \<subseteq> set retained
        \<and> filter (\<lambda>i. i \<in> set covered) source = covered
        \<and> filter (\<lambda>i. i \<in> set retained) source = retained
        \<and> filter (\<lambda>i. i \<in> set pinned) source = pinned
        \<and> distinct anchor_ids \<and> set anchor_ids \<subseteq> set pinned
        \<and> reserved \<le> target_history_tokens (cp_policy p)
        \<and> min_savings_tokens (cp_policy p) \<le> cp_source_history_tokens p - reserved
        \<and> cp_summary_input_tokens p \<le> max_summary_input_tokens (cp_policy p))"

definition compaction_plan_ok :: "compaction_plan \<Rightarrow> bool" where
  "compaction_plan_ok p =
     (1 \<le> cp_source_event_sequence p \<and> 1 \<le> cp_model_step p \<and> cp_model_step p \<le> 1000
      \<and> compaction_policy_ok (cp_policy p) \<and> view_policy_ok (cp_tool_result_view_policy p)
      \<and> length (cp_anchors p) \<le> 64 \<and> list_all (\<lambda>a. is_digest (an_source_sha256 a)) (cp_anchors p)
      \<and> 2 \<le> length (cp_source_item_ids p) \<and> length (cp_source_item_ids p) \<le> 8192
      \<and> list_all (\<lambda>ids. 1 \<le> length ids \<and> length ids \<le> 8192)
          [cp_covered_item_ids p, cp_retained_item_ids p, cp_pinned_item_ids p]
      \<and> list_all is_digest [cp_source_history_sha256 p, cp_model_history_sha256 p,
          cp_decisions_sha256 p, cp_summary_source_sha256 p, cp_retained_history_sha256 p]
      \<and> list_all (\<lambda>n. 1 \<le> n \<and> n \<le> 8388608) [cp_source_history_tokens p,
          cp_retained_history_tokens p, cp_summary_input_tokens p]
      \<and> partition_and_budgets p)"

record compaction_summary =
  cs_compaction_id :: uuid
  cs_text :: string

definition compaction_summary_ok :: "compaction_summary \<Rightarrow> bool" where
  "compaction_summary_ok s =
     (1 \<le> py_len (cs_text s) \<and> py_len (cs_text s) \<le> 1000000
      \<and> \<not> list_all ascii_space (cs_text s) \<and> CHR 0x00 \<notin> set (cs_text s))"

section \<open>The compaction ledger\<close>

datatype compaction_status =
    Cs_planned | Cs_sampling | Cs_summarized | Cs_failed | Cs_cancelled | Cs_interrupted

definition COMPACTION_OPEN :: "compaction_status list" where
  "COMPACTION_OPEN = [Cs_planned, Cs_sampling]"

record compaction_record =
  cr_plan :: compaction_plan
  cr_status :: compaction_status
  cr_input_tokens_before :: int
  cr_output_tokens_before :: int
  cr_attempt :: "model_attempt option"
  cr_summary :: "compaction_summary option"
  cr_candidate_history_sha256 :: "string option"
  cr_candidate_history_tokens :: "int option"
  cr_failure :: "agent_failure option"
  cr_unaccounted_request_possible :: bool
  cr_created_event_sequence :: nat
  cr_finished_event_sequence :: "nat option"
  cr_created_at :: datetime
  cr_finished_at :: "datetime option"

abbreviation is_open :: "compaction_record \<Rightarrow> bool" where
  "is_open r \<equiv> cr_status r \<in> set COMPACTION_OPEN"

definition attempt_times_ok :: "compaction_record \<Rightarrow> model_attempt \<Rightarrow> bool" where
  "attempt_times_ok r a =
     (cr_created_at r \<le> a_started_at a
      \<and> (case a_finished_at a of None \<Rightarrow> True
         | Some f \<Rightarrow> a_started_at a \<le> f
             \<and> (case cr_finished_at r of None \<Rightarrow> True | Some g \<Rightarrow> f \<le> g)))"

text \<open>\<^verbatim>\<open>CompactionRecord.coherent_state\<close>.\<close>

definition coherent_state :: "compaction_record \<Rightarrow> bool" where
  "coherent_state r =
     ((case cr_attempt r of None \<Rightarrow> True
       | Some a \<Rightarrow> a_step a = cp_model_step (cr_plan r) \<and> a_index a = 1 \<and> attempt_times_ok r a
           \<and> model_attempt_ok a)
      \<and> is_open r = (cr_finished_at r = None)
      \<and> is_open r = (cr_finished_event_sequence r = None)
      \<and> cr_created_event_sequence r = cp_source_event_sequence (cr_plan r) + 1
      \<and> (case cr_finished_event_sequence r of None \<Rightarrow> True | Some n \<Rightarrow> cr_created_event_sequence r < n)
      \<and> (case cr_finished_at r of None \<Rightarrow> True | Some t \<Rightarrow> cr_created_at r \<le> t)
      \<and> (cr_status r = Cs_planned \<longrightarrow> cr_attempt r = None)
      \<and> (cr_status r = Cs_sampling \<longrightarrow> cr_attempt r \<noteq> None)
      \<and> (\<not> is_open r \<longrightarrow> (case cr_attempt r of None \<Rightarrow> True | Some a \<Rightarrow> a_status a \<noteq> At_running))
      \<and> (if cr_status r = Cs_summarized
         then (case cr_attempt r of None \<Rightarrow> False | Some a \<Rightarrow> a_status a = At_completed)
           \<and> (case cr_summary r of None \<Rightarrow> False
              | Some s \<Rightarrow> cs_compaction_id s = compaction_id (cr_plan r))
           \<and> cr_candidate_history_sha256 r \<noteq> None \<and> cr_candidate_history_tokens r \<noteq> None
           \<and> cr_failure r = None
         else cr_summary r = None \<and> cr_candidate_history_sha256 r = None
           \<and> cr_candidate_history_tokens r = None)
      \<and> (cr_status r \<in> {Cs_failed, Cs_cancelled, Cs_interrupted}) = (cr_failure r \<noteq> None)
      \<and> (cr_unaccounted_request_possible r \<longrightarrow>
           cr_status r \<in> {Cs_failed, Cs_interrupted} \<and> cr_attempt r = None))"

text \<open>Field bounds and nested contracts, which re-validation checks as well.\<close>

definition compaction_record_ok :: "compaction_record \<Rightarrow> bool" where
  "compaction_record_ok r =
     (compaction_plan_ok (cr_plan r) \<and> 0 \<le> cr_input_tokens_before r \<and> 0 \<le> cr_output_tokens_before r
      \<and> (case cr_summary r of None \<Rightarrow> True | Some s \<Rightarrow> compaction_summary_ok s)
      \<and> (case cr_candidate_history_sha256 r of None \<Rightarrow> True | Some s \<Rightarrow> is_digest s)
      \<and> (case cr_candidate_history_tokens r of None \<Rightarrow> True | Some n \<Rightarrow> 1 \<le> n \<and> n \<le> 8388608)
      \<and> 2 \<le> cr_created_event_sequence r
      \<and> (case cr_finished_event_sequence r of None \<Rightarrow> True | Some n \<Rightarrow> 3 \<le> n)
      \<and> coherent_state r)"

datatype compaction_event =
    CompactionPlanned compaction_plan "view_decision list"
  | CompactionAttemptStarted uuid model_attempt_started
  | CompactionUsageObserved uuid model_usage_observed
  | CompactionAttemptFinished uuid model_attempt_finished
  | CompactionSummarized uuid compaction_summary string int
  | CompactionRejected uuid compaction_status agent_failure bool

definition compaction_event_ok :: "compaction_event \<Rightarrow> bool" where
  "compaction_event_ok e =
     (case e of
        CompactionPlanned plan decisions \<Rightarrow> compaction_plan_ok plan \<and> length decisions \<le> 8192
          \<and> list_all view_decision_ok decisions
      | CompactionAttemptStarted _ a \<Rightarrow> model_attempt_started_ok a
      | CompactionUsageObserved _ p \<Rightarrow> model_usage_observed_ok p
      | CompactionAttemptFinished _ p \<Rightarrow> model_attempt_finished_ok p
      | CompactionSummarized cid s sha tokens \<Rightarrow> compaction_summary_ok s \<and> is_digest sha
          \<and> 1 \<le> tokens \<and> tokens \<le> 8388608 \<and> cs_compaction_id s = cid
      | CompactionRejected _ outcome failure _ \<Rightarrow>
          outcome \<in> {Cs_failed, Cs_cancelled, Cs_interrupted})"

end
