(* ===== verification/Agent_Models.thy ===== *)
theory Agent_Models
  imports Process_Contracts Context_Contracts
begin

text \<open>
  The persistent contracts of the Agent kernel (src/src/harnessix/agent/models.py and
  trusted_action_contracts.py): items and their contents, Turns, Threads, fork snapshots, compaction
  windows and the events of the transcript. Class validators are the functions \<open>..._ok\<close>; JSON dumps
  are the functions \<open>..._json\<close> with the fields in the order of the class.
\<close>

section \<open>Budgets and Turn states\<close>

record budget =
  max_steps :: nat
  max_tokens :: int
  timeout_seconds :: pyfloat
  max_output_chars :: int
  max_tool_calls_per_step :: int

definition budget_ok :: "budget \<Rightarrow> bool" where
  "budget_ok b =
     (1 \<le> max_steps b \<and> max_steps b \<le> 1000 \<and> 1 \<le> max_tokens b
      \<and> is_finite (timeout_seconds b) \<and> 0 < float_rat (timeout_seconds b)
      \<and> float_rat (timeout_seconds b) \<le> 86400
      \<and> 1 \<le> max_output_chars b \<and> max_output_chars b \<le> 1000000
      \<and> 1 \<le> max_tool_calls_per_step b \<and> max_tool_calls_per_step b \<le> 128)"

record usage =
  u_input_tokens :: int
  u_output_tokens :: int

definition total_tokens :: "usage \<Rightarrow> int" where
  "total_tokens u = u_input_tokens u + u_output_tokens u"

text \<open>\<^verbatim>\<open>Usage(input_tokens=i, output_tokens=o)\<close>, whose fields must not be negative.\<close>

definition make_usage :: "int \<Rightarrow> int \<Rightarrow> usage result" where
  "make_usage i out =
     check (0 \<le> i \<and> 0 \<le> out) ValueError (Inr \<lparr>u_input_tokens = i, u_output_tokens = out\<rparr>)"

datatype turn_status =
    Ts_ACCEPTED | Ts_PREPARING_CONTEXT | Ts_CALLING_MODEL | Ts_EXECUTING_TOOLS
  | Ts_WAITING_APPROVAL | Ts_WAITING_ACTION | Ts_WAITING_INPUT | Ts_FINALIZING | Ts_CANCELLING
  | Ts_COMPLETED | Ts_FAILED | Ts_CANCELLED | Ts_INTERRUPTED

definition TERMINAL_TURNS :: "turn_status list" where
  "TERMINAL_TURNS = [Ts_COMPLETED, Ts_FAILED, Ts_CANCELLED, Ts_INTERRUPTED]"

text \<open>\<^verbatim>\<open>TURN_TRANSITIONS.get(status, set())\<close>.\<close>

fun TURN_TRANSITIONS :: "turn_status \<Rightarrow> turn_status list" where
  "TURN_TRANSITIONS Ts_ACCEPTED = [Ts_PREPARING_CONTEXT]"
| "TURN_TRANSITIONS Ts_PREPARING_CONTEXT = [Ts_CALLING_MODEL]"
| "TURN_TRANSITIONS Ts_CALLING_MODEL = [Ts_PREPARING_CONTEXT, Ts_EXECUTING_TOOLS, Ts_FINALIZING]"
| "TURN_TRANSITIONS Ts_EXECUTING_TOOLS =
     [Ts_PREPARING_CONTEXT, Ts_WAITING_APPROVAL, Ts_WAITING_INPUT]"
| "TURN_TRANSITIONS Ts_WAITING_APPROVAL = [Ts_EXECUTING_TOOLS, Ts_WAITING_ACTION]"
| "TURN_TRANSITIONS Ts_WAITING_ACTION = [Ts_EXECUTING_TOOLS]"
| "TURN_TRANSITIONS Ts_WAITING_INPUT = [Ts_EXECUTING_TOOLS]"
| "TURN_TRANSITIONS Ts_FINALIZING = [Ts_COMPLETED]"
| "TURN_TRANSITIONS Ts_CANCELLING = [Ts_CANCELLED, Ts_INTERRUPTED]"
| "TURN_TRANSITIONS _ = []"

datatype item_status = Is_STARTED | Is_COMPLETED | Is_FAILED | Is_CANCELLED

definition item_status_value :: "item_status \<Rightarrow> string" where
  "item_status_value s = (case s of Is_STARTED \<Rightarrow> ''started'' | Is_COMPLETED \<Rightarrow> ''completed''
     | Is_FAILED \<Rightarrow> ''failed'' | Is_CANCELLED \<Rightarrow> ''cancelled'')"

section \<open>Item contents\<close>

datatype text_kind = User_message | Assistant_message | Reasoning_summary

definition text_kind_value :: "text_kind \<Rightarrow> string" where
  "text_kind_value k = (case k of User_message \<Rightarrow> ''user_message''
     | Assistant_message \<Rightarrow> ''assistant_message'' | Reasoning_summary \<Rightarrow> ''reasoning_summary'')"

record text_content =
  tx_kind :: text_kind
  tx_text :: string

record tool_call_content =
  tc_call_id :: uuid
  tc_provider_call_id :: string
  tc_tool :: string
  tc_tool_version :: string
  tc_effect_class :: effect_class
  tc_arguments :: json
  tc_requires_approval :: bool
  tc_tool_fingerprint :: "string option"

definition tool_call_ok :: "tool_call_content \<Rightarrow> bool" where
  "tool_call_ok c =
     (1 \<le> py_len (tc_provider_call_id c) \<and> py_len (tc_provider_call_id c) \<le> 256
      \<and> 1 \<le> py_len (tc_tool c) \<and> py_len (tc_tool c) \<le> 256
      \<and> 1 \<le> py_len (tc_tool_version c) \<and> py_len (tc_tool_version c) \<le> 128
      \<and> is_dict (tc_arguments c)
      \<and> (case tc_tool_fingerprint c of None \<Rightarrow> True | Some f \<Rightarrow> is_digest f))"

datatype rejection_reason = Unregistered_tool | Invalid_arguments_json

record rejection_content =
  rj_call_id :: uuid
  rj_provider_call_id :: string
  rj_model_step :: nat
  rj_reason :: rejection_reason

record question_request =
  qr_question_id :: uuid
  qr_call_id :: uuid
  qr_question :: string
  qr_options :: "string list"

text \<open>\<^verbatim>\<open>AskUserInput.valid_options\<close> with the length bounds of the class.\<close>

definition question_ok :: "string \<Rightarrow> string list \<Rightarrow> bool" where
  "question_ok question options =
     (1 \<le> py_len question \<and> py_len question \<le> 4000 \<and> length options \<le> 8
      \<and> distinct options \<and> list_all (\<lambda>x. x \<noteq> [] \<and> py_len x \<le> 500) options)"

record question_answer =
  qa_question_id :: uuid
  qa_call_id :: uuid
  qa_answer :: string

datatype origin = Execution | Recovery

record patch_effect =
  pe_workspace_id :: uuid
  pe_plan_id :: uuid
  pe_request_id :: string
  pe_approval_fingerprint :: string
  pe_state :: patch_state
  pe_origin :: origin

record patch_batch_effect =
  pbe_workspace_id :: uuid
  pbe_batch_id :: uuid
  pbe_request_id :: string
  pbe_approval_fingerprint :: string
  pbe_origin :: origin
  pbe_execution :: "batch_execution_result option"

definition PROCESS_WAITING_STATUSES :: "action_status list" where
  "PROCESS_WAITING_STATUSES = [READY, LEASED, RUNNING, RECONCILING]"

definition PROCESS_RESOLVED_STATUSES :: "action_status list" where
  "PROCESS_RESOLVED_STATUSES = [DENIED, SUCCEEDED, FAILED, UNKNOWN, MANUAL_INTERVENTION]"

record process_effect =
  px_plan_fingerprint :: string
  px_action_id :: uuid
  px_action_fingerprint :: string
  px_status :: action_status
  px_result_fingerprint :: "string option"
  px_origin :: origin

text \<open>\<^verbatim>\<open>ProcessActionEffect.resolved_result\<close>.\<close>

definition process_effect_ok :: "process_effect \<Rightarrow> bool" where
  "process_effect_ok e =
     (px_status e \<in> set PROCESS_WAITING_STATUSES \<union> set PROCESS_RESOLVED_STATUSES
      \<and> (px_status e \<in> set PROCESS_RESOLVED_STATUSES \<longrightarrow> px_result_fingerprint e \<noteq> None))"

record process_state_content =
  psc_call_id :: uuid
  psc_effect :: process_effect

datatype trusted_state = Ta_succeeded | Ta_failed | Ta_unknown | Ta_manual_intervention

record trusted_action_effect =
  ta_plan_id :: uuid
  ta_plan_fingerprint :: string
  ta_state :: trusted_state
  ta_origin :: origin
  ta_artifact_sha256 :: "string option"

datatype result_outcome = Oc_succeeded | Oc_failed | Oc_cancelled | Oc_unknown

record tool_result_content =
  tr_call_id :: uuid
  tr_outcome :: result_outcome
  tr_output :: json
  tr_error :: "agent_failure option"
  tr_action_id :: "uuid option"
  tr_patch :: "patch_effect option"
  tr_patch_batch :: "patch_batch_effect option"
  tr_process :: "process_effect option"
  tr_trusted_action :: "trusted_action_effect option"
  tr_diff_artifact :: "artifact_ref option"

definition trusted_outcome :: "trusted_state \<Rightarrow> result_outcome" where
  "trusted_outcome s = (case s of Ta_succeeded \<Rightarrow> Oc_succeeded | Ta_failed \<Rightarrow> Oc_failed
     | Ta_unknown \<Rightarrow> Oc_unknown | Ta_manual_intervention \<Rightarrow> Oc_unknown)"

definition count_some :: "bool list \<Rightarrow> nat" where
  "count_some bs = length (filter id bs)"

text \<open>\<^verbatim>\<open>ToolResultContent.independent_effects\<close>.\<close>

definition independent_effects :: "tool_result_content \<Rightarrow> bool" where
  "independent_effects r =
     (\<not> (tr_diff_artifact r \<noteq> None \<and> tr_patch_batch r = None \<and> tr_trusted_action r = None)
      \<and> count_some [tr_patch r \<noteq> None, tr_patch_batch r \<noteq> None, tr_process r \<noteq> None,
          tr_trusted_action r \<noteq> None] \<le> 1
      \<and> (case tr_process r of None \<Rightarrow> True | Some e \<Rightarrow> tr_action_id r = Some (px_action_id e))
      \<and> (case tr_trusted_action r of None \<Rightarrow> True
         | Some e \<Rightarrow> tr_action_id r = Some (ta_plan_id e) \<and> tr_outcome r = trusted_outcome (ta_state e)))"

section \<open>Approval requests\<close>

record approval_request =
  aq_approval_id :: uuid
  aq_call_id :: uuid
  aq_request_fingerprint :: string
  aq_decision :: "approval_record option"

record patch_approval_request =
  pa_approval_id :: uuid
  pa_call_id :: uuid
  pa_plan :: managed_patch_call_plan
  pa_request_fingerprint :: string
  pa_decision :: "approval_record option"

record batch_approval_request =
  ba_approval_id :: uuid
  ba_call_id :: uuid
  ba_plan :: managed_patch_batch_call_plan
  ba_request_fingerprint :: string
  ba_decision :: "approval_record option"
  ba_diff_artifact :: "artifact_ref option"

record process_approval_request =
  pq_approval_id :: uuid
  pq_call_id :: uuid
  pq_plan :: agent_process_call_plan
  pq_request_fingerprint :: string
  pq_action_status :: action_status
  pq_decision :: "approval_record option"

datatype presentation = Pr_tool | Pr_patch_batch | Pr_process

definition presentation_value :: "presentation \<Rightarrow> string" where
  "presentation_value p = (case p of Pr_tool \<Rightarrow> ''tool'' | Pr_patch_batch \<Rightarrow> ''patch_batch''
     | Pr_process \<Rightarrow> ''process'')"

datatype route_state =
    Rs_pending_approval | Rs_ready | Rs_denied | Rs_running | Rs_succeeded | Rs_failed | Rs_unknown
  | Rs_reconciling | Rs_manual_intervention

record trusted_approval_request =
  tq_approval_id :: uuid
  tq_call_id :: uuid
  tq_presentation :: presentation
  tq_plan_id :: uuid
  tq_plan_fingerprint :: string
  tq_execution_fingerprint :: string
  tq_request_fingerprint :: string
  tq_policy_id :: string
  tq_policy_version :: string
  tq_route_state :: route_state
  tq_decision :: "approval_record option"
  tq_diff_artifact :: "artifact_ref option"

datatype approval_content =
    ApprovalRequest approval_request
  | PatchApproval patch_approval_request
  | PatchBatchApproval batch_approval_request
  | ProcessApproval process_approval_request
  | TrustedApproval trusted_approval_request

definition ap_call :: "approval_content \<Rightarrow> uuid" where
  "ap_call c = (case c of ApprovalRequest a \<Rightarrow> aq_call_id a | PatchApproval a \<Rightarrow> pa_call_id a
     | PatchBatchApproval a \<Rightarrow> ba_call_id a | ProcessApproval a \<Rightarrow> pq_call_id a
     | TrustedApproval a \<Rightarrow> tq_call_id a)"

definition ap_id :: "approval_content \<Rightarrow> uuid" where
  "ap_id c = (case c of ApprovalRequest a \<Rightarrow> aq_approval_id a | PatchApproval a \<Rightarrow> pa_approval_id a
     | PatchBatchApproval a \<Rightarrow> ba_approval_id a | ProcessApproval a \<Rightarrow> pq_approval_id a
     | TrustedApproval a \<Rightarrow> tq_approval_id a)"

definition ap_decision :: "approval_content \<Rightarrow> approval_record option" where
  "ap_decision c = (case c of ApprovalRequest a \<Rightarrow> aq_decision a | PatchApproval a \<Rightarrow> pa_decision a
     | PatchBatchApproval a \<Rightarrow> ba_decision a | ProcessApproval a \<Rightarrow> pq_decision a
     | TrustedApproval a \<Rightarrow> tq_decision a)"

definition ap_fingerprint :: "approval_content \<Rightarrow> string" where
  "ap_fingerprint c = (case c of ApprovalRequest a \<Rightarrow> aq_request_fingerprint a
     | PatchApproval a \<Rightarrow> pa_request_fingerprint a | PatchBatchApproval a \<Rightarrow> ba_request_fingerprint a
     | ProcessApproval a \<Rightarrow> pq_request_fingerprint a | TrustedApproval a \<Rightarrow> tq_request_fingerprint a)"

text \<open>The validators of the five classes (\<^verbatim>\<open>bound_plan\<close>, \<^verbatim>\<open>bound_action\<close>, \<^verbatim>\<open>bound_projection\<close>).\<close>

definition bound_action :: "process_approval_request \<Rightarrow> bool" where
  "bound_action a =
     (pq_call_id a = ap_call_id (pq_plan a)
      \<and> pq_request_fingerprint a = ap_approval_fingerprint (pq_plan a)
      \<and> (case pq_decision a of
           None \<Rightarrow> pq_action_status a = PENDING_APPROVAL
         | Some d \<Rightarrow> ar_request_fingerprint d = ap_action_fingerprint (pq_plan a)
             \<and> (if ar_outcome d = REJECTED then pq_action_status a = DENIED
                else pq_action_status a \<in> set PROCESS_WAITING_STATUSES
                     \<union> (set PROCESS_RESOLVED_STATUSES - {DENIED}))))"

definition bound_projection :: "trusted_approval_request \<Rightarrow> bool" where
  "bound_projection a =
     (\<not> (tq_presentation a = Pr_patch_batch \<and> tq_diff_artifact a = None)
      \<and> \<not> (tq_presentation a = Pr_process \<and> tq_diff_artifact a \<noteq> None)
      \<and> (case tq_decision a of
           None \<Rightarrow> tq_route_state a = Rs_pending_approval
         | Some d \<Rightarrow> ar_request_fingerprint d = tq_request_fingerprint a
             \<and> (ar_outcome d = REJECTED) = (tq_route_state a = Rs_denied)))"

definition approval_content_ok :: "approval_content \<Rightarrow> bool" where
  "approval_content_ok c =
     (case c of
        ApprovalRequest a \<Rightarrow> is_digest (aq_request_fingerprint a)
      | PatchApproval a \<Rightarrow> managed_patch_call_plan_ok (pa_plan a)
          \<and> pa_call_id a = mp_call_id (pa_plan a)
          \<and> pa_request_fingerprint a = mp_approval_fingerprint (pa_plan a)
      | PatchBatchApproval a \<Rightarrow> managed_patch_batch_call_plan_ok (ba_plan a)
          \<and> ba_call_id a = bc_call_id (ba_plan a)
          \<and> ba_request_fingerprint a = bc_approval_fingerprint (ba_plan a)
      | ProcessApproval a \<Rightarrow> agent_process_call_plan_ok (pq_plan a) \<and> bound_action a
      | TrustedApproval a \<Rightarrow> bound_projection a)"

section \<open>Plans, compaction notes, errors, items\<close>

datatype plan_step_status = Pt_pending | Pt_in_progress | Pt_completed

record plan_step =
  step_id :: string
  st_description :: string
  st_status :: plan_step_status

record plan_content =
  pl_steps :: "plan_step list"
  pl_supersedes :: "uuid option"

definition plan_content_ok :: "plan_content \<Rightarrow> bool" where
  "plan_content_ok p =
     (1 \<le> length (pl_steps p) \<and> length (pl_steps p) \<le> 32
      \<and> list_all (\<lambda>s. 1 \<le> py_len (step_id s) \<and> py_len (step_id s) \<le> 128
            \<and> 1 \<le> py_len (st_description s) \<and> py_len (st_description s) \<le> 2000) (pl_steps p)
      \<and> distinct (map step_id (pl_steps p))
      \<and> length (filter (\<lambda>s. st_status s = Pt_in_progress) (pl_steps p)) \<le> 1)"

record compaction_content =
  cc_source_item_ids :: "uuid list"
  cc_summary :: string
  cc_tokens_before :: int
  cc_tokens_after :: int
  cc_tokenizer :: string

definition compaction_content_ok :: "compaction_content \<Rightarrow> bool" where
  "compaction_content_ok c =
     (1 \<le> length (cc_source_item_ids c) \<and> length (cc_source_item_ids c) \<le> 4096
      \<and> 1 \<le> py_len (cc_summary c) \<and> py_len (cc_summary c) \<le> 1000000
      \<and> 1 \<le> cc_tokens_before c \<and> 0 \<le> cc_tokens_after c
      \<and> 1 \<le> py_len (cc_tokenizer c) \<and> py_len (cc_tokenizer c) \<le> 128
      \<and> distinct (cc_source_item_ids c) \<and> cc_tokens_after c < cc_tokens_before c)"

datatype item_content =
    Text text_content
  | ToolCall tool_call_content
  | Rejection rejection_content
  | ToolResult tool_result_content
  | Approval approval_content
  | ProcessState process_state_content
  | QuestionRequest question_request
  | QuestionAnswer question_answer
  | Plan plan_content
  | Compaction compaction_content
  | Error agent_failure

record item =
  item_id :: uuid
  i_status :: item_status
  i_content :: item_content
  i_error :: "agent_failure option"

text \<open>\<^verbatim>\<open>content.kind\<close>, the discriminator of the union.\<close>

definition content_kind :: "item_content \<Rightarrow> string" where
  "content_kind c =
     (case c of Text t \<Rightarrow> text_kind_value (tx_kind t) | ToolCall _ \<Rightarrow> ''tool_call''
      | Rejection _ \<Rightarrow> ''tool_call_rejection'' | ToolResult _ \<Rightarrow> ''tool_result''
      | Approval a \<Rightarrow> (case a of ApprovalRequest _ \<Rightarrow> ''approval_request''
          | PatchApproval _ \<Rightarrow> ''patch_approval_request''
          | PatchBatchApproval _ \<Rightarrow> ''patch_batch_approval_request''
          | ProcessApproval _ \<Rightarrow> ''process_approval_request''
          | TrustedApproval _ \<Rightarrow> ''trusted_action_approval_request'')
      | ProcessState _ \<Rightarrow> ''process_action_state'' | QuestionRequest _ \<Rightarrow> ''question_request''
      | QuestionAnswer _ \<Rightarrow> ''question_answer'' | Plan _ \<Rightarrow> ''plan''
      | Compaction _ \<Rightarrow> ''context_compaction'' | Error _ \<Rightarrow> ''error'')"

end
