(* ===== verification/Item_Json.thy ===== *)
theory Item_Json
  imports Agent_Models
begin

text \<open>
  The JSON dumps of items (\<^verbatim>\<open>item.model_dump(mode="json")\<close>): every content class of
  src/src/harnessix/agent/models.py with its own serializer, which leaves the effect fields of a
  tool result out when they are empty, and the size bounds that class validators put on the dumps.
\<close>

section \<open>JSON mode\<close>

text \<open>A dump in JSON mode turns the non-finite floats of a free JSON value into \<^verbatim>\<open>null\<close>.\<close>

fun json_mode :: "json \<Rightarrow> json" where
  "json_mode (JFloat s) = (if finite_text s then JFloat s else JNull)"
| "json_mode (JArr xs) = JArr (map json_mode xs)"
| "json_mode (JObj kvs) = JObj (map (\<lambda>kv. (fst kv, json_mode (snd kv))) kvs)"
| "json_mode JNull = JNull"
| "json_mode (JBool b) = JBool b"
| "json_mode (JInt i) = JInt i"
| "json_mode (JStr s) = JStr s"

lemma json_mode_finite: "json_finite j \<Longrightarrow> json_mode j = j"
proof (induction j)
  case (JArr xs)
  then show ?case by (auto simp: list_all_iff intro: map_idI)
next
  case (JObj kvs)
  have "json_mode (snd kv) = snd kv" if "kv \<in> set kvs" for kv
  proof (rule JObj.IH [of kv])
    show "kv \<in> set kvs" by (rule that)
    show "snd kv \<in> Basic_BNFs.snds kv" by (cases kv) simp
    show "json_finite (snd kv)" using JObj.prems that by (simp add: list_all_iff)
  qed
  then show ?case by (auto intro!: map_idI)
qed (simp_all split: if_splits)

lemma json_mode_is_finite: "json_finite (json_mode j)"
proof (induction j)
  case (JObj kvs)
  have "json_finite (json_mode (snd kv))" if "kv \<in> set kvs" for kv
  proof (rule JObj.IH [of kv])
    show "kv \<in> set kvs" by (rule that)
    show "snd kv \<in> Basic_BNFs.snds kv" by (cases kv) simp
  qed
  then show ?case by (simp add: list_all_iff)
qed (auto simp: list_all_iff)

definition juuid :: "uuid \<Rightarrow> json" where
  "juuid u = JStr (uuid_str u)"

section \<open>Enumerations\<close>

definition rejection_reason_value :: "rejection_reason \<Rightarrow> string" where
  "rejection_reason_value r = (case r of Unregistered_tool \<Rightarrow> ''unregistered_tool''
     | Invalid_arguments_json \<Rightarrow> ''invalid_arguments_json'')"

definition origin_value :: "origin \<Rightarrow> string" where
  "origin_value x = (case x of Execution \<Rightarrow> ''execution'' | Recovery \<Rightarrow> ''recovery'')"

definition trusted_state_value :: "trusted_state \<Rightarrow> string" where
  "trusted_state_value s = (case s of Ta_succeeded \<Rightarrow> ''succeeded'' | Ta_failed \<Rightarrow> ''failed''
     | Ta_unknown \<Rightarrow> ''unknown'' | Ta_manual_intervention \<Rightarrow> ''manual_intervention'')"

definition result_outcome_value :: "result_outcome \<Rightarrow> string" where
  "result_outcome_value x = (case x of Oc_succeeded \<Rightarrow> ''succeeded'' | Oc_failed \<Rightarrow> ''failed''
     | Oc_cancelled \<Rightarrow> ''cancelled'' | Oc_unknown \<Rightarrow> ''unknown'')"

definition route_state_value :: "route_state \<Rightarrow> string" where
  "route_state_value s = (case s of Rs_pending_approval \<Rightarrow> ''pending_approval'' | Rs_ready \<Rightarrow> ''ready''
     | Rs_denied \<Rightarrow> ''denied'' | Rs_running \<Rightarrow> ''running'' | Rs_succeeded \<Rightarrow> ''succeeded''
     | Rs_failed \<Rightarrow> ''failed'' | Rs_unknown \<Rightarrow> ''unknown'' | Rs_reconciling \<Rightarrow> ''reconciling''
     | Rs_manual_intervention \<Rightarrow> ''manual_intervention'')"

definition plan_step_status_value :: "plan_step_status \<Rightarrow> string" where
  "plan_step_status_value s = (case s of Pt_pending \<Rightarrow> ''pending'' | Pt_in_progress \<Rightarrow> ''in_progress''
     | Pt_completed \<Rightarrow> ''completed'')"

section \<open>Effects of a tool result\<close>

definition patch_effect_json :: "patch_effect \<Rightarrow> json" where
  "patch_effect_json e = jobj [(''workspace_id'', juuid (pe_workspace_id e)),
     (''plan_id'', juuid (pe_plan_id e)), (''request_id'', JStr (pe_request_id e)),
     (''approval_fingerprint'', JStr (pe_approval_fingerprint e)),
     (''state'', JStr (patch_state_value (pe_state e))),
     (''origin'', JStr (origin_value (pe_origin e)))]"

definition member_effect_json :: "batch_member_effect \<Rightarrow> json" where
  "member_effect_json m = jobj [(''plan_id'', juuid (be_plan_id m)),
     (''state'', JStr (patch_state_value (be_state m))),
     (''effect'', JStr (member_effect_value (be_effect m))),
     (''error_code'', jopt JStr (be_error_code m))]"

definition execution_json :: "batch_execution_result \<Rightarrow> json" where
  "execution_json r = jobj [(''run'', run_record_json (br_run r)),
     (''members'', JArr (map member_effect_json (br_members r))),
     (''effect'', JStr (batch_effect_value (br_effect r)))]"

definition patch_batch_effect_json :: "patch_batch_effect \<Rightarrow> json" where
  "patch_batch_effect_json e = jobj [(''workspace_id'', juuid (pbe_workspace_id e)),
     (''batch_id'', juuid (pbe_batch_id e)), (''request_id'', JStr (pbe_request_id e)),
     (''approval_fingerprint'', JStr (pbe_approval_fingerprint e)),
     (''origin'', JStr (origin_value (pbe_origin e))),
     (''execution'', jopt execution_json (pbe_execution e))]"

text \<open>\<^verbatim>\<open>PatchBatchEffect.bound_execution\<close> and the contracts of the nested result.\<close>

definition patch_batch_effect_ok :: "patch_batch_effect \<Rightarrow> bool" where
  "patch_batch_effect_ok e =
     (is_digest (pbe_request_id e) \<and> is_digest (pbe_approval_fingerprint e)
      \<and> (case pbe_execution e of None \<Rightarrow> True
         | Some r \<Rightarrow> batch_execution_result_ok r \<and> rr_phase (br_run r) = Rp_finished
             \<and> rr_workspace_id (br_run r) = pbe_workspace_id e
             \<and> rr_batch_id (br_run r) = pbe_batch_id e)
      \<and> length (json_dumps (patch_batch_effect_json e)) \<le> 8192)"

definition process_effect_json :: "process_effect \<Rightarrow> json" where
  "process_effect_json e = jobj [(''plan_fingerprint'', JStr (px_plan_fingerprint e)),
     (''action_id'', juuid (px_action_id e)),
     (''action_fingerprint'', JStr (px_action_fingerprint e)),
     (''status'', JStr (action_status_value (px_status e))),
     (''result_fingerprint'', jopt JStr (px_result_fingerprint e)),
     (''origin'', JStr (origin_value (px_origin e)))]"

definition trusted_action_effect_json :: "trusted_action_effect \<Rightarrow> json" where
  "trusted_action_effect_json e =
     jobj [(''spec_version'', JStr ''harnessix.agent-trusted-action-effect/v1''),
     (''plan_id'', juuid (ta_plan_id e)), (''plan_fingerprint'', JStr (ta_plan_fingerprint e)),
     (''state'', JStr (trusted_state_value (ta_state e))),
     (''origin'', JStr (origin_value (ta_origin e))),
     (''artifact_sha256'', jopt JStr (ta_artifact_sha256 e))]"

text \<open>A field that the serializer drops when it is empty.\<close>

definition jfield :: "string \<Rightarrow> ('a \<Rightarrow> json) \<Rightarrow> 'a option \<Rightarrow> (string \<times> json) list" where
  "jfield k f x = (case x of None \<Rightarrow> [] | Some y \<Rightarrow> [(k, f y)])"

definition tool_result_json :: "tool_result_content \<Rightarrow> json" where
  "tool_result_json r = jobj ([(''kind'', JStr ''tool_result''), (''call_id'', juuid (tr_call_id r)),
     (''outcome'', JStr (result_outcome_value (tr_outcome r))), (''output'', json_mode (tr_output r)),
     (''error'', jopt failure_json (tr_error r)), (''action_id'', jopt juuid (tr_action_id r))]
     @ jfield ''patch'' patch_effect_json (tr_patch r)
     @ jfield ''patch_batch'' patch_batch_effect_json (tr_patch_batch r)
     @ jfield ''process'' process_effect_json (tr_process r)
     @ jfield ''trusted_action'' trusted_action_effect_json (tr_trusted_action r)
     @ jfield ''diff_artifact'' artifact_json (tr_diff_artifact r))"

section \<open>Calls, texts, approvals\<close>

definition text_json :: "text_content \<Rightarrow> json" where
  "text_json t = jobj [(''kind'', JStr (text_kind_value (tx_kind t))), (''text'', JStr (tx_text t))]"

definition tool_call_json :: "tool_call_content \<Rightarrow> json" where
  "tool_call_json c = jobj [(''kind'', JStr ''tool_call''), (''call_id'', juuid (tc_call_id c)),
     (''provider_call_id'', JStr (tc_provider_call_id c)), (''tool'', JStr (tc_tool c)),
     (''tool_version'', JStr (tc_tool_version c)),
     (''effect_class'', JStr (effect_class_value (tc_effect_class c))),
     (''arguments'', json_mode (tc_arguments c)),
     (''requires_approval'', JBool (tc_requires_approval c)),
     (''tool_fingerprint'', jopt JStr (tc_tool_fingerprint c))]"

definition rejection_json :: "rejection_content \<Rightarrow> json" where
  "rejection_json c = jobj [(''kind'', JStr ''tool_call_rejection''), (''call_id'', juuid (rj_call_id c)),
     (''provider_call_id'', JStr (rj_provider_call_id c)),
     (''model_step'', JInt (int (rj_model_step c))),
     (''reason'', JStr (rejection_reason_value (rj_reason c)))]"

definition approval_record_json :: "approval_record \<Rightarrow> json" where
  "approval_record_json d = jobj
     [(''outcome'', JStr (case ar_outcome d of APPROVED \<Rightarrow> ''approved'' | REJECTED \<Rightarrow> ''rejected'')),
      (''actor'', JStr (ar_actor d)), (''reason'', jopt JStr (ar_reason d)),
      (''request_fingerprint'', JStr (ar_request_fingerprint d)),
      (''decided_at'', JStr (iso_utc (ar_decided_at d)))]"

definition approval_json :: "approval_content \<Rightarrow> json" where
  "approval_json c = (case c of
     ApprovalRequest a \<Rightarrow> jobj [(''kind'', JStr ''approval_request''),
       (''approval_id'', juuid (aq_approval_id a)), (''call_id'', juuid (aq_call_id a)),
       (''request_fingerprint'', JStr (aq_request_fingerprint a)),
       (''decision'', jopt approval_record_json (aq_decision a)),
       (''policy_version'', JStr ''kernel-read-only/v1'')]
   | PatchApproval a \<Rightarrow> jobj [(''kind'', JStr ''patch_approval_request''),
       (''policy_version'', JStr ''kernel-managed-patch/v1''),
       (''approval_id'', juuid (pa_approval_id a)), (''call_id'', juuid (pa_call_id a)),
       (''plan'', jobj (patch_plan_fields (pa_plan a)
          @ [(''approval_fingerprint'', JStr (mp_approval_fingerprint (pa_plan a)))])),
       (''request_fingerprint'', JStr (pa_request_fingerprint a)),
       (''decision'', jopt approval_record_json (pa_decision a))]
   | PatchBatchApproval a \<Rightarrow> jobj ([(''kind'', JStr ''patch_batch_approval_request''),
       (''policy_version'', JStr ''kernel-managed-patch-batch/v1''),
       (''approval_id'', juuid (ba_approval_id a)), (''call_id'', juuid (ba_call_id a)),
       (''plan'', jobj (batch_call_fields (ba_plan a)
          @ [(''approval_fingerprint'', JStr (bc_approval_fingerprint (ba_plan a)))])),
       (''request_fingerprint'', JStr (ba_request_fingerprint a)),
       (''decision'', jopt approval_record_json (ba_decision a))]
       @ jfield ''diff_artifact'' artifact_json (ba_diff_artifact a))
   | ProcessApproval a \<Rightarrow> jobj [(''kind'', JStr ''process_approval_request''),
       (''policy_version'', JStr ''kernel-process-action/v1''),
       (''approval_id'', juuid (pq_approval_id a)), (''call_id'', juuid (pq_call_id a)),
       (''plan'', jobj (process_plan_fields (pq_plan a)
          @ [(''approval_fingerprint'', JStr (ap_approval_fingerprint (pq_plan a)))])),
       (''request_fingerprint'', JStr (pq_request_fingerprint a)),
       (''action_status'', JStr (action_status_value (pq_action_status a))),
       (''decision'', jopt approval_record_json (pq_decision a))]
   | TrustedApproval a \<Rightarrow> jobj ([(''kind'', JStr ''trusted_action_approval_request''),
       (''approval_id'', juuid (tq_approval_id a)), (''call_id'', juuid (tq_call_id a)),
       (''presentation'', JStr (presentation_value (tq_presentation a))),
       (''plan_id'', juuid (tq_plan_id a)), (''plan_fingerprint'', JStr (tq_plan_fingerprint a)),
       (''execution_fingerprint'', JStr (tq_execution_fingerprint a)),
       (''request_fingerprint'', JStr (tq_request_fingerprint a)),
       (''policy_id'', JStr (tq_policy_id a)), (''policy_version'', JStr (tq_policy_version a)),
       (''route_state'', JStr (route_state_value (tq_route_state a))),
       (''decision'', jopt approval_record_json (tq_decision a))]
       @ jfield ''diff_artifact'' artifact_json (tq_diff_artifact a)))"

section \<open>Items\<close>

definition plan_json :: "plan_content \<Rightarrow> json" where
  "plan_json p = jobj [(''kind'', JStr ''plan''),
     (''steps'', JArr (map (\<lambda>s. jobj [(''step_id'', JStr (step_id s)),
        (''description'', JStr (st_description s)),
        (''status'', JStr (plan_step_status_value (st_status s)))]) (pl_steps p))),
     (''supersedes'', jopt juuid (pl_supersedes p))]"

definition content_json :: "item_content \<Rightarrow> json" where
  "content_json c = (case c of
     Text t \<Rightarrow> text_json t | ToolCall t \<Rightarrow> tool_call_json t | Rejection r \<Rightarrow> rejection_json r
   | ToolResult r \<Rightarrow> tool_result_json r | Approval a \<Rightarrow> approval_json a
   | ProcessState s \<Rightarrow> jobj [(''kind'', JStr ''process_action_state''),
       (''call_id'', juuid (psc_call_id s)), (''effect'', process_effect_json (psc_effect s))]
   | QuestionRequest q \<Rightarrow> jobj [(''kind'', JStr ''question_request''),
       (''question_id'', juuid (qr_question_id q)), (''call_id'', juuid (qr_call_id q)),
       (''question'', JStr (qr_question q)), (''options'', JArr (map JStr (qr_options q)))]
   | QuestionAnswer a \<Rightarrow> jobj [(''kind'', JStr ''question_answer''),
       (''question_id'', juuid (qa_question_id a)), (''call_id'', juuid (qa_call_id a)),
       (''answer'', JStr (qa_answer a))]
   | Plan p \<Rightarrow> plan_json p
   | Compaction k \<Rightarrow> jobj [(''kind'', JStr ''context_compaction''),
       (''source_item_ids'', JArr (map juuid (cc_source_item_ids k))),
       (''summary'', JStr (cc_summary k)), (''tokens_before'', JInt (cc_tokens_before k)),
       (''tokens_after'', JInt (cc_tokens_after k)), (''tokenizer'', JStr (cc_tokenizer k))]
   | Error f \<Rightarrow> jobj [(''kind'', JStr ''error''), (''failure'', failure_json f)])"

definition item_json :: "item \<Rightarrow> json" where
  "item_json i = jobj [(''item_id'', juuid (item_id i)),
     (''status'', JStr (item_status_value (i_status i))), (''content'', content_json (i_content i)),
     (''error'', jopt failure_json (i_error i))]"

section \<open>Validity of contents\<close>

text \<open>\<^verbatim>\<open>TrustedActionApprovalRequestContent\<close>: field bounds, \<open>bound_projection\<close> and the 16 KiB dump.\<close>

definition trusted_approval_ok :: "trusted_approval_request \<Rightarrow> bool" where
  "trusted_approval_ok a =
     (list_all is_digest [tq_plan_fingerprint a, tq_execution_fingerprint a, tq_request_fingerprint a]
      \<and> 1 \<le> py_len (tq_policy_id a) \<and> py_len (tq_policy_id a) \<le> 256
      \<and> 1 \<le> py_len (tq_policy_version a) \<and> py_len (tq_policy_version a) \<le> 128
      \<and> bound_projection a
      \<and> length (json_dumps (approval_json (TrustedApproval a))) \<le> 16384)"

definition tool_result_ok :: "tool_result_content \<Rightarrow> bool" where
  "tool_result_ok r =
     (independent_effects r
      \<and> (case tr_error r of None \<Rightarrow> True | Some f \<Rightarrow> agent_failure_ok f)
      \<and> (case tr_patch_batch r of None \<Rightarrow> True | Some e \<Rightarrow> patch_batch_effect_ok e)
      \<and> (case tr_process r of None \<Rightarrow> True | Some e \<Rightarrow> process_effect_ok e)
      \<and> (case tr_diff_artifact r of None \<Rightarrow> True | Some a \<Rightarrow> artifact_ref_ok a))"

definition item_content_ok :: "item_content \<Rightarrow> bool" where
  "item_content_ok c = (case c of
     Text t \<Rightarrow> py_len (tx_text t) \<le> 1000000
   | ToolCall t \<Rightarrow> tool_call_ok t
   | Rejection r \<Rightarrow> 1 \<le> py_len (rj_provider_call_id r) \<and> py_len (rj_provider_call_id r) \<le> 256
       \<and> 1 \<le> rj_model_step r \<and> rj_model_step r \<le> 1000
   | ToolResult r \<Rightarrow> tool_result_ok r
   | Approval a \<Rightarrow> (case a of TrustedApproval t \<Rightarrow> trusted_approval_ok t | _ \<Rightarrow> approval_content_ok a)
   | ProcessState s \<Rightarrow> process_effect_ok (psc_effect s)
   | QuestionRequest q \<Rightarrow> question_ok (qr_question q) (qr_options q)
   | QuestionAnswer a \<Rightarrow> 1 \<le> py_len (qa_answer a) \<and> py_len (qa_answer a) \<le> 4000
   | Plan p \<Rightarrow> plan_content_ok p
   | Compaction k \<Rightarrow> compaction_content_ok k
   | Error f \<Rightarrow> agent_failure_ok f)"

end
