(* ===== verification/Tool_Rejections.thy ===== *)
theory Tool_Rejections
  imports Item_Json
begin

text \<open>
  Catalogue rejections and their fixed results (src/src/harnessix/agent/tool_rejections.py). A
  rejected call never runs: its only possible result is the fixed failure of its reason. The scan
  over the items is modelled as written, with its four sets; \<open>closed_rejections\<close> is the declarative
  reading of what a successful scan means, and the scan is proved to decide it.
\<close>

section \<open>The fixed results\<close>

text \<open>The UTF-8 bytes of the two messages of \<^verbatim>\<open>_REJECTION_FAILURES\<close>.\<close>

definition message_unregistered :: string where
  "message_unregistered =
     [CHR 0xE5, CHR 0xB7, CHR 0xA5, CHR 0xE5, CHR 0x85, CHR 0xB7, CHR 0xE6, CHR 0x9C, CHR 0xAA,
      CHR 0xE6, CHR 0xB3, CHR 0xA8, CHR 0xE5, CHR 0x86, CHR 0x8C]"

definition message_invalid_json :: string where
  "message_invalid_json =
     [CHR 0xE5, CHR 0xB7, CHR 0xA5, CHR 0xE5, CHR 0x85, CHR 0xB7, CHR 0xE5, CHR 0x8F, CHR 0x82,
      CHR 0xE6, CHR 0x95, CHR 0xB0, CHR 0xE4, CHR 0xB8, CHR 0x8D, CHR 0xE6, CHR 0x98, CHR 0xAF,
      CHR 0xE5, CHR 0x90, CHR 0x88, CHR 0xE6, CHR 0xB3, CHR 0x95] @ ''JSON'' @
     [CHR 0xE5, CHR 0xAF, CHR 0xB9, CHR 0xE8, CHR 0xB1, CHR 0xA1, CHR 0xEF, CHR 0xBC, CHR 0x8C,
      CHR 0xE8, CHR 0xB0, CHR 0x83, CHR 0xE7, CHR 0x94, CHR 0xA8, CHR 0xE6, CHR 0x9C, CHR 0xAA,
      CHR 0xE6, CHR 0x89, CHR 0xA7, CHR 0xE8, CHR 0xA1, CHR 0x8C, CHR 0xEF, CHR 0xBC, CHR 0x9B,
      CHR 0xE8, CHR 0xAF, CHR 0xB7, CHR 0xE9, CHR 0x87, CHR 0x8D, CHR 0xE5, CHR 0x8F, CHR 0x91,
      CHR 0xE5, CHR 0xAE, CHR 0x8C, CHR 0xE6, CHR 0x95, CHR 0xB4, CHR 0xE3, CHR 0x80, CHR 0x81,
      CHR 0xE6, CHR 0xAD, CHR 0xA3, CHR 0xE7, CHR 0xA1, CHR 0xAE, CHR 0xE8, CHR 0xBD, CHR 0xAC,
      CHR 0xE4, CHR 0xB9, CHR 0x89, CHR 0xE7, CHR 0x9A, CHR 0x84] @ ''JSON'' @
     [CHR 0xE5, CHR 0x8F, CHR 0x82, CHR 0xE6, CHR 0x95, CHR 0xB0]"

definition REJECTION_FAILURES :: "rejection_reason \<Rightarrow> string \<times> string" where
  "REJECTION_FAILURES reason =
     (case reason of Unregistered_tool \<Rightarrow> (''unknown_tool'', message_unregistered)
      | Invalid_arguments_json \<Rightarrow> (''tool_arguments_invalid_json'', message_invalid_json))"

definition rejection_result :: "uuid \<Rightarrow> rejection_reason \<Rightarrow> tool_result_content" where
  "rejection_result call_id reason =
     (let (code, message) = REJECTION_FAILURES reason
      in \<lparr>tr_call_id = call_id, tr_outcome = Oc_failed, tr_output = JNull,
          tr_error = Some \<lparr>f_code = code, f_message = message, f_retryable = False,
            f_category = Fc_TOOL\<rparr>,
          tr_action_id = None, tr_patch = None, tr_patch_batch = None, tr_process = None,
          tr_trusted_action = None, tr_diff_artifact = None\<rparr>)"

definition require_rejection_result ::
  "tool_result_content \<Rightarrow> rejection_reason option \<Rightarrow> unit result" where
  "require_rejection_result content reason =
    (let reasons = (case reason of None \<Rightarrow> [Unregistered_tool, Invalid_arguments_json]
                    | Some r \<Rightarrow> [r])
     in require (list_ex (\<lambda>r. content = rejection_result (tr_call_id content) r) reasons) (Inr ()))"

section \<open>The scan\<close>

record rejection_scan =
  rs_rejected :: "(uuid \<times> rejection_reason) list"
  rs_settled :: "uuid list"
  rs_ordinary :: "uuid list"
  rs_result_ids :: "uuid list"

definition empty_scan :: rejection_scan where
  "empty_scan = \<lparr>rs_rejected = [], rs_settled = [], rs_ordinary = [], rs_result_ids = []\<rparr>"

definition scan_item :: "rejection_scan \<Rightarrow> item \<Rightarrow> rejection_scan result" where
  "scan_item s item =
    (let complete = (i_status item = Is_COMPLETED \<and> i_error item = None)
     in case i_content item of
          Rejection r \<Rightarrow>
            require (map_of (rs_rejected s) (rj_call_id r) = None
                \<and> rj_call_id r \<notin> set (rs_ordinary s) \<and> rj_call_id r \<notin> set (rs_result_ids s) \<and> complete)
              (Inr (s\<lparr>rs_rejected := (rj_call_id r, rj_reason r) # rs_rejected s\<rparr>))
        | ToolCall c \<Rightarrow>
            require (map_of (rs_rejected s) (tc_call_id c) = None)
              (Inr (s\<lparr>rs_ordinary := tc_call_id c # rs_ordinary s\<rparr>))
        | ToolResult c \<Rightarrow>
            (case map_of (rs_rejected s) (tr_call_id c) of
               None \<Rightarrow> Inr (s\<lparr>rs_result_ids := tr_call_id c # rs_result_ids s\<rparr>)
             | Some reason \<Rightarrow>
                 require (tr_call_id c \<notin> set (rs_result_ids s) \<and> complete)
                   (bindE (require_rejection_result c (Some reason))
                     (\<lambda>_. Inr (s\<lparr>rs_settled := tr_call_id c # rs_settled s,
                                  rs_result_ids := tr_call_id c # rs_result_ids s\<rparr>))))
        | _ \<Rightarrow> Inr s)"

definition require_closed_rejection_items :: "item list \<Rightarrow> unit result" where
  "require_closed_rejection_items items =
     bindE (foldE scan_item empty_scan items)
       (\<lambda>s. require (set (map fst (rs_rejected s)) = set (rs_settled s)) (Inr ()))"

section \<open>What a closed list of items is\<close>

definition called_ids :: "item list \<Rightarrow> uuid list" where
  "called_ids items = List.map_filter (\<lambda>i. case i_content i of ToolCall c \<Rightarrow> Some (tc_call_id c)
     | Rejection r \<Rightarrow> Some (rj_call_id r) | _ \<Rightarrow> None) items"

definition results_for :: "uuid \<Rightarrow> item list \<Rightarrow> item list" where
  "results_for c items =
     filter (\<lambda>i. case i_content i of ToolResult r \<Rightarrow> tr_call_id r = c | _ \<Rightarrow> False) items"

definition committed :: "item \<Rightarrow> bool" where
  "committed i = (i_status i = Is_COMPLETED \<and> i_error i = None)"

definition fixed_result :: "rejection_content \<Rightarrow> item \<Rightarrow> bool" where
  "fixed_result r i =
     (committed i \<and> i_content i = ToolResult (rejection_result (rj_call_id r) (rj_reason r)))"

definition rejection_settled :: "(item list \<Rightarrow> bool) \<Rightarrow> item list \<Rightarrow> item \<Rightarrow> item list \<Rightarrow> bool" where
  "rejection_settled count pre i post =
     (case i_content i of
        Rejection r \<Rightarrow> committed i \<and> rj_call_id r \<notin> set (called_ids (pre @ post))
          \<and> results_for (rj_call_id r) pre = []
          \<and> count (results_for (rj_call_id r) post)
          \<and> list_all (fixed_result r) (results_for (rj_call_id r) post)
      | _ \<Rightarrow> True)"

text \<open>
  Every rejection is committed, its identity is used by no other call, no result precedes it, and
  exactly one result follows it, the fixed failure of its reason.
\<close>

definition closed_rejections :: "item list \<Rightarrow> bool" where
  "closed_rejections items \<longleftrightarrow>
     (\<forall>pre i post. items = pre @ i # post \<longrightarrow> rejection_settled (\<lambda>rs. length rs = 1) pre i post)"

section \<open>The scan decides closedness\<close>

lemma all_splits_snoc:
  "(\<forall>pre i post. xs @ [x] = pre @ i # post \<longrightarrow> P pre i post) \<longleftrightarrow>
     P xs x [] \<and> (\<forall>pre i post. xs = pre @ i # post \<longrightarrow> P pre i (post @ [x]))"
proof (intro iffI allI conjI impI)
  fix pre i post
  assume P: "P xs x [] \<and> (\<forall>pre i post. xs = pre @ i # post \<longrightarrow> P pre i (post @ [x]))"
    and eq: "xs @ [x] = pre @ i # post"
  show "P pre i post"
  proof (cases post rule: rev_cases)
    case Nil
    with eq P show ?thesis by simp
  next
    case (snoc ys y)
    with eq have "xs = pre @ i # ys" "x = y" by simp_all
    with P snoc show ?thesis by blast
  qed
qed auto

definition at_most_one :: "item list \<Rightarrow> bool" where
  "at_most_one rs = (length rs \<le> 1)"

definition partial_rejections :: "item list \<Rightarrow> bool" where
  "partial_rejections items \<longleftrightarrow>
     (\<forall>pre i post. items = pre @ i # post \<longrightarrow> rejection_settled at_most_one pre i post)"

definition rejections_of :: "item list \<Rightarrow> rejection_content list" where
  "rejections_of items = List.map_filter (\<lambda>i. case i_content i of Rejection r \<Rightarrow> Some r | _ \<Rightarrow> None) items"

definition ordinary_ids :: "item list \<Rightarrow> uuid list" where
  "ordinary_ids items =
     List.map_filter (\<lambda>i. case i_content i of ToolCall c \<Rightarrow> Some (tc_call_id c) | _ \<Rightarrow> None) items"

definition result_call_ids :: "item list \<Rightarrow> uuid list" where
  "result_call_ids items =
     List.map_filter (\<lambda>i. case i_content i of ToolResult r \<Rightarrow> Some (tr_call_id r) | _ \<Rightarrow> None) items"

lemma map_filter_snoc:
  "List.map_filter f (xs @ [x]) = List.map_filter f xs @ (case f x of None \<Rightarrow> [] | Some y \<Rightarrow> [y])"
  by (induction xs) (auto simp: List.map_filter_simps split: option.splits)

lemmas snoc_simps = called_ids_def rejections_of_def ordinary_ids_def result_call_ids_def
  results_for_def map_filter_snoc

lemma called_ids_split:
  "set (called_ids items) = set (ordinary_ids items) \<union> rj_call_id ` set (rejections_of items)"
  by (induction items rule: rev_induct) (auto simp: snoc_simps List.map_filter_simps split: item_content.splits)

lemma called_ids_append [simp]: "called_ids (xs @ ys) = called_ids xs @ called_ids ys"
  by (simp add: called_ids_def List.map_filter_def)

lemma scan_lists_Nil [simp]: "called_ids [] = []" "results_for c [] = []"
  by (simp_all add: called_ids_def results_for_def List.map_filter_simps)

lemma called_ids_single:
  "called_ids [x] = (case i_content x of ToolCall c \<Rightarrow> [tc_call_id c]
     | Rejection r \<Rightarrow> [rj_call_id r] | _ \<Rightarrow> [])"
  by (simp add: called_ids_def List.map_filter_simps split: item_content.splits)

lemma results_for_single:
  "results_for c [x] = (case i_content x of ToolResult r \<Rightarrow> if tr_call_id r = c then [x] else []
     | _ \<Rightarrow> [])"
  by (simp add: results_for_def split: item_content.splits)

lemma results_for_append [simp]: "results_for c (xs @ ys) = results_for c xs @ results_for c ys"
  by (simp add: results_for_def)

lemma results_for_Nil_iff: "results_for c items = [] \<longleftrightarrow> c \<notin> set (result_call_ids items)"
  by (induction items rule: rev_induct) (auto simp: snoc_simps List.map_filter_simps split: item_content.splits)

lemma rejections_of_mem: "r \<in> set (rejections_of items) \<longleftrightarrow> (\<exists>i \<in> set items. i_content i = Rejection r)"
  by (induction items rule: rev_induct) (auto simp: snoc_simps List.map_filter_simps split: item_content.splits)

lemma rejections_of_split:
  assumes "r \<in> set (rejections_of items)"
  obtains pre i post where "items = pre @ i # post" and "i_content i = Rejection r"
proof -
  from assms obtain i where "i \<in> set items" "i_content i = Rejection r"
    by (auto simp: rejections_of_mem)
  then show ?thesis using that by (meson split_list)
qed

text \<open>One more item: when does a partially settled list stay partially settled?\<close>

definition fits :: "item list \<Rightarrow> item \<Rightarrow> bool" where
  "fits xs x =
     (case i_content x of
        Rejection r \<Rightarrow> committed x \<and> rj_call_id r \<notin> set (called_ids xs)
          \<and> rj_call_id r \<notin> set (result_call_ids xs)
      | ToolCall c \<Rightarrow> tc_call_id c \<notin> rj_call_id ` set (rejections_of xs)
      | ToolResult c \<Rightarrow> (\<forall>r \<in> set (rejections_of xs). rj_call_id r = tr_call_id c \<longrightarrow>
          tr_call_id c \<notin> set (result_call_ids xs) \<and> fixed_result r x)
      | _ \<Rightarrow> True)"

definition extends_rejection :: "rejection_content \<Rightarrow> item list \<Rightarrow> item \<Rightarrow> bool" where
  "extends_rejection r xs x =
     (case i_content x of
        ToolCall c \<Rightarrow> tc_call_id c \<noteq> rj_call_id r
      | Rejection q \<Rightarrow> rj_call_id q \<noteq> rj_call_id r
      | ToolResult c \<Rightarrow> rj_call_id r = tr_call_id c \<longrightarrow>
          tr_call_id c \<notin> set (result_call_ids xs) \<and> fixed_result r x
      | _ \<Rightarrow> True)"

lemma settled_snoc:
  assumes "i_content i = Rejection r"
  shows "rejection_settled at_most_one pre i (post @ [x]) \<longleftrightarrow>
     rejection_settled at_most_one pre i post \<and> extends_rejection r (pre @ i # post) x"
proof -
  have ids: "rj_call_id r \<notin> set (result_call_ids (pre @ i # post)) \<longleftrightarrow>
      results_for (rj_call_id r) pre = [] \<and> results_for (rj_call_id r) post = []"
    using assms by (simp add: results_for_Nil_iff result_call_ids_def List.map_filter_def)
  show ?thesis
    using assms ids
    by (cases "i_content x")
      (auto simp: rejection_settled_def extends_rejection_def at_most_one_def called_ids_single
        results_for_single)
qed

lemma settled_other:
  "(\<And>r. i_content i \<noteq> Rejection r) \<Longrightarrow> rejection_settled p pre i post"
  by (auto simp: rejection_settled_def split: item_content.splits)

lemma partial_snoc: "partial_rejections (xs @ [x]) \<longleftrightarrow> partial_rejections xs \<and> fits xs x"
proof -
  let ?P = "rejection_settled at_most_one"
  have "(\<forall>pre i post. xs = pre @ i # post \<longrightarrow> ?P pre i (post @ [x])) \<longleftrightarrow>
      partial_rejections xs \<and> (\<forall>r \<in> set (rejections_of xs). extends_rejection r xs x)"
  proof (intro iffI conjI ballI allI impI)
    assume all: "\<forall>pre i post. xs = pre @ i # post \<longrightarrow> ?P pre i (post @ [x])"
    show "partial_rejections xs"
      unfolding partial_rejections_def
    proof (intro allI impI)
      fix pre i post assume "xs = pre @ i # post"
      with all have "?P pre i (post @ [x])" by blast
      then show "?P pre i post"
        by (cases "\<exists>r. i_content i = Rejection r") (auto simp: settled_snoc settled_other)
    qed
    fix r assume "r \<in> set (rejections_of xs)"
    then obtain pre i post where "xs = pre @ i # post" "i_content i = Rejection r"
      by (rule rejections_of_split)
    with all have "?P pre i (post @ [x])" by blast
    with \<open>i_content i = Rejection r\<close> \<open>xs = pre @ i # post\<close> show "extends_rejection r xs x"
      by (simp add: settled_snoc)
  next
    fix pre i post
    assume ok: "partial_rejections xs \<and> (\<forall>r \<in> set (rejections_of xs). extends_rejection r xs x)"
      and eq: "xs = pre @ i # post"
    show "?P pre i (post @ [x])"
    proof (cases "\<exists>r. i_content i = Rejection r")
      case True
      then obtain r where r: "i_content i = Rejection r" ..
      then have "r \<in> set (rejections_of xs)"
        by (auto simp: eq rejections_of_def List.map_filter_def)
      with ok eq r show ?thesis by (auto simp: settled_snoc partial_rejections_def)
    qed (simp add: settled_other)
  qed
  moreover have "?P xs x [] \<and> (\<forall>r \<in> set (rejections_of xs). extends_rejection r xs x) \<longleftrightarrow> fits xs x"
    by (auto simp: rejection_settled_def extends_rejection_def fits_def called_ids_split
        at_most_one_def results_for_Nil_iff split: item_content.splits)
  ultimately show ?thesis
    unfolding partial_rejections_def all_splits_snoc by blast
qed

definition scan_state :: "item list \<Rightarrow> rejection_scan \<Rightarrow> bool" where
  "scan_state xs s \<longleftrightarrow>
     set (rs_rejected s) = (\<lambda>r. (rj_call_id r, rj_reason r)) ` set (rejections_of xs)
     \<and> distinct (map fst (rs_rejected s))
     \<and> set (rs_ordinary s) = set (ordinary_ids xs)
     \<and> set (rs_result_ids s) = set (result_call_ids xs)
     \<and> set (rs_settled s) = rj_call_id ` set (rejections_of xs) \<inter> set (result_call_ids xs)"

lemma rejected_lookup:
  assumes "scan_state xs s"
  shows "map_of (rs_rejected s) c = None \<longleftrightarrow> c \<notin> rj_call_id ` set (rejections_of xs)"
    and "map_of (rs_rejected s) c = Some reason \<longleftrightarrow>
      (\<exists>r \<in> set (rejections_of xs). rj_call_id r = c \<and> rj_reason r = reason)"
  using assms by (auto simp: scan_state_def map_of_eq_None_iff image_image image_iff)

lemma scan_item_ok:
  assumes st: "scan_state xs s"
  shows "(\<exists>t. scan_item s x = Inr t) \<longleftrightarrow> fits xs x"
    and "scan_item s x = Inr t \<Longrightarrow> scan_state (xs @ [x]) t"
proof -
  show "(\<exists>t. scan_item s x = Inr t) \<longleftrightarrow> fits xs x"
  proof (cases "i_content x")
    case (ToolResult c)
    show ?thesis
    proof (cases "map_of (rs_rejected s) (tr_call_id c)")
      case None
      then have "\<forall>r \<in> set (rejections_of xs). rj_call_id r \<noteq> tr_call_id c"
        by (auto simp: rejected_lookup(1) [OF st] image_iff)
      with ToolResult None show ?thesis
        by (simp add: scan_item_def fits_def)
    next
      case (Some reason)
      define Q where "Q \<longleftrightarrow> c = rejection_result (tr_call_id c) reason"
      from Some obtain r where r: "r \<in> set (rejections_of xs)" "rj_call_id r = tr_call_id c"
        using rejected_lookup(2) [OF st] by blast
      have reasons: "rj_reason r = reason" if "r \<in> set (rejections_of xs)" "rj_call_id r = tr_call_id c" for r
        using Some rejected_lookup(2) [OF st, of "tr_call_id c" "rj_reason r"] that by auto
      have "fixed_result r x \<longleftrightarrow> committed x \<and> Q"
        if "r \<in> set (rejections_of xs)" "rj_call_id r = tr_call_id c" for r
        unfolding fixed_result_def ToolResult that(2) reasons [OF that] Q_def by blast
      then have "fits xs x \<longleftrightarrow> tr_call_id c \<notin> set (result_call_ids xs) \<and> committed x \<and> Q"
        using r ToolResult by (auto simp: fits_def)
      moreover have "(\<exists>t. scan_item s x = Inr t) \<longleftrightarrow>
          tr_call_id c \<notin> set (result_call_ids xs) \<and> committed x \<and> Q"
        using ToolResult Some st
        by (simp add: scan_item_def require_rejection_result_def scan_state_def committed_def
            Q_def [symmetric])
      ultimately show ?thesis by blast
    qed
  qed (use st in \<open>auto simp: scan_item_def fits_def rejected_lookup called_ids_split committed_def
      scan_state_def\<close>)
  assume scan: "scan_item s x = Inr t"
  show "scan_state (xs @ [x]) t"
  proof (cases "i_content x")
    case (ToolResult c)
    show ?thesis
    proof (cases "map_of (rs_rejected s) (tr_call_id c)")
      case None
      then have "tr_call_id c \<notin> rj_call_id ` set (rejections_of xs)"
        using rejected_lookup(1) [OF st] by blast
      with ToolResult None scan st show ?thesis
        by (auto simp: scan_item_def scan_state_def snoc_simps Let_def)
    next
      case (Some reason)
      then have "tr_call_id c \<in> rj_call_id ` set (rejections_of xs)"
        using rejected_lookup(1) [OF st, of "tr_call_id c"] by auto
      with ToolResult Some scan st show ?thesis
        by (auto simp: scan_item_def scan_state_def snoc_simps Let_def)
    qed
  next
    case (Rejection r)
    with scan have "rj_call_id r \<notin> set (rs_result_ids s)" and fresh: "map_of (rs_rejected s) (rj_call_id r) = None"
      and t: "t = s\<lparr>rs_rejected := (rj_call_id r, rj_reason r) # rs_rejected s\<rparr>"
      by (auto simp: scan_item_def Let_def)
    with st Rejection show ?thesis
      by (auto simp: scan_state_def snoc_simps map_of_eq_None_iff)
  qed (use st scan in \<open>auto simp: scan_item_def scan_state_def snoc_simps Let_def\<close>)
qed

lemma scan_correct:
  "(\<exists>s. foldE scan_item empty_scan xs = Inr s) \<longleftrightarrow> partial_rejections xs"
  "foldE scan_item empty_scan xs = Inr s \<Longrightarrow> scan_state xs s"
proof (induction xs arbitrary: s rule: rev_induct)
  case Nil
  { case 1 show ?case by (simp add: partial_rejections_def) }
  { case 2 then have "s = empty_scan" by simp
    then show ?case
      by (simp add: scan_state_def empty_scan_def rejections_of_def ordinary_ids_def
          result_call_ids_def List.map_filter_simps) }
next
  case (snoc x xs)
  { case 1
    show ?case
      unfolding partial_snoc snoc.IH(1) [symmetric]
      using snoc.IH(2) scan_item_ok(1) by (fastforce simp: foldE_append) }
  { case 2
    then obtain t where "foldE scan_item empty_scan xs = Inr t" "scan_item t x = Inr s"
      by (auto simp: foldE_append)
    then show ?case using snoc.IH(2) scan_item_ok(2) by blast }
qed

text \<open>With the final comparison of the two sets every rejection has its one result.\<close>

lemma closed_iff_partial:
  "closed_rejections xs \<longleftrightarrow>
     partial_rejections xs \<and> (\<forall>r \<in> set (rejections_of xs). rj_call_id r \<in> set (result_call_ids xs))"
proof -
  have one: "rejection_settled (\<lambda>rs. length rs = 1) pre i post \<longleftrightarrow>
      rejection_settled at_most_one pre i post
      \<and> (\<forall>r. i_content i = Rejection r \<longrightarrow> rj_call_id r \<in> set (result_call_ids (pre @ i # post)))"
    for pre i post
  proof (cases "i_content i")
    case (Rejection r)
    then have "rj_call_id r \<in> set (result_call_ids (pre @ i # post)) \<longleftrightarrow>
        results_for (rj_call_id r) pre \<noteq> [] \<or> results_for (rj_call_id r) post \<noteq> []"
      by (auto simp: results_for_Nil_iff result_call_ids_def List.map_filter_def)
    with Rejection show ?thesis
      by (cases "results_for (rj_call_id r) post")
        (auto simp: rejection_settled_def at_most_one_def)
  qed (simp_all add: rejection_settled_def)
  have mem: "r \<in> set (rejections_of xs) \<longleftrightarrow> (\<exists>pre i post. xs = pre @ i # post \<and> i_content i = Rejection r)"
    for r
    by (metis rejections_of_mem in_set_conv_decomp)
  show ?thesis
    unfolding closed_rejections_def partial_rejections_def one
    unfolding Ball_def mem by blast
qed

lemma require_closed_rejection_items_iff:
  "require_closed_rejection_items items = Inr () \<longleftrightarrow> closed_rejections items"
proof (cases "partial_rejections items")
  case True
  then obtain s where s: "foldE scan_item empty_scan items = Inr s"
    using scan_correct(1) by blast
  then have st: "scan_state items s" by (rule scan_correct(2))
  then have "set (map fst (rs_rejected s)) = rj_call_id ` set (rejections_of items)"
    by (auto simp: scan_state_def image_image)
  with st have "set (map fst (rs_rejected s)) = set (rs_settled s) \<longleftrightarrow>
      (\<forall>r \<in> set (rejections_of items). rj_call_id r \<in> set (result_call_ids items))"
    by (auto simp: scan_state_def)
  with True s show ?thesis
    by (simp add: require_closed_rejection_items_def closed_iff_partial)
next
  case False
  then show ?thesis
    using scan_correct(1) [of items] by (auto simp: require_closed_rejection_items_def closed_iff_partial)
qed

lemma scan_item_error: "scan_item s x = Inl e \<Longrightarrow> e = invalid_event"
  by (auto simp: scan_item_def require_rejection_result_def require_def bindE_def Let_def
      split: item_content.splits option.splits if_splits)

lemma scan_error: "foldE scan_item s xs = Inl e \<Longrightarrow> e = invalid_event"
proof (induction xs arbitrary: s)
  case (Cons x xs)
  then show ?case by (cases "scan_item s x") (auto dest: scan_item_error)
qed simp

lemma require_closed_rejection_items_cases:
  "require_closed_rejection_items items = (if closed_rejections items then Inr () else Inl invalid_event)"
proof (cases "require_closed_rejection_items items")
  case (Inl e)
  then have "e = invalid_event"
    by (cases "foldE scan_item empty_scan items")
      (auto simp: require_closed_rejection_items_def require_def scan_error split: if_splits)
  with Inl show ?thesis
    using require_closed_rejection_items_iff [of items] by auto
next
  case (Inr u)
  then show ?thesis
    using require_closed_rejection_items_iff [of items] by auto
qed

section \<open>Property\<close>

text \<open>C21. The scan over the items of a Turn accepts exactly the closed lists: every rejection is
  committed, shares its call identity with no other call, has no earlier result and exactly one later
  result, which is the fixed failure of its reason. Every other list is refused with
  \<open>invalid_event\<close>.\<close>

theorem rejection_scan_decides:
  "require_closed_rejection_items items =
     (if closed_rejections items then Inr () else Inl invalid_event)"
  by (rule require_closed_rejection_items_cases)

end
