(* ===== verification/Agent_Thread.thy ===== *)
theory Agent_Thread
  imports Tool_Rejections
begin

text \<open>
  Threads, Turns and the events of a transcript (src/src/harnessix/agent/models.py, second half):
  the read-only history a fork inherits, compaction windows and their linear chain, the Turn with
  its derived accounts, the Thread with its two class validators, and the event payloads.
\<close>

section \<open>Inherited history\<close>

record fork_artifact_owner =
  fo_artifact_id :: uuid
  fo_owner_thread_id :: uuid

text \<open>
  The two snapshot versions differ in \<^verbatim>\<open>_allow_rejections\<close> only, kept here as a field:
  \<open>True\<close> for \<^verbatim>\<open>ThreadForkSnapshotV2\<close>.
\<close>

record fork_snapshot =
  fs_allow_rejections :: bool
  fs_request_id :: string
  fs_source_thread_id :: uuid
  fs_source_sequence :: nat
  fs_through_turn_id :: "uuid option"
  fs_source_compaction_window_id :: "uuid option"
  fs_source_thread_sha256 :: string
  fs_source_history_sha256 :: string
  fs_view_history_sha256 :: string
  fs_tool_result_view_policy :: tool_result_view_policy
  fs_items :: "item list"
  fs_tool_result_view_decisions :: "view_decision list"
  fs_artifact_owners :: "fork_artifact_owner list"

record fork_scan =
  fk_calls :: "uuid list"
  fk_settled :: "uuid list"
  fk_result_ids :: "uuid list"

definition empty_fork_scan :: fork_scan where
  "empty_fork_scan = \<lparr>fk_calls = [], fk_settled = [], fk_result_ids = []\<rparr>"

text \<open>One turn of the loop of \<^verbatim>\<open>safe_history\<close>.\<close>

definition fork_item :: "bool \<Rightarrow> fork_scan \<Rightarrow> item \<Rightarrow> fork_scan result" where
  "fork_item allow_rejections s item =
     check (i_status item = Is_COMPLETED
         \<and> (case i_content item of Text _ \<Rightarrow> True | ToolCall _ \<Rightarrow> True | ToolResult _ \<Rightarrow> True
            | Rejection _ \<Rightarrow> allow_rejections | _ \<Rightarrow> False)) ValueError
     (case i_content item of
        ToolCall c \<Rightarrow> check (tc_call_id c \<notin> set (fk_calls s)) ValueError
          (Inr (s\<lparr>fk_calls := tc_call_id c # fk_calls s\<rparr>))
      | Rejection c \<Rightarrow> check (rj_call_id c \<notin> set (fk_calls s)) ValueError
          (Inr (s\<lparr>fk_calls := rj_call_id c # fk_calls s\<rparr>))
      | ToolResult c \<Rightarrow>
          check (tr_call_id c \<in> set (fk_calls s) \<and> tr_call_id c \<notin> set (fk_settled s)) ValueError
          (Inr (s\<lparr>fk_settled := tr_call_id c # fk_settled s,
                  fk_result_ids := item_id item # fk_result_ids s\<rparr>))
      | _ \<Rightarrow> Inr s)"

definition safe_history :: "fork_snapshot \<Rightarrow> unit result" where
  "safe_history f =
    (let items = fs_items f; decisions = fs_tool_result_view_decisions f;
         owner_ids = map fo_artifact_id (fs_artifact_owners f);
         referenced_ids = concat (map (\<lambda>d. map (\<lambda>b. artifact_id (ab_artifact b)) (vd_references d)) decisions);
         encoded = json_dumps (JArr (map item_json items))
     in check (distinct (map item_id items)) ValueError
        (bindE (foldE (fork_item (fs_allow_rejections f)) empty_fork_scan items) (\<lambda>s.
         check (set (fk_calls s) = set (fk_settled s)) ValueError
         (check (fs_allow_rejections f \<longrightarrow> require_closed_rejection_items items = Inr ()) ValueError
          (check (distinct (map vd_item_id decisions)
              \<and> set (map vd_item_id decisions) = set (fk_result_ids s)) ValueError
           (check (distinct owner_ids \<and> set owner_ids = set referenced_ids) ValueError
            (check (length encoded \<le> 8388608) ValueError
             (check (sha256_hex encoded = fs_source_history_sha256 f) ValueError (Inr ())))))))))"

definition fork_snapshot_ok :: "fork_snapshot \<Rightarrow> bool" where
  "fork_snapshot_ok f =
     (1 \<le> py_len (fs_request_id f) \<and> py_len (fs_request_id f) \<le> 256 \<and> 1 \<le> fs_source_sequence f
      \<and> list_all is_digest [fs_source_thread_sha256 f, fs_source_history_sha256 f,
          fs_view_history_sha256 f]
      \<and> view_policy_ok (fs_tool_result_view_policy f)
      \<and> length (fs_items f) \<le> 8192 \<and> list_all (\<lambda>i. item_content_ok (i_content i)) (fs_items f)
      \<and> length (fs_tool_result_view_decisions f) \<le> 8192
      \<and> list_all view_decision_ok (fs_tool_result_view_decisions f)
      \<and> length (fs_artifact_owners f) \<le> 16384
      \<and> safe_history f = Inr ())"

section \<open>Archive and compaction windows\<close>

record archive_record =
  av_archived_event_sequence :: nat
  av_archived_at :: datetime
  av_reason :: "string option"

record compaction_window =
  window_id :: uuid
  w_compaction_id :: uuid
  w_previous_window_id :: "uuid option"
  w_source_finished_event_sequence :: nat
  w_activated_event_sequence :: nat
  w_model_step :: nat
  w_history_item_ids :: "uuid list"
  w_history_sha256 :: string
  w_history_tokens :: int
  w_raw_history_items :: nat
  w_raw_history_last_item_id :: uuid
  w_raw_history_ids_sha256 :: string
  w_activated_at :: datetime

definition compaction_window_ok :: "compaction_window \<Rightarrow> bool" where
  "compaction_window_ok w =
     (3 \<le> w_source_finished_event_sequence w \<and> 4 \<le> w_activated_event_sequence w
      \<and> 1 \<le> w_model_step w \<and> w_model_step w \<le> 1000
      \<and> 2 \<le> length (w_history_item_ids w) \<and> length (w_history_item_ids w) \<le> 8192
      \<and> is_digest (w_history_sha256 w) \<and> is_digest (w_raw_history_ids_sha256 w)
      \<and> 1 \<le> w_history_tokens w \<and> w_history_tokens w \<le> 8388608
      \<and> 1 \<le> w_raw_history_items w \<and> w_raw_history_items w \<le> 8388608
      \<and> w_activated_event_sequence w = w_source_finished_event_sequence w + 1
      \<and> distinct (w_history_item_ids w))"

section \<open>Turns\<close>

datatype execution_mode = Immediate | Deferred

record turn =
  turn_id :: uuid
  t_request_id :: string
  t_request_fingerprint :: string
  t_retry_of_turn_id :: "uuid option"
  t_execution_mode :: execution_mode
  t_status :: turn_status
  t_budget :: budget
  t_trace_context :: "trace_context option"
  t_items :: "item list"
  t_model_steps :: nat
  t_usage_step :: nat
  t_usage :: usage
  t_model_attempts :: "model_attempt list"
  t_compactions :: "compaction_record list"
  t_context_inspections :: "context_inspection list"
  t_tool_result_view_decisions :: "view_decision list"
  t_model_history_inspections :: "inspection_record list"
  t_error :: "agent_failure option"
  t_created_at :: datetime
  t_completed_at :: "datetime option"

definition accounted_attempts :: "turn \<Rightarrow> model_attempt list" where
  "accounted_attempts t = t_model_attempts t @ List.map_filter cr_attempt (t_compactions t)"

definition usage_is_complete :: "turn \<Rightarrow> bool" where
  "usage_is_complete t =
     (0 < t_model_steps t
      \<and> set (map a_step (t_model_attempts t)) = set [1..<t_model_steps t + 1]
      \<and> list_all (\<lambda>a. a_status a \<noteq> At_running \<and> completeness (a_usage a) = Complete)
          (accounted_attempts t)
      \<and> list_all (\<lambda>c. \<not> is_open c) (t_compactions t))"

section \<open>Threads\<close>

record thread =
  thread_id :: uuid
  th_workspace :: string
  th_sequence :: nat
  th_active_turn_id :: "uuid option"
  th_turns :: "turn list"
  th_compaction_windows :: "compaction_window list"
  th_active_compaction_window_id :: "uuid option"
  th_fork_snapshot :: "fork_snapshot option"
  th_archive :: "archive_record option"
  th_created_at :: datetime
  th_updated_at :: datetime

definition require_closed_rejections :: "thread \<Rightarrow> unit result" where
  "require_closed_rejections th =
     bindE (case th_fork_snapshot th of None \<Rightarrow> Inr ()
            | Some f \<Rightarrow> require_closed_rejection_items (fs_items f))
       (\<lambda>_. foldE (\<lambda>_ t. require_closed_rejection_items (t_items t)) () (th_turns th))"

text \<open>
  The loop over the windows of \<^verbatim>\<open>linear_compaction_windows\<close>; the result is the identity of the last
  window, \<open>None\<close> where the loop raises.
\<close>

fun window_chain ::
  "uuid list \<Rightarrow> uuid list \<Rightarrow> uuid option \<Rightarrow> compaction_window list \<Rightarrow> uuid option option" where
  "window_chain ids compactions previous [] = Some previous"
| "window_chain ids compactions previous (w # ws) =
     (if window_id w \<in> set ids \<or> w_compaction_id w \<in> set compactions
         \<or> w_previous_window_id w \<noteq> previous then None
      else window_chain (window_id w # ids) (w_compaction_id w # compactions) (Some (window_id w)) ws)"

definition has_unknown_result :: "item list \<Rightarrow> bool" where
  "has_unknown_result items =
     list_ex (\<lambda>i. case i_content i of ToolResult r \<Rightarrow> tr_outcome r = Oc_unknown | _ \<Rightarrow> False) items"

definition retryable_source :: "turn \<Rightarrow> bool" where
  "retryable_source s =
     (t_status s \<in> {Ts_FAILED, Ts_CANCELLED, Ts_INTERRUPTED} \<and> \<not> has_unknown_result (t_items s))"

text \<open>The loop over the Turns: a retry names its direct predecessor, which may be retried.\<close>

fun retry_chain :: "turn option \<Rightarrow> turn list \<Rightarrow> bool" where
  "retry_chain previous [] = True"
| "retry_chain previous (t # ts) =
     ((case t_retry_of_turn_id t of None \<Rightarrow> True
       | Some source \<Rightarrow> (case previous of None \<Rightarrow> False
           | Some p \<Rightarrow> turn_id p = source \<and> retryable_source p))
      \<and> retry_chain (Some t) ts)"

definition linear_compaction_windows :: "thread \<Rightarrow> bool" where
  "linear_compaction_windows th =
     (window_chain [] [] None (th_compaction_windows th) = Some (th_active_compaction_window_id th)
      \<and> (case th_fork_snapshot th of None \<Rightarrow> True | Some f \<Rightarrow> fs_source_thread_id f \<noteq> thread_id th)
      \<and> (case th_archive th of None \<Rightarrow> True | Some a \<Rightarrow> av_archived_event_sequence a = th_sequence th)
      \<and> retry_chain None (th_turns th))"

text \<open>The two validators of \<^verbatim>\<open>Thread\<close> together.\<close>

definition thread_ok :: "thread \<Rightarrow> bool" where
  "thread_ok th =
     (length (th_compaction_windows th) \<le> 1000 \<and> require_closed_rejections th = Inr ()
      \<and> linear_compaction_windows th)"

section \<open>Events\<close>

datatype reentry_reason = Normal | Context_overflow | Steering | Tool_rejection

record turn_started =
  tn_request_id :: string
  tn_request_fingerprint :: string
  tn_retry_of_turn_id :: "uuid option"
  tn_execution_mode :: execution_mode
  tn_budget :: budget
  tn_trace_context :: "trace_context option"

record turn_state_changed =
  tsc_status :: turn_status
  tsc_error :: "agent_failure option"
  tsc_reason :: reentry_reason

record item_finished =
  fi_item_id :: uuid
  fi_status :: item_status
  fi_content :: item_content
  fi_error :: "agent_failure option"

datatype event_payload =
    ThreadCreated string
  | ThreadForked string fork_snapshot
  | ThreadArchived "string option"
  | TurnStarted turn_started
  | TurnStateChanged turn_state_changed
  | ItemStarted uuid item_content
  | ItemFinished item_finished
  | UsageRecorded nat usage
  | ModelAttemptStarted model_attempt_started
  | ModelUsageObserved model_usage_observed
  | ModelAttemptFinished model_attempt_finished
  | ModelHistoryPrepared inspection_record "view_decision list"
  | CompactionEvent compaction_event
  | CompactionWindowActivated compaction_window
  | ContextPrepared context_inspection

record agent_event =
  schema_version :: nat
  event_id :: uuid
  e_turn_id :: "uuid option"
  occurred_at :: datetime
  payload :: event_payload
  e_thread_id :: uuid
  e_sequence :: nat

definition workspace_ok :: "string \<Rightarrow> bool" where
  "workspace_ok w = (1 \<le> py_len w \<and> py_len w \<le> 4096 \<and> CHR 0x00 \<notin> set w \<and> is_absolute w)"

definition reason_ok :: "string option \<Rightarrow> bool" where
  "reason_ok r = (case r of None \<Rightarrow> True | Some s \<Rightarrow> 1 \<le> py_len s \<and> py_len s \<le> 1000)"

text \<open>Field bounds and validators of the payload classes.\<close>

definition payload_ok :: "event_payload \<Rightarrow> bool" where
  "payload_ok p =
     (case p of
        ThreadCreated w \<Rightarrow> workspace_ok w
      | ThreadForked w f \<Rightarrow> workspace_ok w \<and> fork_snapshot_ok f
      | ThreadArchived r \<Rightarrow> reason_ok r
      | TurnStarted s \<Rightarrow> 1 \<le> py_len (tn_request_id s) \<and> py_len (tn_request_id s) \<le> 256
          \<and> is_digest (tn_request_fingerprint s) \<and> budget_ok (tn_budget s)
      | TurnStateChanged s \<Rightarrow> True
      | ItemStarted _ c \<Rightarrow> item_content_ok c
      | ItemFinished f \<Rightarrow> fi_status f \<noteq> Is_STARTED \<and> item_content_ok (fi_content f)
      | UsageRecorded n u \<Rightarrow> 1 \<le> n \<and> 0 \<le> u_input_tokens u \<and> 0 \<le> u_output_tokens u
      | ModelAttemptStarted a \<Rightarrow> model_attempt_started_ok a
      | ModelUsageObserved o' \<Rightarrow> model_usage_observed_ok o'
      | ModelAttemptFinished f \<Rightarrow> model_attempt_finished_ok f
      | ModelHistoryPrepared i ds \<Rightarrow> inspection_record_ok i \<and> length ds \<le> 8192
          \<and> list_all view_decision_ok ds
      | CompactionEvent c \<Rightarrow> compaction_event_ok c
      | CompactionWindowActivated w \<Rightarrow> compaction_window_ok w
      | ContextPrepared c \<Rightarrow> context_inspection_ok c)"

end
