(* ===== verification/Event_Compatibility.thy ===== *)
theory Event_Compatibility
  imports Agent_Thread
begin

text \<open>
  Version boundaries of the event schema (src/src/harnessix/agent/event_compatibility.py). The five
  functions keep the conditions of the source, each \<open>False\<close> where it raises \<^verbatim>\<open>ValueError\<close>. The
  specification is a single number per payload, the version that introduced it; the conditions are
  proved to say exactly that the event's version is not older.
\<close>

definition item_content_of :: "event_payload \<Rightarrow> item_content option" where
  "item_content_of p =
     (case p of ItemStarted _ c \<Rightarrow> Some c | ItemFinished f \<Rightarrow> Some (fi_content f) | _ \<Rightarrow> None)"

definition content_is :: "(item_content \<Rightarrow> bool) \<Rightarrow> event_payload \<Rightarrow> bool" where
  "content_is P p = (case item_content_of p of None \<Rightarrow> False | Some c \<Rightarrow> P c)"

definition state_change_is :: "(turn_state_changed \<Rightarrow> bool) \<Rightarrow> event_payload \<Rightarrow> bool" where
  "state_change_is P p = (case p of TurnStateChanged s \<Rightarrow> P s | _ \<Rightarrow> False)"

definition turn_start_is :: "(turn_started \<Rightarrow> bool) \<Rightarrow> event_payload \<Rightarrow> bool" where
  "turn_start_is P p = (case p of TurnStarted s \<Rightarrow> P s | _ \<Rightarrow> False)"

definition history_is :: "(inspection_record \<Rightarrow> bool) \<Rightarrow> event_payload \<Rightarrow> bool" where
  "history_is P p = (case p of ModelHistoryPrepared i _ \<Rightarrow> P i | _ \<Rightarrow> False)"

definition context_is :: "(context_inspection \<Rightarrow> bool) \<Rightarrow> event_payload \<Rightarrow> bool" where
  "context_is P p = (case p of ContextPrepared c \<Rightarrow> P c | _ \<Rightarrow> False)"

definition result_is :: "(tool_result_content \<Rightarrow> bool) \<Rightarrow> item_content \<Rightarrow> bool" where
  "result_is P c = (case c of ToolResult r \<Rightarrow> P r | _ \<Rightarrow> False)"

definition approval_is :: "(approval_content \<Rightarrow> bool) \<Rightarrow> item_content \<Rightarrow> bool" where
  "approval_is P c = (case c of Approval a \<Rightarrow> P a | _ \<Rightarrow> False)"

section \<open>The conditions of the source\<close>

definition validate_v20_to_v18 :: "nat \<Rightarrow> event_payload \<Rightarrow> bool" where
  "validate_v20_to_v18 v p =
     (\<not> (v < 20 \<and> content_is (\<lambda>c.
           approval_is (\<lambda>a. case a of TrustedApproval _ \<Rightarrow> True | _ \<Rightarrow> False) c
           \<or> result_is (\<lambda>r. tr_trusted_action r \<noteq> None) c) p)
      \<and> \<not> (v < 19 \<and> content_is (\<lambda>c. case c of QuestionRequest _ \<Rightarrow> True | QuestionAnswer _ \<Rightarrow> True
            | _ \<Rightarrow> False) p)
      \<and> \<not> (v < 19 \<and> state_change_is (\<lambda>s. tsc_reason s \<noteq> Normal \<or> tsc_status s = Ts_WAITING_INPUT) p)
      \<and> \<not> (v < 18 \<and> turn_start_is (\<lambda>s. tn_execution_mode s \<noteq> Immediate) p))"

definition validate_v17_to_v15 :: "nat \<Rightarrow> event_payload \<Rightarrow> bool" where
  "validate_v17_to_v15 v p =
     (\<not> (v < 17 \<and> turn_start_is (\<lambda>s. tn_retry_of_turn_id s \<noteq> None) p)
      \<and> \<not> (v < 16 \<and> (case p of ThreadForked _ _ \<Rightarrow> True | ThreadArchived _ \<Rightarrow> True | _ \<Rightarrow> False))
      \<and> \<not> (v < 15 \<and> ((case p of CompactionWindowActivated _ \<Rightarrow> True | _ \<Rightarrow> False)
            \<or> history_is (\<lambda>i. case i of Inspection_v2 _ _ \<Rightarrow> True | _ \<Rightarrow> False) p)))"

definition validate_v14_to_v9 :: "nat \<Rightarrow> event_payload \<Rightarrow> bool" where
  "validate_v14_to_v9 v p =
     (\<not> (v < 14 \<and> (case p of CompactionEvent _ \<Rightarrow> True | _ \<Rightarrow> False))
      \<and> \<not> (v < 13 \<and> history_is (\<lambda>_. True) p)
      \<and> \<not> (v < 12 \<and> context_is (\<lambda>c. case c of Context_v3 _ _ _ \<Rightarrow> True | _ \<Rightarrow> False) p)
      \<and> \<not> (v < 11 \<and> context_is (\<lambda>c. case c of Context_v2 _ _ \<Rightarrow> True | _ \<Rightarrow> False) p)
      \<and> \<not> (v < 10 \<and> context_is (\<lambda>_. True) p)
      \<and> \<not> (v < 9 \<and> state_change_is (\<lambda>s. tsc_status s = Ts_WAITING_ACTION) p)
      \<and> \<not> (v < 9 \<and> content_is (\<lambda>c.
            approval_is (\<lambda>a. case a of ProcessApproval _ \<Rightarrow> True | _ \<Rightarrow> False) c
            \<or> (case c of ProcessState _ \<Rightarrow> True | _ \<Rightarrow> False)
            \<or> result_is (\<lambda>r. tr_process r \<noteq> None) c) p))"

definition validate_v8_to_v4 :: "nat \<Rightarrow> event_payload \<Rightarrow> bool" where
  "validate_v8_to_v4 v p =
     (\<not> (v < 8 \<and> content_is (\<lambda>c. result_is (\<lambda>r. tr_diff_artifact r \<noteq> None) c
            \<or> approval_is (\<lambda>a. case a of PatchBatchApproval b \<Rightarrow> ba_diff_artifact b \<noteq> None
                | _ \<Rightarrow> False) c) p)
      \<and> \<not> (v < 7 \<and> content_is (\<lambda>c.
            approval_is (\<lambda>a. case a of PatchBatchApproval _ \<Rightarrow> True | _ \<Rightarrow> False) c
            \<or> result_is (\<lambda>r. tr_patch_batch r \<noteq> None) c) p)
      \<and> \<not> (v < 6 \<and> content_is (\<lambda>c.
            approval_is (\<lambda>a. case a of PatchApproval _ \<Rightarrow> True | _ \<Rightarrow> False) c
            \<or> result_is (\<lambda>r. tr_patch r \<noteq> None) c) p)
      \<and> \<not> (v < 5 \<and> (case p of ModelUsageObserved m \<Rightarrow> mo_billing m \<noteq> None | _ \<Rightarrow> False))
      \<and> \<not> (v < 4 \<and> (case p of ModelAttemptStarted _ \<Rightarrow> True | ModelUsageObserved _ \<Rightarrow> True
            | ModelAttemptFinished _ \<Rightarrow> True | _ \<Rightarrow> False)))"

definition validate_v3_to_v1 :: "nat \<Rightarrow> event_payload \<Rightarrow> bool" where
  "validate_v3_to_v1 v p =
     (\<not> (v < 3 \<and> content_is (\<lambda>c. case c of Plan _ \<Rightarrow> True | Compaction _ \<Rightarrow> True | Error _ \<Rightarrow> True
            | _ \<Rightarrow> False) p)
      \<and> (v \<noteq> 1
         \<or> (\<not> state_change_is (\<lambda>s. tsc_status s = Ts_WAITING_APPROVAL) p
            \<and> \<not> content_is (\<lambda>c.
                approval_is (\<lambda>a. case a of ApprovalRequest _ \<Rightarrow> True | _ \<Rightarrow> False) c
                \<or> (case c of ToolCall t \<Rightarrow> tc_requires_approval t \<or> tc_tool_fingerprint t \<noteq> None
                   | _ \<Rightarrow> False)) p)))"

definition validate_event_boundary :: "nat \<Rightarrow> event_payload \<Rightarrow> bool" where
  "validate_event_boundary v p =
     (\<not> (v < 22 \<and> history_is (\<lambda>i. case i of Inspection_v3 _ _ \<Rightarrow> True | _ \<Rightarrow> False) p)
      \<and> \<not> (v < 21 \<and> (content_is (\<lambda>c. case c of Rejection _ \<Rightarrow> True | _ \<Rightarrow> False) p
            \<or> state_change_is (\<lambda>s. tsc_reason s = Tool_rejection) p
            \<or> (case p of ThreadForked _ f \<Rightarrow> fs_allow_rejections f | _ \<Rightarrow> False)))
      \<and> validate_v20_to_v18 v p \<and> validate_v17_to_v15 v p \<and> validate_v14_to_v9 v p
      \<and> validate_v8_to_v4 v p \<and> validate_v3_to_v1 v p)"

text \<open>An event as the store hands it to the reducer: bounds, class validators, version boundary.\<close>

definition event_ok :: "agent_event \<Rightarrow> bool" where
  "event_ok e =
     (1 \<le> schema_version e \<and> schema_version e \<le> 22 \<and> 1 \<le> e_sequence e \<and> payload_ok (payload e)
      \<and> validate_event_boundary (schema_version e) (payload e))"

section \<open>The version that introduced a payload\<close>

definition result_version :: "tool_result_content \<Rightarrow> nat" where
  "result_version r =
     (if tr_trusted_action r \<noteq> None then 20 else if tr_process r \<noteq> None then 9
      else if tr_diff_artifact r \<noteq> None then 8 else if tr_patch_batch r \<noteq> None then 7
      else if tr_patch r \<noteq> None then 6 else 1)"

definition approval_version :: "approval_content \<Rightarrow> nat" where
  "approval_version a =
     (case a of ApprovalRequest _ \<Rightarrow> 2 | PatchApproval _ \<Rightarrow> 6
      | PatchBatchApproval b \<Rightarrow> if ba_diff_artifact b \<noteq> None then 8 else 7
      | ProcessApproval _ \<Rightarrow> 9 | TrustedApproval _ \<Rightarrow> 20)"

definition content_version :: "item_content \<Rightarrow> nat" where
  "content_version c =
     (case c of Text _ \<Rightarrow> 1
      | ToolCall t \<Rightarrow> if tc_requires_approval t \<or> tc_tool_fingerprint t \<noteq> None then 2 else 1
      | Rejection _ \<Rightarrow> 21 | ToolResult r \<Rightarrow> result_version r | Approval a \<Rightarrow> approval_version a
      | ProcessState _ \<Rightarrow> 9 | QuestionRequest _ \<Rightarrow> 19 | QuestionAnswer _ \<Rightarrow> 19
      | Plan _ \<Rightarrow> 3 | Compaction _ \<Rightarrow> 3 | Error _ \<Rightarrow> 3)"

definition state_change_version :: "turn_state_changed \<Rightarrow> nat" where
  "state_change_version s =
     (if tsc_reason s = Tool_rejection then 21
      else if tsc_reason s \<noteq> Normal \<or> tsc_status s = Ts_WAITING_INPUT then 19
      else if tsc_status s = Ts_WAITING_ACTION then 9
      else if tsc_status s = Ts_WAITING_APPROVAL then 2 else 1)"

definition introduced_in :: "event_payload \<Rightarrow> nat" where
  "introduced_in p =
     (case p of
        ThreadCreated _ \<Rightarrow> 1
      | ThreadForked _ f \<Rightarrow> if fs_allow_rejections f then 21 else 16
      | ThreadArchived _ \<Rightarrow> 16
      | TurnStarted s \<Rightarrow> if tn_execution_mode s \<noteq> Immediate then 18
          else if tn_retry_of_turn_id s \<noteq> None then 17 else 1
      | TurnStateChanged s \<Rightarrow> state_change_version s
      | ItemStarted _ c \<Rightarrow> content_version c
      | ItemFinished f \<Rightarrow> content_version (fi_content f)
      | UsageRecorded _ _ \<Rightarrow> 1
      | ModelAttemptStarted _ \<Rightarrow> 4
      | ModelUsageObserved m \<Rightarrow> if mo_billing m \<noteq> None then 5 else 4
      | ModelAttemptFinished _ \<Rightarrow> 4
      | ModelHistoryPrepared i _ \<Rightarrow>
          (case i of Inspection_v1 _ \<Rightarrow> 13 | Inspection_v2 _ _ \<Rightarrow> 15 | Inspection_v3 _ _ \<Rightarrow> 22)
      | CompactionEvent _ \<Rightarrow> 14
      | CompactionWindowActivated _ \<Rightarrow> 15
      | ContextPrepared c \<Rightarrow>
          (case c of Context_v1 _ \<Rightarrow> 10 | Context_v2 _ _ \<Rightarrow> 11 | Context_v3 _ _ _ \<Rightarrow> 12))"

lemmas boundary_defs = validate_event_boundary_def validate_v20_to_v18_def validate_v17_to_v15_def
  validate_v14_to_v9_def validate_v8_to_v4_def validate_v3_to_v1_def content_is_def
  item_content_of_def state_change_is_def turn_start_is_def history_is_def context_is_def

lemma content_payload:
  assumes "item_content_of p = Some c"
  shows "content_is P p = P c" "state_change_is Q p = False" "turn_start_is R p = False"
    "history_is H p = False" "context_is K p = False"
    "introduced_in p = content_version c"
    "(\<exists>i. p = ItemStarted i c) \<or> (\<exists>f. p = ItemFinished f \<and> fi_content f = c)"
  using assms
  by (auto simp: item_content_of_def content_is_def state_change_is_def turn_start_is_def
      history_is_def context_is_def introduced_in_def split: event_payload.splits)

lemma content_boundary:
  assumes "1 \<le> v" and c: "item_content_of p = Some c"
  shows "validate_event_boundary v p \<longleftrightarrow> content_version c \<le> v"
proof -
  have other: "(case p of ThreadForked w f \<Rightarrow> G f | _ \<Rightarrow> False) = False"
    "(case p of ThreadForked w f \<Rightarrow> True | ThreadArchived r \<Rightarrow> True | _ \<Rightarrow> False) = False"
    "(case p of CompactionWindowActivated w \<Rightarrow> True | _ \<Rightarrow> False) = False"
    "(case p of CompactionEvent e \<Rightarrow> True | _ \<Rightarrow> False) = False"
    "(case p of ModelUsageObserved m \<Rightarrow> B m | _ \<Rightarrow> False) = False"
    "(case p of ModelAttemptStarted a \<Rightarrow> True | ModelUsageObserved m \<Rightarrow> True
       | ModelAttemptFinished f \<Rightarrow> True | _ \<Rightarrow> False) = False" for G B
    using content_payload(7) [OF c] by auto
  show ?thesis
    unfolding validate_event_boundary_def validate_v20_to_v18_def validate_v17_to_v15_def
      validate_v14_to_v9_def validate_v8_to_v4_def validate_v3_to_v1_def
      content_payload(1-5) [OF c] other
    using assms(1)
    by (cases c) (auto simp: content_version_def result_is_def approval_is_def result_version_def
        approval_version_def split: approval_content.splits)
qed

text \<open>C22. Every payload of the event schema has one version that introduced it, and
  \<open>validate_event_boundary\<close> accepts an event exactly when the event claims that version or a
  later one; so the union of the five groups of version checks is one threshold per payload and
  an event stays acceptable when the schema version grows.\<close>

theorem event_boundary_threshold:
  assumes "1 \<le> v"
  shows "validate_event_boundary v p \<longleftrightarrow> introduced_in p \<le> v"
proof (cases "item_content_of p")
  case None
  with assms show ?thesis
    by (cases p)
      (auto simp: boundary_defs introduced_in_def state_change_version_def
        split: inspection_record.splits context_inspection.splits)
next
  case (Some c)
  with assms show ?thesis
    by (simp add: content_boundary content_payload(6))
qed

theorem event_boundary_threshold_witness:
  "validate_event_boundary 21 (ThreadArchived None) \<longleftrightarrow> introduced_in (ThreadArchived None) \<le> 21"
  by (rule event_boundary_threshold) simp

end
