(* ===== verification/Search_Contracts.thy ===== *)
theory Search_Contracts
  imports Domain_Models
begin

text \<open>
  Result contracts of the search tools (src/src/harnessix/tools/search_contracts.py). The model view
  of an oversized search result keeps its metadata only if the preview satisfies one of them.
\<close>

definition MAX_SEARCH_ENTRIES :: int where "MAX_SEARCH_ENTRIES = 10000"
definition MAX_SEARCH_FILE_BYTES :: int where "MAX_SEARCH_FILE_BYTES = 2 * 1024 * 1024"
definition MAX_SEARCH_TOTAL_BYTES :: int where "MAX_SEARCH_TOTAL_BYTES = 16 * 1024 * 1024"
definition MAX_MATCH_BYTES :: nat where "MAX_MATCH_BYTES = 384"
definition MAX_GREP_CONTEXT_LINES :: nat where "MAX_GREP_CONTEXT_LINES = 3"

record search_stats =
  entries_scanned :: int
  files_read :: int
  bytes_read :: int
  ignored_entries :: int
  unreadable_entries :: int
  oversized_files :: int
  invalid_utf8_files :: int
  binary_files :: int
  long_lines :: int

definition search_stats_ok :: "search_stats \<Rightarrow> bool" where
  "search_stats_ok s =
     (0 \<le> entries_scanned s \<and> entries_scanned s \<le> MAX_SEARCH_ENTRIES
      \<and> 0 \<le> files_read s \<and> files_read s \<le> MAX_SEARCH_ENTRIES
      \<and> 0 \<le> bytes_read s \<and> bytes_read s \<le> MAX_SEARCH_TOTAL_BYTES
      \<and> list_all (\<lambda>n. 0 \<le> n) [ignored_entries s, unreadable_entries s, oversized_files s,
          invalid_utf8_files s, binary_files s, long_lines s])"

definition has_gaps :: "search_stats \<Rightarrow> bool" where
  "has_gaps s = list_ex (\<lambda>n. n \<noteq> 0) [unreadable_entries s, oversized_files s, invalid_utf8_files s,
     binary_files s, long_lines s]"

datatype truncation_reason = Result_limit | Output_limit

record search_output =
  so_path :: string
  so_stats :: search_stats
  so_scan_complete :: bool
  so_truncated :: bool
  so_truncation_reason :: "truncation_reason option"

definition validate_completeness :: "search_output \<Rightarrow> bool" where
  "validate_completeness o' =
     (search_stats_ok (so_stats o')
      \<and> so_truncated o' = (so_truncation_reason o' \<noteq> None)
      \<and> so_scan_complete o' = (\<not> so_truncated o' \<and> \<not> has_gaps (so_stats o')))"

text \<open>\<^verbatim>\<open>xs == sorted(set(xs))\<close>: strictly increasing.\<close>

record glob_output =
  go_base :: search_output
  go_paths :: "string list"

definition glob_output_ok :: "glob_output \<Rightarrow> bool" where
  "glob_output_ok g =
     (validate_completeness (go_base g) \<and> length (go_paths g) \<le> 200
      \<and> sorted_wrt (<) (go_paths g) \<and> \<not> (so_truncated (go_base g) \<and> go_paths g = []))"

record grep_context_line =
  gl_text :: string
  gl_text_truncated :: bool

record grep_context =
  gc_start_line :: int
  gc_lines :: "grep_context_line list"

definition grep_context_ok :: "grep_context \<Rightarrow> bool" where
  "grep_context_ok c =
     (1 \<le> gc_start_line c \<and> 1 \<le> length (gc_lines c)
      \<and> length (gc_lines c) \<le> 2 * MAX_GREP_CONTEXT_LINES + 1
      \<and> list_all (\<lambda>l. length (gl_text l) \<le> MAX_MATCH_BYTES \<and> CHR 0x0A \<notin> set (gl_text l)) (gc_lines c))"

record grep_match =
  gm_path :: string
  gm_line :: int
  gm_text :: string
  gm_text_truncated :: bool
  gm_revision :: string
  gm_context :: "grep_context option"

text \<open>\<^verbatim>\<open>context_contains_same_match\<close>.\<close>

definition context_contains_same_match :: "grep_match \<Rightarrow> bool" where
  "context_contains_same_match m =
     (case gm_context m of None \<Rightarrow> True
      | Some c \<Rightarrow>
         (let offset = gm_line m - gc_start_line c; count = int (length (gc_lines c))
          in 0 \<le> offset \<and> offset < count \<and> offset \<le> int MAX_GREP_CONTEXT_LINES
             \<and> count - offset - 1 \<le> int MAX_GREP_CONTEXT_LINES
             \<and> gl_text (gc_lines c ! nat offset) = gm_text m
             \<and> gl_text_truncated (gc_lines c ! nat offset) = gm_text_truncated m))"

definition grep_match_ok :: "grep_match \<Rightarrow> bool" where
  "grep_match_ok m =
     (1 \<le> py_len (gm_path m) \<and> py_len (gm_path m) \<le> 1024 \<and> 1 \<le> gm_line m
      \<and> length (gm_text m) \<le> MAX_MATCH_BYTES \<and> is_digest (gm_revision m)
      \<and> (case gm_context m of None \<Rightarrow> True | Some c \<Rightarrow> grep_context_ok c)
      \<and> context_contains_same_match m)"

definition position_less :: "grep_match \<Rightarrow> grep_match \<Rightarrow> bool" where
  "position_less a b = (gm_path a < gm_path b \<or> (gm_path a = gm_path b \<and> gm_line a < gm_line b))"

record grep_output =
  gr_base :: search_output
  gr_matches :: "grep_match list"

definition grep_output_ok :: "grep_output \<Rightarrow> bool" where
  "grep_output_ok g =
     (validate_completeness (gr_base g) \<and> length (gr_matches g) \<le> 200
      \<and> list_all grep_match_ok (gr_matches g)
      \<and> sorted_wrt position_less (gr_matches g)
      \<and> \<not> (so_truncated (gr_base g) \<and> gr_matches g = []))"

record grep_snapshot_match = grep_match +
  gs_content_sha256 :: string
  gs_file_bytes :: int

record grep_snapshot_output =
  gp_base :: search_output
  gp_matches :: "grep_snapshot_match list"

text \<open>
  \<^verbatim>\<open>same_file_observation_is_consistent\<close>: the first observation of a path fixes revision, digest and
  size for the others.
\<close>

definition observation :: "grep_snapshot_match \<Rightarrow> string \<times> string \<times> int" where
  "observation m = (gm_revision m, gs_content_sha256 m, gs_file_bytes m)"

fun observations_consistent ::
  "(string \<times> (string \<times> string \<times> int)) list \<Rightarrow> grep_snapshot_match list \<Rightarrow> bool" where
  "observations_consistent seen [] = True"
| "observations_consistent seen (m # ms) =
     (case map_of seen (gm_path m) of
        None \<Rightarrow> observations_consistent ((gm_path m, observation m) # seen) ms
      | Some s \<Rightarrow> s = observation m \<and> observations_consistent seen ms)"

definition plain_match :: "grep_snapshot_match \<Rightarrow> grep_match" where
  "plain_match m = grep_match.truncate m"

definition grep_snapshot_output_ok :: "grep_snapshot_output \<Rightarrow> bool" where
  "grep_snapshot_output_ok g =
     (grep_output_ok \<lparr>gr_base = gp_base g, gr_matches = map plain_match (gp_matches g)\<rparr>
      \<and> list_all (\<lambda>m. is_digest (gs_content_sha256 m) \<and> 0 \<le> gs_file_bytes m
          \<and> gs_file_bytes m \<le> MAX_SEARCH_FILE_BYTES) (gp_matches g)
      \<and> observations_consistent [] (gp_matches g))"

end
