(* ===== verification/Approvals.thy ===== *)
theory Approvals
  imports Event_Compatibility Search_Contracts
begin

text \<open>
  Approval fingerprints and their checks (src/src/harnessix/agent/approvals.py). Structural parsing
  of JSON by pydantic is code outside the repository: the record \<open>wire\<close> holds one parsing function
  per class the kernel parses, and every definition that parses takes it as an argument. The class
  validators of the repository are applied to what the parser returns.
\<close>

section \<open>Parsing at the boundary\<close>

record wire =
  w_artifact_ref :: "json \<Rightarrow> artifact_ref option"
  w_artifact_page :: "json \<Rightarrow> artifact_page option"
  w_patch_proposal :: "json \<Rightarrow> patch_proposal option"
  w_batch_proposal :: "json \<Rightarrow> patch_batch_proposal option"
  w_process_request :: "json \<Rightarrow> process_request option"
  w_run_tests :: "json \<Rightarrow> run_tests_input option"
  w_batch_output :: "json \<Rightarrow> managed_patch_batch_output option"
  w_grep_snapshot :: "json \<Rightarrow> grep_snapshot_output option"
  w_grep :: "json \<Rightarrow> grep_output option"
  w_glob :: "json \<Rightarrow> glob_output option"

text \<open>
  \<^verbatim>\<open>Model.model_validate_json(json.dumps(value, allow_nan=False))\<close>: \<open>None\<close> where the dump, the parser
  or a validator raises \<^verbatim>\<open>ValueError\<close>.
\<close>

definition validate_json :: "(json \<Rightarrow> 'a option) \<Rightarrow> ('a \<Rightarrow> bool) \<Rightarrow> json \<Rightarrow> 'a option" where
  "validate_json parse ok v =
     (if json_finite v
      then (case parse v of None \<Rightarrow> None | Some x \<Rightarrow> if ok x then Some x else None) else None)"

lemma validate_json_Some:
  "validate_json parse ok v = Some x \<longleftrightarrow> json_finite v \<and> parse v = Some x \<and> ok x"
  by (auto simp: validate_json_def split: option.splits if_splits)

section \<open>Fingerprints\<close>

definition READ_ONLY_POLICY_VERSION :: string where
  "READ_ONLY_POLICY_VERSION = ''kernel-read-only/v1''"

definition TRUSTED_ACTION_NAMESPACE :: uuid where
  "TRUSTED_ACTION_NAMESPACE = 0xf5cc2cc05b134f37bd6e7b3111b10c03"

definition execution_subject :: "uuid \<Rightarrow> uuid \<Rightarrow> string \<Rightarrow> tool_call_content \<Rightarrow> string \<Rightarrow> json" where
  "execution_subject tid uid workspace call policy_version =
     jobj [(''policy'', JStr policy_version), (''thread_id'', juuid tid),
       (''turn_id'', juuid uid), (''workspace'', JStr workspace),
       (''call'', tool_call_json call)]"

definition execution_fingerprint ::
  "uuid \<Rightarrow> uuid \<Rightarrow> string \<Rightarrow> tool_call_content \<Rightarrow> string \<Rightarrow> string" where
  "execution_fingerprint tid uid workspace call policy_version =
     digest (execution_subject tid uid workspace call policy_version)"

definition request_fingerprint :: "thread \<Rightarrow> turn \<Rightarrow> tool_call_content \<Rightarrow> string \<Rightarrow> string" where
  "request_fingerprint th t call policy_version =
     execution_fingerprint (thread_id th) (turn_id t) (th_workspace th) call policy_version"

text \<open>\<^verbatim>\<open>f"{thread_id}:{turn_id}:{call.call_id}:{call.tool_fingerprint}"\<close> under the fixed namespace.\<close>

definition trusted_action_invocation_id :: "uuid \<Rightarrow> uuid \<Rightarrow> tool_call_content \<Rightarrow> uuid result" where
  "trusted_action_invocation_id tid uid call =
     (case tc_tool_fingerprint call of
        None \<Rightarrow> Inl ValueError
      | Some f \<Rightarrow> Inr (uuid5 TRUSTED_ACTION_NAMESPACE
          (uuid_str tid @ '':'' @ uuid_str uid @ '':'' @ uuid_str (tc_call_id call)
           @ '':'' @ f)))"

definition trusted_action_subject ::
  "thread \<Rightarrow> turn \<Rightarrow> tool_call_content \<Rightarrow> trusted_approval_request \<Rightarrow> json" where
  "trusted_action_subject th t call a =
     jobj [(''spec_version'', JStr ''harnessix.agent-trusted-action-approval/v1''),
       (''thread_id'', juuid (thread_id th)), (''turn_id'', juuid (turn_id t)),
       (''workspace'', JStr (th_workspace th)), (''call'', tool_call_json call),
       (''plan_id'', juuid (tq_plan_id a)), (''plan_fingerprint'', JStr (tq_plan_fingerprint a)),
       (''execution_fingerprint'', JStr (tq_execution_fingerprint a)),
       (''policy_id'', JStr (tq_policy_id a)), (''policy_version'', JStr (tq_policy_version a)),
       (''presentation'', JStr (presentation_value (tq_presentation a))),
       (''diff_sha256'', jopt (\<lambda>d. JStr (af_sha256 d)) (tq_diff_artifact a))]"

definition trusted_action_request_fingerprint ::
  "thread \<Rightarrow> turn \<Rightarrow> tool_call_content \<Rightarrow> trusted_approval_request \<Rightarrow> string" where
  "trusted_action_request_fingerprint th t call a = digest (trusted_action_subject th t call a)"

section \<open>The approval of a call\<close>

definition approval_of :: "item \<Rightarrow> approval_content option" where
  "approval_of i = (case i_content i of Approval a \<Rightarrow> Some a | _ \<Rightarrow> None)"

definition approval_for :: "turn \<Rightarrow> tool_call_content \<Rightarrow> item option" where
  "approval_for t call =
     find (\<lambda>i. case i_content i of Approval a \<Rightarrow> ap_call a = tc_call_id call | _ \<Rightarrow> False) (t_items t)"

definition approval_action_id :: "turn \<Rightarrow> tool_call_content \<Rightarrow> uuid option" where
  "approval_action_id t call =
     (case approval_for t call of None \<Rightarrow> None
      | Some i \<Rightarrow> (case i_content i of
          Approval (TrustedApproval a) \<Rightarrow> Some (tq_plan_id a)
        | Approval (ProcessApproval a) \<Rightarrow> Some (ap_action_id (pq_plan a))
        | _ \<Rightarrow> None))"

definition approval_was_decided :: "approval_content \<Rightarrow> approval_decision \<Rightarrow> bool result" where
  "approval_was_decided content decision =
     (case ap_decision content of
        None \<Rightarrow> Inr False
      | Some recorded \<Rightarrow>
          check ((ar_outcome recorded, ar_actor recorded, ar_reason recorded)
              = (d_outcome decision, d_actor decision, d_reason decision))
            (KernelError ''approval_conflict'') (Inr True))"

definition approval_type_matches :: "tool_call_content \<Rightarrow> approval_content \<Rightarrow> bool" where
  "approval_type_matches call content =
     (tc_requires_approval call \<and>
      (case content of
         TrustedApproval _ \<Rightarrow> True
       | ApprovalRequest _ \<Rightarrow> tc_effect_class call = READ_ONLY
       | ProcessApproval _ \<Rightarrow> tc_effect_class call = NON_IDEMPOTENT_WRITE
           \<and> tc_tool call \<in> set PROCESS_AGENT_FRONTENDS
       | PatchBatchApproval _ \<Rightarrow> tc_effect_class call = NON_IDEMPOTENT_WRITE
           \<and> tc_tool call = ''apply_patch_batch''
       | PatchApproval _ \<Rightarrow> tc_effect_class call = NON_IDEMPOTENT_WRITE
           \<and> tc_tool call = ''apply_patch''))"

section \<open>Plans\<close>

text \<open>The conditions the three plan checks share.\<close>

definition write_call :: "tool_call_content \<Rightarrow> bool" where
  "write_call call =
     (tc_effect_class call = NON_IDEMPOTENT_WRITE \<and> tc_requires_approval call
      \<and> tc_tool_fingerprint call \<noteq> None)"

definition validate_patch_plan ::
  "wire \<Rightarrow> thread \<Rightarrow> turn \<Rightarrow> tool_call_content \<Rightarrow> managed_patch_call_plan \<Rightarrow> bool" where
  "validate_patch_plan W th t call plan =
     (managed_patch_call_plan_ok plan
      \<and> (case validate_json (w_patch_proposal W) patch_proposal_ok (tc_arguments call) of
           None \<Rightarrow> False
         | Some proposal \<Rightarrow>
             tc_tool call = ''apply_patch'' \<and> write_call call
             \<and> (mp_thread_id plan, mp_turn_id plan, mp_call_id plan)
                 = (thread_id th, turn_id t, tc_call_id call)
             \<and> mp_call_fingerprint plan = request_fingerprint th t call READ_ONLY_POLICY_VERSION
             \<and> pm_proposal_sha256 (mp_manifest plan) = digest (proposal_json proposal)))"

definition validate_batch_plan ::
  "wire \<Rightarrow> thread \<Rightarrow> turn \<Rightarrow> tool_call_content \<Rightarrow> managed_patch_batch_call_plan \<Rightarrow> bool" where
  "validate_batch_plan W th t call plan =
     (managed_patch_batch_call_plan_ok plan
      \<and> (case validate_json (w_batch_proposal W) patch_batch_proposal_ok (tc_arguments call) of
           None \<Rightarrow> False
         | Some proposal \<Rightarrow>
             tc_tool call = ''apply_patch_batch'' \<and> write_call call
             \<and> (bc_thread_id plan, bc_turn_id plan, bc_call_id plan)
                 = (thread_id th, turn_id t, tc_call_id call)
             \<and> bc_call_fingerprint plan = request_fingerprint th t call READ_ONLY_POLICY_VERSION
             \<and> pbm_proposal_sha256 (bp_manifest (bc_backend plan))
                 = digest (batch_proposal_json proposal)))"

definition validate_process_plan ::
  "wire \<Rightarrow> thread \<Rightarrow> turn \<Rightarrow> tool_call_content \<Rightarrow> agent_process_call_plan \<Rightarrow> bool" where
  "validate_process_plan W th t call plan =
     (agent_process_call_plan_ok plan
      \<and> tc_tool call \<in> set PROCESS_AGENT_FRONTENDS \<and> write_call call
      \<and> (ap_thread_id plan, ap_turn_id plan, ap_call_id plan)
          = (thread_id th, turn_id t, tc_call_id call)
      \<and> ap_workspace plan = th_workspace th
      \<and> ap_call_fingerprint plan = request_fingerprint th t call READ_ONLY_POLICY_VERSION
      \<and> (if tc_tool call = ''run_tests''
         then validate_json (w_run_tests W) run_tests_input_ok (tc_arguments call) \<noteq> None
         else (case validate_json (w_process_request W) process_request_ok (tc_arguments call) of
                 None \<Rightarrow> False
               | Some process \<Rightarrow>
                   ap_action_tool_version plan = tc_tool_version call
                   \<and> ap_program plan = pr_program process
                   \<and> ap_arguments_sha256 plan = digest (JArr (map JStr (pr_arguments process)))
                   \<and> float_rat (ap_timeout_seconds plan) = float_rat (pr_timeout_seconds process))))"

definition approval_matches ::
  "wire \<Rightarrow> thread \<Rightarrow> turn \<Rightarrow> tool_call_content \<Rightarrow> approval_content \<Rightarrow> bool" where
  "approval_matches W th t call content =
     (case content of
        TrustedApproval a \<Rightarrow>
          (case trusted_action_invocation_id (thread_id th) (turn_id t) call of
             Inl _ \<Rightarrow> False
           | Inr expected_plan_id \<Rightarrow> tc_requires_approval call \<and> tq_plan_id a = expected_plan_id
               \<and> tq_request_fingerprint a = trusted_action_request_fingerprint th t call a)
      | ProcessApproval a \<Rightarrow> validate_process_plan W th t call (pq_plan a)
          \<and> pq_request_fingerprint a = ap_approval_fingerprint (pq_plan a)
      | PatchBatchApproval a \<Rightarrow> validate_batch_plan W th t call (ba_plan a)
          \<and> ba_request_fingerprint a = bc_approval_fingerprint (ba_plan a)
      | PatchApproval a \<Rightarrow> validate_patch_plan W th t call (pa_plan a)
          \<and> pa_request_fingerprint a = mp_approval_fingerprint (pa_plan a)
      | ApprovalRequest a \<Rightarrow>
          aq_request_fingerprint a = request_fingerprint th t call READ_ONLY_POLICY_VERSION)"

section \<open>Time budget\<close>

definition deadline :: "turn \<Rightarrow> datetime" where
  "deadline t = t_created_at t + timedelta_us (float_rat (timeout_seconds (t_budget t)))"

definition remaining_us :: "turn \<Rightarrow> datetime \<Rightarrow> int" where
  "remaining_us t now = deadline t - now"

end
