(* ===== verification/Reducer_Support.thy ===== *)
theory Reducer_Support
  imports Approvals
begin

text \<open>
  Queries and guards the reducers share (src/src/harnessix/agent/reducer_support.py,
  trusted_action_reducer.py, and the effect check of batch_patching.py): pending calls, the
  observations of a process Action, the search for reachable Action states, and the checks that
  bind an effect recorded with a tool result to the plan that was approved.
\<close>

section \<open>Queries\<close>

definition effect_origin_is_recovery :: "tool_result_content \<Rightarrow> bool" where
  "effect_origin_is_recovery c =
     ((case tr_patch c of None \<Rightarrow> False | Some e \<Rightarrow> pe_origin e = Recovery)
      \<or> (case tr_patch_batch c of None \<Rightarrow> False | Some e \<Rightarrow> pbe_origin e = Recovery)
      \<or> (case tr_trusted_action c of None \<Rightarrow> False | Some e \<Rightarrow> ta_origin e = Recovery))"

definition get_turn :: "thread \<Rightarrow> uuid \<Rightarrow> turn result" where
  "get_turn th tid =
     (case find (\<lambda>t. turn_id t = tid) (th_turns th) of
        None \<Rightarrow> Inl (KernelError ''turn_not_found'') | Some t \<Rightarrow> Inr t)"

definition settled_calls :: "item list \<Rightarrow> uuid list" where
  "settled_calls items = List.map_filter (\<lambda>i. case i_content i of
     ToolResult r \<Rightarrow> if i_status i \<noteq> Is_STARTED then Some (tr_call_id r) else None | _ \<Rightarrow> None) items"

definition completed_calls :: "item list \<Rightarrow> tool_call_content list" where
  "completed_calls items = List.map_filter (\<lambda>i. case i_content i of
     ToolCall c \<Rightarrow> if i_status i = Is_COMPLETED then Some c else None | _ \<Rightarrow> None) items"

definition pending_calls :: "turn \<Rightarrow> tool_call_content list" where
  "pending_calls t =
     filter (\<lambda>c. tc_call_id c \<notin> set (settled_calls (t_items t))) (completed_calls (t_items t))"

definition process_approval :: "turn \<Rightarrow> tool_call_content \<Rightarrow> (item \<times> process_approval_request) option" where
  "process_approval t call =
     (case approval_for t call of None \<Rightarrow> None
      | Some i \<Rightarrow> (case i_content i of Approval (ProcessApproval a) \<Rightarrow> Some (i, a) | _ \<Rightarrow> None))"

definition process_effects :: "turn \<Rightarrow> tool_call_content \<Rightarrow> process_effect list" where
  "process_effects t call = List.map_filter (\<lambda>i. case i_content i of
     ProcessState s \<Rightarrow> if psc_call_id s = tc_call_id call \<and> i_status i = Is_COMPLETED
       then Some (psc_effect s) else None | _ \<Rightarrow> None) (t_items t)"

section \<open>Reachable Action states\<close>

text \<open>
  The worklist search of \<^verbatim>\<open>_action_status_reachable\<close>. \<open>pending\<close> is the stack, its top at the head;
  \<open>following\<close> states not yet visited are pushed in the order of the table. The loop ends because
  every push visits one of the thirteen states for the first time.
\<close>

fun push_following :: "action_status list \<Rightarrow> action_status list \<Rightarrow> action_status list
    \<Rightarrow> action_status list \<times> action_status list" where
  "push_following [] pending visited = (pending, visited)"
| "push_following (f # fs) pending visited =
     (if f \<in> set visited then push_following fs pending visited
      else push_following fs (f # pending) (f # visited))"

definition ACTION_STATUSES :: "action_status list" where
  "ACTION_STATUSES = [RECEIVED, VALIDATED, POLICY_EVALUATED, DENIED, PENDING_APPROVAL, READY, LEASED,
     RUNNING, SUCCEEDED, FAILED, UNKNOWN, RECONCILING, MANUAL_INTERVENTION]"

lemma ACTION_STATUSES_all [simp]: "s \<in> set ACTION_STATUSES"
  by (cases s) (simp_all add: ACTION_STATUSES_def)

definition unvisited :: "action_status list \<Rightarrow> nat" where
  "unvisited visited = length (filter (\<lambda>s. s \<notin> set visited) ACTION_STATUSES)"

lemma unvisited_Cons:
  assumes "f \<notin> set visited"
  shows "unvisited (f # visited) < unvisited visited"
proof -
  let ?xs = "filter (\<lambda>s. s \<notin> set visited) ACTION_STATUSES"
  have "f \<in> set ?xs" using assms by simp
  then have "length (filter (\<lambda>s. s \<noteq> f) ?xs) < length ?xs"
    by (rule length_filter_less) simp
  moreover have "filter (\<lambda>s. s \<notin> set (f # visited)) ACTION_STATUSES = filter (\<lambda>s. s \<noteq> f) ?xs"
    unfolding filter_filter by (rule filter_cong) auto
  ultimately show ?thesis by (simp only: unvisited_def)
qed

lemma push_following_measure:
  "push_following fs pending visited = (pending', visited') \<Longrightarrow>
     length pending' + 2 * unvisited visited' \<le> length pending + 2 * unvisited visited"
proof (induction fs pending visited rule: push_following.induct)
  case (2 f fs pending visited)
  then show ?case
    using unvisited_Cons [of f visited] by (fastforce split: if_splits)
qed simp

function search_action :: "action_status \<Rightarrow> action_status list \<Rightarrow> action_status list \<Rightarrow> bool" where
  "search_action target [] visited = False"
| "search_action target (current # pending) visited =
     (if current = target then True
      else (case push_following (ALLOWED_ACTION_TRANSITIONS current) pending visited of
              (pending', visited') \<Rightarrow> search_action target pending' visited'))"
  by pat_completeness auto
termination
  by (relation "measure (\<lambda>(_, pending, visited). length pending + 2 * unvisited visited)")
    (auto dest: push_following_measure simp: less_Suc_eq_le split: prod.splits)

definition action_status_reachable :: "action_status \<Rightarrow> action_status \<Rightarrow> bool" where
  "action_status_reachable source target =
     (let pending = rev (ALLOWED_ACTION_TRANSITIONS source) in search_action target pending pending)"

text \<open>The relation the search explores.\<close>

inductive action_step :: "action_status \<Rightarrow> action_status \<Rightarrow> bool" where
  "b \<in> set (ALLOWED_ACTION_TRANSITIONS a) \<Longrightarrow> action_step a b"

inductive_simps action_step_iff: "action_step a b"

lemma push_following_sets:
  assumes "push_following fs pending visited = (pending', visited')"
  shows "set visited' = set visited \<union> set fs"
    and "set pending' = set pending \<union> (set fs - set visited)"
proof -
  have "set (snd (push_following fs pending visited)) = set visited \<union> set fs
      \<and> set (fst (push_following fs pending visited)) = set pending \<union> (set fs - set visited)"
    by (induction fs arbitrary: pending visited) auto
  with assms show "set visited' = set visited \<union> set fs"
    and "set pending' = set pending \<union> (set fs - set visited)" by simp_all
qed

text \<open>
  Invariant of the loop: whatever is reachable from the stack is exactly what remains to be found,
  and a visited state that left the stack has all its successors visited.
\<close>

definition explored :: "action_status list \<Rightarrow> action_status list \<Rightarrow> bool" where
  "explored pending visited \<longleftrightarrow>
     (\<forall>s \<in> set visited - set pending. set (ALLOWED_ACTION_TRANSITIONS s) \<subseteq> set visited)"

lemma explored_closed:
  assumes "explored [] visited" "s \<in> set visited" "action_step\<^sup>*\<^sup>* s t"
  shows "t \<in> set visited"
  using assms(3,2)
proof (induction rule: rtranclp_induct)
  case (step y z)
  with assms(1) show ?case
    unfolding explored_def action_step_iff by (metis Diff_empty empty_set subsetD)
qed

lemma search_action_sound:
  "search_action target pending visited \<Longrightarrow> \<exists>s \<in> set pending. action_step\<^sup>*\<^sup>* s target"
proof (induction target pending visited rule: search_action.induct)
  case (2 target current pending visited)
  show ?case
  proof (cases "current = target")
    case False
    obtain p v where pv: "push_following (ALLOWED_ACTION_TRANSITIONS current) pending visited = (p, v)"
      by (cases "push_following (ALLOWED_ACTION_TRANSITIONS current) pending visited")
    with 2 False obtain s where s: "s \<in> set p" "action_step\<^sup>*\<^sup>* s target" by auto
    from s(1) push_following_sets(2) [OF pv]
    consider "s \<in> set pending" | "s \<in> set (ALLOWED_ACTION_TRANSITIONS current)" by auto
    then show ?thesis
      using s(2) by cases (auto intro: converse_rtranclp_into_rtranclp action_step.intros)
  qed auto
qed simp

lemma search_action_complete:
  "explored pending visited \<Longrightarrow> set pending \<subseteq> set visited \<Longrightarrow> target \<notin> set visited - set pending \<Longrightarrow>
     \<not> search_action target pending visited \<Longrightarrow> s \<in> set visited \<Longrightarrow> \<not> action_step\<^sup>*\<^sup>* s target"
proof (induction target pending visited rule: search_action.induct)
  case (1 target visited)
  then have "target \<notin> set visited" by simp
  with 1 show ?case using explored_closed by metis
next
  case (2 target current pending visited)
  obtain p v where pv: "push_following (ALLOWED_ACTION_TRANSITIONS current) pending visited = (p, v)"
    by (cases "push_following (ALLOWED_ACTION_TRANSITIONS current) pending visited")
  note sets = push_following_sets [OF pv]
  from 2(5) have ne: "current \<noteq> target" and no: "\<not> search_action target p v"
    using pv by (auto split: if_splits)
  have "explored p v"
    unfolding explored_def
  proof
    fix x assume x: "x \<in> set v - set p"
    show "set (ALLOWED_ACTION_TRANSITIONS x) \<subseteq> set v"
    proof (cases "x = current")
      case False
      with x sets have "x \<in> set visited - set (current # pending)" by auto
      with 2(2) sets(1) show ?thesis unfolding explored_def by blast
    qed (use sets(1) in simp)
  qed
  moreover have "set p \<subseteq> set v" using 2(3) sets by auto
  moreover have "target \<notin> set v - set p" using 2(4) sets ne by auto
  moreover have "s \<in> set v" using 2(6) sets by auto
  ultimately show ?case using 2(1) [OF ne pv [symmetric]] no by blast
qed

lemma action_status_reachable_iff: "action_status_reachable a b \<longleftrightarrow> action_step\<^sup>+\<^sup>+ a b"
proof
  assume "action_status_reachable a b"
  then obtain s where "s \<in> set (ALLOWED_ACTION_TRANSITIONS a)" "action_step\<^sup>*\<^sup>* s b"
    using search_action_sound by (fastforce simp: action_status_reachable_def Let_def)
  then show "action_step\<^sup>+\<^sup>+ a b"
    by (metis action_step.intros rtranclp_into_tranclp2)
next
  assume "action_step\<^sup>+\<^sup>+ a b"
  then obtain s where "s \<in> set (ALLOWED_ACTION_TRANSITIONS a)" "action_step\<^sup>*\<^sup>* s b"
    by (metis action_step_iff tranclpD)
  then show "action_status_reachable a b"
    using search_action_complete [of "rev (ALLOWED_ACTION_TRANSITIONS a)"
        "rev (ALLOWED_ACTION_TRANSITIONS a)" b s]
    by (auto simp: action_status_reachable_def explored_def Let_def)
qed

section \<open>Observations of a process Action\<close>

definition last_effect :: "process_effect list \<Rightarrow> process_effect option" where
  "last_effect effects = (if effects = [] then None else Some (last effects))"

definition validate_process_state ::
  "wire \<Rightarrow> thread \<Rightarrow> turn \<Rightarrow> tool_call_content \<Rightarrow> process_state_content \<Rightarrow> unit result" where
  "validate_process_state W th t call content =
     (case process_approval t call of
        None \<Rightarrow> Inl invalid_event
      | Some (approval, projection) \<Rightarrow>
          require (t_status t = Ts_WAITING_ACTION \<and> i_status approval = Is_COMPLETED)
          (case pq_decision projection of
             None \<Rightarrow> Inl invalid_event
           | Some decision \<Rightarrow>
              (let effect = psc_effect content; plan = pq_plan projection;
                   previous = process_effects t call;
                   source = (case last_effect previous of None \<Rightarrow> pq_action_status projection
                             | Some e \<Rightarrow> px_status e)
               in require (approval_matches W th t call (ProcessApproval projection))
                  (require (psc_call_id content = tc_call_id call
                     \<and> (px_plan_fingerprint effect, px_action_id effect, px_action_fingerprint effect)
                       = (ap_approval_fingerprint plan, ap_action_id plan, ap_action_fingerprint plan))
                  (require ((ar_outcome decision = REJECTED) = (px_status effect = DENIED))
                  (require (case last_effect previous of None \<Rightarrow> True
                       | Some e \<Rightarrow> px_status e \<notin> set PROCESS_RESOLVED_STATUSES)
                  (require (action_status_reachable source (px_status effect)
                       \<or> (previous = [] \<and> source = px_status effect
                          \<and> px_status effect \<in> set PROCESS_RESOLVED_STATUSES))
                  (Inr ()))))))))"

text \<open>The outcome a resolved Action maps to; the other states are not in the table of the source.\<close>

definition process_outcome :: "action_status \<Rightarrow> result_outcome option" where
  "process_outcome s =
     (case s of DENIED \<Rightarrow> Some Oc_failed | SUCCEEDED \<Rightarrow> Some Oc_succeeded | FAILED \<Rightarrow> Some Oc_failed
      | UNKNOWN \<Rightarrow> Some Oc_unknown | MANUAL_INTERVENTION \<Rightarrow> Some Oc_unknown | _ \<Rightarrow> None)"

definition validate_process_result ::
  "turn \<Rightarrow> tool_call_content \<Rightarrow> tool_result_content \<Rightarrow> unit result" where
  "validate_process_result t call content =
     (case process_approval t call of
        None \<Rightarrow> require (tr_process content = None) (Inr ())
      | Some (approval, projection) \<Rightarrow>
          if t_status t = Ts_CANCELLING \<and> tr_process content = None
          then require (tr_outcome content = Oc_unknown
                 \<and> tr_action_id content = Some (ap_action_id (pq_plan projection))
                 \<and> (case tr_error content of None \<Rightarrow> False | Some f \<Rightarrow> f_code f = ''uncertain_effect'')
                 \<and> tr_output content = JNull \<and> tr_patch content = None
                 \<and> tr_patch_batch content = None \<and> tr_diff_artifact content = None) (Inr ())
          else require (i_status approval = Is_COMPLETED \<and> pq_decision projection \<noteq> None)
               (case last_effect (process_effects t call) of
                  None \<Rightarrow> Inl invalid_event
                | Some e \<Rightarrow>
                    require (px_status e \<in> set PROCESS_RESOLVED_STATUSES)
                    (require (tr_process content = Some e \<and> tr_action_id content = Some (px_action_id e))
                    (require (process_outcome (px_status e) = Some (tr_outcome content)) (Inr ())))))"

section \<open>Effects of trusted Actions\<close>

text \<open>
  \<^verbatim>\<open>trusted_action_invocation_id\<close> raises \<^verbatim>\<open>ValueError\<close> for a call without a tool fingerprint; nothing
  here catches it.
\<close>

definition validate_trusted_action_effect ::
  "thread \<Rightarrow> turn \<Rightarrow> tool_call_content \<Rightarrow> tool_result_content \<Rightarrow> unit result" where
  "validate_trusted_action_effect th t call r =
     (case tr_trusted_action r of
        None \<Rightarrow> Inr ()
      | Some effect \<Rightarrow>
          bindE (trusted_action_invocation_id (thread_id th) (turn_id t) call) (\<lambda>expected.
          require (ta_plan_id effect = expected \<and> tr_action_id r = Some (ta_plan_id effect))
          (require (case approval_for t call of
               None \<Rightarrow> True
             | Some i \<Rightarrow> (case i_content i of
                 Approval (TrustedApproval a) \<Rightarrow> i_status i = Is_COMPLETED
                   \<and> tq_plan_id a = ta_plan_id effect
                   \<and> tq_plan_fingerprint a = ta_plan_fingerprint effect
               | _ \<Rightarrow> False))
          (require (ta_origin effect = Recovery \<or> t_status t = Ts_EXECUTING_TOOLS) (Inr ())))))"

section \<open>Effects of patch groups\<close>

definition batch_approval :: "turn \<Rightarrow> tool_call_content \<Rightarrow> (item \<times> batch_approval_request) option" where
  "batch_approval t call =
     (case approval_for t call of None \<Rightarrow> None
      | Some i \<Rightarrow> (case i_content i of Approval (PatchBatchApproval a) \<Rightarrow> Some (i, a) | _ \<Rightarrow> None))"

text \<open>\<^verbatim>\<open>execution_approval\<close>: the approval that admits the execution of a group call at time \<open>now\<close>.\<close>

definition execution_approval ::
  "wire \<Rightarrow> thread \<Rightarrow> turn \<Rightarrow> tool_call_content \<Rightarrow> datetime \<Rightarrow> batch_approval_request result" where
  "execution_approval W th t call now =
     (case batch_approval t call of
        None \<Rightarrow> Inl (KernelError ''patch_batch_execution_not_authorized'')
      | Some (i, a) \<Rightarrow>
          check (th_active_turn_id th = Some (turn_id t) \<and> t_status t = Ts_EXECUTING_TOOLS
              \<and> (case pending_calls t of [] \<Rightarrow> False | c # _ \<Rightarrow> c = call)
              \<and> 0 < remaining_us t now \<and> i_status i = Is_COMPLETED \<and> ba_decision a \<noteq> None
              \<and> approval_matches W th t call (PatchBatchApproval a))
            (KernelError ''patch_batch_execution_not_authorized'') (Inr a))"

definition batch_outcome :: "batch_effect \<Rightarrow> result_outcome" where
  "batch_outcome e = (case e of Be_applied \<Rightarrow> Oc_succeeded | Be_unknown \<Rightarrow> Oc_unknown | _ \<Rightarrow> Oc_failed)"

text \<open>The run and its members against the approved plan.\<close>

definition execution_bound ::
  "managed_patch_batch_plan \<Rightarrow> approval_record \<Rightarrow> origin \<Rightarrow> batch_execution_result \<Rightarrow> bool" where
  "execution_bound backend decision origin execution =
     (rr_phase (br_run execution) = Rp_finished
      \<and> rr_workspace_id (br_run execution) = bp_workspace_id backend
      \<and> rr_batch_id (br_run execution) = bp_batch_id backend
      \<and> rr_approval_fingerprint (br_run execution) = bp_approval_fingerprint backend
      \<and> map be_plan_id (br_members execution) = map bm_plan_id (bp_members backend)
      \<and> ar_outcome decision = APPROVED
      \<and> (origin = Execution \<longrightarrow>
           rr_stop_reason (br_run execution) \<noteq> Some Sr_interrupted
           \<and> list_all (\<lambda>m. be_state m \<in> {Ps_pending, Ps_approved, Ps_started, Ps_applied, Ps_failed,
               Ps_uncertain}) (br_members execution)))"

definition member_state :: "batch_execution_result option \<Rightarrow> nat \<Rightarrow> patch_state" where
  "member_state execution i =
     (case execution of None \<Rightarrow> Ps_pending | Some r \<Rightarrow> be_state (br_members r ! i))"

definition output_bound ::
  "managed_patch_batch_plan \<Rightarrow> batch_execution_result option \<Rightarrow> batch_effect
    \<Rightarrow> managed_patch_batch_output \<Rightarrow> unit result" where
  "output_bound backend execution overall output =
    (let manifests = pbm_files (bp_manifest backend)
     in require (bo_effect output = overall
          \<and> bo_phase output = (case execution of None \<Rightarrow> Rp_not_started | Some r \<Rightarrow> rr_phase (br_run r))
          \<and> bo_stop_reason output = (case execution of None \<Rightarrow> None | Some r \<Rightarrow> rr_stop_reason (br_run r))
          \<and> length (bo_files output) = length (bp_members backend))
        (check (length (bo_files output) = length manifests) ValueError
        (require (list_all (\<lambda>i.
            (fo_path (bo_files output ! i), fo_before_sha256 (bo_files output ! i),
             fo_after_sha256 (bo_files output ! i), fo_state (bo_files output ! i))
            = (pm_path (manifests ! i), pm_before_sha256 (manifests ! i),
               pm_after_sha256 (manifests ! i), member_state execution i))
          [0..<length (bo_files output)]) (Inr ()))))"

definition validate_effect ::
  "wire \<Rightarrow> thread \<Rightarrow> turn \<Rightarrow> tool_call_content \<Rightarrow> tool_result_content \<Rightarrow> unit result" where
  "validate_effect W th t call content =
     (case tr_patch_batch content of
        None \<Rightarrow> Inl AssertionError
      | Some effect \<Rightarrow>
          require (patch_batch_effect_ok effect)
          (require (tr_patch content = None)
          (case batch_approval t call of
             None \<Rightarrow> Inl invalid_event
           | Some (i, request) \<Rightarrow>
              (case ba_decision request of
                 None \<Rightarrow> Inl invalid_event
               | Some decision \<Rightarrow>
                  (let plan = ba_plan request; backend = bc_backend plan;
                       execution = pbe_execution effect;
                       overall = (case execution of None \<Rightarrow> Be_not_applied | Some r \<Rightarrow> br_effect r)
                   in require (i_status i = Is_COMPLETED
                        \<and> approval_matches W th t call (PatchBatchApproval request))
                      (require ((pbe_workspace_id effect, pbe_batch_id effect, pbe_request_id effect,
                            pbe_approval_fingerprint effect)
                          = (bp_workspace_id backend, bp_batch_id backend, bp_request_id backend,
                             bc_approval_fingerprint plan))
                      (require (pbe_origin effect = Recovery \<or> t_status t = Ts_EXECUTING_TOOLS)
                      (require (case execution of None \<Rightarrow> True
                          | Some r \<Rightarrow> execution_bound backend decision (pbe_origin effect) r)
                      (require (tr_outcome content = batch_outcome overall)
                      (if tr_output content = JNull then Inr ()
                       else (case validate_json (w_batch_output W) managed_patch_batch_output_ok
                                    (tr_output content) of
                               None \<Rightarrow> Inl invalid_event
                             | Some output \<Rightarrow> output_bound backend execution overall output))))))))))) "

section \<open>Property\<close>

text \<open>C23. The worklist search terminates for every pair of Action states and answers whether the
  second can be reached from the first by one or more allowed transitions.\<close>

theorem reachable_is_transitive_closure:
  "action_status_reachable a b \<longleftrightarrow> action_step\<^sup>+\<^sup>+ a b"
  by (rule action_status_reachable_iff)

end
