(* ===== verification/Tool_Result_View.thy ===== *)
theory Tool_Result_View
  imports Reducer_Support
begin

text \<open>
  The bounded model history (src/src/harnessix/context/tool_result_view.py): which items the model
  sees, the decision how the result of each call is shown (inline, or replaced by a reference to a
  complete artifact), the re-application of frozen decisions, and the inspection record that binds
  the view.
\<close>

section \<open>Canonical text and history\<close>

definition canonical :: "json \<Rightarrow> string result" where
  "canonical v = check (json_finite v) (KernelError ''context_tool_result_invalid'') (Inr (json_dumps v))"

definition is_history_content :: "item_content \<Rightarrow> bool" where
  "is_history_content c =
     (case c of Text _ \<Rightarrow> True | ToolCall _ \<Rightarrow> True | Rejection _ \<Rightarrow> True | ToolResult _ \<Rightarrow> True
      | _ \<Rightarrow> False)"

definition is_history_item :: "item \<Rightarrow> bool" where
  "is_history_item i = (i_status i = Is_COMPLETED \<and> is_history_content (i_content i))"

definition inherited_items :: "thread \<Rightarrow> item list" where
  "inherited_items th = (case th_fork_snapshot th of None \<Rightarrow> [] | Some f \<Rightarrow> fs_items f)"

definition history_items :: "thread \<Rightarrow> item list" where
  "history_items th =
     inherited_items th @ concat (map (\<lambda>t. filter is_history_item (t_items t)) (th_turns th))"

text \<open>\<^verbatim>\<open>data["content"][key] = value\<close>.\<close>

definition with_field :: "string \<Rightarrow> json \<Rightarrow> json \<Rightarrow> json" where
  "with_field k v j = (case j of JObj kvs \<Rightarrow> JObj (dict_set k v kvs) | _ \<Rightarrow> j)"

definition document_json :: "item \<Rightarrow> json" where
  "document_json i =
     (case i_content i of
        ToolResult r \<Rightarrow> with_field ''content'' (with_field ''output'' (tr_output r) (tool_result_json r))
          (item_json i)
      | ToolCall c \<Rightarrow> with_field ''content'' (with_field ''arguments'' (tc_arguments c) (tool_call_json c))
          (item_json i)
      | _ \<Rightarrow> item_json i)"

definition history_document :: "item \<Rightarrow> string result" where
  "history_document i = canonical (document_json i)"

text \<open>The UTF-8 size of a list of documents, and the digest of their array.\<close>

fun documents :: "item list \<Rightarrow> string list result" where
  "documents [] = Inr []"
| "documents (i # is) =
     bindE (history_document i) (\<lambda>d. bindE (documents is) (\<lambda>ds. Inr (d # ds)))"

definition documents_bytes :: "string list \<Rightarrow> nat" where
  "documents_bytes ds = sum_list (map length ds)"

definition public_result :: "tool_result_content \<Rightarrow> json" where
  "public_result r =
     jobj ([(''outcome'', JStr (result_outcome_value (tr_outcome r))), (''output'', tr_output r),
       (''error'', jopt failure_json (tr_error r))]
       @ jfield ''diff_artifact'' artifact_json (tr_diff_artifact r))"

definition view_history_sha256 :: "item list \<Rightarrow> string" where
  "view_history_sha256 history = digest (JArr (map item_json history))"

section \<open>Artifacts bound to a result\<close>

datatype history_call = Ordinary tool_call_content | Rejected rejection_content

definition artifact_from :: "wire \<Rightarrow> json \<Rightarrow> artifact_ref result" where
  "artifact_from W v =
     bindE (canonical v) (\<lambda>_.
       case validate_json (w_artifact_ref W) artifact_ref_ok v of
         None \<Rightarrow> Inl (KernelError ''context_tool_result_artifact_invalid'') | Some a \<Rightarrow> Inr a)"

definition diff_binding :: "tool_result_content \<Rightarrow> artifact_binding list" where
  "diff_binding content =
     (case tr_diff_artifact content of
        None \<Rightarrow> []
      | Some a \<Rightarrow> [\<lparr>ab_purpose = (if tr_trusted_action content \<noteq> None then Bp_action_review
                               else Bp_batch_effect), ab_artifact = a\<rparr>])"

definition output_purpose :: "tool_result_content \<Rightarrow> binding_purpose" where
  "output_purpose content =
     (if tr_trusted_action content \<noteq> None then Bp_action_output
      else if tr_process content \<noteq> None then Bp_process_output else Bp_tool_result)"

definition bindings :: "wire \<Rightarrow> tool_result_content \<Rightarrow> history_call \<Rightarrow> artifact_binding list result" where
  "bindings W content call =
     (case call of
        Rejected _ \<Rightarrow> bindE (require_rejection_result content None) (\<lambda>_. Inr [])
      | Ordinary c \<Rightarrow>
          (case jget ''artifact'' (tr_output content) of
             None \<Rightarrow> Inr (diff_binding content)
           | Some v \<Rightarrow>
               bindE (if tc_tool c = ''read_artifact''
                      then bindE (canonical (tr_output content)) (\<lambda>_.
                             check (validate_json (w_artifact_page W) artifact_page_ok (tr_output content) \<noteq> None)
                               (KernelError ''context_tool_result_artifact_invalid'') (Inr Bp_artifact_page))
                      else Inr (output_purpose content))
                 (\<lambda>purpose. bindE (artifact_from W v) (\<lambda>a.
                    Inr (\<lparr>ab_purpose = purpose, ab_artifact = a\<rparr> # diff_binding content)))))"

section \<open>Replacement of an oversized result\<close>

definition without_field :: "string \<Rightarrow> json \<Rightarrow> json" where
  "without_field k j = (case j of JObj kvs \<Rightarrow> JObj (filter (\<lambda>kv. fst kv \<noteq> k) kvs) | _ \<Rightarrow> j)"

text \<open>The three attempts of \<^verbatim>\<open>_preview_metadata\<close> in order; the second component is the omitted field.\<close>

definition preview_metadata :: "wire \<Rightarrow> json \<Rightarrow> (json \<times> string) result" where
  "preview_metadata W preview =
    (let has = (\<lambda>k. jget k preview \<noteq> None) in
     if \<not> is_dict preview \<or> (\<not> has ''matches'' \<and> \<not> has ''paths'') then Inr (JNull, ''preview'')
     else bindE (canonical preview) (\<lambda>_.
       if has ''matches'' \<and> (validate_json (w_grep_snapshot W) grep_snapshot_output_ok preview \<noteq> None
            \<or> validate_json (w_grep W) grep_output_ok preview \<noteq> None)
       then Inr (without_field ''matches'' preview, ''matches'')
       else if has ''paths'' \<and> validate_json (w_glob W) glob_output_ok preview \<noteq> None
       then Inr (without_field ''paths'' preview, ''paths'')
       else Inr (JNull, ''preview'')))"

definition replacement :: "wire \<Rightarrow> tool_result_content \<Rightarrow> string \<Rightarrow> nat \<Rightarrow> artifact_binding list
    \<Rightarrow> tool_result_content result" where
  "replacement W content source_sha256 source_utf8_bytes bs =
    (let result_bindings = filter (\<lambda>b. ab_purpose b = Bp_tool_result) bs
     in check (tr_process content = None \<and> tr_patch content = None \<and> tr_patch_batch content = None)
          (KernelError ''context_tool_result_unsupported'')
        (check (length result_bindings = 1 \<and> is_dict (tr_output content))
          (KernelError ''context_tool_result_artifact_required'')
        (check (set (jkeys (tr_output content)) = {''preview'', ''artifact''})
          (KernelError ''context_tool_result_unsupported'')
        (check (af_complete (ab_artifact (hd result_bindings)))
          (KernelError ''context_tool_result_artifact_incomplete'')
        (bindE (preview_metadata W (case jget ''preview'' (tr_output content) of None \<Rightarrow> JNull | Some p \<Rightarrow> p))
          (\<lambda>(metadata, omitted_field).
            Inr (content\<lparr>tr_output := jobj [(''preview'', metadata),
              (''model_view'', omission_json source_utf8_bytes source_sha256 omitted_field),
              (''artifact'', artifact_json (ab_artifact (hd result_bindings)))]\<rparr>)))))))"

section \<open>Decisions\<close>

definition new_decision :: "wire \<Rightarrow> item \<Rightarrow> tool_result_content \<Rightarrow> history_call
    \<Rightarrow> tool_result_view_policy \<Rightarrow> bool \<Rightarrow> (view_decision \<times> tool_result_content) result" where
  "new_decision W item content call policy legacy =
     bindE (canonical (public_result content)) (\<lambda>source.
     bindE (bindings W content call) (\<lambda>bs.
     bindE (if length source \<le> max_inline_utf8_bytes policy then Inr (content, Inline, JNull)
            else check (\<not> legacy) (KernelError ''context_tool_result_decision_mismatch'')
              (bindE (replacement W content (sha256_hex source) (length source) bs)
                (\<lambda>v. Inr (v, Artifact_reference, tr_output v))))
       (\<lambda>(view, strategy, replacement_output).
     bindE (canonical (public_result view)) (\<lambda>encoded.
     check (length encoded \<le> max_inline_utf8_bytes policy)
       (KernelError ''context_tool_result_unsupported'')
     (let d = \<lparr>vd_item_id = item_id item, vd_call_id = tr_call_id content, vd_strategy = strategy,
                vd_limit_utf8_bytes = max_inline_utf8_bytes policy,
                vd_source_sha256 = sha256_hex source, vd_source_utf8_bytes = length source,
                vd_view_sha256 = sha256_hex encoded, vd_view_utf8_bytes = length encoded,
                vd_references = bs, vd_replacement_output = replacement_output\<rparr>
      in check (view_decision_ok d) ValueError (Inr (d, view)))))))"

definition mismatch :: py_error where
  "mismatch = KernelError ''context_tool_result_decision_mismatch''"

text \<open>The comparison of a replacement with what the stored result allows.\<close>

definition replacement_matches :: "wire \<Rightarrow> tool_result_content \<Rightarrow> json \<Rightarrow> unit result" where
  "replacement_matches W content view_output =
     check (is_dict (tr_output content)) AssertionError
     (bindE (preview_metadata W (case jget ''preview'' (tr_output content) of None \<Rightarrow> JNull | Some p \<Rightarrow> p))
       (\<lambda>(metadata, omitted_field).
         check (tr_patch content = None \<and> tr_patch_batch content = None \<and> tr_process content = None
             \<and> set (jkeys (tr_output content)) = {''preview'', ''artifact''}
             \<and> jget ''preview'' view_output = Some metadata
             \<and> (case jget ''model_view'' view_output of None \<Rightarrow> False
                | Some m \<Rightarrow> jget ''omitted_field'' m = Some (JStr omitted_field)))
           mismatch (Inr ())))"

definition apply_decision :: "wire \<Rightarrow> item \<Rightarrow> tool_result_content \<Rightarrow> history_call \<Rightarrow> view_decision
    \<Rightarrow> tool_result_view_policy \<Rightarrow> tool_result_content result" where
  "apply_decision W item content call decision policy =
     bindE (canonical (public_result content)) (\<lambda>source.
     check (view_decision_ok decision) ValueError
     (bindE (bindings W content call) (\<lambda>bs.
     check (vd_item_id decision = item_id item \<and> vd_call_id decision = tr_call_id content
         \<and> vd_source_sha256 decision = sha256_hex source
         \<and> vd_source_utf8_bytes decision = length source \<and> vd_references decision = bs) mismatch
     (let view = (if vd_strategy decision = Inline then content
                  else content\<lparr>tr_output := vd_replacement_output decision\<rparr>)
      in bindE (if vd_strategy decision = Artifact_reference
                then replacement_matches W content (tr_output view) else Inr ()) (\<lambda>_.
         bindE (canonical (public_result view)) (\<lambda>encoded.
         check (length encoded \<le> max_inline_utf8_bytes policy
             \<and> length encoded = vd_view_utf8_bytes decision
             \<and> sha256_hex encoded = vd_view_sha256 decision) mismatch (Inr view)))))))"

section \<open>Preparing a history\<close>

record history_reference =
  hr_call_id :: uuid
  hr_binding :: artifact_binding
  hr_omitted_field :: "string option"
  hr_owner_thread_id :: "uuid option"

record prepared_model_history =
  ph_history :: "item list"
  ph_inspection :: inspection_record
  ph_new_decisions :: "view_decision list"
  ph_references :: "history_reference list"

record history_scan =
  hs_calls :: "(uuid \<times> history_call) list"
  hs_settled :: "uuid list"
  hs_supplied :: "view_decision list"
  hs_prepared :: "item list"
  hs_used :: "view_decision list"
  hs_created :: "view_decision list"

definition prior_decisions :: "thread \<Rightarrow> view_decision list" where
  "prior_decisions th =
     (case th_fork_snapshot th of None \<Rightarrow> [] | Some f \<Rightarrow> fs_tool_result_view_decisions f)
     @ concat (map t_tool_result_view_decisions (th_turns th))"

definition legacy_ids :: "thread \<Rightarrow> uuid list" where
  "legacy_ids th = concat (map (\<lambda>t. map item_id (t_items t))
     (filter (\<lambda>t. 0 < t_model_steps t \<and> t_model_history_inspections t = []) (th_turns th)))"

definition decision_for :: "uuid \<Rightarrow> view_decision list \<Rightarrow> view_decision option" where
  "decision_for i ds = find (\<lambda>d. vd_item_id d = i) ds"

text \<open>The call part of one turn of the loop: a new call is remembered, a repeated one refused.\<close>

definition note_call :: "history_scan \<Rightarrow> item_content \<Rightarrow> history_scan result" where
  "note_call s c =
     (case c of
        ToolCall t \<Rightarrow> check (map_of (hs_calls s) (tc_call_id t) = None) mismatch
          (Inr (s\<lparr>hs_calls := (tc_call_id t, Ordinary t) # hs_calls s\<rparr>))
      | Rejection r \<Rightarrow> check (map_of (hs_calls s) (rj_call_id r) = None) mismatch
          (Inr (s\<lparr>hs_calls := (rj_call_id r, Rejected r) # hs_calls s\<rparr>))
      | _ \<Rightarrow> Inr s)"

text \<open>
  The decision for one result: a prior one is applied again; otherwise a new one is made, or, when
  decisions are supplied, taken from them and applied.
\<close>

definition decide :: "wire \<Rightarrow> thread \<Rightarrow> tool_result_view_policy \<Rightarrow> bool \<Rightarrow> history_scan \<Rightarrow> item
    \<Rightarrow> tool_result_content \<Rightarrow> history_call
    \<Rightarrow> (view_decision \<times> tool_result_content \<times> bool \<times> view_decision list) result" where
  "decide W th policy replaying s item content call =
     (case decision_for (item_id item) (prior_decisions th) of
        Some d \<Rightarrow> bindE (apply_decision W item content call d policy)
          (\<lambda>view. Inr (d, view, False, hs_supplied s))
      | None \<Rightarrow>
          if \<not> replaying
          then bindE (new_decision W item content call policy (item_id item \<in> set (legacy_ids th)))
                 (\<lambda>(d, view). Inr (d, view, True, hs_supplied s))
          else (case decision_for (item_id item) (hs_supplied s) of
                  None \<Rightarrow> Inl mismatch
                | Some d \<Rightarrow>
                    check (vd_limit_utf8_bytes d = max_inline_utf8_bytes policy) mismatch
                    (check (\<not> (item_id item \<in> set (legacy_ids th) \<and> vd_strategy d \<noteq> Inline)) mismatch
                    (bindE (apply_decision W item content call d policy) (\<lambda>view.
                      Inr (d, view, True, filter (\<lambda>x. vd_item_id x \<noteq> item_id item) (hs_supplied s)))))))"

definition history_step :: "wire \<Rightarrow> thread \<Rightarrow> tool_result_view_policy \<Rightarrow> bool \<Rightarrow> history_scan
    \<Rightarrow> item \<Rightarrow> history_scan result" where
  "history_step W th policy replaying s0 item =
     bindE (note_call s0 (i_content item)) (\<lambda>s.
       case i_content item of
         ToolResult content \<Rightarrow>
           (case map_of (hs_calls s) (tr_call_id content) of
              None \<Rightarrow> Inl mismatch
            | Some call \<Rightarrow>
                check (tr_call_id content \<notin> set (hs_settled s)) mismatch
                (bindE (decide W th policy replaying s item content call)
                  (\<lambda>(d, view, fresh, supplied).
                    Inr (s\<lparr>hs_settled := tr_call_id content # hs_settled s, hs_supplied := supplied,
                           hs_prepared := hs_prepared s @ [item\<lparr>i_content := ToolResult view\<rparr>],
                           hs_used := hs_used s @ [d],
                           hs_created := (if fresh then hs_created s @ [d] else hs_created s)\<rparr>))))
       | _ \<Rightarrow> Inr (s\<lparr>hs_prepared := hs_prepared s @ [item]\<rparr>))"

definition omitted_field_of :: "view_decision \<Rightarrow> string option" where
  "omitted_field_of d =
     (case jget ''model_view'' (vd_replacement_output d) of None \<Rightarrow> None
      | Some m \<Rightarrow> (case jget ''omitted_field'' m of Some (JStr f) \<Rightarrow> Some f | _ \<Rightarrow> None))"

definition artifact_owner :: "thread \<Rightarrow> uuid \<Rightarrow> uuid option" where
  "artifact_owner th aid =
     (case th_fork_snapshot th of None \<Rightarrow> None
      | Some f \<Rightarrow> map_option fo_owner_thread_id
          (find (\<lambda>x. fo_artifact_id x = aid) (fs_artifact_owners f)))"

definition reference_of :: "thread \<Rightarrow> view_decision \<Rightarrow> artifact_binding \<Rightarrow> history_reference" where
  "reference_of th d b =
     \<lparr>hr_call_id = vd_call_id d, hr_binding = b,
      hr_omitted_field = (if ab_purpose b = Bp_tool_result then omitted_field_of d else None),
      hr_owner_thread_id = artifact_owner th (artifact_id (ab_artifact b))\<rparr>"

definition inspection_of :: "nat \<Rightarrow> tool_result_view_policy \<Rightarrow> item list \<Rightarrow> item list
    \<Rightarrow> view_decision list \<Rightarrow> nat \<Rightarrow> model_history_inspection" where
  "inspection_of model_step policy source prepared used artifact_count =
     \<lparr>mh_model_step = model_step, mh_policy = policy, mh_history_items = length source,
      mh_tool_results = length used,
      mh_inline_results = length (filter (\<lambda>d. vd_strategy d = Inline) used),
      mh_artifact_reference_results = length (filter (\<lambda>d. vd_strategy d = Artifact_reference) used),
      mh_artifact_bindings = artifact_count,
      mh_source_tool_result_utf8_bytes = sum_list (map vd_source_utf8_bytes used),
      mh_view_tool_result_utf8_bytes = sum_list (map vd_view_utf8_bytes used),
      mh_source_history_sha256 = view_history_sha256 source,
      mh_view_history_sha256 = view_history_sha256 prepared,
      mh_decisions_sha256 = digest (JArr (map decision_json used))\<rparr>"

definition empty_history_scan :: "view_decision list \<Rightarrow> history_scan" where
  "empty_history_scan supplied =
     \<lparr>hs_calls = [], hs_settled = [], hs_supplied = supplied, hs_prepared = [], hs_used = [],
      hs_created = []\<rparr>"

text \<open>\<open>decisions\<close> is \<open>None\<close> while planning and \<open>Some\<close> while replaying recorded decisions.\<close>

definition prepare_model_history_items :: "wire \<Rightarrow> thread \<Rightarrow> item list \<Rightarrow> nat
    \<Rightarrow> tool_result_view_policy \<Rightarrow> view_decision list option \<Rightarrow> bool \<Rightarrow> prepared_model_history result" where
  "prepare_model_history_items W th source_history model_step policy decisions require_all =
    (let prior = prior_decisions th;
         supplied = (case decisions of None \<Rightarrow> [] | Some ds \<Rightarrow> ds) in
     check (source_history \<noteq> []) (KernelError ''empty_transcript'')
     (check (length source_history \<le> 8192) (KernelError ''context_budget_exceeded'')
     (bindE (documents source_history) (\<lambda>docs.
     check (documents_bytes docs \<le> 8388608) (KernelError ''context_budget_exceeded'')
     (check (distinct (map vd_item_id prior)) mismatch
     (check (distinct (map vd_item_id supplied)
         \<and> set (map vd_item_id supplied) \<inter> set (map vd_item_id prior) = {}) mismatch
     (bindE (foldE (history_step W th policy (decisions \<noteq> None)) (empty_history_scan supplied)
         source_history) (\<lambda>s.
     check (hs_supplied s = []
         \<and> (require_all \<longrightarrow> set (map vd_item_id prior) \<subseteq> set (map item_id source_history))) mismatch
     (let references = concat (map (\<lambda>d. map (reference_of th d) (vd_references d)) (hs_used s));
          inspection = inspection_of model_step policy source_history (hs_prepared s) (hs_used s)
            (length references)
      in check (model_history_inspection_ok inspection) ValueError
         (Inr \<lparr>ph_history = hs_prepared s, ph_inspection = Inspection_v1 inspection,
               ph_new_decisions = hs_created s, ph_references = references\<rparr>))))))))))"

definition prepare_model_history :: "wire \<Rightarrow> thread \<Rightarrow> nat \<Rightarrow> tool_result_view_policy
    \<Rightarrow> view_decision list option \<Rightarrow> prepared_model_history result" where
  "prepare_model_history W th model_step policy decisions =
     prepare_model_history_items W th (history_items th) model_step policy decisions True"

end
