(* ===== verification/Model_View.thy ===== *)
theory Model_View
  imports Tool_Result_View
begin

text \<open>
  Which history the model really gets (src/src/harnessix/context/: compaction_projection.py,
  compaction_window.py, working_set_view.py): the summary of a compaction as an item, the source
  behind the active window, and the working set that shows only the results of the most recent
  groups of tool calls in full.
\<close>

section \<open>The summary as an item\<close>

definition summary_text :: "compaction_summary \<Rightarrow> string" where
  "summary_text s =
     json_dumps (jobj [(''schema'', JStr ''harnessix.compaction-summary/v1''),
       (''compaction_id'', juuid (cs_compaction_id s)), (''trust'', JStr ''derived_history''),
       (''authority'', JStr ''none''), (''summary'', JStr (cs_text s))])"

definition compaction_summary_item :: "compaction_summary \<Rightarrow> item result" where
  "compaction_summary_item s =
     check (py_len (summary_text s) \<le> 1000000) ValueError
       (Inr \<lparr>item_id = uuid5 (cs_compaction_id s) ''harnessix.compaction-summary/v1'',
             i_status = Is_COMPLETED,
             i_content = Text \<lparr>tx_kind = Assistant_message, tx_text = summary_text s\<rparr>,
             i_error = None\<rparr>)"

section \<open>The active window\<close>

definition digest_ids :: "item list \<Rightarrow> string" where
  "digest_ids items = digest (JArr (map (\<lambda>i. juuid (item_id i)) items))"

text \<open>\<^verbatim>\<open>"[" + ",".join(history_document(item) ...) + "]"\<close>.\<close>

fun joined :: "string list \<Rightarrow> string" where
  "joined [] = []"
| "joined [d] = d"
| "joined (d # e # ds) = d @ '','' @ joined (e # ds)"

definition history_digest :: "item list \<Rightarrow> string result" where
  "history_digest items =
     bindE (documents items) (\<lambda>ds. Inr (sha256_hex (''['' @ joined ds @ '']'')))"

definition window_invalid :: py_error where
  "window_invalid = KernelError ''context_compaction_window_invalid''"

definition compaction_record_of :: "thread \<Rightarrow> uuid \<Rightarrow> compaction_record result" where
  "compaction_record_of th cid =
     (case filter (\<lambda>r. compaction_id (cr_plan r) = cid) (concat (map t_compactions (th_turns th))) of
        [r] \<Rightarrow> Inr r | _ \<Rightarrow> Inl window_invalid)"

definition active_window :: "thread \<Rightarrow> compaction_window option result" where
  "active_window th =
     (case th_active_compaction_window_id th of
        None \<Rightarrow> Inr None
      | Some identity \<Rightarrow>
          (case filter (\<lambda>w. window_id w = identity) (th_compaction_windows th) of
             [w] \<Rightarrow> check (last (th_compaction_windows th) = w) window_invalid (Inr (Some w))
           | _ \<Rightarrow> Inl window_invalid))"

text \<open>The validated constructor call of \<^verbatim>\<open>build_compaction_window\<close>.\<close>

definition build_compaction_window :: "thread \<Rightarrow> compaction_record \<Rightarrow> item list \<Rightarrow> string \<Rightarrow> int
    \<Rightarrow> uuid \<Rightarrow> nat \<Rightarrow> datetime \<Rightarrow> compaction_window result" where
  "build_compaction_window th record history history_sha256 history_tokens wid activated_seq activated_at =
    (let raw = history_items th in
     check (raw \<noteq> []) window_invalid
     (case cr_finished_event_sequence record of
        None \<Rightarrow> Inl window_invalid
      | Some finished \<Rightarrow>
         (let w = \<lparr>window_id = wid, w_compaction_id = compaction_id (cr_plan record),
             w_previous_window_id = th_active_compaction_window_id th,
             w_source_finished_event_sequence = finished, w_activated_event_sequence = activated_seq,
             w_model_step = cp_model_step (cr_plan record),
             w_history_item_ids = map item_id history, w_history_sha256 = history_sha256,
             w_history_tokens = history_tokens, w_raw_history_items = length raw,
             w_raw_history_last_item_id = item_id (last raw),
             w_raw_history_ids_sha256 = digest_ids raw, w_activated_at = activated_at\<rparr>
          in check (compaction_window_ok w) ValueError (Inr w))))"

definition summary_records :: "thread \<Rightarrow> compaction_record list" where
  "summary_records th =
     filter (\<lambda>r. cr_status r = Cs_summarized \<and> cr_summary r \<noteq> None)
       (concat (map t_compactions (th_turns th)))"

definition add_summary ::
  "(uuid \<times> item) list \<Rightarrow> compaction_record \<Rightarrow> (uuid \<times> item) list result" where
  "add_summary by_id record =
     (case cr_summary record of
        None \<Rightarrow> Inr by_id
      | Some s \<Rightarrow> bindE (compaction_summary_item s) (\<lambda>i.
          check (map_of by_id (item_id i) = None) window_invalid (Inr ((item_id i, i) # by_id))))"

definition look_up :: "(uuid \<times> item) list \<Rightarrow> item list \<Rightarrow> uuid \<Rightarrow> item list result" where
  "look_up by_id found i =
     (case map_of by_id i of None \<Rightarrow> Inl window_invalid | Some x \<Rightarrow> Inr (found @ [x]))"

definition window_source :: "wire \<Rightarrow> thread \<Rightarrow> compaction_window \<Rightarrow> item list result" where
  "window_source W th window =
    (let raw = history_items th; n = w_raw_history_items window in
     check (n \<le> length raw \<and> item_id (raw ! (n - 1)) = w_raw_history_last_item_id window
         \<and> digest_ids (take n raw) = w_raw_history_ids_sha256 window)
       (KernelError ''context_compaction_window_source_changed'')
     (bindE (foldE add_summary (rev (map (\<lambda>i. (item_id i, i)) raw)) (summary_records th)) (\<lambda>by_id.
      bindE (foldE (look_up by_id) [] (w_history_item_ids window)) (\<lambda>base.
      check (distinct (map item_id base)) window_invalid
      (bindE (compaction_record_of th (w_compaction_id window)) (\<lambda>record.
       bindE (prepare_model_history_items W th base (w_model_step window)
           (cp_tool_result_view_policy (cr_plan record)) None False) (\<lambda>prepared.
       bindE (history_digest (ph_history prepared)) (\<lambda>sha.
       bindE (documents (ph_history prepared)) (\<lambda>docs.
       check (ph_new_decisions prepared = [] \<and> sha = w_history_sha256 window
           \<and> int (documents_bytes docs) = w_history_tokens window) window_invalid
       (Inr (base @ drop n raw)))))))))))"

definition prepare_active_model_history :: "wire \<Rightarrow> thread \<Rightarrow> nat \<Rightarrow> tool_result_view_policy
    \<Rightarrow> view_decision list option \<Rightarrow> prepared_model_history result" where
  "prepare_active_model_history W th model_step policy decisions =
     bindE (active_window th) (\<lambda>window.
       case window of
         None \<Rightarrow> prepare_model_history W th model_step policy decisions
       | Some w \<Rightarrow>
           bindE (window_source W th w) (\<lambda>source.
           bindE (prepare_model_history_items W th source model_step policy decisions False) (\<lambda>prepared.
             (let inspection = Inspection_v2 (inspection_base (ph_inspection prepared))
                \<lparr>wb_window_id = window_id w, wb_window_history_sha256 = w_history_sha256 w,
                 wb_raw_history_items = length (history_items th)\<rparr>
              in check (inspection_record_ok inspection) ValueError
                 (Inr (prepared\<lparr>ph_inspection := inspection\<rparr>))))))"

definition active_model_history_source :: "wire \<Rightarrow> thread \<Rightarrow> item list result" where
  "active_model_history_source W th =
     bindE (active_window th) (\<lambda>window.
       case window of None \<Rightarrow> Inr (history_items th) | Some w \<Rightarrow> window_source W th w)"

section \<open>The working set\<close>

definition MAX_RETAINED_SCALAR_BYTES :: nat where "MAX_RETAINED_SCALAR_BYTES = 160"

definition short_scalar :: "json \<Rightarrow> bool" where
  "short_scalar v =
     (case v of JNull \<Rightarrow> True | JBool _ \<Rightarrow> True | JInt _ \<Rightarrow> True | JFloat _ \<Rightarrow> True
      | JStr s \<Rightarrow> length s \<le> MAX_RETAINED_SCALAR_BYTES \<and> CHR 0x0A \<notin> set s | _ \<Rightarrow> False)"

definition stale_output :: "json \<Rightarrow> json result" where
  "stale_output output =
     bindE (canonical output) (\<lambda>bytes.
      (let retained = (case output of JObj kvs \<Rightarrow> filter (\<lambda>kv. short_scalar (snd kv)) kvs | _ \<Rightarrow> [])
       in Inr (jobj ([(''spec_version'', JStr ''harnessix.stale-tool-result/v1''),
            (''source_utf8_bytes'', JInt (int (length bytes))),
            (''note'', JStr ''Older tool output omitted from this view; repeat a focused call if needed.'')]
            @ (if retained = [] then [] else [(''retained'', JObj retained)])))))"

text \<open>
  \<^verbatim>\<open>_stale_call_ids\<close>: a group is the run of calls, rejections and assistant texts of one model
  response; the state of the loop is the list of groups and whether the last item was responding.
\<close>

definition responding :: "item_content \<Rightarrow> bool" where
  "responding c =
     (case c of ToolCall _ \<Rightarrow> True | Rejection _ \<Rightarrow> True
      | Text t \<Rightarrow> tx_kind t = Assistant_message | _ \<Rightarrow> False)"

definition add_to_last :: "'a \<Rightarrow> 'a list list \<Rightarrow> 'a list list" where
  "add_to_last x gs = (if gs = [] then [] else butlast gs @ [last gs @ [x]])"

definition group_step :: "uuid list list \<times> bool \<Rightarrow> item \<Rightarrow> uuid list list \<times> bool" where
  "group_step st item =
    (let (groups, in_response) = st; c = i_content item;
         opened = (if responding c \<and> \<not> in_response then groups @ [[]] else groups)
     in ((case c of ToolCall t \<Rightarrow> add_to_last (tc_call_id t) opened | _ \<Rightarrow> opened), responding c))"

definition call_groups :: "item list \<Rightarrow> uuid list list" where
  "call_groups history = filter (\<lambda>g. g \<noteq> []) (fst (foldl group_step ([], False) history))"

definition stale_call_ids :: "item list \<Rightarrow> nat \<Rightarrow> uuid list" where
  "stale_call_ids history retain =
     concat (take (length (call_groups history) - retain) (call_groups history))"

definition mask_item :: "uuid list \<Rightarrow> item \<Rightarrow> (item \<times> nat) result" where
  "mask_item stale item =
     (case i_content item of
        ToolResult content \<Rightarrow>
          if tr_call_id content \<in> set stale
          then bindE (stale_output (tr_output content)) (\<lambda>placeholder.
               bindE (canonical placeholder) (\<lambda>short.
               bindE (canonical (tr_output content)) (\<lambda>full.
               Inr (if length short < length full
                    then (item\<lparr>i_content := ToolResult (content\<lparr>tr_output := placeholder\<rparr>)\<rparr>, 1)
                    else (item, 0)))))
          else Inr (item, 0)
      | _ \<Rightarrow> Inr (item, 0))"

fun mask_items :: "uuid list \<Rightarrow> item list \<Rightarrow> (item list \<times> nat) result" where
  "mask_items stale [] = Inr ([], 0)"
| "mask_items stale (i # is) =
     bindE (mask_item stale i) (\<lambda>(j, n). bindE (mask_items stale is) (\<lambda>(js, m). Inr (j # js, n + m)))"

definition apply_working_set :: "prepared_model_history \<Rightarrow> nat \<Rightarrow> prepared_model_history result" where
  "apply_working_set prepared retain =
     (case ph_inspection prepared of
        Inspection_v1 base \<Rightarrow>
          bindE (mask_items (stale_call_ids (ph_history prepared) retain) (ph_history prepared))
            (\<lambda>(view, stale_results).
              (let inspection = Inspection_v3 (base\<lparr>mh_view_history_sha256 := view_history_sha256 view\<rparr>)
                 \<lparr>ws_retain_recent_result_groups = retain, ws_stale_results = stale_results\<rparr>
               in check (inspection_record_ok inspection) ValueError
                  (Inr (prepared\<lparr>ph_history := view, ph_inspection := inspection\<rparr>))))
      | _ \<Rightarrow> Inl ValueError)"

definition prepare_model_view :: "wire \<Rightarrow> thread \<Rightarrow> nat \<Rightarrow> tool_result_view_policy \<Rightarrow> nat option
    \<Rightarrow> view_decision list option \<Rightarrow> prepared_model_history result" where
  "prepare_model_view W th model_step policy retain decisions =
     bindE (prepare_active_model_history W th model_step policy decisions) (\<lambda>prepared.
       case (retain, ph_inspection prepared) of
         (Some n, Inspection_v1 _) \<Rightarrow> apply_working_set prepared n
       | _ \<Rightarrow> Inr prepared)"

definition previous_model_view :: "wire \<Rightarrow> thread \<Rightarrow> inspection_record \<Rightarrow> item list option result" where
  "previous_model_view W th inspection =
    (let base = inspection_base inspection;
         source = take (mh_history_items base) (history_items th)
     in case inspection of
          Inspection_v2 _ _ \<Rightarrow> Inr None
        | _ \<Rightarrow>
          if length source \<noteq> mh_history_items base then Inr None
          else bindE (prepare_model_history_items W th source (mh_model_step base) (mh_policy base)
                        None False) (\<lambda>prepared.
               if ph_new_decisions prepared \<noteq> [] then Inr None
               else bindE (case inspection of
                       Inspection_v3 _ w \<Rightarrow> apply_working_set prepared (ws_retain_recent_result_groups w)
                     | _ \<Rightarrow> Inr prepared) (\<lambda>p.
                    Inr (if ph_inspection p = inspection then Some (ph_history p) else None))))"

end
