(* ===== verification/Compaction_Plan.thy ===== *)
theory Compaction_Plan
  imports Model_View
begin

text \<open>
  Planning and validating a compaction (src/src/harnessix/context/compaction.py): the split of a
  history into closed groups, the selection of what is retained within the budget, the plan, and
  the candidate window with its summary. The generators of the source yield at cancellation points
  only; the model is the function they compute.
\<close>

section \<open>Closed groups\<close>

definition invalid_history :: py_error where
  "invalid_history = KernelError ''context_compaction_invalid_history''"

record group_scan =
  gs_groups :: "item list list"
  gs_current :: "item list"
  gs_pending :: "uuid list"
  gs_seen :: "uuid list"
  gs_item_ids :: "uuid list"
  gs_taking :: bool

definition empty_group_scan :: group_scan where
  "empty_group_scan = \<lparr>gs_groups = [], gs_current = [], gs_pending = [], gs_seen = [], gs_item_ids = [],
     gs_taking = False\<rparr>"

definition flush :: "group_scan \<Rightarrow> group_scan" where
  "flush s = (if gs_current s = [] then s
     else s\<lparr>gs_groups := gs_groups s @ [gs_current s], gs_current := []\<rparr>)"

definition take_call :: "uuid \<Rightarrow> item \<Rightarrow> group_scan \<Rightarrow> group_scan result" where
  "take_call c item s =
     check (c \<notin> set (gs_seen s)) invalid_history
       (Inr (s\<lparr>gs_seen := c # gs_seen s, gs_pending := c # gs_pending s,
               gs_current := gs_current s @ [item]\<rparr>))"

text \<open>\<open>gs_pending\<close> is a set: a call enters it once, so removing its occurrences removes the one.\<close>

definition take_result :: "uuid \<Rightarrow> item \<Rightarrow> group_scan \<Rightarrow> group_scan result" where
  "take_result c item s =
     check (c \<in> set (gs_pending s)) invalid_history
      (let pending = filter (\<lambda>x. x \<noteq> c) (gs_pending s); current = gs_current s @ [item]
       in Inr (if pending = []
               then s\<lparr>gs_groups := gs_groups s @ [current], gs_current := [], gs_pending := [],
                       gs_taking := False\<rparr>
               else s\<lparr>gs_current := current, gs_pending := pending, gs_taking := True\<rparr>))"

definition closed_group_step :: "group_scan \<Rightarrow> item \<Rightarrow> group_scan result" where
  "closed_group_step s0 item =
     check (item_id item \<notin> set (gs_item_ids s0) \<and> i_status item = Is_COMPLETED) invalid_history
    (let s = s0\<lparr>gs_item_ids := item_id item # gs_item_ids s0\<rparr>
     in case i_content item of
          ToolResult r \<Rightarrow> take_result (tr_call_id r) item s
        | c \<Rightarrow>
          check (\<not> gs_taking s) invalid_history
          (case c of
             Text t \<Rightarrow>
               (case tx_kind t of
                  User_message \<Rightarrow>
                    check (gs_pending s = []) invalid_history
                     (let f = flush s in Inr (f\<lparr>gs_groups := gs_groups f @ [[item]]\<rparr>))
                | Assistant_message \<Rightarrow> Inr (s\<lparr>gs_current := gs_current s @ [item]\<rparr>)
                | Reasoning_summary \<Rightarrow> Inl invalid_history)
           | ToolCall t \<Rightarrow> take_call (tc_call_id t) item s
           | Rejection r \<Rightarrow> take_call (rj_call_id r) item s
           | _ \<Rightarrow> Inl invalid_history))"

definition closed_groups :: "item list \<Rightarrow> item list list result" where
  "closed_groups history =
     bindE (foldE closed_group_step empty_group_scan history) (\<lambda>s.
       check (gs_pending s = []) invalid_history (Inr (gs_groups (flush s))))"

section \<open>The state a compaction may start from\<close>

definition thread_attempts :: "thread \<Rightarrow> model_attempt list" where
  "thread_attempts th = concat (map accounted_attempts (th_turns th))"

definition thread_items :: "thread \<Rightarrow> item list" where
  "thread_items th = concat (map t_items (th_turns th))"

definition is_user_message :: "item_content \<Rightarrow> bool" where
  "is_user_message c = (case c of Text t \<Rightarrow> tx_kind t = User_message | _ \<Rightarrow> False)"

text \<open>\<^verbatim>\<open>_current_user\<close>; the identity test \<^verbatim>\<open>turn is not active\<close> compares Turn identities here.\<close>

definition current_user :: "thread \<Rightarrow> nat \<Rightarrow> uuid result" where
  "current_user th model_step =
     (case find (\<lambda>t. Some (turn_id t) = th_active_turn_id th) (th_turns th) of
        None \<Rightarrow> Inl (KernelError ''context_compaction_unsafe_state'')
      | Some active \<Rightarrow>
          check (1 \<le> th_sequence th \<and> t_status active = Ts_PREPARING_CONTEXT
              \<and> model_step = t_model_steps active + 1
              \<and> list_all (\<lambda>t. turn_id t \<noteq> turn_id active \<longrightarrow> t_status t \<in> set TERMINAL_TURNS) (th_turns th)
              \<and> list_all (\<lambda>i. i_status i \<noteq> Is_STARTED) (thread_items th)
              \<and> list_all (\<lambda>a. a_status a \<noteq> At_running) (thread_attempts th)
              \<and> list_all (\<lambda>c. \<not> is_open c) (concat (map t_compactions (th_turns th))))
            (KernelError ''context_compaction_unsafe_state'')
          (check (t_model_steps active < max_steps (t_budget active)
              \<and> total_tokens (t_usage active) < max_tokens (t_budget active))
            (KernelError ''budget_exceeded'')
          (case filter (\<lambda>i. i_status i = Is_COMPLETED \<and> is_user_message (i_content i)) (t_items active) of
             [i] \<Rightarrow> Inr (item_id i) | _ \<Rightarrow> Inl invalid_history)))"

section \<open>The source of the summary\<close>

definition summary_content_json :: "item_content \<Rightarrow> json" where
  "summary_content_json c =
     (case c of
        Text t \<Rightarrow> text_json t
      | ToolCall t \<Rightarrow> jobj [(''kind'', JStr ''tool_call''), (''call_id'', juuid (tc_call_id t)),
          (''tool'', JStr (tc_tool t)), (''arguments'', json_mode (tc_arguments t))]
      | Rejection r \<Rightarrow> jobj [(''kind'', JStr ''tool_call_rejection''), (''call_id'', juuid (rj_call_id r)),
          (''reason'', JStr (rejection_reason_value (rj_reason r))),
          (''model_step'', JInt (int (rj_model_step r)))]
      | ToolResult r \<Rightarrow> jobj ([(''kind'', JStr ''tool_result''), (''call_id'', juuid (tr_call_id r)),
          (''outcome'', JStr (result_outcome_value (tr_outcome r))),
          (''output'', json_mode (tr_output r)), (''error'', jopt failure_json (tr_error r))]
          @ jfield ''diff_artifact'' artifact_json (tr_diff_artifact r))
      | _ \<Rightarrow> JNull)"

definition summary_source_of :: "item list \<Rightarrow> string" where
  "summary_source_of items =
     json_dumps (jobj [(''schema'', JStr ''harnessix.compaction-source/v1''),
       (''trust'', JStr ''untrusted_history''), (''authority'', JStr ''none''),
       (''items'', JArr (map (\<lambda>i. jobj [(''item_id'', juuid (item_id i)),
          (''content'', summary_content_json (i_content i))]) items))])"

section \<open>Selection\<close>

definition group_size :: "item list \<Rightarrow> nat result" where
  "group_size g = bindE (documents g) (\<lambda>ds. Inr (documents_bytes ds))"

fun group_sizes :: "item list list \<Rightarrow> nat list result" where
  "group_sizes [] = Inr []"
| "group_sizes (g # gs) = bindE (group_size g) (\<lambda>n. bindE (group_sizes gs) (\<lambda>ns. Inr (n # ns)))"

definition selected_bytes :: "nat list \<Rightarrow> nat list \<Rightarrow> nat" where
  "selected_bytes sizes selected =
     sum_list (map (\<lambda>i. if i \<in> set selected then sizes ! i else 0) [0..<length sizes])"

text \<open>The loop \<^verbatim>\<open>for index in range(tail - 1, -1, -1)\<close>; \<open>k\<close> is the number of indices still ahead.\<close>

fun extend_selected :: "nat list \<Rightarrow> nat \<Rightarrow> nat \<Rightarrow> nat list \<Rightarrow> nat \<Rightarrow> nat list \<times> nat" where
  "extend_selected sizes available 0 selected retained = (selected, retained)"
| "extend_selected sizes available (Suc k) selected retained =
     (if k \<in> set selected then extend_selected sizes available k selected retained
      else if available < retained + sizes ! k then (selected, retained)
      else extend_selected sizes available k (k # selected) (retained + sizes ! k))"

definition pick_groups :: "(nat \<Rightarrow> bool) \<Rightarrow> item list list \<Rightarrow> item list" where
  "pick_groups P groups = concat (map (\<lambda>i. if P i then groups ! i else []) [0..<length groups])"

definition anchor_ok :: "(uuid \<times> item) list \<Rightarrow> uuid list \<Rightarrow> compaction_anchor \<Rightarrow> uuid list result" where
  "anchor_ok original pins anchor =
     (case map_of original (an_item_id anchor) of
        None \<Rightarrow> Inl (KernelError ''context_compaction_anchor_mismatch'')
      | Some i \<Rightarrow> bindE (history_document i) (\<lambda>d.
          check (sha256_hex d = an_source_sha256 anchor)
            (KernelError ''context_compaction_anchor_mismatch'') (Inr (an_item_id anchor # pins))))"

record prepared_compaction =
  pc_plan :: compaction_plan
  pc_model_history :: prepared_model_history
  pc_summary_source :: string
  pc_retained_history :: "item list"

record group_choice =
  ch_selected :: "nat list"
  ch_pinned :: "nat list"
  ch_policy :: compaction_policy
  ch_retained :: nat
  ch_sizes :: "nat list"

text \<open>The choice of the retained groups, up to the end of the extension loop.\<close>

definition choose_groups :: "compaction_policy \<Rightarrow> int option \<Rightarrow> uuid list \<Rightarrow> item list list
    \<Rightarrow> group_choice result" where
  "choose_groups policy preferred pins groups =
    (let pinned = filter (\<lambda>i. list_ex (\<lambda>x. item_id x \<in> set pins) (groups ! i)) [0..<length groups];
         tail = length groups - retain_recent_groups policy;
         selected0 = [tail..<length groups] @ pinned
     in bindE (group_sizes groups) (\<lambda>sizes.
        let retained0 = selected_bytes sizes selected0 in
        bindE (case preferred of
                 None \<Rightarrow> Inr policy
               | Some p \<Rightarrow>
                  (let target = max p (int retained0 + summary_reserve_tokens policy);
                       changed = policy\<lparr>target_history_tokens := target\<rparr>
                   in check (target \<le> target_history_tokens policy)
                        (KernelError ''context_compaction_retained_overflow'')
                      (check (compaction_policy_ok changed) ValueError (Inr changed)))) (\<lambda>effective.
        (let available = target_history_tokens effective - summary_reserve_tokens effective
         in check (int retained0 \<le> available) (KernelError ''context_compaction_retained_overflow'')
            (case extend_selected sizes (nat available) tail selected0 retained0 of
               (selected, retained) \<Rightarrow>
                 Inr \<lparr>ch_selected = selected, ch_pinned = pinned, ch_policy = effective,
                      ch_retained = retained, ch_sizes = sizes\<rparr>)))))"

definition plan_steps :: "wire \<Rightarrow> thread \<Rightarrow> nat \<Rightarrow> tool_result_view_policy \<Rightarrow> compaction_policy \<Rightarrow> uuid
    \<Rightarrow> compaction_anchor list \<Rightarrow> int option \<Rightarrow> prepared_compaction result" where
  "plan_steps W th model_step view_policy policy cid anchors preferred =
     check (compaction_policy_ok policy) ValueError
     (check (case preferred of None \<Rightarrow> True
         | Some p \<Rightarrow> 512 \<le> p \<and> p \<le> target_history_tokens policy)
       (KernelError ''context_compaction_invalid_policy'')
     (check (view_policy_ok view_policy) ValueError
     (bindE (current_user th model_step) (\<lambda>current_user_id.
      check (length anchors \<le> 64 \<and> distinct (map an_item_id anchors))
        (KernelError ''context_compaction_anchor_mismatch'')
      (check (list_all (\<lambda>a. is_digest (an_source_sha256 a)) anchors) ValueError
      (bindE (prepare_active_model_history W th model_step view_policy None) (\<lambda>prepared.
       let history = ph_history prepared; base = inspection_base (ph_inspection prepared) in
       check (is_user_message (i_content (hd history))) invalid_history
       (bindE (foldE (anchor_ok (rev (map (\<lambda>i. (item_id i, i)) (history_items th))))
           [item_id (hd history), current_user_id] anchors) (\<lambda>pins.
        bindE (closed_groups history) (\<lambda>groups.
        bindE (choose_groups policy preferred pins groups) (\<lambda>ch.
         (let covered = pick_groups (\<lambda>i. i \<notin> set (ch_selected ch)) groups;
              retained = pick_groups (\<lambda>i. i \<in> set (ch_selected ch)) groups;
              effective = ch_policy ch;
              source_tokens = sum_list (ch_sizes ch)
          in check (covered \<noteq> []
                 \<and> min_savings_tokens effective
                    \<le> int source_tokens - int (ch_retained ch) - summary_reserve_tokens effective)
               (KernelError ''context_compaction_no_progress'')
            (let summary_source = summary_source_of covered
             in check (int (length summary_source) \<le> max_summary_input_tokens effective)
                  (KernelError ''context_compaction_source_overflow'')
               (case th_active_turn_id th of
                  None \<Rightarrow> Inl AssertionError
                | Some tid \<Rightarrow>
                   bindE (history_digest retained) (\<lambda>retained_sha.
                   (let plan = \<lparr>compaction_id = cid, cp_thread_id = thread_id th, cp_turn_id = tid,
                       cp_source_event_sequence = th_sequence th, cp_model_step = model_step,
                       cp_policy = effective, cp_tool_result_view_policy = view_policy,
                       cp_anchors = anchors, cp_source_item_ids = map item_id history,
                       cp_covered_item_ids = map item_id covered,
                       cp_retained_item_ids = map item_id retained,
                       cp_pinned_item_ids =
                         map item_id (pick_groups (\<lambda>i. i \<in> set (ch_pinned ch)) groups),
                       cp_source_history_sha256 = mh_source_history_sha256 base,
                       cp_model_history_sha256 = mh_view_history_sha256 base,
                       cp_decisions_sha256 = mh_decisions_sha256 base,
                       cp_summary_source_sha256 = sha256_hex summary_source,
                       cp_retained_history_sha256 = retained_sha,
                       cp_source_history_tokens = int source_tokens,
                       cp_retained_history_tokens = int (ch_retained ch),
                       cp_summary_input_tokens = int (length summary_source)\<rparr>
                    in check (compaction_plan_ok plan) ValueError
                       (Inr \<lparr>pc_plan = plan, pc_model_history = prepared,
                             pc_summary_source = summary_source, pc_retained_history = retained\<rparr>)))))))))))))))))"

section \<open>The candidate\<close>

record validated_compaction =
  vc_plan :: compaction_plan
  vc_summary :: compaction_summary
  vc_history :: "item list"
  vc_history_sha256 :: string
  vc_history_tokens :: int
  vc_summary_sha256 :: string

definition replay_compaction_plan :: "wire \<Rightarrow> thread \<Rightarrow> compaction_plan \<Rightarrow> prepared_compaction result" where
  "replay_compaction_plan W th plan =
     bindE (plan_steps W th (cp_model_step plan) (cp_tool_result_view_policy plan) (cp_policy plan)
         (compaction_id plan) (cp_anchors plan) None) (\<lambda>prepared.
       check (pc_plan prepared = plan) (KernelError ''context_compaction_source_changed'') (Inr prepared))"

definition replay_compaction_candidate ::
  "wire \<Rightarrow> thread \<Rightarrow> compaction_plan \<Rightarrow> compaction_summary \<Rightarrow> validated_compaction result" where
  "replay_compaction_candidate W th plan summary =
     check (compaction_plan_ok plan \<and> compaction_summary_ok summary)
       (KernelError ''context_compaction_candidate_invalid'')
     (check (cs_compaction_id summary = compaction_id plan \<and> thread_id th = cp_thread_id plan
         \<and> th_active_turn_id th = Some (cp_turn_id plan)
         \<and> th_sequence th = cp_source_event_sequence plan)
       (KernelError ''context_compaction_source_changed'')
     (bindE (replay_compaction_plan W th plan) (\<lambda>prepared.
      case compaction_summary_item summary of
        Inl _ \<Rightarrow> Inl (KernelError ''context_compaction_summary_overflow'')
      | Inr summary_item \<Rightarrow>
         check (item_id summary_item \<notin> item_id ` set (thread_items th))
           (KernelError ''context_compaction_candidate_invalid'')
         (bindE (history_document summary_item) (\<lambda>doc.
          check (int (length doc) \<le> summary_reserve_tokens (cp_policy plan))
            (KernelError ''context_compaction_summary_overflow'')
          (let retained = pc_retained_history prepared;
               history = hd retained # summary_item # tl retained;
               after_tokens = int (length doc) + cp_retained_history_tokens plan
           in check (after_tokens \<le> target_history_tokens (cp_policy plan)
                \<and> min_savings_tokens (cp_policy plan) \<le> cp_source_history_tokens plan - after_tokens)
                (KernelError ''context_compaction_no_progress'')
              (bindE (closed_groups history) (\<lambda>_.
               bindE (history_digest history) (\<lambda>sha.
               Inr \<lparr>vc_plan = plan, vc_summary = summary, vc_history = history,
                    vc_history_sha256 = sha, vc_history_tokens = after_tokens,
                    vc_summary_sha256 = sha256_hex (cs_text summary)\<rparr>)))))))))"

end
