(* ===== verification/Turn_Reducer.thy ===== *)
theory Turn_Reducer
  imports Compaction_Plan
begin

text \<open>
  Turn state changes, model attempts and the two context records
  (src/src/harnessix/agent/turn_reducer.py). All guards of the source raise the same error, so the
  guards of one branch are one conjunction in the order of the source.
\<close>

section \<open>State changes\<close>

text \<open>Inspections of the current model step; exactly one gives the number of history items it consumed.\<close>

definition step_inspections :: "turn \<Rightarrow> inspection_record list" where
  "step_inspections t =
     filter (\<lambda>i. inspection_step i = t_model_steps t) (t_model_history_inspections t)"

definition consumed_by :: "inspection_record \<Rightarrow> nat" where
  "consumed_by i =
     (case i of Inspection_v2 _ w \<Rightarrow> wb_raw_history_items w | _ \<Rightarrow> mh_history_items (inspection_base i))"

definition consumed_history :: "turn \<Rightarrow> nat option" where
  "consumed_history t = (case step_inspections t of [i] \<Rightarrow> Some (consumed_by i) | _ \<Rightarrow> None)"

definition no_open_items :: "turn \<Rightarrow> bool" where
  "no_open_items t = list_all (\<lambda>i. i_status i \<noteq> Is_STARTED) (t_items t)"

definition no_running_attempts :: "turn \<Rightarrow> bool" where
  "no_running_attempts t = list_all (\<lambda>a. a_status a \<noteq> At_running) (accounted_attempts t)"

definition no_open_compactions :: "turn \<Rightarrow> bool" where
  "no_open_compactions t = list_all (\<lambda>c. \<not> is_open c) (t_compactions t)"

definition overflow_reentry :: "thread \<Rightarrow> turn \<Rightarrow> agent_event \<Rightarrow> turn_state_changed \<Rightarrow> bool" where
  "overflow_reentry th t e p =
    (let attempts = filter (\<lambda>a. a_step a = t_model_steps t) (t_model_attempts t)
     in 15 \<le> schema_version e \<and> tsc_error p = None
        \<and> attempts \<noteq> [] \<and> a_status (last attempts) = At_failed
        \<and> (case a_error (last attempts) of None \<Rightarrow> False
           | Some f \<Rightarrow> f_code f = ''provider_context_overflow'')
        \<and> list_all (\<lambda>a. a_status a \<noteq> At_running) attempts
        \<and> t_usage_step t < t_model_steps t
        \<and> Some (length (history_items th)) = consumed_history t
        \<and> pending_calls t = [] \<and> no_open_compactions t)"

definition rejection_reentry :: "turn \<Rightarrow> agent_event \<Rightarrow> turn_state_changed \<Rightarrow> bool" where
  "rejection_reentry t e p =
     (21 \<le> schema_version e \<and> tsc_error p = None
      \<and> t_usage_step t = t_model_steps t \<and> 0 < t_model_steps t
      \<and> list_ex (\<lambda>i. case i_content i of Rejection r \<Rightarrow> rj_model_step r = t_model_steps t
          | _ \<Rightarrow> False) (t_items t)
      \<and> require_closed_rejection_items (t_items t) = Inr ()
      \<and> pending_calls t = [] \<and> no_open_items t \<and> no_running_attempts t \<and> no_open_compactions t)"

text \<open>
  \<^verbatim>\<open>history_items(thread)[history_count:]\<close>; without exactly one inspection the count is \<^verbatim>\<open>-1\<close>, and a
  slice from \<^verbatim>\<open>-1\<close> is the last item.
\<close>

definition new_history :: "thread \<Rightarrow> turn \<Rightarrow> item list" where
  "new_history th t =
    (let h = history_items th
     in case consumed_history t of Some n \<Rightarrow> drop n h | None \<Rightarrow> drop (length h - 1) h)"

definition steering_reentry :: "thread \<Rightarrow> turn \<Rightarrow> agent_event \<Rightarrow> turn_state_changed \<Rightarrow> bool" where
  "steering_reentry th t e p =
     (19 \<le> schema_version e \<and> tsc_reason p = Steering
      \<and> list_ex (\<lambda>i. is_user_message (i_content i)) (new_history th t)
      \<and> pending_calls t = [])"

definition model_reentry :: "turn \<Rightarrow> turn_status \<Rightarrow> bool" where
  "model_reentry t target = (t_status t = Ts_CALLING_MODEL \<and> target = Ts_PREPARING_CONTEXT)"

definition reentry_guard :: "thread \<Rightarrow> turn \<Rightarrow> agent_event \<Rightarrow> turn_state_changed \<Rightarrow> bool" where
  "reentry_guard th t e p =
     (if \<not> model_reentry t (tsc_status p) then tsc_reason p = Normal
      else if tsc_reason p = Context_overflow then overflow_reentry th t e p
      else if tsc_reason p = Tool_rejection then rejection_reentry t e p
      else steering_reentry th t e p)"

text \<open>Terminal targets.\<close>

definition completed_errors :: "turn \<Rightarrow> agent_failure list" where
  "completed_errors t = List.map_filter (\<lambda>i. case i_content i of
     Error f \<Rightarrow> if i_status i = Is_COMPLETED then Some f else None | _ \<Rightarrow> None) (t_items t)"

definition abnormal_batch :: "item_content \<Rightarrow> bool" where
  "abnormal_batch c =
     (case c of ToolResult r \<Rightarrow> (case tr_patch_batch r of None \<Rightarrow> False
        | Some e \<Rightarrow> (case pbe_execution e of None \<Rightarrow> False
            | Some x \<Rightarrow> rr_stop_reason (br_run x) \<noteq> Some Sr_completed))
      | _ \<Rightarrow> False)"

definition recovery_result :: "item_content \<Rightarrow> bool" where
  "recovery_result c = (case c of ToolResult r \<Rightarrow> effect_origin_is_recovery r | _ \<Rightarrow> False)"

definition settled_turn :: "turn \<Rightarrow> bool" where
  "settled_turn t =
     (require_closed_rejection_items (t_items t) = Inr () \<and> no_running_attempts t
      \<and> no_open_compactions t \<and> no_open_items t \<and> pending_calls t = [])"

definition terminal_guard :: "turn \<Rightarrow> agent_event \<Rightarrow> turn_state_changed \<Rightarrow> bool" where
  "terminal_guard t e p =
    (let target = tsc_status p; contents = map i_content (t_items t); errors = completed_errors t
     in settled_turn t
        \<and> (target = Ts_COMPLETED \<longrightarrow> tsc_error p = None \<and> \<not> list_ex abnormal_batch contents
             \<and> \<not> list_ex recovery_result contents)
        \<and> (target \<in> {Ts_COMPLETED, Ts_CANCELLED} \<longrightarrow> \<not> has_unknown_result (t_items t))
        \<and> (target \<noteq> Ts_COMPLETED \<longrightarrow> tsc_error p \<noteq> None)
        \<and> (3 \<le> schema_version e \<longrightarrow>
             (if target = Ts_COMPLETED then errors = []
              else errors \<noteq> [] \<and> Some (last errors) = tsc_error p)))"

text \<open>Guards by target, in the order of the source.\<close>

definition has_user_input :: "turn \<Rightarrow> bool" where
  "has_user_input t =
     list_ex (\<lambda>i. is_user_message (i_content i) \<and> i_status i = Is_COMPLETED) (t_items t)"

definition waiting_approval_guard :: "turn \<Rightarrow> bool" where
  "waiting_approval_guard t =
     (case pending_calls t of [] \<Rightarrow> False
      | call # _ \<Rightarrow> (case approval_for t call of None \<Rightarrow> False
          | Some a \<Rightarrow> i_status a = Is_STARTED
              \<and> list_all (\<lambda>i. i_status i \<noteq> Is_STARTED \<or> i = a) (t_items t)))"

definition waiting_action_guard :: "turn \<Rightarrow> bool" where
  "waiting_action_guard t =
     (case pending_calls t of [] \<Rightarrow> False
      | call # _ \<Rightarrow> (case process_approval t call of None \<Rightarrow> False
          | Some (i, a) \<Rightarrow> i_status i = Is_COMPLETED \<and> pq_decision a \<noteq> None)
        \<and> no_open_items t)"

definition questions_for :: "turn \<Rightarrow> uuid \<Rightarrow> item list" where
  "questions_for t c = filter (\<lambda>i. case i_content i of QuestionRequest q \<Rightarrow> qr_call_id q = c
     | _ \<Rightarrow> False) (t_items t)"

definition answers_for :: "turn \<Rightarrow> uuid \<Rightarrow> item list" where
  "answers_for t c = filter (\<lambda>i. case i_content i of QuestionAnswer a \<Rightarrow> qa_call_id a = c
     | _ \<Rightarrow> False) (t_items t)"

definition waiting_input_guard :: "turn \<Rightarrow> agent_event \<Rightarrow> bool" where
  "waiting_input_guard t e =
     (case pending_calls t of [] \<Rightarrow> False
      | call # _ \<Rightarrow> 19 \<le> schema_version e \<and> tc_tool call = ''ask_user''
          \<and> (case questions_for t (tc_call_id call) of [q] \<Rightarrow> i_status q = Is_COMPLETED | _ \<Rightarrow> False)
          \<and> no_open_items t)"

text \<open>Guards for leaving a waiting state towards the execution of tools.\<close>

definition resume_guard :: "turn \<Rightarrow> agent_event \<Rightarrow> bool" where
  "resume_guard t e =
     (case t_status t of
        Ts_WAITING_INPUT \<Rightarrow>
          (case pending_calls t of [] \<Rightarrow> False
           | call # _ \<Rightarrow> length (questions_for t (tc_call_id call)) = 1
               \<and> length (answers_for t (tc_call_id call)) = 1)
      | Ts_WAITING_APPROVAL \<Rightarrow>
          (case pending_calls t of [] \<Rightarrow> False
           | call # _ \<Rightarrow> (case approval_for t call of None \<Rightarrow> False
               | Some i \<Rightarrow> i_status i = Is_COMPLETED
                   \<and> (case i_content i of Approval (ProcessApproval _) \<Rightarrow> False | _ \<Rightarrow> True)
                   \<and> occurred_at e < deadline t))
      | Ts_WAITING_ACTION \<Rightarrow>
          (case pending_calls t of [] \<Rightarrow> False
           | call # _ \<Rightarrow> (case last_effect (process_effects t call) of None \<Rightarrow> False
               | Some x \<Rightarrow> px_status x \<in> set PROCESS_RESOLVED_STATUSES))
      | _ \<Rightarrow> True)"

definition target_guard :: "turn \<Rightarrow> agent_event \<Rightarrow> turn_status \<Rightarrow> bool" where
  "target_guard t e target =
     ((target \<in> {Ts_PREPARING_CONTEXT, Ts_CALLING_MODEL} \<longrightarrow> has_user_input t \<and> no_open_items t)
      \<and> (target \<in> {Ts_EXECUTING_TOOLS, Ts_FINALIZING} \<longrightarrow>
           t_usage_step t = t_model_steps t \<and> no_open_items t)
      \<and> (target = Ts_WAITING_APPROVAL \<longrightarrow> waiting_approval_guard t)
      \<and> (target = Ts_WAITING_ACTION \<longrightarrow> waiting_action_guard t)
      \<and> (target = Ts_WAITING_INPUT \<longrightarrow> waiting_input_guard t e)
      \<and> (target = Ts_EXECUTING_TOOLS \<longrightarrow> resume_guard t e)
      \<and> (target = Ts_CALLING_MODEL \<longrightarrow> t_model_steps t < max_steps (t_budget t)
           \<and> total_tokens (t_usage t) < max_tokens (t_budget t) \<and> pending_calls t = [])
      \<and> (target = Ts_FINALIZING \<longrightarrow> pending_calls t = []))"

definition allowed_targets :: "turn \<Rightarrow> turn_status list" where
  "allowed_targets t = TURN_TRANSITIONS (t_status t)
     @ (if t_status t \<noteq> Ts_CANCELLING then [Ts_CANCELLING, Ts_FAILED, Ts_INTERRUPTED] else [])"

definition change_state :: "thread \<Rightarrow> turn \<Rightarrow> agent_event \<Rightarrow> turn_state_changed \<Rightarrow> turn result" where
  "change_state th t e p =
    (let target = tsc_status p in
     require (target \<in> set (allowed_targets t))
     (require (reentry_guard th t e p)
     (if target \<in> set TERMINAL_TURNS
      then require (terminal_guard t e p)
             (Inr (t\<lparr>t_status := target, t_error := tsc_error p, t_completed_at := Some (occurred_at e)\<rparr>))
      else require (target_guard t e target)
             (Inr (if target = Ts_CALLING_MODEL
                   then t\<lparr>t_status := target, t_model_steps := t_model_steps t + 1\<rparr>
                   else t\<lparr>t_status := target\<rparr>)))))"

section \<open>Model attempts\<close>

definition add_usage :: "turn \<Rightarrow> int \<Rightarrow> int \<Rightarrow> usage result" where
  "add_usage t i out' = make_usage (u_input_tokens (t_usage t) + i) (u_output_tokens (t_usage t) + out')"

definition start_attempt :: "turn \<Rightarrow> agent_event \<Rightarrow> model_attempt_started \<Rightarrow> turn result" where
  "start_attempt t e p =
    (let previous = filter (\<lambda>a. a_step a = ms_step p) (t_model_attempts t) in
     require (t_status t = Ts_CALLING_MODEL
       \<and> ms_step p = t_model_steps t \<and> t_usage_step t < ms_step p
       \<and> list_all (\<lambda>a. a_status a \<noteq> At_running) (t_model_attempts t)
       \<and> ms_index p = length previous + 1
       \<and> (previous = [] \<or> a_status (last previous) = At_failed)
       \<and> total_tokens (t_usage t) < max_tokens (t_budget t))
     (Inr (t\<lparr>t_model_attempts := t_model_attempts t @ [new_attempt p (occurred_at e)]\<rparr>)))"

definition settle_attempt :: "turn \<Rightarrow> agent_event \<Rightarrow> observation \<Rightarrow> turn result" where
  "settle_attempt t e p =
     require (t_status t \<in> {Ts_CALLING_MODEL, Ts_CANCELLING})
     (case find (\<lambda>a. attempt_id a = obs_attempt_id p) (t_model_attempts t) of
        None \<Rightarrow> Inl invalid_event
      | Some attempt \<Rightarrow>
          require (a_status attempt = At_running \<and> a_step attempt = t_model_steps t)
          (bindE (settle_observation attempt p (occurred_at e)) (\<lambda>(settled, input_delta, output_delta).
           bindE (add_usage t input_delta output_delta) (\<lambda>u.
             Inr (t\<lparr>t_usage := u,
                    t_model_attempts := replace_by attempt_id settled (t_model_attempts t)\<rparr>)))))"

section \<open>Context and model history\<close>

definition prepare_context :: "turn \<Rightarrow> context_inspection \<Rightarrow> turn result" where
  "prepare_context t inspection =
     require (t_status t = Ts_PREPARING_CONTEXT
       \<and> context_step inspection = t_model_steps t + 1
       \<and> list_all (\<lambda>c. context_step c \<noteq> context_step inspection) (t_context_inspections t))
     (Inr (t\<lparr>t_context_inspections := t_context_inspections t @ [inspection]\<rparr>))"

definition retain_of :: "inspection_record \<Rightarrow> nat option" where
  "retain_of i = (case i of Inspection_v3 _ w \<Rightarrow> Some (ws_retain_recent_result_groups w) | _ \<Rightarrow> None)"

definition prepare_model_history_event ::
  "wire \<Rightarrow> thread \<Rightarrow> turn \<Rightarrow> inspection_record \<Rightarrow> view_decision list \<Rightarrow> turn result" where
  "prepare_model_history_event W th t inspection decisions =
     require (t_status t = Ts_PREPARING_CONTEXT
       \<and> inspection_step inspection = t_model_steps t + 1
       \<and> list_all (\<lambda>i. inspection_step i \<noteq> inspection_step inspection) (t_model_history_inspections t))
     (bindE (as_invalid_event (prepare_model_view W th (inspection_step inspection)
         (mh_policy (inspection_base inspection)) (retain_of inspection) (Some decisions))) (\<lambda>prepared.
      require (ph_inspection prepared = inspection)
      (require (ph_new_decisions prepared = decisions)
      (Inr (t\<lparr>t_tool_result_view_decisions := t_tool_result_view_decisions t @ decisions,
              t_model_history_inspections := t_model_history_inspections t @ [inspection]\<rparr>)))))"

end
