(* ===== verification/Item_Reducer.thy ===== *)
theory Item_Reducer
  imports Turn_Reducer
begin

text \<open>
  Starting and finishing items (src/src/harnessix/agent/item_reducer.py). One function per kind of
  content holds the guards of its branch of \<^verbatim>\<open>_start_item\<close>; \<open>start_item\<close> dispatches on the content and
  places the new item, \<open>finish_item\<close> replaces a started item by its final form.
\<close>

section \<open>Placement\<close>

text \<open>
  \<^verbatim>\<open>_append_step_item_before_pending_steering\<close>: what the model produced in this step stands before user
  messages that arrived while the step was running.
\<close>

definition pending_steering :: "thread \<Rightarrow> turn \<Rightarrow> uuid list" where
  "pending_steering th t =
     (case consumed_history t of
        None \<Rightarrow> []
      | Some n \<Rightarrow>
          if length (history_items th) < n then []
          else map item_id (filter (\<lambda>i. is_user_message (i_content i)) (drop n (history_items th))))"

definition append_step_item_before_pending_steering :: "thread \<Rightarrow> turn \<Rightarrow> item \<Rightarrow> item list" where
  "append_step_item_before_pending_steering th t item =
     insert_before_first (\<lambda>i. item_id i \<in> set (pending_steering th t)) item (t_items t)"

definition is_step_item :: "item_content \<Rightarrow> bool" where
  "is_step_item c =
     (case c of Text t \<Rightarrow> tx_kind t \<noteq> User_message | ToolCall _ \<Rightarrow> True | Rejection _ \<Rightarrow> True
      | ToolResult _ \<Rightarrow> True | _ \<Rightarrow> False)"

section \<open>Guards of the branches\<close>

definition start_text :: "turn \<Rightarrow> agent_event \<Rightarrow> text_content \<Rightarrow> bool" where
  "start_text t e c =
     (if tx_kind c = User_message
      then (t_status t = Ts_ACCEPTED \<and> t_items t = [])
           \<or> (19 \<le> schema_version e
              \<and> t_status t \<in> {Ts_ACCEPTED, Ts_PREPARING_CONTEXT, Ts_CALLING_MODEL, Ts_EXECUTING_TOOLS,
                  Ts_WAITING_APPROVAL, Ts_WAITING_ACTION, Ts_WAITING_INPUT})
      else t_status t = Ts_CALLING_MODEL)"

text \<open>Identities of the calls and rejections in the completed history.\<close>

definition start_call :: "thread \<Rightarrow> turn \<Rightarrow> uuid \<Rightarrow> bool" where
  "start_call th t c = (t_status t = Ts_CALLING_MODEL \<and> c \<notin> set (called_ids (history_items th)))"

definition start_rejection :: "thread \<Rightarrow> turn \<Rightarrow> agent_event \<Rightarrow> rejection_content \<Rightarrow> bool" where
  "start_rejection th t e r =
     (21 \<le> schema_version e \<and> rj_model_step r = t_model_steps t \<and> start_call th t (rj_call_id r))"

definition first_pending :: "turn \<Rightarrow> uuid \<Rightarrow> tool_call_content option" where
  "first_pending t c =
     (case pending_calls t of [] \<Rightarrow> None
      | call # _ \<Rightarrow> if tc_call_id call = c then Some call else None)"

definition start_approval :: "wire \<Rightarrow> thread \<Rightarrow> turn \<Rightarrow> agent_event \<Rightarrow> approval_content \<Rightarrow> bool" where
  "start_approval W th t e c =
     (t_status t = Ts_EXECUTING_TOOLS
      \<and> (case first_pending t (ap_call c) of None \<Rightarrow> False
         | Some call \<Rightarrow>
             approval_type_matches call c \<and> tc_tool_fingerprint call \<noteq> None
             \<and> approval_for t call = None
             \<and> list_all (\<lambda>i. case i_content i of Approval a \<Rightarrow> ap_id a \<noteq> ap_id c | _ \<Rightarrow> True) (t_items t)
             \<and> ap_decision c = None
             \<and> (case c of TrustedApproval _ \<Rightarrow> 20 \<le> schema_version e | _ \<Rightarrow> True)
             \<and> approval_matches W th t call c))"

definition start_process_state :: "wire \<Rightarrow> thread \<Rightarrow> turn \<Rightarrow> process_state_content \<Rightarrow> unit result" where
  "start_process_state W th t c =
     (case first_pending t (psc_call_id c) of None \<Rightarrow> Inl invalid_event
      | Some call \<Rightarrow> require (no_open_items t) (validate_process_state W th t call c))"

definition start_question :: "turn \<Rightarrow> agent_event \<Rightarrow> question_request \<Rightarrow> bool" where
  "start_question t e q =
     (19 \<le> schema_version e \<and> t_status t = Ts_EXECUTING_TOOLS
      \<and> (case first_pending t (qr_call_id q) of None \<Rightarrow> False
         | Some call \<Rightarrow> tc_tool call = ''ask_user'')
      \<and> questions_for t (qr_call_id q) = [])"

definition start_answer :: "turn \<Rightarrow> agent_event \<Rightarrow> question_answer \<Rightarrow> bool" where
  "start_answer t e a =
     (19 \<le> schema_version e \<and> t_status t = Ts_WAITING_INPUT
      \<and> (case List.map_filter (\<lambda>i. case i_content i of
              QuestionRequest q \<Rightarrow> if i_status i = Is_COMPLETED \<and> qr_question_id q = qa_question_id a
                then Some q else None | _ \<Rightarrow> None) (t_items t) of
           [q] \<Rightarrow> first_pending t (qa_call_id a) \<noteq> None \<and> qr_call_id q = qa_call_id a
         | _ \<Rightarrow> False)
      \<and> list_all (\<lambda>i. case i_content i of QuestionAnswer b \<Rightarrow> qa_question_id b \<noteq> qa_question_id a
          | _ \<Rightarrow> True) (t_items t))"

definition completed_plans :: "thread \<Rightarrow> item list" where
  "completed_plans th = filter (\<lambda>i. i_status i = Is_COMPLETED
     \<and> (case i_content i of Plan _ \<Rightarrow> True | _ \<Rightarrow> False)) (thread_items th)"

definition start_plan :: "thread \<Rightarrow> turn \<Rightarrow> plan_content \<Rightarrow> bool" where
  "start_plan th t p =
     (t_status t = Ts_PREPARING_CONTEXT \<and> no_open_items t
      \<and> pl_supersedes p = (if completed_plans th = [] then None
          else Some (item_id (last (completed_plans th)))))"

definition start_compaction :: "thread \<Rightarrow> turn \<Rightarrow> compaction_content \<Rightarrow> bool" where
  "start_compaction th t k =
    (let sources = filter is_history_item (concat (map t_items
           (filter (\<lambda>u. t_status u \<in> set TERMINAL_TURNS) (th_turns th))));
         selected = List.map_filter (\<lambda>i. map_of (rev (map (\<lambda>s. (item_id s, s)) sources)) i)
           (cc_source_item_ids k)
     in t_status t = Ts_PREPARING_CONTEXT \<and> no_open_items t
        \<and> list_all (\<lambda>i. i \<in> item_id ` set sources) (cc_source_item_ids k)
        \<and> set (called_ids selected) = set (result_call_ids selected))"

section \<open>Results\<close>

definition result_of_rejection :: "turn \<Rightarrow> uuid \<Rightarrow> bool" where
  "result_of_rejection t c =
     list_ex (\<lambda>i. case i_content i of Rejection r \<Rightarrow> i_status i = Is_COMPLETED \<and> rj_call_id r = c
       | _ \<Rightarrow> False) (t_items t)"

definition start_rejection_result :: "turn \<Rightarrow> agent_event \<Rightarrow> tool_result_content \<Rightarrow> unit result" where
  "start_rejection_result t e r =
     require (21 \<le> schema_version e \<and> t_status t = Ts_CALLING_MODEL)
     (bindE (require_rejection_result r None) (\<lambda>_.
      require (results_for (tr_call_id r) (t_items t) = []) (Inr ())))"

definition patch_states_of :: "result_outcome \<Rightarrow> patch_state \<Rightarrow> origin \<Rightarrow> bool" where
  "patch_states_of outcome s origin =
     (case outcome of
        Oc_succeeded \<Rightarrow> s \<in> {Ps_applied, Ps_observed_after} \<and> (origin = Recovery \<or> s = Ps_applied)
      | Oc_failed \<Rightarrow> s \<in> {Ps_pending, Ps_approved, Ps_rejected, Ps_failed, Ps_observed_before}
      | Oc_unknown \<Rightarrow> True
      | Oc_cancelled \<Rightarrow> False)"

text \<open>The evidence of a single-file patch against call and approved plan.\<close>

definition patch_evidence_ok :: "thread \<Rightarrow> turn \<Rightarrow> tool_call_content \<Rightarrow> tool_result_content \<Rightarrow> bool" where
  "patch_evidence_ok th t call r =
     (case tr_patch r of None \<Rightarrow> True
      | Some e \<Rightarrow>
          tc_tool call = ''apply_patch'' \<and> write_call call
          \<and> pe_request_id e = call_request_id (thread_id th) (turn_id t) (tc_call_id call)
              (request_fingerprint th t call READ_ONLY_POLICY_VERSION)
          \<and> (case approval_for t call of None \<Rightarrow> True
             | Some i \<Rightarrow> (case i_content i of
                 Approval (PatchApproval a) \<Rightarrow>
                   (pe_workspace_id e, pe_plan_id e, pe_request_id e, pe_approval_fingerprint e)
                   = (mp_workspace_id (pa_plan a), mp_plan_id (pa_plan a), mp_request_id (pa_plan a),
                      mp_approval_fingerprint (pa_plan a))
               | _ \<Rightarrow> False))
          \<and> (pe_origin e = Recovery \<or> t_status t = Ts_EXECUTING_TOOLS)
          \<and> patch_states_of (tr_outcome r) (pe_state e) (pe_origin e))"

text \<open>A success needs the typed evidence of its approval and an approving decision.\<close>

definition typed_evidence :: "approval_content \<Rightarrow> tool_result_content \<Rightarrow> bool" where
  "typed_evidence a r =
     (case a of
        PatchBatchApproval _ \<Rightarrow> tr_patch_batch r \<noteq> None
      | PatchApproval _ \<Rightarrow> tr_patch r \<noteq> None
      | ProcessApproval _ \<Rightarrow> tr_process r \<noteq> None
      | TrustedApproval _ \<Rightarrow> tr_trusted_action r \<noteq> None
      | ApprovalRequest _ \<Rightarrow> True)"

definition approved :: "approval_content \<Rightarrow> bool" where
  "approved a = (case ap_decision a of None \<Rightarrow> False | Some d \<Rightarrow> ar_outcome d = APPROVED)"

definition success_approved :: "turn \<Rightarrow> tool_call_content \<Rightarrow> tool_result_content \<Rightarrow> bool" where
  "success_approved t call r =
     (tc_requires_approval call \<longrightarrow>
       (case approval_for t call of None \<Rightarrow> False
        | Some i \<Rightarrow> i_status i = Is_COMPLETED
            \<and> (case i_content i of Approval a \<Rightarrow> typed_evidence a r \<and> approved a | _ \<Rightarrow> False)))"

definition start_result :: "wire \<Rightarrow> thread \<Rightarrow> turn \<Rightarrow> tool_result_content \<Rightarrow> unit result" where
  "start_result W th t r =
     (case first_pending t (tr_call_id r) of
        None \<Rightarrow> Inl invalid_event
      | Some call \<Rightarrow>
          require (results_for (tr_call_id r) (t_items t) = [])
          (bindE (if tr_patch_batch r \<noteq> None then validate_effect W th t call r else Inr ()) (\<lambda>_.
           bindE (validate_process_result t call r) (\<lambda>_.
           bindE (validate_trusted_action_effect th t call r) (\<lambda>_.
           require (patch_evidence_ok th t call r)
           (require (tr_outcome r = Oc_succeeded \<longrightarrow>
               (t_status t = Ts_EXECUTING_TOOLS \<or> effect_origin_is_recovery r)
               \<and> success_approved t call r) (Inr ())))))))"

section \<open>Starting an item\<close>

definition start_guard :: "wire \<Rightarrow> thread \<Rightarrow> turn \<Rightarrow> agent_event \<Rightarrow> item_content \<Rightarrow> unit result" where
  "start_guard W th t e content =
     (case content of
        Text c \<Rightarrow> require (start_text t e c) (Inr ())
      | ToolCall c \<Rightarrow> require (start_call th t (tc_call_id c)) (Inr ())
      | Rejection c \<Rightarrow> require (start_rejection th t e c) (Inr ())
      | Approval c \<Rightarrow> require (start_approval W th t e c) (Inr ())
      | ProcessState c \<Rightarrow> start_process_state W th t c
      | QuestionRequest c \<Rightarrow> require (start_question t e c) (Inr ())
      | QuestionAnswer c \<Rightarrow> require (start_answer t e c) (Inr ())
      | Plan c \<Rightarrow> require (start_plan th t c) (Inr ())
      | Compaction c \<Rightarrow> require (start_compaction th t c) (Inr ())
      | Error _ \<Rightarrow> Inr ()
      | ToolResult c \<Rightarrow>
          if result_of_rejection t (tr_call_id c) then start_rejection_result t e c
          else start_result W th t c)"

definition start_item :: "wire \<Rightarrow> thread \<Rightarrow> turn \<Rightarrow> agent_event \<Rightarrow> uuid \<Rightarrow> item_content \<Rightarrow> turn result" where
  "start_item W th t e iid content =
     require (iid \<notin> item_id ` set (t_items t))
     (bindE (start_guard W th t e content) (\<lambda>_.
      let item = \<lparr>item_id = iid, i_status = Is_STARTED, i_content = content, i_error = None\<rparr>
      in Inr (t\<lparr>t_items := (if is_step_item content then append_step_item_before_pending_steering th t item
                            else t_items t @ [item])\<rparr>)))"

section \<open>Finishing an item\<close>

text \<open>\<^verbatim>\<open>payload.content.model_copy(update=cleared)\<close> against the original request.\<close>

definition cleared :: "approval_content \<Rightarrow> approval_content \<Rightarrow> approval_content" where
  "cleared original c =
     (case c of
        ApprovalRequest a \<Rightarrow> ApprovalRequest (a\<lparr>aq_decision := None\<rparr>)
      | PatchApproval a \<Rightarrow> PatchApproval (a\<lparr>pa_decision := None\<rparr>)
      | PatchBatchApproval a \<Rightarrow> PatchBatchApproval (a\<lparr>ba_decision := None\<rparr>)
      | ProcessApproval a \<Rightarrow> ProcessApproval (case original of
          ProcessApproval b \<Rightarrow> a\<lparr>pq_decision := None, pq_action_status := pq_action_status b\<rparr>
        | _ \<Rightarrow> a\<lparr>pq_decision := None\<rparr>)
      | TrustedApproval a \<Rightarrow> TrustedApproval (case original of
          TrustedApproval b \<Rightarrow> a\<lparr>tq_decision := None, tq_route_state := tq_route_state b\<rparr>
        | _ \<Rightarrow> a\<lparr>tq_decision := None\<rparr>))"

definition decision_subject :: "approval_content \<Rightarrow> string" where
  "decision_subject a =
     (case a of ProcessApproval p \<Rightarrow> ap_action_fingerprint (pq_plan p) | _ \<Rightarrow> ap_fingerprint a)"

definition is_process_approval :: "approval_content \<Rightarrow> bool" where
  "is_process_approval a = (case a of ProcessApproval _ \<Rightarrow> True | _ \<Rightarrow> False)"

definition finish_approval ::
  "turn \<Rightarrow> agent_event \<Rightarrow> item_status \<Rightarrow> approval_content \<Rightarrow> approval_content \<Rightarrow> bool" where
  "finish_approval t e status original c =
     (original = cleared original c
      \<and> (if status = Is_COMPLETED
         then t_status t = Ts_WAITING_APPROVAL
           \<and> (case ap_decision c of None \<Rightarrow> False
              | Some d \<Rightarrow> ar_request_fingerprint d = decision_subject original
                  \<and> ar_decided_at d = occurred_at e
                  \<and> t_created_at t \<le> occurred_at e
                  \<and> (\<not> is_process_approval original \<longrightarrow> occurred_at e < deadline t))
         else ap_decision c = None))"

text \<open>A rejection, or a result whose call a rejection of this Turn names.\<close>

definition rejection_pair :: "turn \<Rightarrow> item_content \<Rightarrow> bool" where
  "rejection_pair t c =
     (case c of Rejection _ \<Rightarrow> True
      | ToolResult r \<Rightarrow> list_ex (\<lambda>i. case i_content i of Rejection q \<Rightarrow> rj_call_id q = tr_call_id r
          | _ \<Rightarrow> False) (t_items t)
      | _ \<Rightarrow> False)"

definition finish_item :: "turn \<Rightarrow> agent_event \<Rightarrow> item_finished \<Rightarrow> turn result" where
  "finish_item t e p =
     (case find (\<lambda>i. item_id i = fi_item_id p) (t_items t) of
        None \<Rightarrow> Inl invalid_event
      | Some original \<Rightarrow>
          require (i_status original = Is_STARTED
            \<and> content_kind (i_content original) = content_kind (fi_content p)
            \<and> (rejection_pair t (i_content original) \<longrightarrow> fi_status p = Is_COMPLETED \<and> fi_error p = None)
            \<and> (case i_content original of
                 Approval a \<Rightarrow> (case fi_content p of
                     Approval c \<Rightarrow> finish_approval t e (fi_status p) a c | _ \<Rightarrow> False)
               | Text _ \<Rightarrow> True
               | c \<Rightarrow> c = fi_content p))
          (Inr (t\<lparr>t_items := replace_by item_id
             \<lparr>item_id = fi_item_id p, i_status = fi_status p, i_content = fi_content p,
              i_error = fi_error p\<rparr> (t_items t)\<rparr>)))"

end
