(* ===== verification/Compaction_Reducer.thy ===== *)
theory Compaction_Reducer
  imports Item_Reducer
begin

text \<open>
  The compaction ledger (src/src/harnessix/agent/compaction_reducer.py): planning, the single summary
  request with its accounting, the candidate, rejection, and the activation of a window.
\<close>

definition before_deadline :: "turn \<Rightarrow> agent_event \<Rightarrow> bool" where
  "before_deadline t e = (t_created_at t \<le> occurred_at e \<and> occurred_at e < deadline t)"

definition thread_compactions :: "thread \<Rightarrow> compaction_record list" where
  "thread_compactions th = concat (map t_compactions (th_turns th))"

definition new_record :: "turn \<Rightarrow> agent_event \<Rightarrow> compaction_plan \<Rightarrow> compaction_record" where
  "new_record t e plan =
     \<lparr>cr_plan = plan, cr_status = Cs_planned, cr_input_tokens_before = u_input_tokens (t_usage t),
      cr_output_tokens_before = u_output_tokens (t_usage t), cr_attempt = None, cr_summary = None,
      cr_candidate_history_sha256 = None, cr_candidate_history_tokens = None, cr_failure = None,
      cr_unaccounted_request_possible = False, cr_created_event_sequence = e_sequence e,
      cr_finished_event_sequence = None, cr_created_at = occurred_at e, cr_finished_at = None\<rparr>"

text \<open>
  \<^verbatim>\<open>_planned\<close>; the constructor \<^verbatim>\<open>CompactionRecord(...)\<close> validates, outside the \<^verbatim>\<open>try\<close> of the replay.
\<close>

definition planned :: "wire \<Rightarrow> thread \<Rightarrow> turn \<Rightarrow> agent_event \<Rightarrow> compaction_plan \<Rightarrow> view_decision list
    \<Rightarrow> turn result" where
  "planned W th t e plan decisions =
     require (t_status t = Ts_PREPARING_CONTEXT \<and> before_deadline t e \<and> length (t_compactions t) < 1000
       \<and> list_all (\<lambda>c. compaction_id (cr_plan c) \<noteq> compaction_id plan) (thread_compactions th)
       \<and> list_all (\<lambda>c. \<not> is_open c \<and> cp_model_step (cr_plan c) \<noteq> cp_model_step plan) (t_compactions t)
       \<and> list_all (\<lambda>i. inspection_step i \<noteq> cp_model_step plan) (t_model_history_inspections t)
       \<and> list_all (\<lambda>i. context_step i \<noteq> cp_model_step plan) (t_context_inspections t))
     (bindE (as_invalid_event (replay_compaction_plan W th plan)) (\<lambda>prepared.
      require (ph_new_decisions (pc_model_history prepared) = decisions)
      (check (compaction_record_ok (new_record t e plan)) ValueError
      (Inr (t\<lparr>t_compactions := t_compactions t @ [new_record t e plan],
              t_tool_result_view_decisions := t_tool_result_view_decisions t @ decisions\<rparr>)))))"

definition compaction_source :: "thread \<Rightarrow> turn \<Rightarrow> compaction_record \<Rightarrow> thread" where
  "compaction_source th t record =
    (let source_turn = t\<lparr>t_compactions := filter (\<lambda>c. c \<noteq> record) (t_compactions t),
           t_usage := \<lparr>u_input_tokens = cr_input_tokens_before record,
             u_output_tokens = cr_output_tokens_before record\<rparr>\<rparr>
     in th\<lparr>th_sequence := cp_source_event_sequence (cr_plan record),
           th_turns := replace_by turn_id source_turn (th_turns th)\<rparr>)"

definition start_summary :: "thread \<Rightarrow> turn \<Rightarrow> agent_event \<Rightarrow> compaction_record \<Rightarrow> model_attempt_started
    \<Rightarrow> compaction_record result" where
  "start_summary th t e record p =
     require (t_status t = Ts_PREPARING_CONTEXT \<and> before_deadline t e \<and> cr_status record = Cs_planned
       \<and> total_tokens (t_usage t) < max_tokens (t_budget t)
       \<and> ms_step p = cp_model_step (cr_plan record) \<and> ms_index p = 1
       \<and> list_all (\<lambda>a. attempt_id a \<noteq> ms_attempt_id p) (thread_attempts th)
       \<and> list_all (\<lambda>a. a_status a \<noteq> At_running) (thread_attempts th))
     (Inr (record\<lparr>cr_status := Cs_sampling, cr_attempt := Some (new_attempt p (occurred_at e))\<rparr>))"

definition settle_summary :: "turn \<Rightarrow> agent_event \<Rightarrow> compaction_record \<Rightarrow> observation
    \<Rightarrow> (compaction_record \<times> usage) result" where
  "settle_summary t e record p =
     (case cr_attempt record of
        None \<Rightarrow> Inl invalid_event
      | Some attempt \<Rightarrow>
          require (a_started_at attempt \<le> occurred_at e)
          (bindE (settle_observation attempt p (occurred_at e)) (\<lambda>(settled, inputs, outputs).
           bindE (add_usage t inputs outputs) (\<lambda>u.
             Inr (record\<lparr>cr_attempt := Some settled\<rparr>, u)))))"

definition summarize :: "wire \<Rightarrow> thread \<Rightarrow> turn \<Rightarrow> agent_event \<Rightarrow> compaction_record \<Rightarrow> compaction_summary
    \<Rightarrow> string \<Rightarrow> int \<Rightarrow> compaction_record result" where
  "summarize W th t e record summary sha tokens =
     require (t_status t = Ts_PREPARING_CONTEXT \<and> before_deadline t e
       \<and> (case cr_attempt record of None \<Rightarrow> False | Some a \<Rightarrow> a_status a = At_completed))
     (bindE (as_invalid_event (replay_compaction_candidate W (compaction_source th t record)
         (cr_plan record) summary)) (\<lambda>candidate.
      require (vc_history_sha256 candidate = sha \<and> vc_history_tokens candidate = tokens)
      (Inr (record\<lparr>cr_status := Cs_summarized, cr_summary := Some summary,
              cr_candidate_history_sha256 := Some sha, cr_candidate_history_tokens := Some tokens,
              cr_finished_event_sequence := Some (e_sequence e),
              cr_finished_at := Some (occurred_at e)\<rparr>))))"

definition reject_compaction :: "agent_event \<Rightarrow> compaction_record \<Rightarrow> compaction_status \<Rightarrow> agent_failure
    \<Rightarrow> bool \<Rightarrow> compaction_record result" where
  "reject_compaction e record outcome failure unaccounted =
     require (case cr_attempt record of None \<Rightarrow> True | Some a \<Rightarrow> a_status a \<noteq> At_running)
     (Inr (record\<lparr>cr_status := outcome, cr_failure := Some failure,
             cr_unaccounted_request_possible := unaccounted,
             cr_finished_event_sequence := Some (e_sequence e),
             cr_finished_at := Some (occurred_at e)\<rparr>))"

definition event_compaction_id :: "compaction_event \<Rightarrow> uuid" where
  "event_compaction_id p =
     (case p of CompactionPlanned plan _ \<Rightarrow> compaction_id plan | CompactionAttemptStarted c _ \<Rightarrow> c
      | CompactionUsageObserved c _ \<Rightarrow> c | CompactionAttemptFinished c _ \<Rightarrow> c
      | CompactionSummarized c _ _ _ \<Rightarrow> c | CompactionRejected c _ _ _ \<Rightarrow> c)"

text \<open>The new record and the usage of the Turn; the planned case does not get here.\<close>

definition advance_record :: "wire \<Rightarrow> thread \<Rightarrow> turn \<Rightarrow> agent_event \<Rightarrow> compaction_record
    \<Rightarrow> compaction_event \<Rightarrow> (compaction_record \<times> usage) result" where
  "advance_record W th t e record p =
     (case p of
        CompactionPlanned _ _ \<Rightarrow> Inl AssertionError
      | CompactionAttemptStarted _ a \<Rightarrow> bindE (start_summary th t e record a) (\<lambda>r. Inr (r, t_usage t))
      | CompactionUsageObserved _ o' \<Rightarrow> settle_summary t e record (Observed o')
      | CompactionAttemptFinished _ f \<Rightarrow> settle_summary t e record (Finished f)
      | CompactionSummarized _ s sha tokens \<Rightarrow>
          bindE (summarize W th t e record s sha tokens) (\<lambda>r. Inr (r, t_usage t))
      | CompactionRejected _ outcome failure unaccounted \<Rightarrow>
          bindE (reject_compaction e record outcome failure unaccounted) (\<lambda>r. Inr (r, t_usage t)))"

definition record_key :: "compaction_record \<Rightarrow> uuid" where
  "record_key r = compaction_id (cr_plan r)"

definition apply_compaction ::
  "wire \<Rightarrow> thread \<Rightarrow> turn \<Rightarrow> agent_event \<Rightarrow> compaction_event \<Rightarrow> turn result" where
  "apply_compaction W th t e p =
     require (th_updated_at th \<le> occurred_at e)
     (case p of
        CompactionPlanned plan decisions \<Rightarrow> planned W th t e plan decisions
      | _ \<Rightarrow>
        require (t_status t \<in> {Ts_PREPARING_CONTEXT, Ts_CANCELLING})
        (case find (\<lambda>c. record_key c = event_compaction_id p) (t_compactions t) of
           None \<Rightarrow> Inl invalid_event
         | Some record \<Rightarrow>
             require (is_open record \<and> cr_created_at record \<le> occurred_at e)
             (bindE (advance_record W th t e record p) (\<lambda>(r, u).
              require (compaction_record_ok r)
              (Inr (t\<lparr>t_usage := u, t_compactions := replace_by record_key r (t_compactions t)\<rparr>))))))"

definition activate_compaction_window ::
  "wire \<Rightarrow> thread \<Rightarrow> turn \<Rightarrow> agent_event \<Rightarrow> compaction_window \<Rightarrow> compaction_window result" where
  "activate_compaction_window W th t e window =
     require (t_status t = Ts_PREPARING_CONTEXT
       \<and> list_all (\<lambda>i. inspection_step i \<noteq> w_model_step window) (t_model_history_inspections t)
       \<and> list_all (\<lambda>i. context_step i \<noteq> w_model_step window) (t_context_inspections t))
     (case find (\<lambda>c. record_key c = w_compaction_id window) (t_compactions t) of
        None \<Rightarrow> Inl invalid_event
      | Some record \<Rightarrow>
         (case cr_summary record of
            None \<Rightarrow> Inl invalid_event
          | Some summary \<Rightarrow>
             require (cr_status record = Cs_summarized
                 \<and> cr_finished_event_sequence record = Some (th_sequence th)
                 \<and> list_all (\<lambda>w. window_id w \<noteq> window_id window) (th_compaction_windows th))
             (bindE (as_invalid_event
                (bindE (replay_compaction_candidate W (compaction_source th t record) (cr_plan record) summary)
                  (\<lambda>candidate. build_compaction_window th record (vc_history candidate)
                     (vc_history_sha256 candidate) (vc_history_tokens candidate) (window_id window)
                     (e_sequence e) (occurred_at e)))) (\<lambda>expected.
              require (window = expected) (Inr expected)))))"

end
