(* ===== verification/Reducer.thy ===== *)
theory Reducer
  imports Compaction_Reducer
begin

text \<open>
  The one state projector (src/src/harnessix/agent/reducer.py): \<open>apply_event\<close> for the online commit
  and \<open>replay\<close> for the offline reconstruction of a Thread from its transcript.
\<close>

section \<open>One event\<close>

text \<open>The first event creates the Thread; the constructor validates it.\<close>

definition create_thread :: "agent_event \<Rightarrow> thread result" where
  "create_thread e =
     require (e_sequence e = 1)
     (case payload e of
        ThreadCreated w \<Rightarrow> require (e_turn_id e = None)
          (let th = \<lparr>thread_id = e_thread_id e, th_workspace = w, th_sequence = 1,
               th_active_turn_id = None, th_turns = [], th_compaction_windows = [],
               th_active_compaction_window_id = None, th_fork_snapshot = None, th_archive = None,
               th_created_at = occurred_at e, th_updated_at = occurred_at e\<rparr>
           in check (thread_ok th) ValueError (Inr th))
      | ThreadForked w f \<Rightarrow> require (e_turn_id e = None)
          (let th = \<lparr>thread_id = e_thread_id e, th_workspace = w, th_sequence = 1,
               th_active_turn_id = None, th_turns = [], th_compaction_windows = [],
               th_active_compaction_window_id = None, th_fork_snapshot = Some f, th_archive = None,
               th_created_at = occurred_at e, th_updated_at = occurred_at e\<rparr>
           in check (thread_ok th) ValueError (Inr th))
      | _ \<Rightarrow> Inl invalid_event)"

definition archive_thread :: "thread \<Rightarrow> agent_event \<Rightarrow> string option \<Rightarrow> thread result" where
  "archive_thread th e reason =
     require (e_turn_id e = None \<and> th_archive th = None \<and> th_active_turn_id th = None)
     (check (2 \<le> e_sequence e \<and> reason_ok reason) ValueError
     (Inr (th\<lparr>th_archive := Some \<lparr>av_archived_event_sequence = e_sequence e,
              av_archived_at = occurred_at e, av_reason = reason\<rparr>,
            th_sequence := e_sequence e, th_updated_at := occurred_at e\<rparr>)))"

definition new_turn :: "agent_event \<Rightarrow> uuid \<Rightarrow> turn_started \<Rightarrow> turn" where
  "new_turn e tid p =
     \<lparr>turn_id = tid, t_request_id = tn_request_id p,
      t_request_fingerprint = tn_request_fingerprint p, t_retry_of_turn_id = tn_retry_of_turn_id p,
      t_execution_mode = tn_execution_mode p, t_status = Ts_ACCEPTED, t_budget = tn_budget p,
      t_trace_context = tn_trace_context p, t_items = [], t_model_steps = 0, t_usage_step = 0,
      t_usage = \<lparr>u_input_tokens = 0, u_output_tokens = 0\<rparr>, t_model_attempts = [],
      t_compactions = [], t_context_inspections = [], t_tool_result_view_decisions = [],
      t_model_history_inspections = [], t_error = None, t_created_at = occurred_at e,
      t_completed_at = None\<rparr>"

definition retry_guard :: "thread \<Rightarrow> agent_event \<Rightarrow> turn_started \<Rightarrow> bool" where
  "retry_guard th e p =
     (case tn_retry_of_turn_id p of
        None \<Rightarrow> True
      | Some source \<Rightarrow> 17 \<le> schema_version e \<and> th_turns th \<noteq> []
          \<and> turn_id (last (th_turns th)) = source \<and> retryable_source (last (th_turns th)))"

definition start_turn :: "thread \<Rightarrow> agent_event \<Rightarrow> uuid \<Rightarrow> turn_started \<Rightarrow> turn result" where
  "start_turn th e tid p =
     require (th_active_turn_id th = None
       \<and> list_all (\<lambda>t. turn_id t \<noteq> tid) (th_turns th)
       \<and> list_all (\<lambda>t. t_request_id t \<noteq> tn_request_id p) (th_turns th)
       \<and> retry_guard th e p)
     (Inr (new_turn e tid p))"

definition record_usage :: "turn \<Rightarrow> nat \<Rightarrow> usage \<Rightarrow> turn result" where
  "record_usage t step u =
    (let attempts = filter (\<lambda>a. a_step a = step) (t_model_attempts t) in
     require (t_status t = Ts_CALLING_MODEL \<and> step = t_model_steps t \<and> t_usage_step t < step)
     (if attempts = []
      then bindE (add_usage t (u_input_tokens u) (u_output_tokens u)) (\<lambda>v.
             Inr (t\<lparr>t_usage_step := step, t_usage := v\<rparr>))
      else require (a_status (last attempts) = At_completed
             \<and> Some (u_input_tokens u) = input_tokens (a_usage (last attempts))
             \<and> Some (u_output_tokens u) = output_tokens (a_usage (last attempts)))
             (Inr (t\<lparr>t_usage_step := step\<rparr>))))"

definition open_compaction_guard :: "turn \<Rightarrow> event_payload \<Rightarrow> bool" where
  "open_compaction_guard t p =
     (no_open_compactions t
      \<or> (case p of CompactionEvent _ \<Rightarrow> True | TurnStateChanged s \<Rightarrow> tsc_status s = Ts_CANCELLING
         | _ \<Rightarrow> False))"

text \<open>
  The dispatch on the payload for an active Turn. The second component is the window an activation
  adds; \<^verbatim>\<open>thread_updates\<close> is empty otherwise.
\<close>

definition apply_turn_event ::
  "wire \<Rightarrow> thread \<Rightarrow> turn \<Rightarrow> agent_event \<Rightarrow> (turn \<times> compaction_window option) result" where
  "apply_turn_event W th t e =
    (let plain = (\<lambda>r. bindE r (\<lambda>u. Inr (u, None))) in
     case payload e of
       TurnStateChanged p \<Rightarrow> plain (change_state th t e p)
     | ItemStarted iid c \<Rightarrow>
         plain (require (iid \<notin> item_id ` set (history_items th) \<and> iid \<notin> item_id ` set (thread_items th))
           (start_item W th t e iid c))
     | ItemFinished p \<Rightarrow> plain (finish_item t e p)
     | ModelAttemptStarted p \<Rightarrow>
         plain (require (list_all (\<lambda>a. attempt_id a \<noteq> ms_attempt_id p) (thread_attempts th))
           (start_attempt t e p))
     | ModelUsageObserved p \<Rightarrow> plain (settle_attempt t e (Observed p))
     | ModelAttemptFinished p \<Rightarrow> plain (settle_attempt t e (Finished p))
     | CompactionEvent p \<Rightarrow> plain (apply_compaction W th t e p)
     | CompactionWindowActivated w \<Rightarrow>
         bindE (activate_compaction_window W th t e w) (\<lambda>x. Inr (t, Some x))
     | ContextPrepared i \<Rightarrow> plain (prepare_context t i)
     | ModelHistoryPrepared i ds \<Rightarrow> plain (prepare_model_history_event W th t i ds)
     | UsageRecorded step u \<Rightarrow> plain (record_usage t step u)
     | _ \<Rightarrow> Inr (t, None))"

definition update_thread :: "thread \<Rightarrow> agent_event \<Rightarrow> turn \<Rightarrow> turn list \<Rightarrow> thread" where
  "update_thread th e t turns =
     th\<lparr>th_turns := turns,
        th_active_turn_id := (if t_status t \<in> set TERMINAL_TURNS then None else Some (turn_id t)),
        th_sequence := e_sequence e, th_updated_at := occurred_at e\<rparr>"

definition add_window :: "compaction_window option \<Rightarrow> thread \<Rightarrow> thread" where
  "add_window w th =
     (case w of None \<Rightarrow> th
      | Some x \<Rightarrow> th\<lparr>th_compaction_windows := th_compaction_windows th @ [x],
                     th_active_compaction_window_id := Some (window_id x)\<rparr>)"

definition apply_active :: "wire \<Rightarrow> thread \<Rightarrow> agent_event \<Rightarrow> uuid \<Rightarrow> thread result" where
  "apply_active W th e tid =
     require (th_active_turn_id th = Some tid)
     (bindE (get_turn th tid) (\<lambda>t.
      require (t_status t \<notin> set TERMINAL_TURNS \<and> open_compaction_guard t (payload e))
      (bindE (apply_turn_event W th t e) (\<lambda>(t', w).
       Inr (add_window w (update_thread th e t' (replace_by turn_id t' (th_turns th))))))))"

definition apply_to_thread :: "wire \<Rightarrow> thread \<Rightarrow> agent_event \<Rightarrow> thread result" where
  "apply_to_thread W th e =
     require (thread_id th = e_thread_id e \<and> e_sequence e = th_sequence th + 1)
     (case payload e of
        ThreadCreated _ \<Rightarrow> Inl invalid_event
      | ThreadForked _ _ \<Rightarrow> Inl invalid_event
      | ThreadArchived reason \<Rightarrow> archive_thread th e reason
      | _ \<Rightarrow>
        require (th_archive th = None)
        (case e_turn_id e of
           None \<Rightarrow> Inl invalid_event
         | Some tid \<Rightarrow>
             (case payload e of
                TurnStarted p \<Rightarrow>
                  bindE (start_turn th e tid p) (\<lambda>t. Inr (update_thread th e t (th_turns th @ [t])))
              | _ \<Rightarrow> apply_active W th e tid)))"

definition apply_event :: "wire \<Rightarrow> thread option \<Rightarrow> agent_event \<Rightarrow> thread result" where
  "apply_event W th e = (case th of None \<Rightarrow> create_thread e | Some x \<Rightarrow> apply_to_thread W x e)"

section \<open>Replay\<close>

definition replay_step :: "wire \<Rightarrow> thread option \<times> uuid list \<Rightarrow> agent_event
    \<Rightarrow> (thread option \<times> uuid list) result" where
  "replay_step W st e =
     require (event_id e \<notin> set (snd st))
     (bindE (apply_event W (fst st) e) (\<lambda>th. Inr (Some th, event_id e # snd st)))"

definition replay :: "wire \<Rightarrow> agent_event list \<Rightarrow> thread result" where
  "replay W events =
     bindE (foldE (replay_step W) (None, []) events) (\<lambda>st.
       case fst st of
         None \<Rightarrow> Inl (KernelError ''empty_transcript'')
       | Some th \<Rightarrow> bindE (require_closed_rejections th) (\<lambda>_. Inr th))"

end
