(* ===== verification/Reducer_Steps.thy ===== *)
theory Reducer_Steps
  imports Reducer
begin

text \<open>
  What one accepted event changes. The lemmas of this theory turn \<open>apply_event W th e = Inr th'\<close> into
  the few shapes a step can have; the invariants are proved from these shapes and never unfold the
  reducer again.
\<close>

section \<open>Shape of a Thread\<close>

abbreviation terminal :: "turn \<Rightarrow> bool" where
  "terminal t \<equiv> t_status t \<in> set TERMINAL_TURNS"

text \<open>At most one Turn is not terminal; it is the last one, and its identity is the active one.\<close>

definition thread_shape :: "thread \<Rightarrow> bool" where
  "thread_shape th \<longleftrightarrow>
     distinct (map turn_id (th_turns th))
     \<and> (case th_active_turn_id th of
          None \<Rightarrow> \<forall>t \<in> set (th_turns th). terminal t
        | Some i \<Rightarrow> th_turns th \<noteq> [] \<and> turn_id (last (th_turns th)) = i \<and> \<not> terminal (last (th_turns th))
            \<and> (\<forall>t \<in> set (butlast (th_turns th)). terminal t))
     \<and> (th_archive th \<noteq> None \<longrightarrow> th_active_turn_id th = None)"

section \<open>The fields an event of a Turn keeps\<close>

definition same_turn :: "turn \<Rightarrow> turn \<Rightarrow> bool" where
  "same_turn t t' \<longleftrightarrow>
     turn_id t' = turn_id t \<and> t_request_id t' = t_request_id t
     \<and> t_request_fingerprint t' = t_request_fingerprint t
     \<and> t_retry_of_turn_id t' = t_retry_of_turn_id t \<and> t_execution_mode t' = t_execution_mode t
     \<and> t_budget t' = t_budget t \<and> t_trace_context t' = t_trace_context t
     \<and> t_created_at t' = t_created_at t"

lemma same_turn_refl [simp]: "same_turn t t"
  by (simp add: same_turn_def)

lemma change_state_same: "change_state th t e p = Inr t' \<Longrightarrow> same_turn t t'"
  by (auto simp: change_state_def same_turn_def Let_def split: if_splits)

lemma start_item_same: "start_item W th t e i c = Inr t' \<Longrightarrow> same_turn t t'"
  by (auto simp: start_item_def same_turn_def Let_def)

lemma finish_item_same: "finish_item t e p = Inr t' \<Longrightarrow> same_turn t t'"
  by (auto simp: finish_item_def same_turn_def split: option.splits)

lemma start_attempt_same: "start_attempt t e p = Inr t' \<Longrightarrow> same_turn t t'"
  by (auto simp: start_attempt_def same_turn_def Let_def)

lemma settle_attempt_same: "settle_attempt t e p = Inr t' \<Longrightarrow> same_turn t t'"
  by (auto simp: settle_attempt_def same_turn_def split: option.splits)

lemma apply_compaction_same: "apply_compaction W th t e p = Inr t' \<Longrightarrow> same_turn t t'"
  by (auto simp: apply_compaction_def planned_def same_turn_def
      split: option.splits compaction_event.splits)

lemma prepare_context_same: "prepare_context t i = Inr t' \<Longrightarrow> same_turn t t'"
  by (auto simp: prepare_context_def same_turn_def)

lemma prepare_history_same: "prepare_model_history_event W th t i ds = Inr t' \<Longrightarrow> same_turn t t'"
  by (auto simp: prepare_model_history_event_def same_turn_def)

lemma record_usage_same: "record_usage t n u = Inr t' \<Longrightarrow> same_turn t t'"
  by (auto simp: record_usage_def same_turn_def Let_def split: if_splits)

lemmas same_turn_lemmas = change_state_same start_item_same finish_item_same start_attempt_same
  settle_attempt_same apply_compaction_same prepare_context_same prepare_history_same record_usage_same

lemma apply_turn_event_same: "apply_turn_event W th t e = Inr (t', w) \<Longrightarrow> same_turn t t'"
  by (cases "payload e") (auto simp: apply_turn_event_def dest: same_turn_lemmas)

section \<open>The shapes of a step\<close>

lemma find_last: "\<forall>x \<in> set xs. \<not> P x \<Longrightarrow> P y \<Longrightarrow> find P (xs @ [y]) = Some y"
  by (induction xs) auto

lemma get_turn_shape:
  assumes "thread_shape th" "th_active_turn_id th = Some tid"
  obtains us t where "th_turns th = us @ [t]" "get_turn th tid = Inr t" "turn_id t = tid"
    "\<not> terminal t" "\<forall>u \<in> set us. terminal u" "\<forall>u \<in> set us. turn_id u \<noteq> tid"
proof -
  from assms have ne: "th_turns th \<noteq> []" and d: "distinct (map turn_id (th_turns th))"
    and l: "turn_id (last (th_turns th)) = tid" "\<not> terminal (last (th_turns th))"
      "\<forall>t \<in> set (butlast (th_turns th)). terminal t"
    by (auto simp: thread_shape_def)
  from ne obtain us t where ts: "th_turns th = us @ [t]" by (cases "th_turns th" rule: rev_cases) auto
  with d l have us: "turn_id t = tid" "\<not> terminal t" "\<forall>u \<in> set us. terminal u"
      "\<forall>u \<in> set us. turn_id u \<noteq> tid"
    by (auto simp: image_iff)
  then have "find (\<lambda>t. turn_id t = tid) (us @ [t]) = Some t"
    by (simp add: find_last)
  then have "get_turn th tid = Inr t" by (simp add: get_turn_def ts)
  with ts us show ?thesis by (intro that)
qed

lemma replace_by_last:
  assumes "\<forall>u \<in> set us. k u \<noteq> k t'" "k t = k t'"
  shows "replace_by k t' (us @ [t]) = us @ [t']"
  using assms by (auto intro!: replace_by_absent)

inductive step_shape :: "wire \<Rightarrow> thread \<Rightarrow> agent_event \<Rightarrow> thread \<Rightarrow> bool" for W th e where
  archive: "payload e = ThreadArchived reason \<Longrightarrow> e_turn_id e = None \<Longrightarrow> th_archive th = None \<Longrightarrow>
      th_active_turn_id th = None \<Longrightarrow>
      step_shape W th e (th\<lparr>th_archive := Some \<lparr>av_archived_event_sequence = e_sequence e,
              av_archived_at = occurred_at e, av_reason = reason\<rparr>,
            th_sequence := e_sequence e, th_updated_at := occurred_at e\<rparr>)"
| start: "payload e = TurnStarted p \<Longrightarrow> e_turn_id e = Some tid \<Longrightarrow> th_archive th = None \<Longrightarrow>
      th_active_turn_id th = None \<Longrightarrow> start_turn th e tid p = Inr (new_turn e tid p) \<Longrightarrow>
      step_shape W th e (update_thread th e (new_turn e tid p) (th_turns th @ [new_turn e tid p]))"
| active: "e_turn_id e = Some (turn_id t) \<Longrightarrow> th_archive th = None \<Longrightarrow>
      th_active_turn_id th = Some (turn_id t) \<Longrightarrow> th_turns th = us @ [t] \<Longrightarrow> \<not> terminal t \<Longrightarrow>
      \<forall>u \<in> set us. terminal u \<Longrightarrow> \<forall>u \<in> set us. turn_id u \<noteq> turn_id t \<Longrightarrow>
      open_compaction_guard t (payload e) \<Longrightarrow> apply_turn_event W th t e = Inr (t', w) \<Longrightarrow>
      same_turn t t' \<Longrightarrow>
      step_shape W th e (add_window w (update_thread th e t' (us @ [t'])))"

lemma apply_active_shape:
  assumes "thread_shape th" "apply_active W th e tid = Inr th'" "e_turn_id e = Some tid"
    "th_archive th = None"
  shows "step_shape W th e th'"
proof -
  from assms(2) have act: "th_active_turn_id th = Some tid"
    by (simp add: apply_active_def)
  with assms(1) obtain us t where ts: "th_turns th = us @ [t]" "get_turn th tid = Inr t"
      "turn_id t = tid" "\<not> terminal t" "\<forall>u \<in> set us. terminal u" "\<forall>u \<in> set us. turn_id u \<noteq> tid"
    by (rule get_turn_shape)
  with assms(2) obtain t' w where g: "open_compaction_guard t (payload e)"
      and ev: "apply_turn_event W th t e = Inr (t', w)"
      and th': "th' = add_window w (update_thread th e t' (replace_by turn_id t' (th_turns th)))"
    by (auto simp: apply_active_def)
  from ev have same: "same_turn t t'" by (rule apply_turn_event_same)
  have "replace_by turn_id t' (us @ [t]) = us @ [t']"
    using ts same by (intro replace_by_last) (auto simp: same_turn_def)
  with th' ts(1) have "th' = add_window w (update_thread th e t' (us @ [t']))" by simp
  then show ?thesis
    using step_shape.active [OF _ assms(4), of e t us W t' w] assms(3) act ts g ev same by simp
qed

lemma apply_to_thread_shape:
  assumes "thread_shape th" "apply_to_thread W th e = Inr th'"
  shows "step_shape W th e th'"
    and "thread_id th = e_thread_id e" "e_sequence e = th_sequence th + 1"
proof -
  from assms(2) show "thread_id th = e_thread_id e" "e_sequence e = th_sequence th + 1"
    by (simp_all add: apply_to_thread_def)
  have active: "step_shape W th e th'"
    if "th_archive th = None" "e_turn_id e = Some tid" "apply_active W th e tid = Inr th'" for tid
    using apply_active_shape [OF assms(1) that(3,2,1)] .
  show "step_shape W th e th'"
  proof (cases "payload e")
    case (ThreadArchived reason)
    with assms(2) show ?thesis
      by (auto simp: apply_to_thread_def archive_thread_def intro!: step_shape.archive)
  next
    case (TurnStarted p)
    with assms(2) show ?thesis
      by (auto simp: apply_to_thread_def start_turn_def split: option.splits intro!: step_shape.start)
  qed (use assms(2) in \<open>auto simp: apply_to_thread_def split: option.splits intro: active\<close>)
qed

lemma thread_fields [simp]:
  "thread_id (add_window w th) = thread_id th" "th_workspace (add_window w th) = th_workspace th"
  "th_sequence (add_window w th) = th_sequence th" "th_turns (add_window w th) = th_turns th"
  "th_active_turn_id (add_window w th) = th_active_turn_id th"
  "th_fork_snapshot (add_window w th) = th_fork_snapshot th"
  "th_archive (add_window w th) = th_archive th" "th_created_at (add_window w th) = th_created_at th"
  "th_updated_at (add_window w th) = th_updated_at th"
  "thread_id (update_thread th e t ts) = thread_id th"
  "th_workspace (update_thread th e t ts) = th_workspace th"
  "th_sequence (update_thread th e t ts) = e_sequence e" "th_turns (update_thread th e t ts) = ts"
  "th_active_turn_id (update_thread th e t ts) = (if terminal t then None else Some (turn_id t))"
  "th_fork_snapshot (update_thread th e t ts) = th_fork_snapshot th"
  "th_archive (update_thread th e t ts) = th_archive th"
  "th_created_at (update_thread th e t ts) = th_created_at th"
  "th_updated_at (update_thread th e t ts) = occurred_at e"
  "th_compaction_windows (update_thread th e t ts) = th_compaction_windows th"
  "th_active_compaction_window_id (update_thread th e t ts) = th_active_compaction_window_id th"
  by (simp_all add: add_window_def update_thread_def split: option.splits)

lemma new_turn_fields [simp]:
  "turn_id (new_turn e tid p) = tid" "t_status (new_turn e tid p) = Ts_ACCEPTED"
  "t_items (new_turn e tid p) = []" "t_model_attempts (new_turn e tid p) = []"
  "t_compactions (new_turn e tid p) = []" "t_model_steps (new_turn e tid p) = 0"
  "t_usage_step (new_turn e tid p) = 0" "t_budget (new_turn e tid p) = tn_budget p"
  "t_request_id (new_turn e tid p) = tn_request_id p"
  "t_retry_of_turn_id (new_turn e tid p) = tn_retry_of_turn_id p"
  "t_usage (new_turn e tid p) = \<lparr>u_input_tokens = 0, u_output_tokens = 0\<rparr>"
  "accounted_attempts (new_turn e tid p) = []"
  "t_tool_result_view_decisions (new_turn e tid p) = []"
  "t_model_history_inspections (new_turn e tid p) = []"
  by (simp_all add: new_turn_def accounted_attempts_def List.map_filter_simps)

lemma accepted_not_terminal [simp]: "Ts_ACCEPTED \<notin> set TERMINAL_TURNS"
  by (simp add: TERMINAL_TURNS_def)

lemma step_shape_keeps_shape:
  assumes "thread_shape th" "step_shape W th e th'"
  shows "thread_shape th'"
  using assms(2,1)
proof (cases rule: step_shape.cases)
  case (start p tid)
  then have "\<forall>t \<in> set (th_turns th). turn_id t \<noteq> tid"
    by (auto simp: start_turn_def list_all_iff)
  with start assms(1) show ?thesis by (auto simp: thread_shape_def)
next
  case (active t us t' w)
  with assms(1) show ?thesis by (auto simp: thread_shape_def same_turn_def)
qed (auto simp: thread_shape_def)

end
