(* ===== verification/Transcripts.thy ===== *)
theory Transcripts
  imports Reducer_Steps
begin

text \<open>
  Concrete transcripts the witnesses evaluate: a Thread with one Turn that calls a read-only tool,
  answers and completes, and is archived afterwards. The wire of the examples parses nothing, so
  every fact here is about the code of the repository only.
\<close>

definition no_wire :: wire where
  "no_wire = \<lparr>w_artifact_ref = (\<lambda>_. None), w_artifact_page = (\<lambda>_. None),
     w_patch_proposal = (\<lambda>_. None), w_batch_proposal = (\<lambda>_. None), w_process_request = (\<lambda>_. None),
     w_run_tests = (\<lambda>_. None), w_batch_output = (\<lambda>_. None), w_grep_snapshot = (\<lambda>_. None),
     w_grep = (\<lambda>_. None), w_glob = (\<lambda>_. None)\<rparr>"

definition event :: "nat \<Rightarrow> uuid option \<Rightarrow> event_payload \<Rightarrow> agent_event" where
  "event n turn p = \<lparr>schema_version = 22, event_id = 1000 + n, e_turn_id = turn,
     occurred_at = 1000000 * int n, payload = p, e_thread_id = 1, e_sequence = n\<rparr>"

fun events_from :: "nat \<Rightarrow> uuid option \<Rightarrow> event_payload list \<Rightarrow> agent_event list" where
  "events_from n turn [] = []"
| "events_from n turn (p # ps) = event n turn p # events_from (Suc n) turn ps"

definition some_digest :: string where
  "some_digest = replicate 64 (CHR ''0'')"

definition small_budget :: budget where
  "small_budget = \<lparr>max_steps = 4, max_tokens = 1000, timeout_seconds = Finite 60 ''60.0'',
     max_output_chars = 1000, max_tool_calls_per_step = 8\<rparr>"

definition turn_request :: "string \<Rightarrow> turn_started" where
  "turn_request request = \<lparr>tn_request_id = request, tn_request_fingerprint = some_digest,
     tn_retry_of_turn_id = None, tn_execution_mode = Immediate, tn_budget = small_budget,
     tn_trace_context = None\<rparr>"

definition moved :: "turn_status \<Rightarrow> event_payload" where
  "moved s = TurnStateChanged \<lparr>tsc_status = s, tsc_error = None, tsc_reason = Normal\<rparr>"

definition published :: "uuid \<Rightarrow> item_content \<Rightarrow> event_payload list" where
  "published i c = [ItemStarted i c, ItemFinished \<lparr>fi_item_id = i, fi_status = Is_COMPLETED,
     fi_content = c, fi_error = None\<rparr>]"

definition said :: "text_kind \<Rightarrow> string \<Rightarrow> item_content" where
  "said k s = Text \<lparr>tx_kind = k, tx_text = s\<rparr>"

definition read_call :: "uuid \<Rightarrow> item_content" where
  "read_call c = ToolCall \<lparr>tc_call_id = c, tc_provider_call_id = ''p'', tc_tool = ''read_file'',
     tc_tool_version = ''1'', tc_effect_class = READ_ONLY, tc_arguments = JObj [],
     tc_requires_approval = False, tc_tool_fingerprint = None\<rparr>"

definition read_result :: "uuid \<Rightarrow> item_content" where
  "read_result c = ToolResult \<lparr>tr_call_id = c, tr_outcome = Oc_succeeded, tr_output = JStr ''ok'',
     tr_error = None, tr_action_id = None, tr_patch = None, tr_patch_batch = None,
     tr_process = None, tr_trusted_action = None, tr_diff_artifact = None\<rparr>"

definition measured :: usage_observation where
  "measured = no_usage\<lparr>completeness := Complete, input_tokens := Some 30, output_tokens := Some 12\<rparr>"

definition sampled :: "uuid \<Rightarrow> nat \<Rightarrow> event_payload list" where
  "sampled a n =
     [ModelAttemptStarted \<lparr>ms_attempt_id = a, ms_step = n, ms_index = 1, ms_provider = ''x'',
        ms_requested_model = ''m''\<rparr>,
      ModelUsageObserved \<lparr>mo_attempt_id = a, mo_usage = measured, mo_actual_model = Some ''m'',
        mo_response_id = Some ''r'', mo_billing = None\<rparr>,
      ModelAttemptFinished \<lparr>mf_attempt_id = a, mf_outcome = At_completed, mf_error = None\<rparr>]"

definition recorded :: "nat \<Rightarrow> event_payload" where
  "recorded n = UsageRecorded n \<lparr>u_input_tokens = 30, u_output_tokens = 12\<rparr>"

text \<open>One Turn: question, tool call, result, answer.\<close>

definition tool_turn :: "event_payload list" where
  "tool_turn =
     [TurnStarted (turn_request ''a'')] @ published 10 (said User_message ''hi'')
     @ [moved Ts_PREPARING_CONTEXT, moved Ts_CALLING_MODEL] @ sampled 20 1
     @ published 11 (read_call 50) @ [recorded 1, moved Ts_EXECUTING_TOOLS]
     @ published 12 (read_result 50) @ [moved Ts_PREPARING_CONTEXT, moved Ts_CALLING_MODEL]
     @ sampled 21 2 @ published 13 (said Assistant_message ''done'')
     @ [recorded 2, moved Ts_FINALIZING, moved Ts_COMPLETED]"

definition creation :: agent_event where
  "creation = event 1 None (ThreadCreated ''/w'')"

definition completed_run :: "agent_event list" where
  "completed_run = creation # events_from 2 (Some 7) tool_turn"

definition running_run :: "agent_event list" where
  "running_run = creation # events_from 2 (Some 7) (take 14 tool_turn)"

definition archived_run :: "agent_event list" where
  "archived_run = completed_run @ [event (length completed_run + 1) None (ThreadArchived None)]"

definition thread_of :: "agent_event list \<Rightarrow> thread" where
  "thread_of es = projr (replay no_wire es)"

definition yields :: "(thread \<Rightarrow> bool) \<Rightarrow> thread result \<Rightarrow> bool" where
  "yields P r = (case r of Inl _ \<Rightarrow> False | Inr th \<Rightarrow> P th)"

lemma yields_Inr [simp]: "yields P (Inr th) = P th"
  by (simp add: yields_def)

lemma yields_weak: "r = s \<Longrightarrow> yields P r = yields P s"
  by simp

lemma yields_thread_of:
  "yields P (replay no_wire es) \<Longrightarrow> replay no_wire es = Inr (thread_of es) \<and> P (thread_of es)"
  by (auto simp: yields_def thread_of_def split: sum.splits)

lemma replay_thread_of: "\<not> isl (replay no_wire es) \<Longrightarrow> replay no_wire es = Inr (thread_of es)"
  by (simp add: thread_of_def)

text \<open>One Turn whose tool needs an approval; the fingerprint is the real one, never evaluated.\<close>

definition guarded_call :: tool_call_content where
  "guarded_call = \<lparr>tc_call_id = 50, tc_provider_call_id = ''p'', tc_tool = ''fetch'',
     tc_tool_version = ''1'', tc_effect_class = READ_ONLY, tc_arguments = JObj [],
     tc_requires_approval = True, tc_tool_fingerprint = Some some_digest\<rparr>"

definition call_fingerprint :: string where
  "call_fingerprint = execution_fingerprint 1 7 ''/w'' guarded_call READ_ONLY_POLICY_VERSION"

definition asked :: "approval_record option \<Rightarrow> item_content" where
  "asked d = Approval (ApprovalRequest \<lparr>aq_approval_id = 60, aq_call_id = 50,
     aq_request_fingerprint = call_fingerprint, aq_decision = d\<rparr>)"

definition granted :: "datetime \<Rightarrow> approval_record" where
  "granted now = \<lparr>ar_outcome = APPROVED, ar_actor = ''u'', ar_reason = None,
     ar_request_fingerprint = call_fingerprint, ar_decided_at = now\<rparr>"

definition approval_turn :: "event_payload list" where
  "approval_turn =
     [TurnStarted (turn_request ''a'')] @ published 10 (said User_message ''hi'')
     @ [moved Ts_PREPARING_CONTEXT, moved Ts_CALLING_MODEL] @ sampled 20 1
     @ published 11 (ToolCall guarded_call) @ [recorded 1, moved Ts_EXECUTING_TOOLS,
        ItemStarted 30 (asked None), moved Ts_WAITING_APPROVAL,
        ItemFinished \<lparr>fi_item_id = 30, fi_status = Is_COMPLETED,
          fi_content = asked (Some (granted 16000000)), fi_error = None\<rparr>, moved Ts_EXECUTING_TOOLS]
     @ published 12 (read_result 50)"

definition approved_run :: "agent_event list" where
  "approved_run = creation # events_from 2 (Some 7) approval_turn"

text \<open>Evaluation of a run by the simplifier, which must not enter the continuation of a bind.\<close>

lemma bindE_weak: "r = s \<Longrightarrow> bindE r f = bindE s f"
  and require_weak: "b = c \<Longrightarrow> require b k = require c k"
  and check_weak: "b = c \<Longrightarrow> check b err k = check c err k"
  by simp_all

lemmas run_defs = approved_run_def approval_turn_def guarded_call_def asked_def granted_def completed_run_def running_run_def archived_run_def creation_def tool_turn_def
  event_def published_def said_def moved_def recorded_def sampled_def read_call_def read_result_def
  turn_request_def small_budget_def measured_def no_usage_def

lemmas reducer_defs = replay_step_def apply_event_def create_thread_def apply_to_thread_def
  start_turn_def retry_guard_def new_turn_def update_thread_def apply_active_def get_turn_def
  open_compaction_guard_def no_open_compactions_def apply_turn_event_def add_window_def
  replace_by_def archive_thread_def reason_ok_def record_usage_def add_usage_def make_usage_def
  total_tokens_def

lemmas turn_defs = change_state_def allowed_targets_def reentry_guard_def model_reentry_def
  target_guard_def resume_guard_def terminal_guard_def settled_turn_def has_user_input_def
  no_open_items_def no_running_attempts_def accounted_attempts_def completed_errors_def
  start_attempt_def settle_attempt_def settle_observation_def new_attempt_def obs_attempt_id_def
  usage_successor_ok_def TOKEN_FIELDS_def no_billing_def billing_successor_ok_def
  billing_usage_ok_def same_identity_def or_else_def abnormal_batch_def recovery_result_def
  effect_origin_is_recovery_def TERMINAL_TURNS_def waiting_approval_guard_def
  deadline_def timedelta_us_def float_rat_def

lemmas item_defs = start_item_def start_guard_def start_text_def start_call_def start_result_def
  is_step_item_def append_step_item_before_pending_steering_def pending_steering_def
  consumed_history_def step_inspections_def finish_item_def rejection_pair_def content_kind_def
  text_kind_value_def result_of_rejection_def success_approved_def first_pending_def
  pending_calls_def completed_calls_def settled_calls_def validate_process_result_def
  start_approval_def approval_matches_def approval_type_matches_def request_fingerprint_def
  ap_call_def ap_id_def ap_decision_def finish_approval_def cleared_def decision_subject_def
  ap_fingerprint_def is_process_approval_def typed_evidence_def approved_def
  process_approval_def validate_trusted_action_effect_def patch_evidence_ok_def approval_for_def approval_of_def
  history_items_def inherited_items_def is_history_item_def is_history_content_def
  thread_items_def thread_attempts_def is_user_message_def COMPACTION_OPEN_def

lemmas check_defs = thread_ok_def require_closed_rejections_def require_closed_rejection_items_def
  scan_item_def empty_scan_def linear_compaction_windows_def called_ids_def
  results_for_def has_unknown_result_def

lemmas valid_defs = event_ok_def payload_ok_def workspace_ok_def is_absolute_def py_len_def
  is_continuation_def byte_of_def some_digest_def is_digest_def is_hex_def budget_ok_def is_finite_def
  float_rat_def approval_content_ok_def item_content_ok_def tool_call_ok_def tool_result_ok_def independent_effects_def
  count_some_def is_dict_def model_attempt_started_ok_def provider_ok_def model_identifier_ok_def
  label_ok_def model_usage_observed_ok_def usage_observation_ok_def model_attempt_finished_ok_def
  validate_event_boundary_def validate_v20_to_v18_def validate_v17_to_v15_def validate_v14_to_v9_def
  validate_v8_to_v4_def validate_v3_to_v1_def item_content_of_def content_is_def state_change_is_def
  turn_start_is_def history_is_def context_is_def result_is_def approval_is_def TOKEN_FIELDS_def
  list_all_iff set_replicate_conv_if

lemmas run_simps = run_defs reducer_defs turn_defs item_defs check_defs List.map_filter_def Let_def

lemma running_run_replays: "replay no_wire running_run = Inr (thread_of running_run)"
  by (rule replay_thread_of)
    (simp add: replay_def run_simps del: bindE_Inr cong: bindE_weak require_weak check_weak)

lemma running_run_yields:
  "yields (\<lambda>th. th_compaction_windows th = []) (replay no_wire running_run)"
  by (simp add: replay_def run_simps del: bindE_Inr cong: bindE_weak require_weak check_weak yields_weak)

lemma completed_run_replays: "replay no_wire completed_run = Inr (thread_of completed_run)"
  by (rule replay_thread_of)
    (simp add: replay_def run_simps del: bindE_Inr cong: bindE_weak require_weak check_weak)

lemma archived_run_replays: "replay no_wire archived_run = Inr (thread_of archived_run)"
  by (rule replay_thread_of)
    (simp add: replay_def run_simps del: bindE_Inr cong: bindE_weak require_weak check_weak)

lemma running_run_ok: "list_all event_ok running_run"
  by (simp add: run_defs valid_defs Let_def)

lemma completed_run_ok: "list_all event_ok completed_run"
  by (simp add: run_defs valid_defs Let_def)

lemma call_fingerprint_digest: "is_digest call_fingerprint"
  by (simp add: call_fingerprint_def execution_fingerprint_def digest_def is_digest_sha256)

lemma approved_run_facts:
  "replay no_wire approved_run = Inr (thread_of approved_run)
   \<and> (\<exists>t \<in> set (th_turns (thread_of approved_run)). \<exists>i \<in> set (t_items t). i_content i = read_result 50
        \<and> completed_calls (t_items t) = [guarded_call])"
  by (rule yields_thread_of)
    (simp add: replay_def run_simps call_fingerprint_def del: bindE_Inr
      cong: bindE_weak require_weak check_weak yields_weak)

lemma approved_run_ok: "list_all event_ok approved_run"
  using call_fingerprint_digest by (simp add: run_defs valid_defs Let_def)

lemma completed_run_yields:
  "yields (\<lambda>th. \<exists>t \<in> set (th_turns th). t_status t = Ts_COMPLETED \<and> t_model_steps t = 2
      \<and> map a_step (t_model_attempts t) = [1, 2] \<and> t_compactions t = []
      \<and> list_all (\<lambda>a. a_status a = At_completed \<and> completeness (a_usage a) = Complete) (t_model_attempts t)
      \<and> t_usage t = \<lparr>u_input_tokens = 60, u_output_tokens = 24\<rparr>) (replay no_wire completed_run)"
  by (simp add: replay_def run_simps del: bindE_Inr cong: bindE_weak require_weak check_weak yields_weak)

lemma completed_run_facts:
  "replay no_wire completed_run = Inr (thread_of completed_run)
   \<and> (\<exists>t \<in> set (th_turns (thread_of completed_run)). t_status t = Ts_COMPLETED \<and> usage_is_complete t
        \<and> t_usage t = \<lparr>u_input_tokens = 60, u_output_tokens = 24\<rparr>)"
proof -
  have "usage_is_complete t" if "t_model_steps t = 2" "map a_step (t_model_attempts t) = [1, 2]"
      "t_compactions t = []"
      "list_all (\<lambda>a. a_status a = At_completed \<and> completeness (a_usage a) = Complete) (t_model_attempts t)" for t
  proof -
    have u: "set [1..<2 + 1] = set [1, 2::nat]" by code_simp
    have "accounted_attempts t = t_model_attempts t"
      by (simp add: accounted_attempts_def that(3) List.map_filter_simps)
    with that(3,4) show ?thesis
      unfolding usage_is_complete_def that(1,2) u by (simp add: list_all_iff)
  qed
  note complete = this
  note run = yields_thread_of [OF completed_run_yields]
  from run [THEN conjunct2] obtain t where t: "t \<in> set (th_turns (thread_of completed_run))"
      "t_status t = Ts_COMPLETED" "t_model_steps t = 2" "map a_step (t_model_attempts t) = [1, 2]"
      "t_compactions t = []"
      "list_all (\<lambda>a. a_status a = At_completed \<and> completeness (a_usage a) = Complete) (t_model_attempts t)"
      "t_usage t = \<lparr>u_input_tokens = 60, u_output_tokens = 24\<rparr>"
    by (elim bexE conjE)
  with complete [OF t(3-6)] run [THEN conjunct1] show ?thesis by (intro conjI bexI [of _ t])
qed

text \<open>The completed run continues the running one.\<close>

definition completed_tail :: "agent_event list" where
  "completed_tail = events_from 16 (Some 7) (drop 14 tool_turn)"

lemma completed_split: "completed_run = running_run @ completed_tail"
  by (simp add: run_defs completed_tail_def)

end
