(* ===== verification/Reducer_Invariants.thy ===== *)
theory Reducer_Invariants
  imports Transcripts
begin

text \<open>
  Invariants of the Threads the reducer can produce. \<open>reachable\<close> is the set of these Threads: created
  by a valid first event and advanced by valid events. The invariants are proved step by step from
  the shapes of Reducer_Steps and lifted to whole transcripts by the locale of event machines.
\<close>

section \<open>Reachable Threads\<close>

inductive reachable :: "wire \<Rightarrow> thread \<Rightarrow> bool" for W where
  created: "event_ok e \<Longrightarrow> create_thread e = Inr th \<Longrightarrow> reachable W th"
| advanced: "reachable W th \<Longrightarrow> event_ok e \<Longrightarrow> apply_to_thread W th e = Inr th' \<Longrightarrow> reachable W th'"

text \<open>An event reaches the reducer as a validated object; \<open>accept_event\<close> is the projector on those.\<close>

definition accept_event :: "wire \<Rightarrow> thread option \<Rightarrow> agent_event \<Rightarrow> thread option result" where
  "accept_event W st e =
     check (event_ok e) ValueError (bindE (apply_event W st e) (\<lambda>th. Inr (Some th)))"

lemma accept_reachable:
  assumes "accept_event W st e = Inr st'" "\<And>th. st = Some th \<Longrightarrow> reachable W th" "st' = Some th'"
  shows "reachable W th'"
  using assms
  by (cases st) (auto simp: accept_event_def apply_event_def intro: reachable.intros)

interpretation threads: event_machine "accept_event W" "\<lambda>st. st = None"
    "\<lambda>st. \<forall>th. st = Some th \<longrightarrow> reachable W th" for W
  by unfold_locales (auto dest: accept_reachable)

lemma replay_step_Inr:
  "replay_step W st e = Inr st' \<longleftrightarrow>
     event_id e \<notin> set (snd st) \<and> (\<exists>th. apply_event W (fst st) e = Inr th \<and> st' = (Some th, event_id e # snd st))"
  by (auto simp: replay_step_def)

lemma replay_fold:
  "foldE (replay_step W) (st, seen) es = Inr (st', seen') \<Longrightarrow> list_all event_ok es \<Longrightarrow>
     foldE (accept_event W) st es = Inr st'"
proof (induction es arbitrary: st seen)
  case (Cons e es)
  from Cons.prems(1) obtain th where "apply_event W st e = Inr th"
      "foldE (replay_step W) (Some th, event_id e # seen) es = Inr (st', seen')"
    by (auto simp: replay_step_Inr)
  with Cons show ?case by (simp add: accept_event_def)
qed simp

lemma replay_reachable:
  assumes "replay W es = Inr th" "list_all event_ok es"
  shows "reachable W th"
proof -
  from assms(1) obtain seen where "foldE (replay_step W) (None, []) es = Inr (Some th, seen)"
    by (force simp: replay_def split: option.splits)
  then have "foldE (accept_event W) None es = Inr (Some th)" using assms(2) by (rule replay_fold)
  then show ?thesis using threads.run_from_start by blast
qed

lemma replay_continues:
  assumes "replay W es = Inr th" "replay W (es @ fs) = Inr th'" "list_all event_ok (es @ fs)"
  shows "reachable W th" "foldE (accept_event W) (Some th) fs = Inr (Some th')"
proof -
  from assms(1,3) show "reachable W th" by (auto intro: replay_reachable)
  from assms(1) obtain seen where 1: "foldE (replay_step W) (None, []) es = Inr (Some th, seen)"
    by (force simp: replay_def split: option.splits)
  from assms(2) obtain seen' where "foldE (replay_step W) (None, []) (es @ fs) = Inr (Some th', seen')"
    by (force simp: replay_def split: option.splits)
  with 1 have "foldE (replay_step W) (Some th, seen) fs = Inr (Some th', seen')"
    by (simp add: foldE_append)
  then show "foldE (accept_event W) (Some th) fs = Inr (Some th')"
    using assms(3) by (intro replay_fold) auto
qed

section \<open>Shape\<close>

lemma create_thread_fields:
  assumes "create_thread e = Inr th"
  shows "th_turns th = []" "th_active_turn_id th = None" "th_archive th = None"
    "th_compaction_windows th = []" "th_active_compaction_window_id th = None" "thread_ok th"
    "th_sequence th = 1" "thread_id th = e_thread_id e"
  using assms by (auto simp: create_thread_def Let_def split: event_payload.splits)

lemma reachable_shape: "reachable W th \<Longrightarrow> thread_shape th"
proof (induction rule: reachable.induct)
  case (created e th)
  then show ?case by (simp add: create_thread_fields thread_shape_def)
next
  case (advanced th e th')
  then show ?case
    using apply_to_thread_shape(1) step_shape_keeps_shape by blast
qed

lemma reachable_induct [consumes 1, case_names create step]:
  assumes "reachable W th"
    and create: "\<And>e th. event_ok e \<Longrightarrow> create_thread e = Inr th \<Longrightarrow> P th"
    and step: "\<And>th e th'. reachable W th \<Longrightarrow> thread_shape th \<Longrightarrow> event_ok e \<Longrightarrow> P th \<Longrightarrow>
        e_sequence e = th_sequence th + 1 \<Longrightarrow> thread_id th = e_thread_id e \<Longrightarrow>
        step_shape W th e th' \<Longrightarrow> P th'"
  shows "P th"
  using assms(1)
proof (induction rule: reachable.induct)
  case (advanced th e th')
  from advanced.hyps(1) have "thread_shape th" by (rule reachable_shape)
  with advanced show ?case using apply_to_thread_shape [of th W e th'] step by blast
qed (rule create)

text \<open>C6. In every Thread that events can produce at most one Turn is running. It is the last one and
  the one the Thread names as active; every earlier Turn is terminal, Turn identities are unique and
  an archived Thread has no active Turn.\<close>

theorem single_active_turn:
  assumes "replay W es = Inr th" and "list_all event_ok es"
  shows "thread_shape th"
  using reachable_shape [OF replay_reachable [OF assms]] .

theorem single_active_turn_witness:
  "replay no_wire running_run = Inr (thread_of running_run) \<and> thread_shape (thread_of running_run)"
  using running_run_replays single_active_turn [OF running_run_replays running_run_ok] by blast

end
