(* ===== verification/Turn_Invariants.thy ===== *)
theory Turn_Invariants
  imports Reducer_Invariants "HOL-Library.Sublist"
begin

text \<open>
  Invariants of a Turn. The locale \<open>turn_invariant\<close> states what a property of Turns has to satisfy so
  that every Turn of every reachable Thread has it; each invariant below is an interpretation. The
  properties about items (identities, immutability, order of the history, evidence of success) rest
  on \<open>item_change\<close>, the three ways an accepted event can change the items of the active Turn.
\<close>

section \<open>Lifting\<close>

locale turn_invariant =
  fixes W :: wire and P :: "thread \<Rightarrow> turn \<Rightarrow> bool"
  assumes frame: "P th t \<Longrightarrow> thread_id th' = thread_id th \<Longrightarrow> th_workspace th' = th_workspace th \<Longrightarrow> P th' t"
    and fresh: "event_ok e \<Longrightarrow> payload e = TurnStarted p \<Longrightarrow> P th (new_turn e tid p)"
    and step: "reachable W th \<Longrightarrow> t \<in> set (th_turns th) \<Longrightarrow> \<not> terminal t \<Longrightarrow> event_ok e \<Longrightarrow> P th t \<Longrightarrow>
      apply_turn_event W th t e = Inr (t', w) \<Longrightarrow> P th t'"
begin

lemma every_turn: "reachable W th \<Longrightarrow> t \<in> set (th_turns th) \<Longrightarrow> P th t"
proof (induction arbitrary: t rule: reachable_induct)
  case (create e th)
  then show ?case by (simp add: create_thread_fields)
next
  case (step th e th')
  from step.hyps(6) show ?case
  proof (cases rule: step_shape.cases)
    case (start p tid)
    with step have "t \<in> set (th_turns th) \<or> t = new_turn e tid p" by auto
    moreover from start have ids: "thread_id th' = thread_id th" "th_workspace th' = th_workspace th"
      by simp_all
    ultimately show ?thesis
      using frame [OF _ ids] fresh [OF step.hyps(3) start(2)] step.IH by blast
  next
    case (active u us u' w)
    then have ids: "thread_id th' = thread_id th" "th_workspace th' = th_workspace th" by simp_all
    from active step.prems have "t \<in> set (th_turns th) \<or> t = u'" by auto
    moreover have "P th u'"
      using turn_invariant.step [OF turn_invariant_axioms step.hyps(1) _ active(6) step.hyps(3) _ active(10)]
        step.IH active(5) by simp
    ultimately show ?thesis using frame [OF _ ids] step.IH by blast
  next
    case (archive r)
    then have ids: "thread_id th' = thread_id th" "th_workspace th' = th_workspace th"
      and "th_turns th' = th_turns th" by simp_all
    with step show ?thesis using frame [OF _ ids] by simp
  qed
qed

end

section \<open>How items change\<close>

inductive item_change :: "wire \<Rightarrow> thread \<Rightarrow> turn \<Rightarrow> agent_event \<Rightarrow> turn \<Rightarrow> bool" for W th t e where
  kept: "t_items t' = t_items t \<Longrightarrow> item_change W th t e t'"
| started: "payload e = ItemStarted iid c \<Longrightarrow> iid \<notin> item_id ` set (history_items th) \<Longrightarrow>
    iid \<notin> item_id ` set (thread_items th) \<Longrightarrow> iid \<notin> item_id ` set (t_items t) \<Longrightarrow>
    start_guard W th t e c = Inr () \<Longrightarrow> t_items t = xs @ ys \<Longrightarrow>
    t_items t' = xs @ \<lparr>item_id = iid, i_status = Is_STARTED, i_content = c, i_error = None\<rparr> # ys \<Longrightarrow>
    item_change W th t e t'"
| finished: "payload e = ItemFinished p \<Longrightarrow> find (\<lambda>i. item_id i = fi_item_id p) (t_items t) = Some original \<Longrightarrow>
    i_status original = Is_STARTED \<Longrightarrow> finish_item t e p = Inr t' \<Longrightarrow>
    t_items t' = replace_by item_id \<lparr>item_id = fi_item_id p, i_status = fi_status p,
      i_content = fi_content p, i_error = fi_error p\<rparr> (t_items t) \<Longrightarrow>
    item_change W th t e t'"

lemma change_state_items [simp]: "change_state th t e p = Inr t' \<Longrightarrow> t_items t' = t_items t"
  by (auto simp: change_state_def Let_def split: if_splits)

lemma start_attempt_items: "start_attempt t e p = Inr t' \<Longrightarrow> t_items t' = t_items t"
  by (auto simp: start_attempt_def Let_def)

lemma settle_attempt_items: "settle_attempt t e p = Inr t' \<Longrightarrow> t_items t' = t_items t"
  by (auto simp: settle_attempt_def split: option.splits)

lemma apply_compaction_items: "apply_compaction W th t e p = Inr t' \<Longrightarrow> t_items t' = t_items t"
  by (auto simp: apply_compaction_def planned_def split: option.splits compaction_event.splits)

lemma prepare_items:
  "prepare_context t i = Inr t' \<Longrightarrow> t_items t' = t_items t"
  "prepare_model_history_event W th t j ds = Inr t' \<Longrightarrow> t_items t' = t_items t"
  "record_usage t n u = Inr t' \<Longrightarrow> t_items t' = t_items t"
  by (auto simp: prepare_context_def prepare_model_history_event_def record_usage_def Let_def
      split: if_splits)

lemmas kept_items = change_state_items start_attempt_items settle_attempt_items
  apply_compaction_items prepare_items

lemma start_item_change:
  assumes "start_item W th t e iid c = Inr t'"
  obtains xs ys where "iid \<notin> item_id ` set (t_items t)" "start_guard W th t e c = Inr ()"
    "t_items t = xs @ ys"
    "t_items t' = xs @ \<lparr>item_id = iid, i_status = Is_STARTED, i_content = c, i_error = None\<rparr> # ys"
proof -
  let ?i = "\<lparr>item_id = iid, i_status = Is_STARTED, i_content = c, i_error = None\<rparr>"
  from assms have g: "iid \<notin> item_id ` set (t_items t)" "start_guard W th t e c = Inr ()"
    and it: "t_items t' = (if is_step_item c then append_step_item_before_pending_steering th t ?i
        else t_items t @ [?i])"
    by (auto simp: start_item_def Let_def)
  have "\<exists>xs ys. t_items t = xs @ ys \<and> t_items t' = xs @ ?i # ys"
  proof (cases "is_step_item c")
    case True
    obtain xs ys where "t_items t = xs @ ys"
        "insert_before_first (\<lambda>i. item_id i \<in> set (pending_steering th t)) ?i (t_items t) = xs @ ?i # ys"
      by (rule insert_before_first_split)
    with True it show ?thesis by (auto simp: append_step_item_before_pending_steering_def)
  next
    case False
    with it show ?thesis by (intro exI [of _ "t_items t"] exI [of _ "[]"]) simp
  qed
  with g show ?thesis using that by blast
qed

lemma apply_turn_event_items:
  assumes "apply_turn_event W th t e = Inr (t', w)"
  shows "item_change W th t e t'"
proof (cases "payload e")
  case (ItemStarted iid c)
  with assms have "iid \<notin> item_id ` set (history_items th)" "iid \<notin> item_id ` set (thread_items th)"
      "start_item W th t e iid c = Inr t'"
    by (auto simp: apply_turn_event_def)
  with ItemStarted show ?thesis
    by (elim start_item_change) (rule item_change.started)
next
  case (ItemFinished p)
  with assms have f: "finish_item t e p = Inr t'" by (auto simp: apply_turn_event_def)
  then obtain original where "find (\<lambda>i. item_id i = fi_item_id p) (t_items t) = Some original"
      "i_status original = Is_STARTED"
      "t_items t' = replace_by item_id \<lparr>item_id = fi_item_id p, i_status = fi_status p,
        i_content = fi_content p, i_error = fi_error p\<rparr> (t_items t)"
    by (auto simp: finish_item_def split: option.splits)
  with ItemFinished f show ?thesis by (intro item_change.finished)
qed (use assms in \<open>auto simp: apply_turn_event_def intro!: item_change.kept dest: kept_items\<close>)

section \<open>Identities of items\<close>

definition distinct_items :: "thread \<Rightarrow> turn \<Rightarrow> bool" where
  "distinct_items th t = distinct (map item_id (t_items t))"

interpretation item_ids: turn_invariant W distinct_items for W
proof
  fix th t e t' w
  assume "distinct_items th t" "apply_turn_event W th t e = Inr (t', w)"
  then show "distinct_items th t'"
    by (auto simp: distinct_items_def elim!: item_change.cases dest!: apply_turn_event_items)
qed (simp_all add: distinct_items_def)

lemma reachable_distinct_items:
  "reachable W th \<Longrightarrow> t \<in> set (th_turns th) \<Longrightarrow> distinct (map item_id (t_items t))"
  using item_ids.every_turn by (simp add: distinct_items_def)

section \<open>The history only grows\<close>

text \<open>What a later Turn has to keep of an earlier version of it.\<close>

definition items_extend :: "item list \<Rightarrow> item list \<Rightarrow> bool" where
  "items_extend is js \<longleftrightarrow>
     subseq (filter (\<lambda>i. i_status i \<noteq> Is_STARTED) is) (filter (\<lambda>i. i_status i \<noteq> Is_STARTED) js)
     \<and> subseq (map item_id is) (map item_id js)"

lemma items_extend_refl [simp]: "items_extend is is"
  by (simp add: items_extend_def)

lemma item_change_extends:
  assumes "item_change W th t e t'" "distinct (map item_id (t_items t))" "event_ok e"
  shows "items_extend (t_items t) (t_items t')"
  using assms(1)
proof (cases rule: item_change.cases)
  case (started iid c xs ys)
  then show ?thesis
    by (auto simp: items_extend_def intro!: list_emb_append_mono)
next
  case (finished p original)
  let ?f = "\<lparr>item_id = fi_item_id p, i_status = fi_status p, i_content = fi_content p, i_error = fi_error p\<rparr>"
  from finished(2) have "original \<in> set (t_items t)" "item_id original = item_id ?f"
    by (auto dest: find_SomeD)
  with assms(2) obtain us vs where "t_items t = us @ original # vs" "t_items t' = us @ ?f # vs"
    unfolding finished(5) by (rule replace_by_split)
  with finished(3) \<open>item_id original = item_id ?f\<close> show ?thesis
    by (auto simp: items_extend_def intro!: list_emb_append_mono)
qed (simp add: items_extend_def)

text \<open>What a later state of a Thread has to keep of an earlier one.\<close>

definition turn_extends :: "turn \<Rightarrow> turn \<Rightarrow> bool" where
  "turn_extends t t' \<longleftrightarrow> same_turn t t' \<and> items_extend (t_items t) (t_items t') \<and> (terminal t \<longrightarrow> t' = t)"

definition thread_extends :: "thread \<Rightarrow> thread \<Rightarrow> bool" where
  "thread_extends th th' \<longleftrightarrow>
     thread_id th' = thread_id th \<and> th_workspace th' = th_workspace th
     \<and> th_fork_snapshot th' = th_fork_snapshot th \<and> th_sequence th \<le> th_sequence th'
     \<and> length (th_turns th) \<le> length (th_turns th')
     \<and> (\<forall>k < length (th_turns th). turn_extends (th_turns th ! k) (th_turns th' ! k))
     \<and> (th_archive th \<noteq> None \<longrightarrow> th' = th)"

lemma turn_extends_refl [simp]: "turn_extends t t"
  by (simp add: turn_extends_def)

lemma turn_extends_trans: "turn_extends t u \<Longrightarrow> turn_extends u v \<Longrightarrow> turn_extends t v"
  by (auto simp: turn_extends_def items_extend_def same_turn_def intro: subseq_order.order_trans)

lemma thread_extends_refl [simp]: "thread_extends th th"
  by (simp add: thread_extends_def)

lemma thread_extends_trans:
  assumes "thread_extends th u" "thread_extends u v"
  shows "thread_extends th v"
proof -
  have "turn_extends (th_turns th ! k) (th_turns v ! k)" if "k < length (th_turns th)" for k
    using assms that turn_extends_trans [of _ "th_turns u ! k"] by (auto simp: thread_extends_def)
  with assms show ?thesis by (auto simp: thread_extends_def)
qed

lemma active_turn_extends:
  assumes "reachable W th" "t \<in> set (th_turns th)" "\<not> terminal t" "event_ok e"
    "apply_turn_event W th t e = Inr (t', w)"
  shows "turn_extends t t'"
  using assms item_change_extends [OF apply_turn_event_items reachable_distinct_items]
    apply_turn_event_same by (auto simp: turn_extends_def)

lemma step_extends:
  assumes "reachable W th" "event_ok e" "apply_to_thread W th e = Inr th'"
  shows "thread_extends th th'"
proof -
  note shape = apply_to_thread_shape [OF reachable_shape [OF assms(1)] assms(3)]
  from shape(1) show ?thesis
  proof (cases rule: step_shape.cases)
    case (start p tid)
    with shape(3) show ?thesis by (auto simp: thread_extends_def nth_append)
  next
    case (active t us t' w)
    have "turn_extends t t'"
      using active_turn_extends [OF assms(1) _ active(6) assms(2) active(10)] active(5) by simp
    with active shape(3) show ?thesis by (auto simp: thread_extends_def nth_append less_Suc_eq)
  qed (use shape(3) in \<open>auto simp: thread_extends_def\<close>)
qed

interpretation extension: event_machine "accept_event W" "\<lambda>st. st = Some th \<and> reachable W th"
    "\<lambda>st. \<exists>u. st = Some u \<and> reachable W u \<and> thread_extends th u" for W th
proof
  fix st e st'
  assume "\<exists>u. st = Some u \<and> reachable W u \<and> thread_extends th u" and acc: "accept_event W st e = Inr st'"
  then obtain u where u: "st = Some u" "reachable W u" "thread_extends th u" by blast
  with acc obtain v where v: "st' = Some v" "event_ok e" "apply_to_thread W u e = Inr v"
    by (auto simp: accept_event_def apply_event_def)
  then have "reachable W v" using u(2) reachable.advanced by blast
  with u v show "\<exists>v. st' = Some v \<and> reachable W v \<and> thread_extends th v"
    using step_extends thread_extends_trans by blast
qed auto

lemma replay_extension:
  assumes "replay W es = Inr th" "replay W (es @ fs) = Inr th'" "list_all event_ok (es @ fs)"
  shows "thread_extends th th'"
  using extension.run_from_start [of "Some th" th W fs] replay_continues [OF assms] by blast

lemma concat_subseq:
  assumes "length xs \<le> length ys" "\<forall>k < length xs. subseq (f (xs ! k)) (f (ys ! k))"
  shows "subseq (concat (map f xs)) (concat (map f ys))"
  using assms
proof (induction xs arbitrary: ys)
  case (Cons x xs)
  then obtain y zs where ys: "ys = y # zs" by (cases ys) auto
  with Cons.prems have "subseq (f x) (f y)" "\<forall>k < length xs. subseq (f (xs ! k)) (f (zs ! k))"
    by (force, metis Suc_less_eq length_Cons nth_Cons_Suc)
  with Cons ys show ?case by (auto intro: list_emb_append_mono)
qed simp

lemma extends_history:
  assumes "thread_extends th th'"
  shows "subseq (history_items th) (history_items th')"
proof -
  let ?done = "filter (\<lambda>i. i_status i \<noteq> Is_STARTED)"
  have same: "filter is_history_item xs = filter is_history_item (?done xs)" for xs
    by (induction xs) (auto simp: is_history_item_def)
  have "subseq (filter is_history_item (t_items (th_turns th ! k)))
      (filter is_history_item (t_items (th_turns th' ! k)))" if "k < length (th_turns th)" for k
  proof -
    from assms that have "subseq (?done (t_items (th_turns th ! k))) (?done (t_items (th_turns th' ! k)))"
      by (auto simp: thread_extends_def turn_extends_def items_extend_def)
    then show ?thesis by (subst (1 2) same) (rule subseq_filter)
  qed
  with assms have "subseq (concat (map (\<lambda>t. filter is_history_item (t_items t)) (th_turns th)))
      (concat (map (\<lambda>t. filter is_history_item (t_items t)) (th_turns th')))"
    by (intro concat_subseq) (auto simp: thread_extends_def)
  with assms show ?thesis
    by (auto simp: history_items_def inherited_items_def thread_extends_def intro: list_emb_append_mono)
qed

lemma extends_item:
  assumes "thread_extends th th'" "i \<in> set (thread_items th)" "i_status i \<noteq> Is_STARTED"
  shows "i \<in> set (thread_items th')"
proof -
  from assms(2) obtain t where "t \<in> set (th_turns th)" "i \<in> set (t_items t)"
    by (auto simp: thread_items_def)
  then obtain k where k: "k < length (th_turns th)" "i \<in> set (t_items (th_turns th ! k))"
    by (auto simp: in_set_conv_nth [of t])
  with assms(1) have "items_extend (t_items (th_turns th ! k)) (t_items (th_turns th' ! k))"
      and len: "k < length (th_turns th')"
    by (auto simp: thread_extends_def turn_extends_def)
  then have "subseq (filter (\<lambda>i. i_status i \<noteq> Is_STARTED) (t_items (th_turns th ! k)))
      (filter (\<lambda>i. i_status i \<noteq> Is_STARTED) (t_items (th_turns th' ! k)))"
    by (simp add: items_extend_def)
  then have "i \<in> set (t_items (th_turns th' ! k))"
    using k(2) assms(3) by (auto elim: list_emb_set [of _ _ _ i])
  with len show ?thesis by (auto simp: thread_items_def)
qed

text \<open>C2. The record only grows. When a transcript is continued, the model history before is a
  subsequence of the history after, every item that had ended is still there unchanged, terminal Turns
  and the inherited history are untouched, and an archived Thread accepts no further event.\<close>

theorem history_append_only:
  assumes "replay W es = Inr th" and "replay W (es @ fs) = Inr th'" and "list_all event_ok (es @ fs)"
  shows "subseq (history_items th) (history_items th')
    \<and> (\<forall>i \<in> set (thread_items th). i_status i \<noteq> Is_STARTED \<longrightarrow> i \<in> set (thread_items th'))
    \<and> (\<forall>t \<in> set (th_turns th). terminal t \<longrightarrow> t \<in> set (th_turns th'))
    \<and> th_fork_snapshot th' = th_fork_snapshot th
    \<and> (th_archive th \<noteq> None \<longrightarrow> th' = th)"
proof -
  have ext: "thread_extends th th'" using assms by (rule replay_extension)
  have "t \<in> set (th_turns th')" if "t \<in> set (th_turns th)" "terminal t" for t
    using ext that by (auto simp: thread_extends_def turn_extends_def in_set_conv_nth dest!: spec)
  with extends_history [OF ext] extends_item [OF ext] ext show ?thesis
    by (auto simp: thread_extends_def)
qed

theorem history_append_only_witness:
  "subseq (history_items (thread_of running_run)) (history_items (thread_of completed_run))"
  unfolding completed_split
  using history_append_only [OF running_run_replays completed_run_replays [unfolded completed_split]
      completed_run_ok [unfolded completed_split]] by blast

end
