(* ===== verification/Approval_Safety.thy ===== *)
theory Approval_Safety
  imports Turn_Invariants
begin

text \<open>
  Approvals as evidence: a tool result can be recorded as a success only when the call it answers
  needs no approval, or when the Turn holds a decided, approving approval whose fingerprint binds it
  to a call of that identity. The invariant \<open>evidence\<close> carries this through every event; the
  approval of a call that needs one is therefore never bypassed, replayed or rewritten.
\<close>

section \<open>What an approval check reads\<close>

lemma approval_matches_cong:
  assumes "turn_id t' = turn_id t" "thread_id th' = thread_id th" "th_workspace th' = th_workspace th"
  shows "approval_matches W th' t' call a = approval_matches W th t call a"
  using assms
  by (simp add: approval_matches_def validate_patch_plan_def validate_batch_plan_def
      validate_process_plan_def request_fingerprint_def trusted_action_request_fingerprint_def
      trusted_action_subject_def cong: approval_content.case_cong option.case_cong sum.case_cong)

text \<open>The decision of an approval changes none of the fields the checks read.\<close>

lemma trusted_subject_reads:
  "trusted_action_subject th t call (a\<lparr>tq_decision := d\<rparr>) = trusted_action_subject th t call a"
  "trusted_action_subject th t call (a\<lparr>tq_decision := d, tq_route_state := s\<rparr>) = trusted_action_subject th t call a"
  by (cases a, simp only: trusted_action_subject_def trusted_approval_request.simps)+

lemma cleared_reads:
  "ap_call (cleared a c) = ap_call c" "ap_id (cleared a c) = ap_id c"
  "decision_subject (cleared a c) = decision_subject c"
  "typed_evidence (cleared a c) r = typed_evidence c r"
  by (cases c; cases a; simp add: cleared_def ap_call_def ap_id_def decision_subject_def
      ap_fingerprint_def typed_evidence_def)+

lemma cleared_matches: "approval_matches W th t call (cleared a c) = approval_matches W th t call c"
  by (cases c; cases a)
    (simp_all add: cleared_def approval_matches_def trusted_action_request_fingerprint_def
      trusted_subject_reads split: sum.split)

lemma cleared_same:
  assumes "a = cleared a c"
  shows "ap_call c = ap_call a" "ap_id c = ap_id a"
    "approval_matches W th t call c = approval_matches W th t call a"
    "decision_subject c = decision_subject a" "typed_evidence c r = typed_evidence a r"
  by (metis assms cleared_reads cleared_matches)+

lemma in_map_filter: "y \<in> set (List.map_filter f xs) \<longleftrightarrow> (\<exists>x \<in> set xs. f x = Some y)"
  by (induction xs) (auto simp: List.map_filter_simps split: option.splits)

lemma in_completed_calls:
  "c \<in> set (completed_calls is) \<longleftrightarrow> (\<exists>i \<in> set is. i_status i = Is_COMPLETED \<and> i_content i = ToolCall c)"
  unfolding completed_calls_def in_map_filter
  by (rule bex_cong) (auto split: item_content.splits if_splits)

lemma first_pendingD:
  assumes "first_pending t c = Some call"
  shows "call \<in> set (completed_calls (t_items t))" "tc_call_id call = c"
    "c \<notin> set (settled_calls (t_items t))"
proof -
  from assms obtain cs where "pending_calls t = call # cs" "tc_call_id call = c"
    by (auto simp: first_pending_def split: list.splits if_splits)
  then have "call \<in> set (pending_calls t)" "tc_call_id call = c" by simp_all
  then show "call \<in> set (completed_calls (t_items t))" "tc_call_id call = c"
    "c \<notin> set (settled_calls (t_items t))"
    by (auto simp: pending_calls_def)
qed

lemma approval_forD:
  assumes "approval_for t call = Some i"
  shows "i \<in> set (t_items t)" "\<exists>a. i_content i = Approval a \<and> ap_call a = tc_call_id call"
proof -
  from find_SomeD [OF assms [unfolded approval_for_def]]
  show "i \<in> set (t_items t)" "\<exists>a. i_content i = Approval a \<and> ap_call a = tc_call_id call"
    by (cases "i_content i"; simp)+
qed

text \<open>Finishing keeps the content, except for text and the decision of an approval.\<close>

lemma finish_content:
  assumes "finish_item t e p = Inr t'"
  obtains original where "original \<in> set (t_items t)" "item_id original = fi_item_id p"
    "i_status original = Is_STARTED"
    "\<And>r. fi_content p = ToolResult r \<Longrightarrow> i_content original = ToolResult r"
    "\<And>c. fi_content p = ToolCall c \<Longrightarrow> i_content original = ToolCall c"
    "\<And>c. fi_content p = Rejection c \<Longrightarrow> i_content original = Rejection c"
    "\<And>c. fi_content p = Approval c \<Longrightarrow>
       \<exists>a. i_content original = Approval a \<and> finish_approval t e (fi_status p) a c"
proof -
  from assms obtain original where
    f: "find (\<lambda>i. item_id i = fi_item_id p) (t_items t) = Some original" "i_status original = Is_STARTED"
    and kind: "content_kind (i_content original) = content_kind (fi_content p)"
    and rest: "case i_content original of
                 Approval a \<Rightarrow> (case fi_content p of
                     Approval c \<Rightarrow> finish_approval t e (fi_status p) a c | _ \<Rightarrow> False)
               | Text _ \<Rightarrow> True
               | c \<Rightarrow> c = fi_content p"
    by (auto simp: finish_item_def split: option.splits)
  have "original \<in> set (t_items t)" "item_id original = fi_item_id p"
    using find_SomeD [OF f(1)] by simp_all
  moreover have "i_content original = ToolResult r" if "fi_content p = ToolResult r" for r
    using that kind rest
    by (auto simp: content_kind_def text_kind_value_def split: item_content.splits text_kind.splits)
  moreover have "i_content original = ToolCall r" if "fi_content p = ToolCall r" for r
    using that kind rest
    by (auto simp: content_kind_def text_kind_value_def split: item_content.splits text_kind.splits)
  moreover have "i_content original = Rejection r" if "fi_content p = Rejection r" for r
    using that kind rest
    by (auto simp: content_kind_def text_kind_value_def split: item_content.splits text_kind.splits)
  moreover have "\<exists>a. i_content original = Approval a \<and> finish_approval t e (fi_status p) a c"
    if "fi_content p = Approval c" for c
    using that kind rest
    by (auto simp: content_kind_def text_kind_value_def
        split: item_content.splits text_kind.splits approval_content.splits)
  ultimately show ?thesis using f(2) that by blast
qed

section \<open>The invariant\<close>

definition bound_call :: "wire \<Rightarrow> thread \<Rightarrow> turn \<Rightarrow> approval_content \<Rightarrow> bool" where
  "bound_call W th t a \<longleftrightarrow> (\<exists>call \<in> set (completed_calls (t_items t)).
     tc_call_id call = ap_call a \<and> tc_requires_approval call \<and> approval_matches W th t call a)"

definition decided :: "approval_content \<Rightarrow> bool" where
  "decided a \<longleftrightarrow> (\<exists>d. ap_decision a = Some d \<and> ar_request_fingerprint d = decision_subject a)"

definition has_approval :: "wire \<Rightarrow> thread \<Rightarrow> turn \<Rightarrow> tool_result_content \<Rightarrow> bool" where
  "has_approval W th t r \<longleftrightarrow> (\<exists>j a. j \<in> set (t_items t) \<and> i_status j = Is_COMPLETED
     \<and> i_content j = Approval a \<and> ap_call a = tr_call_id r \<and> approved a \<and> decided a
     \<and> typed_evidence a r \<and> bound_call W th t a)"

definition item_evidence :: "wire \<Rightarrow> thread \<Rightarrow> turn \<Rightarrow> item \<Rightarrow> bool" where
  "item_evidence W th t i \<longleftrightarrow>
     (\<forall>a. i_content i = Approval a \<longrightarrow> bound_call W th t a \<and> (i_status i = Is_COMPLETED \<longrightarrow> decided a)
        \<and> (i_status i \<noteq> Is_COMPLETED \<longrightarrow> ap_decision a = None))
     \<and> (\<forall>r. i_content i = ToolResult r \<and> tr_outcome r = Oc_succeeded \<longrightarrow>
        (\<exists>call \<in> set (completed_calls (t_items t)). tc_call_id call = tr_call_id r
          \<and> (tc_requires_approval call \<longrightarrow> has_approval W th t r)))"

definition evidence :: "wire \<Rightarrow> thread \<Rightarrow> turn \<Rightarrow> bool" where
  "evidence W th t \<longleftrightarrow> (\<forall>i \<in> set (t_items t). item_evidence W th t i)"

definition keeps_items :: "turn \<Rightarrow> turn \<Rightarrow> bool" where
  "keeps_items t t' \<longleftrightarrow> turn_id t' = turn_id t
     \<and> (\<forall>i \<in> set (t_items t). i_status i \<noteq> Is_STARTED \<longrightarrow> i \<in> set (t_items t'))"

lemma keeps_bound_call:
  assumes "keeps_items t t'" "bound_call W th t a"
  shows "bound_call W th t' a"
proof -
  have "approval_matches W th t' call a = approval_matches W th t call a" for call
    using assms(1) by (intro approval_matches_cong) (auto simp: keeps_items_def)
  with assms show ?thesis
    by (force simp: bound_call_def keeps_items_def in_completed_calls)
qed

lemma keeps_item_evidence:
  assumes "keeps_items t t'" "item_evidence W th t i"
  shows "item_evidence W th t' i"
proof -
  have "has_approval W th t' r" if "has_approval W th t r" for r
    using that assms(1) keeps_bound_call [OF assms(1)]
    by (fastforce simp: has_approval_def keeps_items_def)
  moreover have "call \<in> set (completed_calls (t_items t'))" if "call \<in> set (completed_calls (t_items t))" for call
    using that assms(1) by (force simp: in_completed_calls keeps_items_def)
  ultimately show ?thesis
    using assms(2) keeps_bound_call [OF assms(1)] unfolding item_evidence_def by blast
qed

lemma rejection_result_fails:
  "require_rejection_result r reason = Inr u \<Longrightarrow> tr_outcome r = Oc_failed"
  by (auto simp: require_rejection_result_def rejection_result_def REJECTION_FAILURES_def list_ex_iff
      split: option.splits rejection_reason.splits prod.splits)
    (metis tool_result_content.select_convs(2))+

lemma started_evidence:
  assumes "evidence W th t" "start_guard W th t e c = Inr ()"
  shows "item_evidence W th t \<lparr>item_id = iid, i_status = Is_STARTED, i_content = c, i_error = None\<rparr>"
proof (cases c)
  case (Approval a)
  with assms(2) obtain call where "first_pending t (ap_call a) = Some call"
      "approval_type_matches call a" "approval_matches W th t call a" "ap_decision a = None"
    by (auto simp: start_guard_def start_approval_def split: option.splits)
  with Approval show ?thesis
    using first_pendingD [of t "ap_call a" call]
    by (auto simp: item_evidence_def bound_call_def approval_type_matches_def)
next
  case (ToolResult r)
  show ?thesis
  proof (cases "tr_outcome r = Oc_succeeded")
    case True
    with ToolResult assms(2) obtain call where call: "first_pending t (tr_call_id r) = Some call"
        "success_approved t call r"
      by (auto simp: start_guard_def start_rejection_result_def start_result_def
          dest!: rejection_result_fails split: if_splits option.splits)
    have "has_approval W th t r" if "tc_requires_approval call"
    proof -
      from that call(2) obtain j a where j: "approval_for t call = Some j" "i_status j = Is_COMPLETED"
          "i_content j = Approval a" "typed_evidence a r" "approved a"
        by (auto simp: success_approved_def split: option.splits item_content.splits)
      with approval_forD [OF j(1)] first_pendingD [OF call(1)] assms(1) show ?thesis
        by (force simp: has_approval_def evidence_def item_evidence_def)
    qed
    with ToolResult first_pendingD [OF call(1)] show ?thesis by (auto simp: item_evidence_def)
  next
    case False
    with ToolResult show ?thesis by (simp add: item_evidence_def)
  qed
qed (simp_all add: item_evidence_def)

lemma finished_evidence:
  assumes "evidence W th t" "finish_item t e p = Inr t'"
  shows "item_evidence W th t \<lparr>item_id = fi_item_id p, i_status = fi_status p, i_content = fi_content p, i_error = fi_error p\<rparr>"
  using assms(2)
proof (rule finish_content)
  fix original
  assume o: "original \<in> set (t_items t)" "i_status original = Is_STARTED"
    and r: "\<And>r. fi_content p = ToolResult r \<Longrightarrow> i_content original = ToolResult r"
    and a: "\<And>c. fi_content p = Approval c \<Longrightarrow>
       \<exists>a. i_content original = Approval a \<and> finish_approval t e (fi_status p) a c"
  from assms(1) o(1) have ev: "item_evidence W th t original" by (simp add: evidence_def)
  show ?thesis
  proof (cases "fi_content p")
    case (Approval c)
    with a obtain b where b: "i_content original = Approval b" "finish_approval t e (fi_status p) b c"
      by blast
    then have "b = cleared b c" by (simp add: finish_approval_def)
    note same = cleared_same [OF this]
    from b ev same Approval show ?thesis
      by (auto simp: item_evidence_def bound_call_def decided_def finish_approval_def
          split: if_splits option.splits)
  next
    case (ToolResult q)
    with r [OF ToolResult] ev show ?thesis by (simp add: item_evidence_def)
  qed (simp_all add: item_evidence_def)
qed

lemma turn_event_keeps:
  assumes "reachable W th" "t \<in> set (th_turns th)" "\<not> terminal t" "event_ok e"
    "apply_turn_event W th t e = Inr (t', w)"
  shows "keeps_items t t'"
proof -
  let ?done = "filter (\<lambda>i. i_status i \<noteq> Is_STARTED)"
  from active_turn_extends [OF assms] have "subseq (?done (t_items t)) (?done (t_items t'))"
      and "turn_id t' = turn_id t"
    by (auto simp: turn_extends_def items_extend_def same_turn_def)
  then show ?thesis by (auto simp: keeps_items_def elim: list_emb_set)
qed

interpretation evidence: turn_invariant W "evidence W" for W
proof
  fix th th' :: thread and t
  assume ev: "evidence W th t" and ids: "thread_id th' = thread_id th" "th_workspace th' = th_workspace th"
  have "bound_call W th' t a = bound_call W th t a" for a
    unfolding bound_call_def using approval_matches_cong [OF refl ids] by blast
  with ev show "evidence W th' t"
    by (simp only: evidence_def item_evidence_def has_approval_def)
next
  fix th t e t' w
  assume *: "reachable W th" "t \<in> set (th_turns th)" "\<not> terminal t" "event_ok e" "evidence W th t"
    "apply_turn_event W th t e = Inr (t', w)"
  then have keeps: "keeps_items t t'" by (blast intro: turn_event_keeps)
  from apply_turn_event_items [OF *(6)] show "evidence W th t'"
  proof (cases rule: item_change.cases)
    case kept
    then show ?thesis
      using *(5) keeps_item_evidence [OF keeps] by (simp add: evidence_def)
  next
    case (started iid c xs ys)
    then show ?thesis
      using *(5) started_evidence [OF *(5) started(5), of iid] keeps_item_evidence [OF keeps]
      by (auto simp: evidence_def)
  next
    case (finished p original)
    then show ?thesis
      using *(5) finished_evidence [OF *(5) finished(4)] keeps_item_evidence [OF keeps]
        set_replace_by_subset by (fastforce simp: evidence_def)
  qed
qed (simp add: evidence_def)

text \<open>C1. No tool effect without an approval: in every Thread that events can produce, a result recorded as a
  success answers a completed call of its Turn. If that call requires approval, the Turn holds a
  completed approval under the identity of the call that decides \<open>APPROVED\<close>, whose decision carries the
  fingerprint the approval was requested with, which has the typed effect evidence of its kind, and
  which passes the fingerprint check for a completed call with this identity; that is the call itself
  wherever the calls of the Turn have different identities (two calls under one identity are possible,
  see the theory Reducer_Gaps).\<close>

theorem success_needs_approval:
  assumes "replay W es = Inr th" and "list_all event_ok es"
    and "t \<in> set (th_turns th)" and "i \<in> set (t_items t)"
    and "i_content i = ToolResult r" and "tr_outcome r = Oc_succeeded"
  shows "\<exists>call \<in> set (completed_calls (t_items t)). tc_call_id call = tr_call_id r
    \<and> (tc_requires_approval call \<longrightarrow>
        (\<exists>j a d bound. j \<in> set (t_items t) \<and> i_status j = Is_COMPLETED \<and> i_content j = Approval a
          \<and> ap_call a = tc_call_id call \<and> ap_decision a = Some d \<and> ar_outcome d = APPROVED
          \<and> ar_request_fingerprint d = decision_subject a \<and> typed_evidence a r
          \<and> bound \<in> set (completed_calls (t_items t)) \<and> tc_call_id bound = tc_call_id call
          \<and> approval_matches W th t bound a
          \<and> (distinct (map tc_call_id (completed_calls (t_items t))) \<longrightarrow> bound = call)))"
proof -
  have "evidence W th t"
    using evidence.every_turn [OF replay_reachable [OF assms(1,2)] assms(3)] .
  with assms(4-6) obtain call where call: "call \<in> set (completed_calls (t_items t))"
      "tc_call_id call = tr_call_id r" "tc_requires_approval call \<Longrightarrow> has_approval W th t r"
    unfolding evidence_def item_evidence_def by blast
  have "\<exists>j a d bound. j \<in> set (t_items t) \<and> i_status j = Is_COMPLETED \<and> i_content j = Approval a
          \<and> ap_call a = tc_call_id call \<and> ap_decision a = Some d \<and> ar_outcome d = APPROVED
          \<and> ar_request_fingerprint d = decision_subject a \<and> typed_evidence a r
          \<and> bound \<in> set (completed_calls (t_items t)) \<and> tc_call_id bound = tc_call_id call
          \<and> approval_matches W th t bound a
          \<and> (distinct (map tc_call_id (completed_calls (t_items t))) \<longrightarrow> bound = call)"
    if "tc_requires_approval call"
  proof -
    from call(3) [OF that] obtain j a where j: "j \<in> set (t_items t)" "i_status j = Is_COMPLETED"
        "i_content j = Approval a" "ap_call a = tr_call_id r" "approved a" "decided a"
        "typed_evidence a r" "bound_call W th t a"
      by (auto simp: has_approval_def)
    from j(8) obtain c where c: "c \<in> set (completed_calls (t_items t))" "tc_call_id c = ap_call a"
        "approval_matches W th t c a"
      by (auto simp: bound_call_def)
    have "c = call" if "distinct (map tc_call_id (completed_calls (t_items t)))"
      using that call(1,2) c(1,2) j(4) by (auto simp: distinct_map inj_on_def)
    with c j call(2) show ?thesis by (auto simp: approved_def decided_def split: option.splits)
  qed
  with call(1,2) show ?thesis by blast
qed

theorem success_needs_approval_witness:
  "\<exists>t \<in> set (th_turns (thread_of approved_run)). \<exists>i a d. i \<in> set (t_items t)
     \<and> i_content i = Approval a \<and> ap_decision a = Some d \<and> ar_outcome d = APPROVED
     \<and> approval_matches no_wire (thread_of approved_run) t guarded_call a"
proof -
  from approved_run_facts obtain t i where run: "replay no_wire approved_run = Inr (thread_of approved_run)"
      and t: "t \<in> set (th_turns (thread_of approved_run))" and i: "i \<in> set (t_items t)"
        "i_content i = read_result 50" and calls: "completed_calls (t_items t) = [guarded_call]"
    by blast
  obtain r where r: "i_content i = ToolResult r" "tr_outcome r = Oc_succeeded" "tr_call_id r = 50"
    using i(2) by (simp add: read_result_def)
  have "tc_requires_approval guarded_call" by (simp add: guarded_call_def)
  with success_needs_approval [OF run approved_run_ok t i(1) r(1,2)] t show ?thesis
    unfolding calls by fastforce
qed

end
