(* ===== verification/Accounting.thy ===== *)
theory Accounting
  imports Turn_Invariants
begin

text \<open>
  Budgets and accounts. Every Turn keeps its step count within its budget, its attempts well formed
  with distinct identities, and its usage at least the sum of what its attempts and compaction
  requests observed. Only a response recorded without any attempt (the format of old providers) can
  put the usage above the sum, and \<^verbatim>\<open>usage_is_complete\<close> excludes exactly that case.
\<close>

definition attempt_sum :: "(usage_observation \<Rightarrow> int option) \<Rightarrow> model_attempt list \<Rightarrow> int" where
  "attempt_sum f as = sum_list (map (\<lambda>a. or_zero (f (a_usage a))) as)"

lemma attempt_sum_simps [simp]:
  "attempt_sum f [] = 0" "attempt_sum f (a # as) = or_zero (f (a_usage a)) + attempt_sum f as"
  "attempt_sum f (as @ bs) = attempt_sum f as + attempt_sum f bs"
  by (simp_all add: attempt_sum_def)

lemma map_filter_append [simp]: "List.map_filter f (xs @ ys) = List.map_filter f xs @ List.map_filter f ys"
  by (induction xs) (simp_all add: List.map_filter_simps split: option.splits)

definition covers :: "turn \<Rightarrow> bool" where
  "covers t \<longleftrightarrow>
     attempt_sum input_tokens (accounted_attempts t) \<le> u_input_tokens (t_usage t)
     \<and> attempt_sum output_tokens (accounted_attempts t) \<le> u_output_tokens (t_usage t)"

definition exact :: "turn \<Rightarrow> bool" where
  "exact t \<longleftrightarrow>
     attempt_sum input_tokens (accounted_attempts t) = u_input_tokens (t_usage t)
     \<and> attempt_sum output_tokens (accounted_attempts t) = u_output_tokens (t_usage t)"

text \<open>A step whose response was recorded without an attempt.\<close>

definition legacy_step :: "turn \<Rightarrow> nat \<Rightarrow> bool" where
  "legacy_step t n \<longleftrightarrow> 1 \<le> n \<and> n \<le> t_usage_step t \<and> n \<notin> a_step ` set (t_model_attempts t)"

definition accounts :: "thread \<Rightarrow> turn \<Rightarrow> bool" where
  "accounts th t \<longleftrightarrow>
     distinct (map attempt_id (t_model_attempts t)) \<and> distinct (map record_key (t_compactions t))
     \<and> list_all model_attempt_ok (accounted_attempts t) \<and> list_all compaction_record_ok (t_compactions t)
     \<and> t_usage_step t \<le> t_model_steps t \<and> t_model_steps t \<le> max_steps (t_budget t)
     \<and> covers t \<and> (exact t \<or> (\<exists>n. legacy_step t n))"

lemma accounts_same:
  assumes "accounts th t" "t_model_attempts t' = t_model_attempts t" "t_compactions t' = t_compactions t"
    "t_usage t' = t_usage t" "t_usage_step t' = t_usage_step t" "t_budget t' = t_budget t"
    "t_model_steps t' = t_model_steps t
     \<or> t_model_steps t \<le> t_model_steps t' \<and> t_model_steps t' \<le> max_steps (t_budget t)"
  shows "accounts th t'"
  using assms
  by (auto simp: accounts_def accounted_attempts_def covers_def exact_def legacy_step_def)

lemma calling_not_terminal [simp]: "Ts_CALLING_MODEL \<notin> set TERMINAL_TURNS"
  by (simp add: TERMINAL_TURNS_def)

lemma change_state_cases:
  assumes "change_state th t e p = Inr t'"
  obtains (final) "tsc_status p \<in> set TERMINAL_TURNS" "terminal_guard t e p"
      "t' = t\<lparr>t_status := tsc_status p, t_error := tsc_error p, t_completed_at := Some (occurred_at e)\<rparr>"
  | (call) "tsc_status p = Ts_CALLING_MODEL" "target_guard t e Ts_CALLING_MODEL"
      "t' = t\<lparr>t_status := Ts_CALLING_MODEL, t_model_steps := Suc (t_model_steps t)\<rparr>"
  | (move) "tsc_status p \<notin> set TERMINAL_TURNS" "tsc_status p \<noteq> Ts_CALLING_MODEL"
      "target_guard t e (tsc_status p)" "t' = t\<lparr>t_status := tsc_status p\<rparr>"
proof (cases "tsc_status p \<in> set TERMINAL_TURNS")
  case True
  with assms show ?thesis by (intro final) (simp_all add: change_state_def Let_def)
next
  case False
  with assms have "target_guard t e (tsc_status p)"
      "t' = (if tsc_status p = Ts_CALLING_MODEL
         then t\<lparr>t_status := tsc_status p, t_model_steps := t_model_steps t + 1\<rparr>
         else t\<lparr>t_status := tsc_status p\<rparr>)"
    by (simp_all add: change_state_def Let_def)
  with False show ?thesis using call move by (cases "tsc_status p = Ts_CALLING_MODEL") simp_all
qed

lemma change_state_steps:
  assumes "change_state th t e p = Inr t'"
  shows "t_model_attempts t' = t_model_attempts t" "t_compactions t' = t_compactions t"
    "t_usage t' = t_usage t" "t_usage_step t' = t_usage_step t" "t_budget t' = t_budget t"
    "t_model_steps t' = t_model_steps t
      \<or> t_model_steps t \<le> t_model_steps t' \<and> t_model_steps t' \<le> max_steps (t_budget t)"
  using assms by (cases rule: change_state_cases; simp add: target_guard_def)+

lemma change_state_accounts:
  assumes "accounts th t" "change_state th t e p = Inr t'"
  shows "accounts th t'"
  by (rule accounts_same [OF assms(1) change_state_steps [OF assms(2)]])

lemma start_item_accounts: "accounts th t \<Longrightarrow> start_item W th t e i c = Inr t' \<Longrightarrow> accounts th t'"
  by (erule accounts_same) (auto simp: start_item_def Let_def)

lemma finish_item_accounts: "accounts th t \<Longrightarrow> finish_item t e p = Inr t' \<Longrightarrow> accounts th t'"
  by (erule accounts_same) (auto simp: finish_item_def split: option.splits)

lemma prepare_accounts:
  "accounts th t \<Longrightarrow> prepare_context t i = Inr t' \<Longrightarrow> accounts th t'"
  "accounts th t \<Longrightarrow> prepare_model_history_event W th' t j ds = Inr t' \<Longrightarrow> accounts th t'"
  by (erule accounts_same; auto simp: prepare_context_def prepare_model_history_event_def)+

lemma new_attempt_ok [simp]: "model_attempt_ok (new_attempt p now)"
  by (simp add: new_attempt_def model_attempt_ok_def usage_observation_ok_def TOKEN_FIELDS_def
      no_usage_def no_billing_def billing_usage_ok_def)

lemma new_attempt_usage [simp]: "a_usage (new_attempt p now) = no_usage" "a_step (new_attempt p now) = ms_step p"
    "attempt_id (new_attempt p now) = ms_attempt_id p"
  by (simp_all add: new_attempt_def)

lemma no_usage_zero [simp]: "or_zero (input_tokens no_usage) = 0" "or_zero (output_tokens no_usage) = 0"
  by (simp_all add: no_usage_def)

lemma start_attempt_accounts:
  assumes "accounts th t" "start_attempt t e p = Inr t'" "ms_attempt_id p \<notin> attempt_id ` set (t_model_attempts t)"
  shows "accounts th t'"
proof -
  from assms(2) have step: "t_usage_step t < ms_step p"
    and t': "t' = t\<lparr>t_model_attempts := t_model_attempts t @ [new_attempt p (occurred_at e)]\<rparr>"
    by (auto simp: start_attempt_def Let_def)
  have "legacy_step t' n" if "legacy_step t n" for n
    using that step by (auto simp: legacy_step_def t')
  with assms(1,3) show ?thesis
    by (auto simp: accounts_def t' accounted_attempts_def covers_def exact_def)
qed

text \<open>Settling replaces one attempt by one that observed more, and charges the difference.\<close>

lemma settle_delta:
  assumes "settle_observation a p now = Inr (b, i, out)" "model_attempt_ok a"
    "case p of Observed q \<Rightarrow> model_usage_observed_ok q | Finished q \<Rightarrow> model_attempt_finished_ok q"
  shows "attempt_sum input_tokens (xs @ b # ys) = attempt_sum input_tokens (xs @ a # ys) + i"
    "attempt_sum output_tokens (xs @ b # ys) = attempt_sum output_tokens (xs @ a # ys) + out"
    "model_attempt_ok b" "attempt_id b = attempt_id a"
  using settle_growth [OF assms] by simp_all

lemma settle_step: "settle_observation a p now = Inr (b, i, out) \<Longrightarrow> a_step b = a_step a"
  by (auto simp: settle_observation_def Let_def split: observation.splits)

lemma settle_attempt_accounts:
  assumes acc: "accounts th t" and run: "settle_attempt t e p = Inr t'"
    and ok: "case p of Observed q \<Rightarrow> model_usage_observed_ok q | Finished q \<Rightarrow> model_attempt_finished_ok q"
  shows "accounts th t'"
proof -
  from run obtain a b i out u where a: "find (\<lambda>a. attempt_id a = obs_attempt_id p) (t_model_attempts t) = Some a"
    and s: "settle_observation a p (occurred_at e) = Inr (b, i, out)" and u: "add_usage t i out = Inr u"
    and t': "t' = t\<lparr>t_usage := u, t_model_attempts := replace_by attempt_id b (t_model_attempts t)\<rparr>"
    by (auto simp: settle_attempt_def split: option.splits)
  from find_SomeD [OF a] have mem: "a \<in> set (t_model_attempts t)" by simp
  with acc have "model_attempt_ok a" by (auto simp: accounts_def accounted_attempts_def list_all_iff)
  note delta = settle_delta [OF s this ok]
  have "distinct (map attempt_id (t_model_attempts t))" using acc by (simp add: accounts_def)
  from this mem delta(4) [symmetric] obtain xs ys where split: "t_model_attempts t = xs @ a # ys"
      "replace_by attempt_id b (t_model_attempts t) = xs @ b # ys"
    by (rule replace_by_split)
  have u': "u = \<lparr>u_input_tokens = u_input_tokens (t_usage t) + i, u_output_tokens = u_output_tokens (t_usage t) + out\<rparr>"
    using u by (simp add: add_usage_def make_usage_def)
  have t'': "t' = t\<lparr>t_usage := u, t_model_attempts := xs @ b # ys\<rparr>" by (simp only: t' split(2))
  show ?thesis
    using acc delta(3,4) delta(1,2) [of xs ys] settle_step [OF s]
    by (auto simp: accounts_def t'' u' split(1) accounted_attempts_def covers_def exact_def legacy_step_def)
qed

lemma record_usage_accounts:
  assumes acc: "accounts th t" and run: "record_usage t n v = Inr t'"
    and ok: "0 \<le> u_input_tokens v" "0 \<le> u_output_tokens v"
  shows "accounts th t'"
proof (cases "filter (\<lambda>a. a_step a = n) (t_model_attempts t) = []")
  case True
  with run obtain u where u: "add_usage t (u_input_tokens v) (u_output_tokens v) = Inr u"
    and n: "n = t_model_steps t" "t_usage_step t < n" and t': "t' = t\<lparr>t_usage_step := n, t_usage := u\<rparr>"
    by (auto simp: record_usage_def Let_def)
  have "legacy_step t' n"
    using True n(2) by (auto simp: legacy_step_def t' filter_empty_conv)
  moreover have "u = \<lparr>u_input_tokens = u_input_tokens (t_usage t) + u_input_tokens v,
      u_output_tokens = u_output_tokens (t_usage t) + u_output_tokens v\<rparr>"
    using u by (simp add: add_usage_def make_usage_def)
  ultimately show ?thesis
    using acc ok n by (auto simp: accounts_def t' accounted_attempts_def covers_def)
next
  case False
  with run have "n = t_model_steps t" "t' = t\<lparr>t_usage_step := n\<rparr>"
    by (auto simp: record_usage_def Let_def)
  with acc show ?thesis
    by (auto simp: accounts_def accounted_attempts_def covers_def exact_def legacy_step_def)
qed

section \<open>Compactions\<close>

text \<open>The accounts a ledger record stands for, before and after it advances.\<close>

definition record_attempts :: "compaction_record \<Rightarrow> model_attempt list" where
  "record_attempts r = (case cr_attempt r of None \<Rightarrow> [] | Some a \<Rightarrow> [a])"

definition charged :: "turn \<Rightarrow> compaction_record \<Rightarrow> compaction_record \<Rightarrow> usage \<Rightarrow> bool" where
  "charged t r r' u \<longleftrightarrow> record_key r' = record_key r \<and> list_all model_attempt_ok (record_attempts r')
     \<and> u_input_tokens u - u_input_tokens (t_usage t)
         = attempt_sum input_tokens (record_attempts r') - attempt_sum input_tokens (record_attempts r)
     \<and> u_output_tokens u - u_output_tokens (t_usage t)
         = attempt_sum output_tokens (record_attempts r') - attempt_sum output_tokens (record_attempts r)"

lemma settle_summary_charged:
  assumes s: "settle_summary t e r q = Inr (r', u)" and old: "list_all model_attempt_ok (record_attempts r)"
    and q: "case q of Observed q \<Rightarrow> model_usage_observed_ok q | Finished q \<Rightarrow> model_attempt_finished_ok q"
  shows "charged t r r' u"
proof -
  from s obtain a b i out where a: "cr_attempt r = Some a"
      "settle_observation a q (occurred_at e) = Inr (b, i, out)" "add_usage t i out = Inr u"
      "r' = r\<lparr>cr_attempt := Some b\<rparr>"
    by (auto simp: settle_summary_def split: option.splits)
  from a(1) old have "model_attempt_ok a" by (simp add: record_attempts_def)
  note delta = settle_delta [OF a(2) this q]
  from a(1,3,4) delta(1,2) [of "[]" "[]"] delta(3) show ?thesis
    by (auto simp: add_usage_def make_usage_def record_attempts_def record_key_def charged_def)
qed

lemma advance_record_charged:
  assumes run: "advance_record W th t e r p = Inr (r', u)" and ok: "compaction_event_ok p"
    and old: "list_all model_attempt_ok (record_attempts r)" and rec: "compaction_record_ok r"
  shows "charged t r r' u"
proof (cases p)
  case (CompactionAttemptStarted c a)
  with run have s: "start_summary th t e r a = Inr r'" "u = t_usage t"
    by (auto simp: advance_record_def)
  then have "cr_status r = Cs_planned" "r' = r\<lparr>cr_status := Cs_sampling, cr_attempt := Some (new_attempt a (occurred_at e))\<rparr>"
    by (auto simp: start_summary_def)
  moreover from this(1) rec have "cr_attempt r = None"
    by (simp add: compaction_record_ok_def coherent_state_def)
  ultimately show ?thesis using s(2) by (simp add: charged_def record_attempts_def record_key_def)
next
  case (CompactionUsageObserved c q)
  with run ok old show ?thesis
    by (intro settle_summary_charged [of t e r "Observed q"]) (auto simp: advance_record_def compaction_event_ok_def)
next
  case (CompactionAttemptFinished c q)
  with run ok old show ?thesis
    by (intro settle_summary_charged [of t e r "Finished q"]) (auto simp: advance_record_def compaction_event_ok_def)
next
  case (CompactionSummarized c s sha tokens)
  with run old show ?thesis
    by (auto simp: advance_record_def summarize_def charged_def record_attempts_def record_key_def)
next
  case (CompactionRejected c out f un)
  with run old show ?thesis
    by (auto simp: advance_record_def reject_compaction_def charged_def record_attempts_def record_key_def)
qed (use run in \<open>simp add: advance_record_def\<close>)

lemma accounted_split:
  "t_compactions t = xs @ r # ys \<Longrightarrow>
     accounted_attempts t = t_model_attempts t @ List.map_filter cr_attempt xs @ record_attempts r
       @ List.map_filter cr_attempt ys"
  by (simp add: accounted_attempts_def record_attempts_def List.map_filter_simps split: option.splits)

lemma planned_accounts:
  assumes "accounts th t" "planned W th' t e plan ds = Inr t'" "t \<in> set (th_turns th')"
  shows "accounts th t'"
proof -
  from assms(2) have new: "compaction_record_ok (new_record t e plan)"
    and fresh: "\<forall>c \<in> set (t_compactions t). record_key c \<noteq> compaction_id plan"
    and t': "t' = t\<lparr>t_compactions := t_compactions t @ [new_record t e plan],
              t_tool_result_view_decisions := t_tool_result_view_decisions t @ ds\<rparr>"
    using assms(3) by (auto simp: planned_def thread_compactions_def list_all_iff record_key_def)
  have "accounted_attempts t' = accounted_attempts t"
    by (simp add: t' accounted_attempts_def new_record_def List.map_filter_simps)
  with assms(1) new fresh show ?thesis
    by (auto simp: accounts_def covers_def exact_def legacy_step_def t' new_record_def record_key_def)
qed

lemma apply_compaction_accounts:
  assumes acc: "accounts th t" and run: "apply_compaction W th' t e p = Inr t'" and ok: "compaction_event_ok p"
    and mem: "t \<in> set (th_turns th')"
  shows "accounts th t'"
proof (cases "\<exists>plan ds. p = CompactionPlanned plan ds")
  case True
  with assms show ?thesis by (auto simp: apply_compaction_def intro: planned_accounts)
next
  case False
  with run obtain r r' u where r: "find (\<lambda>c. record_key c = event_compaction_id p) (t_compactions t) = Some r"
    and adv: "advance_record W th' t e r p = Inr (r', u)" and rok: "compaction_record_ok r'"
    and t': "t' = t\<lparr>t_usage := u, t_compactions := replace_by record_key r' (t_compactions t)\<rparr>"
    by (cases p) (auto simp: apply_compaction_def split: option.splits)
  from find_SomeD [OF r] have in_t: "r \<in> set (t_compactions t)" by simp
  then obtain as bs where "t_compactions t = as @ r # bs" by (auto dest: split_list)
  from accounted_split [OF this] acc in_t
  have "list_all model_attempt_ok (record_attempts r)" "compaction_record_ok r"
    by (auto simp: accounts_def list_all_iff)
  then have ch: "charged t r r' u" by (rule advance_record_charged [OF adv ok])
  have "distinct (map record_key (t_compactions t))" using acc by (simp add: accounts_def)
  moreover have "record_key r = record_key r'" using ch by (simp add: charged_def)
  ultimately obtain xs ys where split: "t_compactions t = xs @ r # ys"
      "replace_by record_key r' (t_compactions t) = xs @ r' # ys"
    using in_t replace_by_split by metis
  have t'': "t' = t\<lparr>t_usage := u, t_compactions := xs @ r' # ys\<rparr>" by (simp only: t' split(2))
  have a': "accounted_attempts (t\<lparr>t_usage := u, t_compactions := xs @ r' # ys\<rparr>) =
      t_model_attempts t @ List.map_filter cr_attempt xs @ record_attempts r' @ List.map_filter cr_attempt ys"
    by (subst accounted_split [of _ xs r' ys]) simp_all
  note a = accounted_split [OF split(1)]
  show ?thesis
    using acc ch rok
    by (auto simp: accounts_def a a' covers_def exact_def legacy_step_def charged_def t'' split(1))
qed

interpretation accounts: turn_invariant W accounts for W
proof
  fix th :: thread and t e t' w
  assume mem: "t \<in> set (th_turns th)" and ok: "event_ok e" and acc: "accounts th t"
    and run: "apply_turn_event W th t e = Inr (t', w)"
  have p: "payload_ok (payload e)" using ok by (simp add: event_ok_def)
  show "accounts th t'"
  proof (cases "payload e")
    case (ModelAttemptStarted q)
    have "a \<in> set (thread_attempts th)" if "a \<in> set (t_model_attempts t)" for a
      using mem that by (auto simp: thread_attempts_def accounted_attempts_def)
    with ModelAttemptStarted run have "ms_attempt_id q \<notin> attempt_id ` set (t_model_attempts t)"
      by (auto simp: apply_turn_event_def list_all_iff)
    with ModelAttemptStarted run acc show ?thesis
      by (auto simp: apply_turn_event_def intro: start_attempt_accounts)
  next
    case (ModelUsageObserved q)
    with run acc p show ?thesis
      by (auto simp: apply_turn_event_def payload_ok_def intro: settle_attempt_accounts)
  next
    case (ModelAttemptFinished q)
    with run acc p show ?thesis
      by (auto simp: apply_turn_event_def payload_ok_def intro: settle_attempt_accounts)
  next
    case (UsageRecorded n u)
    with run acc p show ?thesis
      by (auto simp: apply_turn_event_def payload_ok_def intro: record_usage_accounts)
  next
    case (CompactionEvent q)
    with run acc p mem show ?thesis
      by (auto simp: apply_turn_event_def payload_ok_def intro: apply_compaction_accounts)
  qed (use run acc in \<open>auto simp: apply_turn_event_def intro: change_state_accounts start_item_accounts
      finish_item_accounts prepare_accounts\<close>)
qed (auto simp: accounts_def covers_def exact_def new_turn_def accounted_attempts_def List.map_filter_simps
    payload_ok_def event_ok_def)

section \<open>Properties\<close>

text \<open>C4. No Turn exceeds its step budget and no observed token is lost: in every Thread that events
  can produce, the steps of a Turn stay within its budget, its usage covers the sum of the input and
  output tokens observed by all its attempts and compaction requests, attempt identities are unique
  and every attempt and ledger record is well formed.\<close>

theorem budget_and_accounts:
  assumes "replay W es = Inr th" and "list_all event_ok es" and "t \<in> set (th_turns th)"
  shows "t_model_steps t \<le> max_steps (t_budget t) \<and> t_usage_step t \<le> t_model_steps t
    \<and> attempt_sum input_tokens (accounted_attempts t) \<le> u_input_tokens (t_usage t)
    \<and> attempt_sum output_tokens (accounted_attempts t) \<le> u_output_tokens (t_usage t)
    \<and> distinct (map attempt_id (t_model_attempts t))
    \<and> list_all model_attempt_ok (accounted_attempts t) \<and> list_all compaction_record_ok (t_compactions t)"
  using accounts.every_turn [OF replay_reachable [OF assms(1,2)] assms(3)]
  by (simp add: accounts_def covers_def)

theorem budget_and_accounts_witness:
  "\<exists>t \<in> set (th_turns (thread_of completed_run)). t_usage t = \<lparr>u_input_tokens = 60, u_output_tokens = 24\<rparr>
     \<and> attempt_sum input_tokens (accounted_attempts t) \<le> 60 \<and> t_model_steps t \<le> max_steps (t_budget t)"
proof -
  from completed_run_facts obtain t where run: "replay no_wire completed_run = Inr (thread_of completed_run)"
      and t: "t \<in> set (th_turns (thread_of completed_run))"
        "t_usage t = \<lparr>u_input_tokens = 60, u_output_tokens = 24\<rparr>"
    by blast
  show ?thesis using budget_and_accounts [OF run completed_run_ok t(1)] t by auto
qed

text \<open>C5. \<open>usage_is_complete\<close> means what it says: when a Turn claims a complete account, its usage is
  exactly the sum of what its attempts and compaction requests observed.\<close>

theorem complete_usage_is_exact:
  assumes "replay W es = Inr th" and "list_all event_ok es" and "t \<in> set (th_turns th)"
    and "usage_is_complete t"
  shows "u_input_tokens (t_usage t) = attempt_sum input_tokens (accounted_attempts t)
    \<and> u_output_tokens (t_usage t) = attempt_sum output_tokens (accounted_attempts t)"
proof -
  have acc: "accounts th t"
    using accounts.every_turn [OF replay_reachable [OF assms(1,2)] assms(3)] .
  from assms(4) have "a_step ` set (t_model_attempts t) = {1..<t_model_steps t + 1}"
    by (simp add: usage_is_complete_def del: upt_Suc)
  with acc have "\<not> legacy_step t n" for n
    by (auto simp: legacy_step_def accounts_def)
  with acc show ?thesis by (auto simp: accounts_def exact_def)
qed

theorem complete_usage_is_exact_witness:
  "\<exists>t \<in> set (th_turns (thread_of completed_run)). attempt_sum input_tokens (accounted_attempts t) = 60
     \<and> attempt_sum output_tokens (accounted_attempts t) = 24"
proof -
  from completed_run_facts obtain t where run: "replay no_wire completed_run = Inr (thread_of completed_run)"
      and t: "t \<in> set (th_turns (thread_of completed_run))" "usage_is_complete t"
        "t_usage t = \<lparr>u_input_tokens = 60, u_output_tokens = 24\<rparr>"
    by blast
  show ?thesis using complete_usage_is_exact [OF run completed_run_ok t(1,2)] t by auto
qed

end
