(* ===== verification/Finishing_Run.thy ===== *)
theory Finishing_Run
  imports Transcripts
begin

text \<open>The completed run one event before its end: its Turn is finalizing.\<close>

lemma finalizing_run_yields:
  "yields (\<lambda>th. map t_status (th_turns th) = [Ts_FINALIZING]) (replay no_wire (butlast completed_run))"
  by (simp add: replay_def run_simps del: bindE_Inr cong: bindE_weak require_weak check_weak yields_weak)

lemma completed_run_last:
  "completed_run = butlast completed_run @ [last completed_run]"
  by (simp add: run_defs)

end
