(* ===== verification/Turn_Outcomes.thy ===== *)
theory Turn_Outcomes
  imports Accounting Finishing_Run
begin

text \<open>
  What the states of a Turn promise: the abstract life cycle every Turn follows, and what is settled
  when it ends. A terminal Turn leaves nothing open, a Turn that claims success or a clean
  cancellation hides no unknown effect, and a failed one names its error.
\<close>

section \<open>Life cycle\<close>

text \<open>
  The abstract automaton, move by move: what a Turn may do next, whatever the tables of the code say.
\<close>

inductive life_step :: "turn_status \<Rightarrow> turn_status \<Rightarrow> bool" where
  begins: "life_step Ts_ACCEPTED Ts_PREPARING_CONTEXT"
| calls: "life_step Ts_PREPARING_CONTEXT Ts_CALLING_MODEL"
| prepares_again: "life_step Ts_CALLING_MODEL Ts_PREPARING_CONTEXT"
| executes: "life_step Ts_CALLING_MODEL Ts_EXECUTING_TOOLS"
| finalizes: "life_step Ts_CALLING_MODEL Ts_FINALIZING"
| returns: "life_step Ts_EXECUTING_TOOLS Ts_PREPARING_CONTEXT"
| asks_approval: "life_step Ts_EXECUTING_TOOLS Ts_WAITING_APPROVAL"
| asks_user: "life_step Ts_EXECUTING_TOOLS Ts_WAITING_INPUT"
| approved: "life_step Ts_WAITING_APPROVAL Ts_EXECUTING_TOOLS"
| awaits_process: "life_step Ts_WAITING_APPROVAL Ts_WAITING_ACTION"
| process_ended: "life_step Ts_WAITING_ACTION Ts_EXECUTING_TOOLS"
| answered: "life_step Ts_WAITING_INPUT Ts_EXECUTING_TOOLS"
| completes: "life_step Ts_FINALIZING Ts_COMPLETED"
| cancelled: "life_step Ts_CANCELLING Ts_CANCELLED"
| cancel_interrupted: "life_step Ts_CANCELLING Ts_INTERRUPTED"
| stopped: "s \<notin> {Ts_COMPLETED, Ts_FAILED, Ts_CANCELLED, Ts_INTERRUPTED, Ts_CANCELLING} \<Longrightarrow>
    s' \<in> {Ts_CANCELLING, Ts_FAILED, Ts_INTERRUPTED} \<Longrightarrow> life_step s s'"

inductive_simps life_step_iff: "life_step s s'"

lemma status_or_change:
  assumes "apply_turn_event W th t e = Inr (t', w)"
  obtains (change) p where "payload e = TurnStateChanged p" "change_state th t e p = Inr t'"
  | (same) "t_status t' = t_status t" "t_error t' = t_error t" "t_completed_at t' = t_completed_at t"
proof (cases "\<exists>p. payload e = TurnStateChanged p")
  case True
  with assms show ?thesis by (auto simp: apply_turn_event_def intro: change)
next
  case False
  have "t_status t' = t_status t \<and> t_error t' = t_error t \<and> t_completed_at t' = t_completed_at t"
  proof (cases "payload e")
    case (ItemStarted i c)
    with assms show ?thesis by (auto simp: apply_turn_event_def start_item_def Let_def)
  next
    case (ItemFinished p)
    with assms show ?thesis
      by (auto simp: apply_turn_event_def finish_item_def simp del: require_Inr split: option.splits
          dest!: require_Inr [THEN iffD1])
  next
    case (CompactionEvent c)
    with assms have "apply_compaction W th t e c = Inr t'" by (auto simp: apply_turn_event_def)
    then show ?thesis
      by (auto simp: apply_compaction_def planned_def split: option.splits compaction_event.splits)
  qed (use assms False in \<open>auto simp: apply_turn_event_def start_attempt_def settle_attempt_def
      prepare_context_def prepare_model_history_event_def record_usage_def Let_def
      split: option.splits if_splits\<close>)
  then show ?thesis using same by blast
qed

text \<open>One event of the active Turn: the state stays, or a state change moves it along the automaton.\<close>

definition moves_by :: "agent_event \<Rightarrow> turn \<Rightarrow> turn \<Rightarrow> bool" where
  "moves_by e t t' \<longleftrightarrow> e_turn_id e = Some (turn_id t) \<and> life_step (t_status t) (t_status t')
     \<and> (\<exists>p. payload e = TurnStateChanged p \<and> tsc_status p = t_status t')"

lemma allowed_target_step:
  "s' \<in> set (allowed_targets t) \<Longrightarrow> \<not> terminal t \<Longrightarrow> life_step (t_status t) s'"
  by (cases "t_status t") (auto simp: allowed_targets_def life_step_iff TERMINAL_TURNS_def)

lemma event_moves_turn:
  assumes "apply_turn_event W th t e = Inr (t', w)" "\<not> terminal t" "e_turn_id e = Some (turn_id t)"
  shows "t_status t' = t_status t \<or> moves_by e t t'"
  using assms(1)
proof (cases rule: status_or_change)
  case (change p)
  then have target: "tsc_status p \<in> set (allowed_targets t)" by (simp add: change_state_def Let_def)
  from change(2) have "t_status t' = tsc_status p" by (cases rule: change_state_cases) simp_all
  with allowed_target_step [OF target assms(2)] assms(3) change(1) show ?thesis by (simp add: moves_by_def)
qed simp

section \<open>Endings\<close>

definition ending :: "thread \<Rightarrow> turn \<Rightarrow> bool" where
  "ending th t \<longleftrightarrow>
     (if terminal t
      then settled_turn t \<and> t_completed_at t \<noteq> None
        \<and> (t_status t = Ts_COMPLETED) = (t_error t = None)
        \<and> (t_status t \<in> {Ts_COMPLETED, Ts_CANCELLED} \<longrightarrow> \<not> has_unknown_result (t_items t))
        \<and> (t_status t = Ts_COMPLETED \<longrightarrow>
             \<not> list_ex recovery_result (map i_content (t_items t)))
      else t_completed_at t = None \<and> t_error t = None)"

lemma settled_turn_cong:
  "t_items t' = t_items t \<Longrightarrow> t_model_attempts t' = t_model_attempts t \<Longrightarrow> t_compactions t' = t_compactions t \<Longrightarrow>
     settled_turn t' = settled_turn t"
  by (simp add: settled_turn_def no_running_attempts_def accounted_attempts_def no_open_compactions_def
      no_open_items_def pending_calls_def)

interpretation endings: turn_invariant W ending for W
proof
  fix th :: thread and t e t' w
  assume live: "\<not> terminal t" and inv: "ending th t" and run: "apply_turn_event W th t e = Inr (t', w)"
  from run show "ending th t'"
  proof (cases rule: status_or_change)
    case (change p)
    from change(2) show ?thesis
    proof (cases rule: change_state_cases)
      case final
      then have "settled_turn t' = settled_turn t" by (intro settled_turn_cong) simp_all
      with final show ?thesis
        by (auto simp: ending_def terminal_guard_def Let_def)
    next
      case call
      with live inv show ?thesis by (simp add: ending_def)
    next
      case move
      with live inv show ?thesis by (simp add: ending_def)
    qed
  next
    case same
    with live inv show ?thesis by (simp add: ending_def)
  qed
qed (auto simp: ending_def new_turn_def)

text \<open>C3. A Turn that has ended is settled: no item is open, every tool call has its result, every
  rejection is paired, no model attempt or compaction is running. A completed Turn has no error and no
  result that recovery produced, a Turn that completed or was cancelled has no result of unknown
  effect, and every other ending names its error.\<close>

theorem ended_turn_is_settled:
  assumes "replay W es = Inr th" and "list_all event_ok es" and "t \<in> set (th_turns th)" and "terminal t"
  shows "no_open_items t \<and> pending_calls t = [] \<and> no_running_attempts t \<and> no_open_compactions t
    \<and> closed_rejections (t_items t) \<and> (t_status t = Ts_COMPLETED) = (t_error t = None)
    \<and> (t_status t = Ts_COMPLETED \<longrightarrow> \<not> list_ex recovery_result (map i_content (t_items t)))
    \<and> (t_status t \<in> {Ts_COMPLETED, Ts_CANCELLED} \<longrightarrow> \<not> has_unknown_result (t_items t))"
  using endings.every_turn [OF replay_reachable [OF assms(1,2)] assms(3)] assms(4)
  by (simp add: ending_def settled_turn_def require_closed_rejection_items_iff)

theorem ended_turn_is_settled_witness:
  "\<exists>t \<in> set (th_turns (thread_of completed_run)). pending_calls t = [] \<and> t_error t = None
     \<and> closed_rejections (t_items t)"
proof -
  from completed_run_facts obtain t where run: "replay no_wire completed_run = Inr (thread_of completed_run)"
      and t: "t \<in> set (th_turns (thread_of completed_run))" "t_status t = Ts_COMPLETED"
    by blast
  then have "terminal t" by (simp add: TERMINAL_TURNS_def)
  from ended_turn_is_settled [OF run completed_run_ok t(1) this] t show ?thesis by auto
qed

section \<open>Refinement of the life cycle\<close>

text \<open>C7. The Turns of a Thread implement the abstract life cycle, step by step. One more event of a valid
  transcript leaves the state of every Turn as it is, or makes one move of the automaton; a move
  happens only by a state change that names the Turn and the new state. The event adds at most one
  Turn, by starting it, and a started Turn is \<open>ACCEPTED\<close>.\<close>

theorem life_cycle_refined:
  assumes "replay W es = Inr th" and "replay W (es @ [e]) = Inr th'" and "list_all event_ok (es @ [e])"
  shows "list_all2 (\<lambda>t t'. turn_id t' = turn_id t \<and> (t_status t' = t_status t \<or> moves_by e t t'))
        (th_turns th) (take (length (th_turns th)) (th_turns th'))
    \<and> (case drop (length (th_turns th)) (th_turns th') of
        [] \<Rightarrow> True
      | t # ts \<Rightarrow> ts = [] \<and> t_status t = Ts_ACCEPTED \<and> e_turn_id e = Some (turn_id t)
          \<and> (\<exists>p. payload e = TurnStarted p))"
proof -
  from replay_continues [OF assms] have reach: "reachable W th" and step: "apply_to_thread W th e = Inr th'"
    by (auto simp: accept_event_def apply_event_def)
  from apply_to_thread_shape(1) [OF reachable_shape [OF reach] step] show ?thesis
  proof (cases rule: step_shape.cases)
    case (active t us t' w)
    then have "t_status t' = t_status t \<or> moves_by e t t'" by (intro event_moves_turn)
    with active show ?thesis by (auto simp: same_turn_def intro!: list_all2_appendI list_all2_refl)
  qed (auto simp: list_all2_refl new_turn_def)
qed

theorem life_cycle_refined_witness:
  "\<exists>(th :: thread) (th' :: thread). map t_status (th_turns th) = [Ts_FINALIZING] \<and> map t_status (th_turns th') = [Ts_COMPLETED]
     \<and> list_all2 (moves_by (last completed_run)) (th_turns th) (th_turns th')"
proof -
  let ?th = "thread_of (butlast completed_run)" and ?th' = "thread_of completed_run"
  from yields_thread_of [OF finalizing_run_yields] have f: "replay no_wire (butlast completed_run) = Inr ?th"
      "map t_status (th_turns ?th) = [Ts_FINALIZING]" by simp_all
  from f(2) obtain t where t: "th_turns ?th = [t]" "t_status t = Ts_FINALIZING" by auto
  from completed_run_facts obtain u where u: "replay no_wire completed_run = Inr ?th'"
      "u \<in> set (th_turns ?th')" "t_status u = Ts_COMPLETED"
    by blast
  from life_cycle_refined [OF f(1), of "last completed_run" ?th'] u(1) completed_run_ok completed_run_last
  have steps: "list_all2 (\<lambda>t t'. turn_id t' = turn_id t \<and> (t_status t' = t_status t \<or> moves_by (last completed_run) t t'))
        [t] (take 1 (th_turns ?th'))"
      "case drop 1 (th_turns ?th') of [] \<Rightarrow> True | v # ts \<Rightarrow> ts = [] \<and> t_status v = Ts_ACCEPTED
        \<and> e_turn_id (last completed_run) = Some (turn_id v) \<and> (\<exists>p. payload (last completed_run) = TurnStarted p)"
    by (simp_all add: t(1))
  have moved: "\<not> (\<exists>p. payload (last completed_run) = TurnStarted p)" by (simp add: run_defs)
  from steps(1) obtain t' rest where t': "th_turns ?th' = t' # rest" "t_status t' = t_status t \<or> moves_by (last completed_run) t t'"
    by (cases "th_turns ?th'") auto
  with steps(2) moved have "rest = []" by (auto split: list.splits)
  with t' u(2,3) t(2) have "t' = u" "moves_by (last completed_run) t t'" by auto
  then have "map t_status (th_turns ?th') = [Ts_COMPLETED]" "list_all2 (moves_by (last completed_run)) (th_turns ?th) (th_turns ?th')"
    using t(1) t'(1) u(3) \<open>rest = []\<close> by simp_all
  with f(2) show ?thesis
    by (intro exI [of _ ?th] exI [of _ ?th'] conjI)
qed

end
