(* ===== verification/Window_Chain.thy ===== *)
theory Window_Chain
  imports Turn_Outcomes
begin

text \<open>
  Thread-level invariants: compaction records have unique identities across the Thread, every
  published window belongs to a finished record, the windows form one linear chain whose end is the
  active window, and every retry names its direct predecessor. Together with the check at the end of
  \<open>replay\<close> they are the class validators of \<^verbatim>\<open>Thread\<close>, which \<^verbatim>\<open>model_copy\<close> does not run.
\<close>

section \<open>Chains\<close>

lemma window_chain_snoc:
  "window_chain ids cs p (ws @ [x]) =
     (case window_chain ids cs p ws of None \<Rightarrow> None
      | Some q \<Rightarrow> if window_id x \<in> set ids \<union> window_id ` set ws
            \<or> w_compaction_id x \<in> set cs \<union> w_compaction_id ` set ws \<or> w_previous_window_id x \<noteq> q
          then None else Some (Some (window_id x)))"
  by (induction ids cs p ws rule: window_chain.induct) (auto split: option.split)

lemma retry_chain_snoc:
  "retry_chain p (ts @ [t]) \<longleftrightarrow> retry_chain p ts
     \<and> (case t_retry_of_turn_id t of None \<Rightarrow> True
        | Some source \<Rightarrow> (case (if ts = [] then p else Some (last ts)) of None \<Rightarrow> False
            | Some q \<Rightarrow> turn_id q = source \<and> retryable_source q))"
  by (induction p ts rule: retry_chain.induct) (auto split: option.splits)

section \<open>The ledger of the Thread\<close>

definition finished_before :: "nat \<Rightarrow> compaction_record \<Rightarrow> bool" where
  "finished_before n r \<longleftrightarrow> \<not> is_open r \<and> (\<exists>k. cr_finished_event_sequence r = Some k \<and> k < n)"

definition windows_backed :: "thread \<Rightarrow> bool" where
  "windows_backed th \<longleftrightarrow> (\<forall>w \<in> set (th_compaction_windows th).
     \<exists>r \<in> set (thread_compactions th). record_key r = w_compaction_id w \<and> finished_before (th_sequence th) r)"

definition chain_inv :: "thread \<Rightarrow> bool" where
  "chain_inv th \<longleftrightarrow> distinct (map record_key (thread_compactions th)) \<and> windows_backed th
     \<and> linear_compaction_windows th"

text \<open>How an event changes the ledger of the active Turn.\<close>

inductive ledger_change :: "thread \<Rightarrow> turn \<Rightarrow> turn \<Rightarrow> bool" for th t t' where
  kept: "t_compactions t' = t_compactions t \<Longrightarrow> ledger_change th t t'"
| planned: "t_compactions t' = t_compactions t @ [r] \<Longrightarrow>
    record_key r \<notin> record_key ` set (thread_compactions th) \<Longrightarrow> ledger_change th t t'"
| advanced: "t_compactions t = xs @ r # ys \<Longrightarrow> t_compactions t' = xs @ r' # ys \<Longrightarrow> is_open r \<Longrightarrow>
    record_key r' = record_key r \<Longrightarrow> ledger_change th t t'"

lemma compaction_ledger_change:
  assumes run: "apply_compaction W th t e p = Inr t'" and acc: "accounts th t" and ok: "compaction_event_ok p"
  shows "ledger_change th t t'"
proof (cases "\<exists>plan ds. p = CompactionPlanned plan ds")
  case True
  with run show ?thesis
    by (auto simp: apply_compaction_def planned_def list_all_iff record_key_def new_record_def
        intro!: ledger_change.planned)
next
  case False
  with run obtain r r' u where r: "find (\<lambda>c. record_key c = event_compaction_id p) (t_compactions t) = Some r"
    and adv: "advance_record W th t e r p = Inr (r', u)" and "is_open r"
    and t': "t_compactions t' = replace_by record_key r' (t_compactions t)"
    by (cases p) (auto simp: apply_compaction_def split: option.splits)
  from find_SomeD [OF r] have in_t: "r \<in> set (t_compactions t)" by simp
  then obtain as bs where "t_compactions t = as @ r # bs" by (auto dest: split_list)
  from accounted_split [OF this] acc in_t
  have "list_all model_attempt_ok (record_attempts r)" "compaction_record_ok r"
    by (auto simp: accounts_def list_all_iff)
  then have "record_key r = record_key r'"
    using advance_record_charged [OF adv ok] by (simp add: charged_def)
  moreover have "distinct (map record_key (t_compactions t))" using acc by (simp add: accounts_def)
  ultimately obtain xs ys where "t_compactions t = xs @ r # ys"
      "replace_by record_key r' (t_compactions t) = xs @ r' # ys"
    using in_t replace_by_split by metis
  with t' \<open>is_open r\<close> \<open>record_key r = record_key r'\<close> show ?thesis
    by (intro ledger_change.advanced [of t xs r ys t' r']) simp_all
qed

lemma turn_event_ledger:
  assumes "apply_turn_event W th t e = Inr (t', w)" "accounts th t" "event_ok e"
  shows "ledger_change th t t'"
proof (cases "\<exists>p. payload e = CompactionEvent p")
  case True
  with assms show ?thesis
    by (auto simp: apply_turn_event_def event_ok_def payload_ok_def intro: compaction_ledger_change)
next
  case False
  have "t_compactions t' = t_compactions t"
  proof (cases "payload e")
    case (TurnStateChanged p)
    with assms(1) show ?thesis by (auto simp: apply_turn_event_def dest: change_state_steps(2))
  next
    case (ItemFinished p)
    with assms(1) show ?thesis by (auto simp: apply_turn_event_def finish_item_def split: option.splits)
  qed (use assms(1) False in \<open>auto simp: apply_turn_event_def start_attempt_def settle_attempt_def start_item_def
      prepare_context_def prepare_model_history_event_def record_usage_def Let_def
      split: option.splits if_splits\<close>)
  then show ?thesis by (rule ledger_change.kept)
qed

lemma build_window_fields:
  assumes "build_compaction_window th r h sha tokens wid seq now = Inr x"
  shows "window_id x = wid" "w_compaction_id x = record_key r"
    "w_previous_window_id x = th_active_compaction_window_id th"
  using assms by (auto simp: build_compaction_window_def Let_def record_key_def split: option.splits)

lemma activate_window:
  assumes "activate_compaction_window W th t e x' = Inr x"
  obtains r where "r \<in> set (t_compactions t)" "record_key r = w_compaction_id x" "\<not> is_open r"
    "cr_finished_event_sequence r = Some (th_sequence th)"
    "\<forall>w \<in> set (th_compaction_windows th). window_id w \<noteq> window_id x"
    "w_previous_window_id x = th_active_compaction_window_id th"
proof -
  from assms obtain r where f: "find (\<lambda>c. record_key c = w_compaction_id x') (t_compactions t) = Some r"
    by (cases "find (\<lambda>c. record_key c = w_compaction_id x') (t_compactions t)")
      (auto simp: activate_compaction_window_def)
  from assms obtain y where y: "cr_summary r = Some y"
    by (cases "cr_summary r") (auto simp: activate_compaction_window_def f)
  from assms obtain c :: validated_compaction where
      r: "cr_status r = Cs_summarized" "cr_finished_event_sequence r = Some (th_sequence th)"
        "list_all (\<lambda>w. window_id w \<noteq> window_id x') (th_compaction_windows th)" "x' = x"
      and b: "build_compaction_window th r (vc_history c) (vc_history_sha256 c) (vc_history_tokens c)
        (window_id x') (e_sequence e) (occurred_at e) = Inr x"
    by (auto simp: activate_compaction_window_def f y)
  from r(1) have "\<not> is_open r" by (simp add: COMPACTION_OPEN_def)
  moreover have "r \<in> set (t_compactions t)" "record_key r = w_compaction_id x"
    using find_SomeD [OF f] r(4) by simp_all
  ultimately show ?thesis
    using r(2-4) build_window_fields(3) [OF b] by (intro that [of r]) (simp_all add: list_all_iff)
qed

lemma turn_event_window:
  assumes "apply_turn_event W th t e = Inr (t', Some x)"
  shows "t' = t" "\<exists>v. activate_compaction_window W th t e v = Inr x"
  using assms by (cases "payload e"; auto simp: apply_turn_event_def)+

section \<open>The chain invariant\<close>

lemma backed_mono:
  assumes "windows_backed th" "thread_compactions th' = thread_compactions th"
    "th_compaction_windows th' = th_compaction_windows th" "th_sequence th \<le> th_sequence th'"
  shows "windows_backed th'"
  using assms by (fastforce simp: windows_backed_def finished_before_def)

lemma ledger_keeps_backing:
  assumes "ledger_change th t t'" "th_turns th = us @ [t]" "distinct (map record_key (thread_compactions th))"
    "th_turns th' = us @ [t']"
  shows "distinct (map record_key (thread_compactions th'))"
    "r \<in> set (thread_compactions th) \<Longrightarrow> finished_before n r \<Longrightarrow> n \<le> m \<Longrightarrow>
       \<exists>r' \<in> set (thread_compactions th'). record_key r' = record_key r \<and> finished_before m r'"
proof -
  have th: "thread_compactions th = concat (map t_compactions us) @ t_compactions t"
      "thread_compactions th' = concat (map t_compactions us) @ t_compactions t'"
    using assms(2,4) by (simp_all add: thread_compactions_def)
  from assms(1) show "distinct (map record_key (thread_compactions th'))"
    using assms(3) by (cases rule: ledger_change.cases) (auto simp: th)
  assume r: "r \<in> set (thread_compactions th)" "finished_before n r" "n \<le> m"
  then have "finished_before m r" by (auto simp: finished_before_def)
  moreover from assms(1) have "r \<in> set (thread_compactions th')"
    using r(1,2) by (cases rule: ledger_change.cases) (auto simp: th finished_before_def)
  ultimately show "\<exists>r' \<in> set (thread_compactions th'). record_key r' = record_key r \<and> finished_before m r'"
    by blast
qed

lemma windows_fields [simp]:
  "th_compaction_windows (add_window w th) = th_compaction_windows th @ (case w of None \<Rightarrow> [] | Some x \<Rightarrow> [x])"
  "th_active_compaction_window_id (add_window w th) =
     (case w of None \<Rightarrow> th_active_compaction_window_id th | Some x \<Rightarrow> Some (window_id x))"
  by (simp_all add: add_window_def split: option.splits)

lemma active_chain:
  assumes inv: "chain_inv th" and acc: "accounts th t" and e: "event_ok e" "e_sequence e = th_sequence th + 1"
    and ts: "th_turns th = us @ [t]" and run: "apply_turn_event W th t e = Inr (t', w)"
    and same: "same_turn t t'" and arch: "th_archive th = None"
  shows "chain_inv (add_window w (update_thread th e t' (us @ [t'])))" (is "chain_inv ?th'")
proof -
  have ledger: "ledger_change th t t'" using turn_event_ledger [OF run acc e(1)] .
  have dist: "distinct (map record_key (thread_compactions th))"
    and lin: "linear_compaction_windows th" and backed: "windows_backed th"
    using inv by (simp_all add: chain_inv_def)
  have "th_turns ?th' = us @ [t']" by simp
  note kept = ledger_keeps_backing [OF ledger ts dist this]
  have retry: "retry_chain None (us @ [t'])"
    using lin same ts by (simp add: linear_compaction_windows_def retry_chain_snoc same_turn_def)
  have old: "\<exists>r \<in> set (thread_compactions ?th'). record_key r = w_compaction_id v
      \<and> finished_before (e_sequence e) r" if v: "v \<in> set (th_compaction_windows th)" for v
  proof -
    from backed v obtain r where "r \<in> set (thread_compactions th)" "record_key r = w_compaction_id v"
        "finished_before (th_sequence th) r"
      by (auto simp: windows_backed_def)
    then show ?thesis using kept(2) [of r "th_sequence th" "e_sequence e"] e(2) by auto
  qed
  show ?thesis
  proof (cases w)
    case None
    with kept(1) old retry lin arch ts show ?thesis
      by (auto simp: chain_inv_def windows_backed_def linear_compaction_windows_def split: option.splits)
  next
    case (Some x)
    from turn_event_window [OF run [unfolded Some]] obtain v where t': "t' = t"
        and "activate_compaction_window W th t e v = Inr x"
      by blast
    from this(2) obtain r where r: "r \<in> set (t_compactions t)" "record_key r = w_compaction_id x" "\<not> is_open r"
        "cr_finished_event_sequence r = Some (th_sequence th)"
        "\<forall>w \<in> set (th_compaction_windows th). window_id w \<noteq> window_id x"
        "w_previous_window_id x = th_active_compaction_window_id th"
      by (rule activate_window)
    have mem: "r \<in> set (thread_compactions th)" using r(1) ts by (simp add: thread_compactions_def)
    have "w_compaction_id x \<notin> w_compaction_id ` set (th_compaction_windows th)"
    proof
      assume "w_compaction_id x \<in> w_compaction_id ` set (th_compaction_windows th)"
      with backed r(2) obtain q where q: "q \<in> set (thread_compactions th)" "record_key q = record_key r"
          "finished_before (th_sequence th) q"
        by (auto simp: windows_backed_def)
      with dist mem have "q = r" by (auto simp: distinct_map inj_on_def)
      with q(3) r(4) show False by (simp add: finished_before_def)
    qed
    moreover have "window_chain [] [] None (th_compaction_windows th) = Some (th_active_compaction_window_id th)"
      using lin by (simp add: linear_compaction_windows_def)
    ultimately have chain: "window_chain [] [] None (th_compaction_windows th @ [x]) = Some (Some (window_id x))"
      using r(5,6) by (auto simp: window_chain_snoc)
    have new: "finished_before (e_sequence e) r" "r \<in> set (thread_compactions ?th')"
      using r(1,3,4) e(2) t' by (auto simp: finished_before_def thread_compactions_def)
    from kept(1) old retry lin arch chain new r(2) Some show ?thesis
      by (auto simp: chain_inv_def windows_backed_def linear_compaction_windows_def split: option.splits)
  qed
qed

lemma reachable_chain: "reachable W th \<Longrightarrow> chain_inv th"
proof (induction rule: reachable_induct)
  case (create e th)
  then show ?case
    using create_thread_fields [OF create.hyps(2)]
    by (simp add: chain_inv_def windows_backed_def thread_ok_def thread_compactions_def)
next
  case (step th e th')
  from step.hyps(6) show ?case
  proof (cases rule: step_shape.cases)
    case (archive reason)
    have c: "thread_compactions th' = thread_compactions th" using archive by (simp add: thread_compactions_def)
    have "windows_backed th'"
      using step.IH step.hyps(4) archive by (intro backed_mono [OF _ c]) (auto simp: chain_inv_def)
    with step.IH archive show ?thesis
      by (auto simp: chain_inv_def linear_compaction_windows_def thread_compactions_def split: option.splits)
  next
    case (start p tid)
    have c: "thread_compactions th' = thread_compactions th" using start by (simp add: thread_compactions_def)
    have "windows_backed th'"
      using step.IH step.hyps(4) start by (intro backed_mono [OF _ c]) (auto simp: chain_inv_def)
    moreover have "retry_chain None (th_turns th @ [new_turn e tid p])"
      using step.IH start
      by (auto simp: chain_inv_def linear_compaction_windows_def retry_chain_snoc start_turn_def retry_guard_def
          split: option.splits)
    ultimately show ?thesis
      using step.IH start
      by (auto simp: chain_inv_def linear_compaction_windows_def thread_compactions_def split: option.splits)
  next
    case (active t us t' w)
    have "accounts th t"
      using accounts.every_turn [OF step.hyps(1), of t] active(5) by simp
    with active step show ?thesis using active_chain by blast
  qed
qed

text \<open>C8. A replayed Thread satisfies the validators of its class, which the reducer's \<open>model_copy\<close> never runs,
  with one exception: the bound on the number of compaction windows, which nothing in the reducer checks.
  So the validators accept a replayed Thread exactly when it has at most 1000 windows. In particular
  the windows form one chain in which no window and no compaction occurs twice, the active window is
  its end, a fork does not name itself, an archive record stands at the last sequence, every retry
  names its direct predecessor, which may be retried, and all rejections are paired.\<close>

theorem replayed_thread_validates:
  assumes "replay W es = Inr th" and "list_all event_ok es"
  shows "thread_ok th = (length (th_compaction_windows th) \<le> 1000)
    \<and> linear_compaction_windows th \<and> require_closed_rejections th = Inr ()
    \<and> distinct (map record_key (thread_compactions th))"
proof -
  from assms(1) have "require_closed_rejections th = Inr ()"
    by (auto simp: replay_def split: option.splits)
  with reachable_chain [OF replay_reachable [OF assms]] show ?thesis
    by (simp add: thread_ok_def chain_inv_def)
qed

theorem replayed_thread_validates_witness: "thread_ok (thread_of running_run)"
proof -
  have "th_compaction_windows (thread_of running_run) = []"
    using yields_thread_of [OF running_run_yields] by blast
  then show ?thesis
    using replayed_thread_validates [OF running_run_replays running_run_ok] by simp
qed

end
