(* ===== verification/Reducer_Gaps.thy ===== *)
theory Reducer_Gaps
  imports Transcripts
begin

text \<open>
  Transcripts that the reducer accepts, or refuses with the wrong error, against what its guards
  announce. Each is a closed evaluation of the model on valid events.
\<close>

section \<open>Two calls with one identity\<close>

text \<open>
  The uniqueness guard of a call looks at the completed history only. Two calls with the same
  identity that are both started before either of them is finished pass it; one result settles both.
\<close>

definition twin_turn :: "event_payload list" where
  "twin_turn =
     [TurnStarted (turn_request ''a'')] @ published 10 (said User_message ''hi'')
     @ [moved Ts_PREPARING_CONTEXT, moved Ts_CALLING_MODEL] @ sampled 20 1
     @ [ItemStarted 11 (read_call 50), ItemStarted 12 (ToolCall guarded_call),
        ItemFinished \<lparr>fi_item_id = 11, fi_status = Is_COMPLETED, fi_content = read_call 50, fi_error = None\<rparr>,
        ItemFinished \<lparr>fi_item_id = 12, fi_status = Is_COMPLETED, fi_content = ToolCall guarded_call,
          fi_error = None\<rparr>,
        recorded 1, moved Ts_EXECUTING_TOOLS]
     @ published 13 (read_result 50) @ [moved Ts_PREPARING_CONTEXT, moved Ts_CALLING_MODEL]
     @ sampled 21 2 @ published 14 (said Assistant_message ''done'')
     @ [recorded 2, moved Ts_FINALIZING, moved Ts_COMPLETED]"

definition plain_call :: tool_call_content where
  "plain_call = guarded_call\<lparr>tc_tool := ''read_file'', tc_requires_approval := False, tc_tool_fingerprint := None\<rparr>"

definition is_result :: "item_content \<Rightarrow> bool" where
  "is_result c = (case c of ToolResult _ \<Rightarrow> True | _ \<Rightarrow> False)"

definition twin_run :: "agent_event list" where
  "twin_run = creation # events_from 2 (Some 7) twin_turn"

lemma twin_run_ok: "list_all event_ok twin_run"
  by (simp add: twin_run_def twin_turn_def run_defs valid_defs Let_def)

lemma twin_run_yields:
  "yields (\<lambda>th. \<exists>t \<in> set (th_turns th). t_status t = Ts_COMPLETED
      \<and> completed_calls (t_items t) = [plain_call, guarded_call] \<and> pending_calls t = []
      \<and> list_all (\<lambda>i. approval_of i = None) (t_items t)
      \<and> filter (\<lambda>i. is_result (i_content i)) (t_items t)
          = [\<lparr>item_id = 13, i_status = Is_COMPLETED, i_content = read_result 50, i_error = None\<rparr>])
    (replay no_wire twin_run)"
  by (simp add: replay_def run_simps twin_run_def twin_turn_def plain_call_def is_result_def del: bindE_Inr
      cong: bindE_weak require_weak check_weak yields_weak)

text \<open>C37. A gap of the reducer: there is a valid transcript whose Turn completes although a call that
  requires approval was settled by a success without any approval in the Turn. The Turn has two
  completed calls, both under one identity, and only the second requires approval; its one result is a
  completed success under that identity, after which neither call is pending. (With different
  identities this is impossible: a success then needs the approval of its call.)\<close>

theorem twin_calls_bypass_approval:
  "\<exists>es th t call twin i r. list_all event_ok es \<and> replay no_wire es = Inr th \<and> t \<in> set (th_turns th)
     \<and> t_status t = Ts_COMPLETED \<and> completed_calls (t_items t) = [twin, call]
     \<and> tc_requires_approval call \<and> \<not> tc_requires_approval twin \<and> tc_call_id twin = tc_call_id call
     \<and> filter (\<lambda>i. is_result (i_content i)) (t_items t) = [i]
     \<and> i_status i = Is_COMPLETED \<and> i_content i = ToolResult r
     \<and> tr_outcome r = Oc_succeeded \<and> tr_call_id r = tc_call_id call
     \<and> pending_calls t = [] \<and> list_all (\<lambda>i. approval_of i = None) (t_items t)"
proof -
  obtain r where r: "read_result 50 = ToolResult r" "tr_outcome r = Oc_succeeded" "tr_call_id r = 50"
    by (simp add: read_result_def)
  from yields_thread_of [OF twin_run_yields] obtain t where t: "replay no_wire twin_run = Inr (thread_of twin_run)"
      "t \<in> set (th_turns (thread_of twin_run))" "t_status t = Ts_COMPLETED"
      "completed_calls (t_items t) = [plain_call, guarded_call]" "pending_calls t = []"
      "list_all (\<lambda>i. approval_of i = None) (t_items t)"
      "filter (\<lambda>i. is_result (i_content i)) (t_items t)
          = [\<lparr>item_id = 13, i_status = Is_COMPLETED, i_content = read_result 50, i_error = None\<rparr>]"
    by blast
  have calls: "tc_requires_approval guarded_call" "\<not> tc_requires_approval plain_call"
      "tc_call_id plain_call = tc_call_id guarded_call" "tc_call_id guarded_call = 50"
    by (simp_all add: guarded_call_def plain_call_def)
  show ?thesis
    by (rule exI [of _ twin_run], rule exI [of _ "thread_of twin_run"], rule exI [of _ t],
        rule exI [of _ guarded_call], rule exI [of _ plain_call],
        rule exI [of _ "\<lparr>item_id = 13, i_status = Is_COMPLETED, i_content = read_result 50, i_error = None\<rparr>"],
        rule exI [of _ r])
      (use twin_run_ok t calls r in simp)
qed

section \<open>Steering without input\<close>

definition steering_turn :: "event_payload list" where
  "steering_turn =
     [TurnStarted (turn_request ''a'')] @ published 10 (said User_message ''hi'')
     @ [moved Ts_PREPARING_CONTEXT, moved Ts_CALLING_MODEL,
        TurnStateChanged \<lparr>tsc_status = Ts_PREPARING_CONTEXT, tsc_error = None, tsc_reason = Steering\<rparr>]"

definition steering_run :: "agent_event list" where
  "steering_run = creation # events_from 2 (Some 7) steering_turn"

lemma steering_run_ok: "list_all event_ok steering_run"
  by (simp add: steering_run_def steering_turn_def run_defs valid_defs Let_def)

lemma steering_run_yields:
  "yields (\<lambda>th. length (history_items th) = 1) (replay no_wire steering_run)"
  by (simp add: replay_def run_simps steering_run_def steering_turn_def steering_reentry_def
      new_history_def del: bindE_Inr cong: bindE_weak require_weak check_weak yields_weak)

text \<open>C38. A gap of the reducer: a Turn can leave a model call for steering although no user message
  arrived after the call began. Without an inspection of the current step the source counts \<open>-1\<close>
  consumed items, and the slice from \<open>-1\<close> is the last message of the old history.\<close>

theorem steering_without_new_input:
  "\<exists>es e th. list_all event_ok (es @ [e]) \<and> replay no_wire (es @ [e]) = Inr th
     \<and> (\<exists>s. payload e = TurnStateChanged s \<and> tsc_reason s = Steering)
     \<and> length (history_items th) = 1
     \<and> list_all (\<lambda>x. case payload x of ItemStarted i c \<Rightarrow> i = 10 | _ \<Rightarrow> True) es"
proof (intro exI conjI)
  have split: "butlast steering_run @ [last steering_run] = steering_run"
    by (rule append_butlast_last_id) (simp add: steering_run_def)
  show "list_all event_ok (butlast steering_run @ [last steering_run])"
    unfolding split by (rule steering_run_ok)
  show "replay no_wire (butlast steering_run @ [last steering_run]) = Inr (thread_of steering_run)"
    "length (history_items (thread_of steering_run)) = 1"
    unfolding split using yields_thread_of [OF steering_run_yields] by simp_all
  show "payload (last steering_run) = TurnStateChanged \<lparr>tsc_status = Ts_PREPARING_CONTEXT, tsc_error = None,
      tsc_reason = Steering\<rparr>" "tsc_reason \<lparr>tsc_status = Ts_PREPARING_CONTEXT, tsc_error = None,
      tsc_reason = Steering\<rparr> = Steering"
    by (simp_all add: steering_run_def steering_turn_def run_defs)
  show "list_all (\<lambda>x. case payload x of ItemStarted i c \<Rightarrow> i = 10 | _ \<Rightarrow> True) (butlast steering_run)"
    by (simp add: steering_run_def steering_turn_def run_defs)
qed

section \<open>An error of the wrong kind\<close>

definition foreign_result :: item_content where
  "foreign_result = ToolResult \<lparr>tr_call_id = 50, tr_outcome = Oc_failed, tr_output = JNull,
     tr_error = None, tr_action_id = Some 90, tr_patch = None, tr_patch_batch = None, tr_process = None,
     tr_trusted_action = Some \<lparr>ta_plan_id = 90, ta_plan_fingerprint = some_digest, ta_state = Ta_failed,
       ta_origin = Execution, ta_artifact_sha256 = None\<rparr>,
     tr_diff_artifact = None\<rparr>"

definition foreign_run :: "agent_event list" where
  "foreign_run = creation # events_from 2 (Some 7) (take 12 tool_turn @ [ItemStarted 12 foreign_result])"

lemma foreign_run_ok: "list_all event_ok foreign_run"
  by (simp add: foreign_run_def foreign_result_def run_defs valid_defs trusted_outcome_def Let_def)

text \<open>The Turn that receives the result.\<close>

definition before_result :: "agent_event list" where
  "before_result = creation # events_from 2 (Some 7) (take 12 tool_turn)"

definition foreign_event :: agent_event where
  "foreign_event = event 14 (Some 7) (ItemStarted 12 foreign_result)"

lemma foreign_event_ok: "list_all event_ok before_result" "event_ok foreign_event"
  using foreign_run_ok by (simp_all add: foreign_run_def before_result_def foreign_event_def tool_turn_def
      published_def sampled_def)

definition waiting_for_result :: "turn \<Rightarrow> bool" where
  "waiting_for_result t \<longleftrightarrow> turn_id t = 7 \<and> t_compactions t = []
     \<and> t_items t = [\<lparr>item_id = 10, i_status = Is_COMPLETED, i_content = said User_message ''hi'', i_error = None\<rparr>,
         \<lparr>item_id = 11, i_status = Is_COMPLETED, i_content = ToolCall plain_call, i_error = None\<rparr>]"

lemma before_result_yields:
  "yields (\<lambda>th. thread_id th = 1 \<and> th_sequence th = 13 \<and> th_active_turn_id th = Some 7
      \<and> th_fork_snapshot th = None \<and> list_all waiting_for_result (th_turns th) \<and> length (th_turns th) = 1)
    (replay no_wire before_result)"
  by (simp add: replay_def run_simps before_result_def plain_call_def waiting_for_result_def del: bindE_Inr
      cong: bindE_weak require_weak check_weak yields_weak)

end
