(* ===== verification/Pricing.thy ===== *)
theory Pricing
  imports Usage
begin

text \<open>
  Prices and exact money (src/src/harnessix/models/: pricing.py, billing.py, the URL check of
  config.py). Rates and amounts are decimal texts; all arithmetic is done on integers, a rate in
  units of \<open>10\<^sup>-\<^sup>1\<^sup>2\<close> per million tokens and an amount in units of \<open>10\<^sup>-\<^sup>1\<^sup>8\<close>, so a number of tokens times
  a rate is an amount without any rounding. \<^verbatim>\<open>urllib.parse.urlsplit\<close> is an argument of the definitions
  that check a URL.
\<close>

section \<open>Decimal texts\<close>

text \<open>\<^verbatim>\<open>int(text)\<close> of a text of digits.\<close>

definition digit_value :: "char \<Rightarrow> int" where
  "digit_value c = int (byte_of c) - 48"

definition int_of_text :: "string \<Rightarrow> int" where
  "int_of_text s = foldl (\<lambda>n c. 10 * n + digit_value c) 0 s"

text \<open>\<^verbatim>\<open>text.partition(".")\<close> without the separator, \<^verbatim>\<open>ljust\<close> with zeros, \<^verbatim>\<open>rstrip\<close> of one character.\<close>

definition partition_point :: "string \<Rightarrow> string \<times> string" where
  "partition_point s = (takeWhile (\<lambda>c. c \<noteq> CHR ''.'') s, tl (dropWhile (\<lambda>c. c \<noteq> CHR ''.'') s))"

definition ljust_zeros :: "nat \<Rightarrow> string \<Rightarrow> string" where
  "ljust_zeros n s = s @ replicate (n - length s) (CHR ''0'')"

definition rstrip :: "char \<Rightarrow> string \<Rightarrow> string" where
  "rstrip c s = rev (dropWhile (\<lambda>d. d = c) (rev s))"

text \<open>
  The pattern \<^verbatim>\<open>^(0|[1-9][0-9]*)(\.[0-9]{1,n})?$\<close> of decimal texts, with a bound on the digits
  before the point where the pattern has one.
\<close>

definition is_digit :: "char \<Rightarrow> bool" where
  "is_digit c = (c \<in> set ''0123456789'')"

definition whole_ok :: "string \<Rightarrow> bool" where
  "whole_ok w = (list_all is_digit w \<and> w \<noteq> [] \<and> (hd w = CHR ''0'' \<longrightarrow> w = ''0''))"

definition decimal_ok :: "nat \<Rightarrow> string \<Rightarrow> bool" where
  "decimal_ok n s =
     (let (whole, fraction) = partition_point s
      in whole_ok whole
         \<and> (CHR ''.'' \<in> set s \<longrightarrow> list_all is_digit fraction \<and> 1 \<le> length fraction \<and> length fraction \<le> n))"

definition rate_ok :: "string \<Rightarrow> bool" where
  "rate_ok s = (length s \<le> 25 \<and> decimal_ok 12 s \<and> length (fst (partition_point s)) \<le> 12)"

definition amount_ok :: "string \<Rightarrow> bool" where
  "amount_ok s = decimal_ok 18 s"

definition rate_units :: "string \<Rightarrow> int" where
  "rate_units rate =
     (let (whole, fraction) = partition_point rate
      in int_of_text whole * 10 ^ 12 + int_of_text (ljust_zeros 12 fraction))"

definition amount_units :: "string \<Rightarrow> int" where
  "amount_units amount =
     (let (whole, fraction) = partition_point amount
      in int_of_text whole * 10 ^ 18 + int_of_text (ljust_zeros 18 fraction))"

definition format_amount :: "int \<Rightarrow> string" where
  "format_amount units =
     (let whole = units div 10 ^ 18; fraction = units mod 10 ^ 18
      in if fraction \<noteq> 0
         then rstrip (CHR ''.'') (rstrip (CHR ''0'') (int_str whole @ ''.'' @ dec_fixed 18 (nat fraction)))
         else int_str whole)"

section \<open>Price snapshots and billing contexts\<close>

datatype currency = USD | CNY
datatype cache_ttl = Ttl_5m | Ttl_1h

definition currency_value :: "currency \<Rightarrow> string" where
  "currency_value c = (case c of USD \<Rightarrow> ''USD'' | CNY \<Rightarrow> ''CNY'')"

definition ttl_value :: "cache_ttl \<Rightarrow> string" where
  "ttl_value t = (case t of Ttl_5m \<Rightarrow> ''5m'' | Ttl_1h \<Rightarrow> ''1h'')"

datatype input_price =
    FlatInputPrice (per_million: string)
  | PartitionedInputPrice string string string "cache_ttl option"

record billing_context =
  bc_billing_provider :: "string option"
  bc_region :: "string option"
  bc_service_tier :: "string option"
  bc_inference_mode :: "string option"
  bc_cache_write_ttl :: "cache_ttl option"

definition billing_context_ok :: "billing_context \<Rightarrow> bool" where
  "billing_context_ok c =
     list_all (\<lambda>x. case x of None \<Rightarrow> True | Some s \<Rightarrow> label_ok 128 s)
       [bc_billing_provider c, bc_region c, bc_service_tier c, bc_inference_mode c]"

definition max_input_rate :: "input_price \<Rightarrow> int" where
  "max_input_rate price =
     (case price of FlatInputPrice r \<Rightarrow> rate_units r
      | PartitionedInputPrice uncached read creation _ \<Rightarrow>
          max (max (rate_units uncached) (rate_units read)) (rate_units creation))"

record price_snapshot =
  pr_version :: string
  pr_source_url :: string
  pr_billing_provider :: string
  pr_model :: string
  pr_region :: string
  pr_service_tier :: string
  pr_inference_mode :: string
  pr_currency :: currency
  pr_valid_from :: datetime
  pr_valid_until :: datetime
  pr_input_tokens_min :: int
  pr_input_tokens_max :: "int option"
  pr_input_price :: input_price
  pr_output_per_million :: string

text \<open>What \<^verbatim>\<open>urlsplit\<close> reports of a URL; \<open>None\<close> where it, or reading its port, raises.\<close>

record url_parts =
  up_scheme :: string
  up_hostname :: "string option"
  up_username :: "string option"
  up_password :: "string option"
  up_query :: string
  up_fragment :: string
  up_whitespace :: bool

definition LOOPBACK_HOSTS :: "string list" where
  "LOOPBACK_HOSTS = [''127.0.0.1'', ''localhost'', ''::1'']"

definition validate_url :: "(string \<Rightarrow> url_parts option) \<Rightarrow> string \<Rightarrow> bool" where
  "validate_url urlsplit s =
     (case urlsplit s of None \<Rightarrow> False
      | Some url \<Rightarrow>
          (up_scheme url = ''https''
            \<or> (up_scheme url = ''http'' \<and> (case up_hostname url of None \<Rightarrow> False | Some h \<Rightarrow> h \<in> set LOOPBACK_HOSTS)))
          \<and> up_hostname url \<notin> {None, Some []} \<and> up_username url = None \<and> up_password url = None
          \<and> up_query url = [] \<and> up_fragment url = [] \<and> \<not> up_whitespace url)"

definition input_price_ok :: "input_price \<Rightarrow> bool" where
  "input_price_ok p =
     (case p of FlatInputPrice r \<Rightarrow> rate_ok r
      | PartitionedInputPrice u r c _ \<Rightarrow> list_all rate_ok [u, r, c])"

definition price_snapshot_ok :: "(string \<Rightarrow> url_parts option) \<Rightarrow> price_snapshot \<Rightarrow> bool" where
  "price_snapshot_ok urlsplit p =
     (list_all (label_ok 128) [pr_version p, pr_billing_provider p, pr_region p, pr_service_tier p,
        pr_inference_mode p]
      \<and> model_identifier_ok (pr_model p)
      \<and> py_len (pr_source_url p) \<le> 2048 \<and> validate_url urlsplit (pr_source_url p)
      \<and> 0 \<le> pr_input_tokens_min p \<and> input_price_ok (pr_input_price p) \<and> rate_ok (pr_output_per_million p)
      \<and> pr_valid_from p < pr_valid_until p
      \<and> (case pr_input_tokens_max p of None \<Rightarrow> True | Some n \<Rightarrow> 0 \<le> n \<and> pr_input_tokens_min p \<le> n))"

text \<open>The JSON dump of a snapshot and its content digest; all its strings are ASCII.\<close>

definition input_price_json :: "input_price \<Rightarrow> json" where
  "input_price_json p =
     (case p of FlatInputPrice r \<Rightarrow> jobj [(''kind'', JStr ''flat''), (''per_million'', JStr r)]
      | PartitionedInputPrice u r c ttl \<Rightarrow>
          jobj [(''kind'', JStr ''partitioned''), (''uncached_per_million'', JStr u),
            (''cache_read_per_million'', JStr r), (''cache_creation_per_million'', JStr c),
            (''cache_write_ttl'', jopt (JStr \<circ> ttl_value) ttl)])"

definition price_snapshot_json :: "price_snapshot \<Rightarrow> json" where
  "price_snapshot_json p =
     jobj [(''spec_version'', JStr ''harnessix.price/v1''), (''version'', JStr (pr_version p)),
       (''source_url'', JStr (pr_source_url p)), (''billing_provider'', JStr (pr_billing_provider p)),
       (''model'', JStr (pr_model p)), (''region'', JStr (pr_region p)),
       (''service_tier'', JStr (pr_service_tier p)), (''inference_mode'', JStr (pr_inference_mode p)),
       (''currency'', JStr (currency_value (pr_currency p))),
       (''valid_from'', JStr (iso_utc (pr_valid_from p))), (''valid_until'', JStr (iso_utc (pr_valid_until p))),
       (''input_tokens_min'', JInt (pr_input_tokens_min p)),
       (''input_tokens_max'', jopt JInt (pr_input_tokens_max p)),
       (''input_price'', input_price_json (pr_input_price p)),
       (''output_per_million'', JStr (pr_output_per_million p))]"

text \<open>\<^verbatim>\<open>content_digest\<close>: sorted keys and compact separators, as \<^const>\<open>digest\<close> of an ASCII value.\<close>

definition content_digest :: "json \<Rightarrow> string" where
  "content_digest v = digest v"

definition price_digest :: "price_snapshot \<Rightarrow> string" where
  "price_digest p = content_digest (price_snapshot_json p)"

section \<open>Resolving the billing context of an attempt\<close>

text \<open>
  Field bounds of \<^verbatim>\<open>ModelAttempt\<close>; \<^verbatim>\<open>model_validate_json(attempt.model_dump_json())\<close> checks them again
  together with the class validator \<^const>\<open>model_attempt_ok\<close>.
\<close>

definition attempt_fields_ok :: "model_attempt \<Rightarrow> bool" where
  "attempt_fields_ok a =
     (1 \<le> a_step a \<and> 1 \<le> a_index a \<and> a_index a \<le> 32 \<and> provider_ok (a_provider a)
      \<and> model_identifier_ok (a_requested_model a)
      \<and> list_all (\<lambda>x. case x of None \<Rightarrow> True | Some s \<Rightarrow> model_identifier_ok s) [a_actual_model a, a_response_id a]
      \<and> response_billing_ok (a_billing a)
      \<and> (case a_error a of None \<Rightarrow> True | Some e \<Rightarrow> agent_failure_ok e))"

text \<open>One entry of \<^verbatim>\<open>updates\<close>: the field is set unless the verified value contradicts it.\<close>

definition consistent :: "'a option \<Rightarrow> 'a option option \<Rightarrow> bool" where
  "consistent current update =
     (case update of None \<Rightarrow> True | Some v \<Rightarrow> current = None \<or> current = v)"

definition updated :: "'a option \<Rightarrow> 'a option option \<Rightarrow> 'a option" where
  "updated current update = (case update of None \<Rightarrow> current | Some v \<Rightarrow> v)"

definition observed_tier :: "response_billing \<Rightarrow> string option option" where
  "observed_tier b =
     (case service_tier b of None \<Rightarrow> None | Some s \<Rightarrow> if s = ''auto'' then None else Some (Some s))"

text \<open>The TTL the observed cache details prove, if all of the cache was written with one TTL.\<close>

definition proven_ttl :: "int option \<Rightarrow> int option \<Rightarrow> int option \<Rightarrow> cache_ttl option" where
  "proven_ttl short long written =
     (case (short, long, written) of
        (Some s, Some l, Some n) \<Rightarrow>
          if n = s + l \<and> 0 < n then (if s = 0 then Some Ttl_1h else if l = 0 then Some Ttl_5m else None)
          else None
      | _ \<Rightarrow> None)"

definition observed_ttl :: "model_attempt \<Rightarrow> billing_context \<Rightarrow> cache_ttl option option result" where
  "observed_ttl a verified =
     (let short = cache_creation_5m_tokens (a_billing a); long = cache_creation_1h_tokens (a_billing a);
          written = cache_creation_input_tokens (a_usage a); ttl = proven_ttl short long written
      in if (short \<noteq> None \<or> long \<noteq> None) \<and> written \<noteq> Some 0
         then check (\<not> (ttl = None \<and> bc_cache_write_ttl verified \<noteq> None)) ValueError (Inr (Some ttl))
         else Inr None)"

definition resolve_billing_context :: "model_attempt \<Rightarrow> billing_context \<Rightarrow> billing_context result" where
  "resolve_billing_context a verified =
     check (model_attempt_ok a \<and> attempt_fields_ok a \<and> billing_context_ok verified) ValueError
     (let direct_openai = a_provider a = ''openai_chat'' \<and> bc_billing_provider verified = Some ''openai'';
          direct_anthropic = a_provider a = ''anthropic'' \<and> bc_billing_provider verified = Some ''anthropic''
      in if \<not> (direct_openai \<or> direct_anthropic) then Inr verified
         else
           let tier = observed_tier (a_billing a);
               geo = (if direct_anthropic then map_option Some (inference_geo (a_billing a)) else None)
           in bindE (if direct_anthropic then observed_ttl a verified else Inr None) (\<lambda>ttl.
              check (consistent (bc_service_tier verified) tier \<and> consistent (bc_region verified) geo
                  \<and> consistent (bc_cache_write_ttl verified) ttl) ValueError
              (let c = verified\<lparr>bc_service_tier := updated (bc_service_tier verified) tier,
                      bc_region := updated (bc_region verified) geo,
                      bc_cache_write_ttl := updated (bc_cache_write_ttl verified) ttl\<rparr>
               in check (billing_context_ok c) ValueError (Inr c))))"

section \<open>Exactness\<close>

lemma int_of_text_append: "int_of_text (s @ t) = int_of_text s * 10 ^ length t + int_of_text t"
proof -
  have "foldl (\<lambda>n c. 10 * n + digit_value c) n t = n * 10 ^ length t + int_of_text t" for n
  proof (induction t rule: rev_induct)
    case (snoc c t)
    then show ?case by (simp add: int_of_text_def algebra_simps)
  qed (simp add: int_of_text_def)
  from this [of "int_of_text s"] show ?thesis
    by (simp only: int_of_text_def [of "s @ t"] int_of_text_def [of s] foldl_append)
qed

lemma int_of_text_single [simp]: "int_of_text [] = 0" "int_of_text [c] = digit_value c"
  by (simp_all add: int_of_text_def)

lemma digit_value_hex: "n < 10 \<Longrightarrow> digit_value (hex_digit n) = int n"
proof -
  assume "n < 10"
  then have "n \<in> set [0,1,2,3,4,5,6,7,8,9]" by auto
  then show ?thesis by (auto simp: hex_digit_def digit_value_def byte_of_def)
qed

lemma int_of_dec_digits: "int_of_text (dec_digits n) = int n"
proof (induction n rule: dec_digits.induct)
  case (1 n)
  show ?case
  proof (cases "n < 10")
    case True
    then show ?thesis by (simp add: dec_digits_small digit_value_hex)
  next
    case False
    have "int (n div 10) * 10 + int (n mod 10) = int n"
      using div_mult_mod_eq [of n 10] by (metis of_nat_add of_nat_mult of_nat_numeral)
    with 1 False show ?thesis
      by (subst dec_digits.simps) (simp add: int_of_text_append digit_value_hex)
  qed
qed

lemma int_of_zeros [simp]: "int_of_text (replicate k (CHR ''0'')) = 0"
  by (induction k) (simp_all add: int_of_text_def digit_value_def byte_of_def)

lemma int_of_dec_fixed: "int_of_text (dec_fixed k n) = int n"
  by (simp add: dec_fixed_def int_of_text_append int_of_dec_digits)

lemma dec_digits_digit: "list_all is_digit (dec_digits n)"
  using dec_digits_chars [of n] unfolding list_all_iff is_digit_def dec_chars_def by blast

lemma zero_digit: "is_digit (CHR ''0'')"
  by (simp add: is_digit_def)

lemma dec_fixed_digit: "list_all is_digit (dec_fixed k n)"
  using dec_digits_digit [of n] zero_digit unfolding dec_fixed_def list_all_iff by auto

lemma digit_not_point: "is_digit c \<Longrightarrow> c \<noteq> CHR ''.''"
  by (auto simp: is_digit_def)

lemma dec_digits_length: "n < 10 ^ k \<Longrightarrow> 1 \<le> k \<Longrightarrow> length (dec_digits n) \<le> k"
proof (induction n arbitrary: k rule: dec_digits.induct)
  case (1 n)
  show ?case
  proof (cases "n < 10")
    case True
    with "1.prems" show ?thesis by (simp add: dec_digits_small)
  next
    case False
    with "1.prems" have "k \<noteq> 1" by auto
    with "1.prems" obtain j where k: "k = Suc j" "1 \<le> j" by (cases k) auto
    with "1.prems" have "n div 10 < 10 ^ j" by auto
    with "1.IH" False k have "length (dec_digits (n div 10)) \<le> j" by simp
    with False k show ?thesis by (subst dec_digits.simps) simp
  qed
qed

lemma dec_fixed_length: "n < 10 ^ k \<Longrightarrow> 1 \<le> k \<Longrightarrow> length (dec_fixed k n) = k"
  using dec_digits_length [of n k] by (simp add: dec_fixed_def)

lemma digits_no_point:
  assumes "list_all is_digit w"
  shows "\<forall>c \<in> set w. c \<noteq> CHR ''.''"
proof
  fix c assume "c \<in> set w"
  then have "is_digit c" using assms by (simp only: list_all_iff)
  then show "c \<noteq> CHR ''.''" by (rule digit_not_point)
qed

lemma partition_point_digits:
  assumes "list_all is_digit w"
  shows "partition_point (w @ CHR ''.'' # f) = (w, f)" "partition_point w = (w, [])"
proof -
  note w = digits_no_point [OF assms]
  then have "takeWhile (\<lambda>c. c \<noteq> CHR ''.'') w = w" "dropWhile (\<lambda>c. c \<noteq> CHR ''.'') w = []"
    by (simp_all only: takeWhile_eq_all_conv dropWhile_eq_Nil_conv)
  then show "partition_point w = (w, [])" by (simp only: partition_point_def list.sel)
  have "takeWhile (\<lambda>c. c \<noteq> CHR ''.'') (w @ CHR ''.'' # f) = w"
      "dropWhile (\<lambda>c. c \<noteq> CHR ''.'') (w @ CHR ''.'' # f) = CHR ''.'' # f"
    using w by (simp_all add: takeWhile_append2 dropWhile_append2)
  then show "partition_point (w @ CHR ''.'' # f) = (w, f)" by (simp only: partition_point_def list.sel)
qed

lemma rstrip_split: "\<exists>k. s = rstrip c s @ replicate k c"
proof -
  have "takeWhile (\<lambda>d. d = c) (rev s) = replicate (length (takeWhile (\<lambda>d. d = c) (rev s))) c"
    by (induction "rev s" arbitrary: s rule: rev_induct) (auto intro!: replicate_eqI dest: set_takeWhileD)
  moreover have "s = rstrip c s @ rev (takeWhile (\<lambda>d. d = c) (rev s))"
    unfolding rstrip_def rev_append [symmetric] by simp
  ultimately show ?thesis by (metis rev_replicate)
qed

lemma ljust_rstrip: "length f = n \<Longrightarrow> ljust_zeros n (rstrip (CHR ''0'') f) = f"
proof -
  assume n: "length f = n"
  obtain k where k: "f = rstrip (CHR ''0'') f @ replicate k (CHR ''0'')" using rstrip_split by blast
  then have "length f = length (rstrip (CHR ''0'') f) + k" by (metis length_append length_replicate)
  then have "n - length (rstrip (CHR ''0'') f) = k" using n by simp
  then show ?thesis using k by (simp add: ljust_zeros_def)
qed

lemma rstrip_append: "x \<in> set f \<Longrightarrow> x \<noteq> c \<Longrightarrow> rstrip c (w @ f) = w @ rstrip c f"
  by (simp add: rstrip_def dropWhile_append1 [of x])

lemma rstrip_id: "s \<noteq> [] \<Longrightarrow> last s \<noteq> c \<Longrightarrow> rstrip c s = s"
  by (cases s rule: rev_cases) (simp_all add: rstrip_def)

lemma rstrip_set: "set (rstrip c s) \<subseteq> set s"
  by (auto simp: rstrip_def dest: set_dropWhileD)

lemma rstrip_length: "length (rstrip c s) \<le> length s"
  using length_dropWhile_le [of "\<lambda>d. d = c" "rev s"] by (simp add: rstrip_def)

lemma int_of_all_zero: "\<forall>c \<in> set f. c = CHR ''0'' \<Longrightarrow> int_of_text f = 0"
  by (metis int_of_zeros replicate_eqI)

text \<open>The two shapes of a formatted amount.\<close>

lemma format_amount_cases:
  assumes "0 \<le> n"
  obtains (whole) "n mod 10 ^ 18 = 0" "format_amount n = dec_digits (nat (n div 10 ^ 18))"
  | (fraction) f where "format_amount n = dec_digits (nat (n div 10 ^ 18)) @ CHR ''.'' # f" "f \<noteq> []" "list_all is_digit f"
      "length f \<le> 18" "ljust_zeros 18 f = dec_fixed 18 (nat (n mod 10 ^ 18))"
proof (cases "n mod 10 ^ 18 = 0")
  case True
  with assms show ?thesis by (intro whole) (simp_all add: format_amount_def Let_def int_str_def)
next
  case False
  define d f where "d = dec_fixed 18 (nat (n mod 10 ^ 18))" and "f = rstrip (CHR ''0'') d"
  have pos: "0 < n mod 10 ^ 18" using False by (simp add: order_less_le)
  have "nat (n mod 10 ^ 18) < 10 ^ 18"
    using pos_mod_bound [of "10 ^ 18" n] by simp
  then have len: "length d = 18" unfolding d_def by (intro dec_fixed_length) simp_all
  have "int_of_text d = n mod 10 ^ 18" using pos by (simp only: d_def int_of_dec_fixed)
  with pos have "int_of_text d \<noteq> 0" by simp
  then obtain x where x: "x \<in> set d" "x \<noteq> CHR ''0''" using int_of_all_zero by blast
  have "f \<noteq> []" using x by (auto simp: rstrip_def f_def)
  have digits: "list_all is_digit f"
    using dec_fixed_digit [of 18 "nat (n mod 10 ^ 18)"] rstrip_set [of "CHR ''0''" d]
    unfolding f_def d_def list_all_iff by fast
  then have "last f \<noteq> CHR ''.''"
    using \<open>f \<noteq> []\<close> by (metis digit_not_point last_in_set list_all_iff)
  have "format_amount n = rstrip (CHR ''.'') (dec_digits (nat (n div 10 ^ 18)) @ ''.'' @ f)"
    using False assms rstrip_append [OF x, of "dec_digits (nat (n div 10 ^ 18)) @ ''.''"]
    by (simp add: format_amount_def Let_def int_str_def pos_imp_zdiv_neg_iff d_def f_def)
  also have "\<dots> = dec_digits (nat (n div 10 ^ 18)) @ CHR ''.'' # f"
    using \<open>f \<noteq> []\<close> \<open>last f \<noteq> CHR ''.''\<close> by (subst rstrip_id) simp_all
  finally show ?thesis
    using \<open>f \<noteq> []\<close> digits rstrip_length [of "CHR ''0''" d, unfolded len] ljust_rstrip [OF len]
    unfolding d_def f_def by (intro fraction)
qed

lemma amount_units_format:
  assumes "0 \<le> n"
  shows "amount_units (format_amount n) = n"
  using assms
proof (cases rule: format_amount_cases)
  case whole
  have "n = n div 10 ^ 18 * 10 ^ 18" using whole(1) by (metis add.right_neutral div_mult_mod_eq)
  then show ?thesis
    using assms whole(2) partition_point_digits(2) [OF dec_digits_digit]
    by (simp add: amount_units_def ljust_zeros_def int_of_dec_digits)
next
  case (fraction f)
  have "0 \<le> n div 10 ^ 18" using assms by (simp add: pos_imp_zdiv_nonneg_iff)
  with fraction show ?thesis
    using partition_point_digits(1) [OF dec_digits_digit]
    by (simp add: amount_units_def int_of_dec_digits int_of_dec_fixed)
qed

lemma whole_ok_dec_digits: "whole_ok (dec_digits n)"
proof -
  have "hd (dec_digits n) = CHR ''0'' \<longrightarrow> dec_digits n = ''0''"
  proof (induction n rule: dec_digits.induct)
    case (1 n)
    show ?case
    proof (cases "n < 10")
      case True
      then show ?thesis by (simp add: dec_digits_small)
    next
      case False
      moreover have "hd (dec_digits n) = hd (dec_digits (n div 10))"
        using False by (subst dec_digits.simps) simp
      moreover have "dec_digits (n div 10) \<noteq> ''0''"
        using False int_of_dec_digits [of "n div 10"] by (auto simp: digit_value_def byte_of_def)
      ultimately show ?thesis using 1 by simp
    qed
  qed
  then show ?thesis by (simp add: whole_ok_def dec_digits_digit)
qed

lemma format_amount_ok:
  assumes "0 \<le> n"
  shows "amount_ok (format_amount n)"
  using assms
proof (cases rule: format_amount_cases)
  case whole
  have "CHR ''.'' \<notin> set (dec_digits m)" for m
    using digits_no_point [OF dec_digits_digit] by fast
  then show ?thesis
    by (simp add: whole(2) amount_ok_def decimal_ok_def partition_point_digits(2) [OF dec_digits_digit]
        whole_ok_dec_digits)
next
  case (fraction f)
  then show ?thesis
    by (simp add: amount_ok_def decimal_ok_def partition_point_digits(1) [OF dec_digits_digit]
        whole_ok_dec_digits Suc_le_eq)
qed

text \<open>What has been resolved once resolves to itself: a bound context already contains the observations.\<close>

lemma consistent_updated [simp]: "consistent c u \<Longrightarrow> consistent (updated c u) u" "updated (updated c u) u = updated c u"
  by (simp_all add: consistent_def updated_def split: option.splits)

lemma observed_ttl_again:
  assumes "observed_ttl a c = Inr ttl" "bc_cache_write_ttl c' = updated (bc_cache_write_ttl c) ttl"
  shows "observed_ttl a c' = Inr ttl"
  using assms by (auto simp: observed_ttl_def updated_def Let_def split: if_splits)

lemma resolve_again:
  assumes "resolve_billing_context a c = Inr c'"
  shows "resolve_billing_context a c' = Inr c' \<and> billing_context_ok c'"
proof (cases "a_provider a = ''openai_chat'' \<and> bc_billing_provider c = Some ''openai''
    \<or> a_provider a = ''anthropic'' \<and> bc_billing_provider c = Some ''anthropic''")
  case False
  with assms show ?thesis unfolding resolve_billing_context_def Let_def by (auto split: if_splits)
next
  case True
  let ?d = "a_provider a = ''anthropic'' \<and> bc_billing_provider c = Some ''anthropic''"
  let ?tier = "observed_tier (a_billing a)" and ?geo = "if ?d then map_option Some (inference_geo (a_billing a)) else None"
  from assms True obtain ttl where ok: "model_attempt_ok a" "attempt_fields_ok a"
    and ttl: "(if ?d then observed_ttl a c else Inr None) = Inr ttl"
    and cons: "consistent (bc_service_tier c) ?tier" "consistent (bc_region c) ?geo"
      "consistent (bc_cache_write_ttl c) ttl"
    and c': "c' = c\<lparr>bc_service_tier := updated (bc_service_tier c) ?tier, bc_region := updated (bc_region c) ?geo,
        bc_cache_write_ttl := updated (bc_cache_write_ttl c) ttl\<rparr>" "billing_context_ok c'"
    unfolding resolve_billing_context_def Let_def by (simp only: check_Inr bindE_Inr if_not_P if_P simp_thms sum.inject if_False) blast
  have provider: "bc_billing_provider c' = bc_billing_provider c" by (simp add: c'(1))
  have "bc_cache_write_ttl c' = updated (bc_cache_write_ttl c) ttl" by (simp add: c'(1))
  from observed_ttl_again [OF _ this] have "(if ?d then observed_ttl a c' else Inr None) = Inr ttl"
    using ttl by (cases ?d) (simp_all only: if_True if_False simp_thms)
  then show ?thesis
    using ok cons c'(2) True unfolding resolve_billing_context_def Let_def provider
    by (simp only: check_True simp_thms if_False bindE_Inr_apply) (simp add: c'(1))
qed

section \<open>Property\<close>

text \<open>C19. Money is exact: the text written for an amount is a valid amount and reads back as the same
  number of units, for every non-negative amount; in particular different amounts have different texts.\<close>

theorem amount_round_trip:
  assumes "0 \<le> n"
  shows "amount_ok (format_amount n) \<and> amount_units (format_amount n) = n
    \<and> (\<forall>m. 0 \<le> m \<and> format_amount m = format_amount n \<longrightarrow> m = n)"
  using format_amount_ok [OF assms] amount_units_format [OF assms] by (metis amount_units_format)

theorem amount_round_trip_witness:
  "format_amount 1500000000000000000 = ''1.5'' \<and> amount_units (format_amount 1500000000000000000) = 1500000000000000000"
proof -
  have "format_amount 1500000000000000000 = ''1.5''"
    by (simp add: format_amount_def int_str_def dec_digits.simps dec_fixed_def hex_digit_def rstrip_def)
  then show ?thesis using amount_round_trip [of 1500000000000000000] by simp
qed

end
