(* ===== verification/Model_Costs.thy ===== *)
theory Model_Costs
  imports Agent_Thread Pricing
begin

text \<open>
  The cost report of a Turn (src/src/harnessix/models/costs.py): the cost of one attempt under a bound
  price, the summary over all attempts with its completeness, and the three versions of the report.
  A validator that raises is a \<^const>\<open>ValueError\<close>; the loops that fill dictionaries are folds.
\<close>

section \<open>The cost of an attempt\<close>

record cost_attempt =
  ca_attempt_id :: uuid
  ca_step :: nat
  ca_index :: nat
  ca_actual_model :: "string option"
  ca_usage :: usage_observation
  ca_status :: attempt_status
  ca_started_at :: datetime
  ca_finished_at :: "datetime option"

definition cost_attempt_ok :: "cost_attempt \<Rightarrow> bool" where
  "cost_attempt_ok a =
     (1 \<le> ca_step a \<and> ca_step a \<le> 1000 \<and> 1 \<le> ca_index a \<and> ca_index a \<le> 32
      \<and> (case ca_actual_model a of None \<Rightarrow> True | Some s \<Rightarrow> model_identifier_ok s)
      \<and> usage_observation_ok (ca_usage a)
      \<and> (ca_status a = At_running) = (ca_finished_at a = None)
      \<and> (case ca_finished_at a of None \<Rightarrow> True | Some f \<Rightarrow> ca_started_at a \<le> f))"

definition cost_attempt_of :: "model_attempt \<Rightarrow> cost_attempt" where
  "cost_attempt_of a = \<lparr>ca_attempt_id = attempt_id a, ca_step = a_step a, ca_index = a_index a,
     ca_actual_model = a_actual_model a, ca_usage = a_usage a, ca_status = a_status a,
     ca_started_at = a_started_at a, ca_finished_at = a_finished_at a\<rparr>"

definition from_attempt :: "model_attempt \<Rightarrow> cost_attempt result" where
  "from_attempt a = check (cost_attempt_ok (cost_attempt_of a)) ValueError (Inr (cost_attempt_of a))"

definition completeness_value :: "completeness \<Rightarrow> string" where
  "completeness_value c = (case c of Unknown \<Rightarrow> ''unknown'' | Partial \<Rightarrow> ''partial'' | Complete \<Rightarrow> ''complete'')"

definition attempt_status_value :: "attempt_status \<Rightarrow> string" where
  "attempt_status_value s = (case s of At_running \<Rightarrow> ''running'' | At_completed \<Rightarrow> ''completed''
     | At_failed \<Rightarrow> ''failed'' | At_cancelled \<Rightarrow> ''cancelled'' | At_interrupted \<Rightarrow> ''interrupted'')"

definition usage_json :: "usage_observation \<Rightarrow> json" where
  "usage_json u =
     jobj [(''completeness'', JStr (completeness_value (completeness u))),
       (''input_tokens'', jopt JInt (input_tokens u)), (''output_tokens'', jopt JInt (output_tokens u)),
       (''uncached_input_tokens'', jopt JInt (uncached_input_tokens u)),
       (''cache_read_input_tokens'', jopt JInt (cache_read_input_tokens u)),
       (''cache_creation_input_tokens'', jopt JInt (cache_creation_input_tokens u)),
       (''reasoning_output_tokens'', jopt JInt (reasoning_output_tokens u))]"

definition cost_attempt_json :: "cost_attempt \<Rightarrow> json" where
  "cost_attempt_json a =
     jobj [(''attempt_id'', JStr (uuid_str (ca_attempt_id a))), (''step'', JInt (int (ca_step a))),
       (''index'', JInt (int (ca_index a))), (''actual_model'', jopt JStr (ca_actual_model a)),
       (''usage'', usage_json (ca_usage a)), (''status'', JStr (attempt_status_value (ca_status a))),
       (''started_at'', JStr (iso_utc (ca_started_at a))),
       (''finished_at'', jopt (JStr \<circ> iso_utc) (ca_finished_at a))]"

record price_binding =
  pb_attempt_id :: uuid
  pb_attempt_sha256 :: string
  pb_price_sha256 :: string
  pb_price :: price_snapshot
  pb_context :: billing_context

definition price_binding_ok :: "(string \<Rightarrow> url_parts option) \<Rightarrow> price_binding \<Rightarrow> bool" where
  "price_binding_ok urlsplit b =
     (is_digest (pb_attempt_sha256 b) \<and> is_digest (pb_price_sha256 b) \<and> price_snapshot_ok urlsplit (pb_price b)
      \<and> billing_context_ok (pb_context b) \<and> pb_price_sha256 b = price_digest (pb_price b))"

definition bind_price ::
  "(string \<Rightarrow> url_parts option) \<Rightarrow> model_attempt \<Rightarrow> price_snapshot \<Rightarrow> billing_context \<Rightarrow> price_binding result" where
  "bind_price urlsplit a price context =
     check (price_snapshot_ok urlsplit price) ValueError
     (bindE (resolve_billing_context a context) (\<lambda>c.
      bindE (from_attempt a) (\<lambda>s.
      let b = \<lparr>pb_attempt_id = attempt_id a, pb_attempt_sha256 = content_digest (cost_attempt_json s),
               pb_price_sha256 = price_digest price, pb_price = price, pb_context = c\<rparr>
      in check (price_binding_ok urlsplit b) ValueError (Inr b))))"

datatype cost_category =
  Input | Uncached_input | Cache_read_input | Cache_creation_input | Output

record cost_line =
  cl_category :: cost_category
  cl_tokens :: int
  cl_per_million :: string
  cl_amount :: string

definition cost_line_ok :: "cost_line \<Rightarrow> bool" where
  "cost_line_ok l = (0 \<le> cl_tokens l \<and> rate_ok (cl_per_million l) \<and> amount_ok (cl_amount l))"

datatype cost_reason =
    Price_unbound | Attempt_running | Usage_incomplete | Model_unknown | Context_missing
  | Scope_mismatch | Outside_price_period | Outside_input_band | Usage_details_missing
  | Cache_ttl_missing | Cache_ttl_mismatch

datatype cost_result =
    Unknown_cost cost_reason
  | Estimated currency string "cost_line list"

definition make_line :: "cost_category \<Rightarrow> int \<Rightarrow> string \<Rightarrow> cost_line result" where
  "make_line category tokens rate =
     (let l = \<lparr>cl_category = category, cl_tokens = tokens, cl_per_million = rate,
               cl_amount = format_amount (tokens * rate_units rate)\<rparr>
      in check (cost_line_ok l) ValueError (Inr l))"

text \<open>The scope fields are compared one by one; a missing one is reported first.\<close>

definition SCOPE_FIELDS :: "((billing_context \<Rightarrow> string option) \<times> (price_snapshot \<Rightarrow> string)) list" where
  "SCOPE_FIELDS = [(bc_billing_provider, pr_billing_provider), (bc_region, pr_region),
     (bc_service_tier, pr_service_tier), (bc_inference_mode, pr_inference_mode)]"

text \<open>The input lines, or the reason why the input cannot be priced.\<close>

definition input_lines :: "usage_observation \<Rightarrow> billing_context \<Rightarrow> input_price
    \<Rightarrow> (cost_reason + cost_line list) result" where
  "input_lines u context price =
     (case price of
        FlatInputPrice rate \<Rightarrow>
          (case input_tokens u of None \<Rightarrow> Inl AssertionError
           | Some n \<Rightarrow> bindE (make_line Input n rate) (\<lambda>l. Inr (Inr [l])))
      | PartitionedInputPrice uncached_rate read_rate creation_rate write_ttl \<Rightarrow>
          (case (uncached_input_tokens u, cache_read_input_tokens u, cache_creation_input_tokens u) of
             (Some uncached, Some read, Some creation) \<Rightarrow>
               if 0 < creation \<and> write_ttl \<noteq> None \<and> bc_cache_write_ttl context = None
               then Inr (Inl Cache_ttl_missing)
               else if 0 < creation \<and> write_ttl \<noteq> None \<and> bc_cache_write_ttl context \<noteq> write_ttl
               then Inr (Inl Cache_ttl_mismatch)
               else bindE (make_line Uncached_input uncached uncached_rate) (\<lambda>l1.
                    bindE (make_line Cache_read_input read read_rate) (\<lambda>l2.
                    bindE (make_line Cache_creation_input creation creation_rate) (\<lambda>l3.
                    Inr (Inr [l1, l2, l3]))))
           | _ \<Rightarrow> Inr (Inl Usage_details_missing)))"

definition calculate :: "cost_attempt \<Rightarrow> price_binding option \<Rightarrow> cost_result result" where
  "calculate a binding =
     (case binding of None \<Rightarrow> Inr (Unknown_cost Price_unbound)
      | Some b \<Rightarrow>
        check (pb_attempt_id b = ca_attempt_id a
            \<and> pb_attempt_sha256 b = content_digest (cost_attempt_json a)) ValueError
        (let price = pb_price b; context = pb_context b; u = ca_usage a in
         if ca_status a = At_running then Inr (Unknown_cost Attempt_running)
         else if completeness u \<noteq> Complete then Inr (Unknown_cost Usage_incomplete)
         else if ca_actual_model a = None then Inr (Unknown_cost Model_unknown)
         else if list_ex (\<lambda>(f, g). f context = None) SCOPE_FIELDS then Inr (Unknown_cost Context_missing)
         else if ca_actual_model a \<noteq> Some (pr_model price)
             \<or> list_ex (\<lambda>(f, g). f context \<noteq> Some (g price)) SCOPE_FIELDS
         then Inr (Unknown_cost Scope_mismatch)
         else if ca_started_at a < pr_valid_from price
             \<or> (case ca_finished_at a of None \<Rightarrow> True | Some f \<Rightarrow> pr_valid_until price \<le> f)
         then Inr (Unknown_cost Outside_price_period)
         else (case (input_tokens u, output_tokens u) of
            (Some n, Some out) \<Rightarrow>
              if n < pr_input_tokens_min price
                 \<or> (case pr_input_tokens_max price of None \<Rightarrow> False | Some m \<Rightarrow> m < n)
              then Inr (Unknown_cost Outside_input_band)
              else bindE (input_lines u context (pr_input_price price)) (\<lambda>r.
                (case r of Inl reason \<Rightarrow> Inr (Unknown_cost reason)
                 | Inr inputs \<Rightarrow>
                    bindE (make_line Output out (pr_output_per_million price)) (\<lambda>l.
                    let lines = inputs @ [l]
                    in Inr (Estimated (pr_currency price)
                         (format_amount (sum_list (map (amount_units \<circ> cl_amount) lines))) lines))))
          | _ \<Rightarrow> Inl AssertionError)))"

record attempt_cost =
  ac_attempt :: cost_attempt
  ac_binding :: "price_binding option"
  ac_result :: cost_result

definition attempt_cost_ok :: "(string \<Rightarrow> url_parts option) \<Rightarrow> attempt_cost \<Rightarrow> bool" where
  "attempt_cost_ok urlsplit c =
     (cost_attempt_ok (ac_attempt c)
      \<and> (case ac_binding c of None \<Rightarrow> True | Some b \<Rightarrow> price_binding_ok urlsplit b)
      \<and> calculate (ac_attempt c) (ac_binding c) = Inr (ac_result c))"

definition estimate_attempt ::
  "(string \<Rightarrow> url_parts option) \<Rightarrow> model_attempt \<Rightarrow> price_binding option \<Rightarrow> attempt_cost result" where
  "estimate_attempt urlsplit a binding =
     bindE (from_attempt a) (\<lambda>source.
     bindE (case binding of None \<Rightarrow> Inr ()
       | Some b \<Rightarrow> check (price_binding_ok urlsplit b) ValueError
           (bindE (resolve_billing_context a (pb_context b)) (\<lambda>c.
            check (c = pb_context b) ValueError (Inr ())))) (\<lambda>_.
     bindE (calculate source binding) (\<lambda>r.
     let c = \<lparr>ac_attempt = source, ac_binding = binding, ac_result = r\<rparr>
     in check (attempt_cost_ok urlsplit c) ValueError (Inr c))))"

section \<open>The summary of the attempts of a Turn\<close>

datatype cost_completeness = Cost_complete | Cost_partial | Cost_none

record cost_summary =
  sm_completeness :: cost_completeness
  sm_uncovered_steps :: "nat list"
  sm_totals :: "(currency \<times> string) list"

definition add_total :: "(currency \<Rightarrow> int option) \<Rightarrow> cost_result \<Rightarrow> currency \<Rightarrow> int option" where
  "add_total totals r =
     (case r of Unknown_cost _ \<Rightarrow> totals
      | Estimated c amount _ \<Rightarrow> totals(c \<mapsto> or_zero (totals c) + amount_units amount))"

text \<open>\<^verbatim>\<open>sorted(totals)\<close>: \<^verbatim>\<open>"CNY" < "USD"\<close>.\<close>

definition currency_subtotals :: "(currency \<Rightarrow> int option) \<Rightarrow> (currency \<times> string) list" where
  "currency_subtotals totals =
     List.map_filter (\<lambda>c. map_option (\<lambda>n. (c, format_amount n)) (totals c)) [CNY, USD]"

definition no_totals :: "currency \<Rightarrow> int option" where
  "no_totals = (\<lambda>_. None)"

record cost_fold =
  cf_ids :: "uuid list"
  cf_pairs :: "(nat \<times> nat) list"
  cf_by_step :: "(nat \<times> cost_attempt list) list"
  cf_totals :: "currency \<Rightarrow> int option"

text \<open>\<^verbatim>\<open>by_step.setdefault(step, []).append(attempt)\<close>.\<close>

fun append_at :: "nat \<Rightarrow> 'a \<Rightarrow> (nat \<times> 'a list) list \<Rightarrow> (nat \<times> 'a list) list" where
  "append_at k x [] = [(k, [x])]"
| "append_at k x ((k', xs) # d) = (if k = k' then (k, xs @ [x]) # d else (k', xs) # append_at k x d)"

definition scan_entry :: "nat \<Rightarrow> cost_fold \<Rightarrow> attempt_cost \<Rightarrow> cost_fold result" where
  "scan_entry model_steps s entry =
     (let a = ac_attempt entry; pair = (ca_step a, ca_index a)
      in check (ca_attempt_id a \<notin> set (cf_ids s) \<and> pair \<notin> set (cf_pairs s) \<and> ca_step a \<le> model_steps)
           ValueError
         (Inr (s\<lparr>cf_ids := ca_attempt_id a # cf_ids s, cf_pairs := pair # cf_pairs s,
                 cf_by_step := append_at (ca_step a) a (cf_by_step s),
                 cf_totals := add_total (cf_totals s) (ac_result entry)\<rparr>)))"

definition step_ok :: "cost_attempt list \<Rightarrow> bool" where
  "step_ok attempts =
     (let ordered = sort_key ca_index attempts
      in map ca_index ordered = [1..<length ordered + 1]
         \<and> list_all (\<lambda>a. ca_status a = At_failed) (butlast ordered))"

definition is_estimated :: "cost_result \<Rightarrow> bool" where
  "is_estimated r = (case r of Estimated _ _ _ \<Rightarrow> True | Unknown_cost _ \<Rightarrow> False)"

definition summary_completeness :: "bool \<Rightarrow> (currency \<Rightarrow> int option) \<Rightarrow> cost_completeness" where
  "summary_completeness whole totals =
     (if whole then Cost_complete
      else if list_ex (\<lambda>c. totals c \<noteq> None) [CNY, USD] then Cost_partial else Cost_none)"

definition summarize_costs :: "attempt_cost list \<Rightarrow> nat \<Rightarrow> turn_status \<Rightarrow> cost_summary result" where
  "summarize_costs entries model_steps status =
     bindE (foldE (scan_entry model_steps)
         \<lparr>cf_ids = [], cf_pairs = [], cf_by_step = [], cf_totals = no_totals\<rparr> entries) (\<lambda>s.
     check (list_all (\<lambda>(_, attempts). step_ok attempts) (cf_by_step s)) ValueError
     (let uncovered = filter (\<lambda>n. n \<notin> fst ` set (cf_by_step s)) [1..<model_steps + 1];
          whole = status \<in> set TERMINAL_TURNS \<and> entries \<noteq> [] \<and> uncovered = []
            \<and> list_all (\<lambda>e. is_estimated (ac_result e)) entries
      in Inr \<lparr>sm_completeness = summary_completeness whole (cf_totals s),
               sm_uncovered_steps = uncovered, sm_totals = currency_subtotals (cf_totals s)\<rparr>))"

section \<open>The account of all purposes\<close>

datatype purpose = Generation | Compaction

record accounted_cost =
  acc_entry :: attempt_cost
  acc_purpose :: purpose
  acc_compaction_id :: "uuid option"

definition accounted_cost_ok :: "(string \<Rightarrow> url_parts option) \<Rightarrow> accounted_cost \<Rightarrow> bool" where
  "accounted_cost_ok urlsplit c =
     (attempt_cost_ok urlsplit (acc_entry c)
      \<and> (acc_purpose c = Compaction) = (acc_compaction_id c \<noteq> None))"

record compaction_cost_state =
  cc_compaction_id :: uuid
  cc_model_step :: nat
  cc_status :: compaction_status
  cc_attempt_id :: "uuid option"
  cc_unaccounted_request_possible :: bool

definition cc_open :: "compaction_cost_state \<Rightarrow> bool" where
  "cc_open c = (cc_status c \<in> set COMPACTION_OPEN)"

definition compaction_entry_ok :: "nat \<Rightarrow> accounted_cost list \<Rightarrow> compaction_cost_state \<Rightarrow> bool" where
  "compaction_entry_ok model_steps summaries c =
     (cc_model_step c \<le> model_steps + 1
      \<and> (let entry = map_option acc_entry
              (find (\<lambda>e. acc_compaction_id e = Some (cc_compaction_id c)) summaries)
         in case cc_attempt_id c of
              None \<Rightarrow> entry = None \<and> cc_status c \<notin> {Cs_sampling, Cs_summarized}
            | Some aid \<Rightarrow>
               (case entry of None \<Rightarrow> False
                | Some x \<Rightarrow> let a = ac_attempt x in
                    ca_attempt_id a = aid \<and> ca_step a = cc_model_step c \<and> ca_index a = 1
                    \<and> cc_status c \<noteq> Cs_planned
                    \<and> (\<not> cc_open c \<longrightarrow> ca_status a \<noteq> At_running)
                    \<and> (cc_status c = Cs_summarized \<longrightarrow> ca_status a = At_completed))))"

definition summarize_accounted ::
  "accounted_cost list \<Rightarrow> compaction_cost_state list \<Rightarrow> nat \<Rightarrow> turn_status \<Rightarrow> cost_summary result" where
  "summarize_accounted entries compactions model_steps status =
     (let generation = filter (\<lambda>e. acc_purpose e = Generation) entries;
          summaries = filter (\<lambda>e. acc_purpose e = Compaction) entries
      in bindE (summarize_costs (map acc_entry generation) model_steps status) (\<lambda>ordinary.
         check (distinct (map cc_compaction_id compactions) \<and> distinct (map cc_model_step compactions)) ValueError
         (check (distinct (map (ca_attempt_id \<circ> ac_attempt \<circ> acc_entry) entries)) ValueError
         (check (distinct (map acc_compaction_id summaries)
             \<and> list_all (\<lambda>e. acc_compaction_id e \<in> (Some \<circ> cc_compaction_id) ` set compactions) summaries)
            ValueError
         (check (list_all (compaction_entry_ok model_steps summaries) compactions) ValueError
         (let totals = foldl add_total no_totals (map (ac_result \<circ> acc_entry) entries);
              whole = status \<in> set TERMINAL_TURNS \<and> entries \<noteq> [] \<and> sm_uncovered_steps ordinary = []
                \<and> list_all (\<lambda>e. is_estimated (ac_result (acc_entry e))) entries
                \<and> list_all (\<lambda>c. \<not> cc_open c) compactions
                \<and> \<not> list_ex cc_unaccounted_request_possible compactions
          in Inr \<lparr>sm_completeness = summary_completeness whole totals,
                   sm_uncovered_steps = sm_uncovered_steps ordinary,
                   sm_totals = currency_subtotals totals\<rparr>))))))"

section \<open>Reports\<close>

datatype cost_report =
    CostReport uuid turn_status nat "attempt_cost list" cost_summary
  | CostReportV2 uuid turn_status nat "compaction_cost_state list" "accounted_cost list" cost_summary
  | CostReportV3 uuid turn_status nat "compaction_cost_state list" "accounted_cost list" cost_summary

definition cost_state_ok :: "compaction_cost_state \<Rightarrow> bool" where
  "cost_state_ok c = (1 \<le> cc_model_step c \<and> cc_model_step c \<le> 1000)"

text \<open>\<^verbatim>\<open>TurnStatusV18\<close> has every state but \<^verbatim>\<open>waiting_input\<close>.\<close>

definition status_v18_ok :: "turn_status \<Rightarrow> bool" where
  "status_v18_ok s = (s \<noteq> Ts_WAITING_INPUT)"

definition cost_report_ok :: "(string \<Rightarrow> url_parts option) \<Rightarrow> cost_report \<Rightarrow> bool" where
  "cost_report_ok urlsplit r =
     (case r of
        CostReport _ status steps entries summary \<Rightarrow>
          status_v18_ok status \<and> steps \<le> 1000 \<and> length entries \<le> 32000
          \<and> list_all (attempt_cost_ok urlsplit) entries
          \<and> summarize_costs entries steps status = Inr summary
      | CostReportV2 _ status steps compactions entries summary \<Rightarrow>
          status_v18_ok status \<and> steps \<le> 1000 \<and> 1 \<le> length compactions \<and> length compactions \<le> 1000
          \<and> length entries \<le> 33000 \<and> list_all cost_state_ok compactions
          \<and> list_all (accounted_cost_ok urlsplit) entries
          \<and> summarize_accounted entries compactions steps status = Inr summary
      | CostReportV3 _ status steps compactions entries summary \<Rightarrow>
          steps \<le> 1000 \<and> length compactions \<le> 1000 \<and> length entries \<le> 33000
          \<and> list_all cost_state_ok compactions \<and> list_all (accounted_cost_ok urlsplit) entries
          \<and> summarize_accounted entries compactions steps status = Inr summary)"

fun mapE :: "('a \<Rightarrow> 'b result) \<Rightarrow> 'a list \<Rightarrow> 'b list result" where
  "mapE f [] = Inr []"
| "mapE f (x # xs) = bindE (f x) (\<lambda>y. bindE (mapE f xs) (\<lambda>ys. Inr (y # ys)))"

text \<open>\<^verbatim>\<open>by_id.get(attempt_id)\<close>; identities are distinct when it is used.\<close>

definition binding_for :: "price_binding list \<Rightarrow> model_attempt \<Rightarrow> price_binding option" where
  "binding_for bindings a = find (\<lambda>b. pb_attempt_id b = attempt_id a) bindings"

definition generation_entry :: "(string \<Rightarrow> url_parts option) \<Rightarrow> attempt_cost \<Rightarrow> accounted_cost result" where
  "generation_entry urlsplit entry =
     (let c = \<lparr>acc_entry = entry, acc_purpose = Generation, acc_compaction_id = None\<rparr>
      in check (accounted_cost_ok urlsplit c) ValueError (Inr c))"

definition compaction_entry :: "(string \<Rightarrow> url_parts option) \<Rightarrow> price_binding list
    \<Rightarrow> uuid \<times> model_attempt \<Rightarrow> accounted_cost result" where
  "compaction_entry urlsplit bindings x =
     bindE (estimate_attempt urlsplit (snd x) (binding_for bindings (snd x))) (\<lambda>entry.
     let c = \<lparr>acc_entry = entry, acc_purpose = Compaction, acc_compaction_id = Some (fst x)\<rparr>
     in check (accounted_cost_ok urlsplit c) ValueError (Inr c))"

definition cost_state :: "compaction_record \<Rightarrow> compaction_cost_state result" where
  "cost_state r =
     (let c = \<lparr>cc_compaction_id = compaction_id (cr_plan r), cc_model_step = cp_model_step (cr_plan r),
               cc_status = cr_status r, cc_attempt_id = map_option attempt_id (cr_attempt r),
               cc_unaccounted_request_possible = cr_unaccounted_request_possible r\<rparr>
      in check (cost_state_ok c) ValueError (Inr c))"

definition summary_attempts :: "turn \<Rightarrow> (uuid \<times> model_attempt) list" where
  "summary_attempts t =
     List.map_filter (\<lambda>c. map_option (\<lambda>a. (compaction_id (cr_plan c), a)) (cr_attempt c)) (t_compactions t)"

definition accounted_report :: "(string \<Rightarrow> url_parts option) \<Rightarrow> turn \<Rightarrow> price_binding list \<Rightarrow> attempt_cost list
    \<Rightarrow> (compaction_cost_state list \<Rightarrow> accounted_cost list \<Rightarrow> cost_summary \<Rightarrow> cost_report) \<Rightarrow> cost_report result" where
  "accounted_report urlsplit t bindings entries mk =
     bindE (mapE (generation_entry urlsplit) entries) (\<lambda>generation.
     bindE (mapE (compaction_entry urlsplit bindings) (summary_attempts t)) (\<lambda>compaction.
     bindE (mapE cost_state (t_compactions t)) (\<lambda>states.
     bindE (summarize_accounted (generation @ compaction) states (t_model_steps t) (t_status t)) (\<lambda>summary.
     let r = mk states (generation @ compaction) summary
     in check (cost_report_ok urlsplit r) ValueError (Inr r)))))"

definition build_cost_report ::
  "(string \<Rightarrow> url_parts option) \<Rightarrow> turn \<Rightarrow> price_binding list \<Rightarrow> cost_report result" where
  "build_cost_report urlsplit t bindings =
     check (distinct (map pb_attempt_id bindings)
       \<and> list_all (\<lambda>b. pb_attempt_id b \<in> attempt_id ` set (accounted_attempts t)) bindings) ValueError
     (bindE (mapE (\<lambda>a. estimate_attempt urlsplit a (binding_for bindings a)) (t_model_attempts t)) (\<lambda>entries.
      if t_status t = Ts_WAITING_INPUT
      then accounted_report urlsplit t bindings entries
             (CostReportV3 (turn_id t) (t_status t) (t_model_steps t))
      else if t_compactions t \<noteq> []
      then accounted_report urlsplit t bindings entries
             (CostReportV2 (turn_id t) (t_status t) (t_model_steps t))
      else bindE (summarize_costs entries (t_model_steps t) (t_status t)) (\<lambda>summary.
        let r = CostReport (turn_id t) (t_status t) (t_model_steps t) entries summary
        in check (cost_report_ok urlsplit r) ValueError (Inr r))))"

end
