(* ===== verification/Clock_Runs.thy ===== *)
theory Clock_Runs
  imports Transcripts
begin

text \<open>
  The times of the attempts of two transcripts: the completed run, and the same run with a clock that
  steps back before an attempt ends. The reducer does not compare the times of the events of an attempt.
\<close>

lemma completed_run_times:
  "yields (\<lambda>th. \<exists>t \<in> set (th_turns th). t_status t = Ts_COMPLETED
      \<and> map (\<lambda>a. (a_started_at a, a_finished_at a)) (t_model_attempts t)
          = [(7000000, Some 9000000), (18000000, Some 20000000)]) (replay no_wire completed_run)"
  by (simp add: replay_def run_simps del: bindE_Inr cong: bindE_weak require_weak check_weak yields_weak)

definition clock_run :: "agent_event list" where
  "clock_run = map (\<lambda>e. case payload e of ModelAttemptFinished _ \<Rightarrow> e\<lparr>occurred_at := 0\<rparr> | _ \<Rightarrow> e) completed_run"

lemma clock_run_ok: "list_all event_ok clock_run"
  by (simp add: clock_run_def run_defs valid_defs Let_def)

lemma clock_run_yields:
  "yields (\<lambda>th. \<exists>t \<in> set (th_turns th). t_status t = Ts_COMPLETED
      \<and> map (\<lambda>a. (a_started_at a, a_finished_at a)) (t_model_attempts t)
          = [(7000000, Some 0), (18000000, Some 0)]) (replay no_wire clock_run)"
  by (simp add: clock_run_def replay_def run_simps del: bindE_Inr
      cong: bindE_weak require_weak check_weak yields_weak)

end
