(* ===== verification/Cost_Reports.thy ===== *)
theory Cost_Reports
  imports Accounting Model_Costs Clock_Runs
begin

text \<open>
  What the cost report of a Turn is worth: an estimate is the exact price of the tokens observed, and
  a report exists for every Turn that events can produce, as long as no attempt ends before it starts.
  The attempts of a Turn are grouped and numbered per step; that is an invariant of the reducer.
\<close>

section \<open>Estimates are exact\<close>

lemma int_of_text_nonneg: "list_all is_digit s \<Longrightarrow> 0 \<le> int_of_text s"
proof (induction s rule: rev_induct)
  case (snoc c s)
  then have "0 \<le> digit_value c" by (auto simp: is_digit_def digit_value_def byte_of_def)
  with snoc show ?case by (simp add: int_of_text_append)
qed simp

lemma rate_units_nonneg:
  assumes "rate_ok r"
  shows "0 \<le> rate_units r"
proof -
  obtain w f where p: "partition_point r = (w, f)" by fastforce
  have w: "list_all is_digit w" using assms p by (simp add: rate_ok_def decimal_ok_def whole_ok_def)
  have "list_all is_digit f"
  proof (cases "CHR ''.'' \<in> set r")
    case True
    with assms p show ?thesis by (simp add: rate_ok_def decimal_ok_def)
  next
    case False
    then have "dropWhile (\<lambda>c. c \<noteq> CHR ''.'') r = []" unfolding dropWhile_eq_Nil_conv by metis
    with p show ?thesis by (auto simp: partition_point_def)
  qed
  then have "list_all is_digit (ljust_zeros 12 f)"
    using zero_digit by (auto simp: ljust_zeros_def list_all_iff)
  with w int_of_text_nonneg [of w] int_of_text_nonneg [of "ljust_zeros 12 f"] show ?thesis
    by (simp add: rate_units_def p)
qed

lemma make_line_amount:
  assumes "make_line c n r = Inr l"
  shows "cl_category l = c" "cl_tokens l = n" "amount_units (cl_amount l) = n * rate_units r" "0 \<le> n" "rate_ok r"
  using assms rate_units_nonneg [of r] amount_units_format [of "n * rate_units r"]
  by (auto simp: make_line_def Let_def cost_line_ok_def)

definition input_cost :: "usage_observation \<Rightarrow> input_price \<Rightarrow> int" where
  "input_cost u p = (case p of FlatInputPrice r \<Rightarrow> or_zero (input_tokens u) * rate_units r
     | PartitionedInputPrice ur rr cr _ \<Rightarrow> or_zero (uncached_input_tokens u) * rate_units ur
         + or_zero (cache_read_input_tokens u) * rate_units rr
         + or_zero (cache_creation_input_tokens u) * rate_units cr)"

lemma input_lines_cost:
  assumes "input_lines u c p = Inr (Inr ls)"
  shows "sum_list (map (amount_units \<circ> cl_amount) ls) = input_cost u p \<and> 0 \<le> input_cost u p"
  using assms
proof (cases p)
  case (FlatInputPrice r)
  with assms show ?thesis
    by (auto simp: input_lines_def input_cost_def make_line_amount rate_units_nonneg
        dest: make_line_amount split: option.splits)
next
  case (PartitionedInputPrice ur rr cr ttl)
  with assms show ?thesis
    by (auto simp: input_lines_def input_cost_def make_line_amount rate_units_nonneg
        split: option.splits if_splits)
qed

lemma input_cost_bound:
  assumes "usage_observation_ok u" "input_tokens u = Some n" "input_lines u c p = Inr (Inr ls)"
  shows "input_cost u p \<le> n * max_input_rate p"
proof (cases p)
  case (FlatInputPrice r)
  with assms(2) show ?thesis by (simp add: input_cost_def max_input_rate_def)
next
  case (PartitionedInputPrice ur rr cr ttl)
  with assms(3) obtain a b d where parts: "uncached_input_tokens u = Some a" "cache_read_input_tokens u = Some b"
      "cache_creation_input_tokens u = Some d"
    by (auto simp: input_lines_def split: option.splits)
  with assms(1,2) have "a + b + d = n" "0 \<le> a" "0 \<le> b" "0 \<le> d"
    by (auto simp: usage_observation_ok_def TOKEN_FIELDS_def Let_def)
  moreover have "x * rate_units r \<le> x * max_input_rate p" if "r \<in> {ur, rr, cr}" "0 \<le> x" for x r
    using that by (intro mult_left_mono) (auto simp: max_input_rate_def PartitionedInputPrice)
  ultimately show ?thesis
    using parts \<open>0 \<le> a\<close>
    by (auto simp: input_cost_def PartitionedInputPrice distrib_right simp flip: \<open>a + b + d = n\<close>
        intro!: add_mono)
qed

section \<open>Property: exact estimates\<close>

text \<open>C20. An estimate is exact: whenever the cost of an attempt is estimated, the amount is the number
  of input tokens times their rates plus the output tokens times the output rate, without rounding; it
  is never negative and never above the conservative price of the whole input.\<close>

theorem estimate_is_exact:
  assumes "calculate a (Some b) = Inr (Estimated c amount ls)" and "usage_observation_ok (ca_usage a)"
  shows "amount_units amount = input_cost (ca_usage a) (pr_input_price (pb_price b))
        + or_zero (output_tokens (ca_usage a)) * rate_units (pr_output_per_million (pb_price b))
    \<and> amount_units amount = sum_list (map (amount_units \<circ> cl_amount) ls)
    \<and> 0 \<le> amount_units amount \<and> c = pr_currency (pb_price b)
    \<and> amount_units amount \<le> or_zero (input_tokens (ca_usage a)) * max_input_rate (pr_input_price (pb_price b))
        + or_zero (output_tokens (ca_usage a)) * rate_units (pr_output_per_million (pb_price b))"
proof -
  from assms(1) obtain n out ins l where u: "input_tokens (ca_usage a) = Some n" "output_tokens (ca_usage a) = Some out"
    and i: "input_lines (ca_usage a) (pb_context b) (pr_input_price (pb_price b)) = Inr (Inr ins)"
    and l: "make_line Output out (pr_output_per_million (pb_price b)) = Inr l"
    and r: "c = pr_currency (pb_price b)" "ls = ins @ [l]"
      "amount = format_amount (sum_list (map (amount_units \<circ> cl_amount) (ins @ [l])))"
    by (auto simp: calculate_def Let_def split: if_splits option.splits sum.splits)
  note cost = input_lines_cost [OF i] and line = make_line_amount [OF l]
  have "0 \<le> out * rate_units (pr_output_per_million (pb_price b))"
    using line(4) rate_units_nonneg [OF line(5)] by simp
  with cost line(3) have nonneg: "0 \<le> sum_list (map (amount_units \<circ> cl_amount) (ins @ [l]))" by simp
  from amount_units_format [OF this] r(3)
  have "amount_units amount = sum_list (map (amount_units \<circ> cl_amount) (ins @ [l]))" by simp
  with nonneg cost line(3) input_cost_bound [OF assms(2) u(1) i] u r(1,2) show ?thesis by simp
qed

definition example_attempt :: cost_attempt where
  "example_attempt = \<lparr>ca_attempt_id = 20, ca_step = 1, ca_index = 1, ca_actual_model = Some ''m'',
     ca_usage = measured, ca_status = At_completed, ca_started_at = 5, ca_finished_at = Some 6\<rparr>"

definition example_price :: price_snapshot where
  "example_price = \<lparr>pr_version = ''v'', pr_source_url = ''https://x'', pr_billing_provider = ''p'', pr_model = ''m'',
     pr_region = ''r'', pr_service_tier = ''s'', pr_inference_mode = ''i'', pr_currency = USD, pr_valid_from = 0,
     pr_valid_until = 9, pr_input_tokens_min = 0, pr_input_tokens_max = None,
     pr_input_price = FlatInputPrice ''2'', pr_output_per_million = ''5''\<rparr>"

definition example_binding :: price_binding where
  "example_binding = \<lparr>pb_attempt_id = 20, pb_attempt_sha256 = content_digest (cost_attempt_json example_attempt),
     pb_price_sha256 = price_digest example_price, pb_price = example_price,
     pb_context = \<lparr>bc_billing_provider = Some ''p'', bc_region = Some ''r'', bc_service_tier = Some ''s'',
       bc_inference_mode = Some ''i'', bc_cache_write_ttl = None\<rparr>\<rparr>"

lemma small_rates: "rate_units ''2'' = 2 * 10 ^ 12" "rate_units ''5'' = 5 * 10 ^ 12" "rate_ok ''2''" "rate_ok ''5''"
  by (simp_all add: rate_units_def partition_point_def int_of_text_def digit_value_def byte_of_def ljust_zeros_def
      numeral_eq_Suc rate_ok_def decimal_ok_def whole_ok_def is_digit_def)

theorem estimate_is_exact_witness:
  "\<exists>amount ls. calculate example_attempt (Some example_binding) = Inr (Estimated USD amount ls)
     \<and> amount_units amount = 120 * 10 ^ 12"
proof -
  have lines: "\<exists>l. make_line c n r = Inr l" if "r \<in> {''2'', ''5''}" "0 \<le> n" for c n r
    using that small_rates format_amount_ok [of "n * rate_units r"]
    by (auto simp: make_line_def Let_def cost_line_ok_def)
  obtain l1 l2 where l: "make_line Input 30 ''2'' = Inr l1" "make_line Output 12 ''5'' = Inr l2"
    using lines [of "''2''" 30 Input] lines [of "''5''" 12 Output] by auto
  have u: "usage_observation_ok (ca_usage example_attempt)"
    by (simp add: example_attempt_def measured_def no_usage_def usage_observation_ok_def TOKEN_FIELDS_def)
  obtain amount ls where run: "calculate example_attempt (Some example_binding) = Inr (Estimated USD amount ls)"
    using l by (simp add: calculate_def example_attempt_def example_binding_def example_price_def measured_def
        no_usage_def SCOPE_FIELDS_def input_lines_def)
  from estimate_is_exact [OF run u] show ?thesis
    using run small_rates
    by (simp add: input_cost_def example_attempt_def example_binding_def example_price_def measured_def no_usage_def)
qed

section \<open>The attempts of a Turn\<close>

text \<open>
  Per step the attempts are numbered from one in the order they were made, every attempt but the last
  one failed, and a step has attempts only after it was entered.
\<close>

definition of_step :: "nat \<Rightarrow> model_attempt list \<Rightarrow> model_attempt list" where
  "of_step n as = filter (\<lambda>a. a_step a = n) as"

definition numbered :: "model_attempt list \<Rightarrow> bool" where
  "numbered as \<longleftrightarrow> map a_index as = [1..<length as + 1] \<and> list_all (\<lambda>a. a_status a = At_failed) (butlast as)"

definition attempt_valid :: "turn \<Rightarrow> model_attempt \<Rightarrow> bool" where
  "attempt_valid t a \<longleftrightarrow> model_attempt_ok a \<and> attempt_fields_ok a \<and> a_step a \<le> 1000
     \<and> (a_status a = At_running) = (a_finished_at a = None)"

definition attempts_ordered :: "thread \<Rightarrow> turn \<Rightarrow> bool" where
  "attempts_ordered th t \<longleftrightarrow> (\<forall>n. numbered (of_step n (t_model_attempts t)))
     \<and> list_all (\<lambda>a. a_step a \<le> t_model_steps t) (t_model_attempts t)
     \<and> distinct (map attempt_id (accounted_attempts t))
     \<and> list_all attempt_fields_ok (accounted_attempts t)
     \<and> distinct (map (cp_model_step \<circ> cr_plan) (t_compactions t)) \<and> length (t_compactions t) \<le> 1000
     \<and> list_all (\<lambda>c. cp_model_step (cr_plan c) \<le> t_model_steps t + 1) (t_compactions t)
     \<and> budget_ok (t_budget t)"

lemma of_step_simps [simp]:
  "of_step n [] = []" "of_step n (a # as) = (if a_step a = n then a # of_step n as else of_step n as)"
  "of_step n (as @ bs) = of_step n as @ of_step n bs"
  by (simp_all add: of_step_def)

lemma numbered_snoc: "numbered as \<Longrightarrow> a_index a = length as + 1 \<Longrightarrow> as = [] \<or> a_status (last as) = At_failed \<Longrightarrow>
    numbered (as @ [a])"
  by (cases as rule: rev_cases) (auto simp: numbered_def butlast_append)

lemma numbered_replace:
  assumes "numbered (xs @ a # ys)" "a_index b = a_index a" "a_status a = At_running"
  shows "numbered (xs @ b # ys)"
proof -
  have "ys = []"
    using assms(1,3) by (cases ys rule: rev_cases) (auto simp: numbered_def butlast_append)
  with assms show ?thesis by (simp add: numbered_def)
qed

lemma settle_keeps:
  assumes "settle_observation a p now = Inr (b, i, out)"
  shows "a_index b = a_index a" "a_step b = a_step a" "attempt_id b = attempt_id a" "a_status a = At_running"
    "a_provider b = a_provider a" "a_requested_model b = a_requested_model a"
  using assms by (cases p; auto simp: settle_observation_def Let_def)+

lemma settle_fields:
  assumes run: "settle_observation a p now = Inr (b, i, out)" and a: "attempt_fields_ok a"
    and p: "case p of Observed q \<Rightarrow> model_usage_observed_ok q | Finished q \<Rightarrow> model_attempt_finished_ok q"
  shows "attempt_fields_ok b"
proof (cases p)
  case (Observed q)
  with run have b: "b = a\<lparr>a_usage := mo_usage q, a_billing := (case mo_billing q of None \<Rightarrow> a_billing a | Some b \<Rightarrow> b),
      a_actual_model := or_else (mo_actual_model q) (a_actual_model a),
      a_response_id := or_else (mo_response_id q) (a_response_id a)\<rparr>"
    by (simp add: settle_observation_def Let_def)
  show ?thesis
    using a p unfolding b Observed
    by (auto simp: attempt_fields_ok_def model_usage_observed_ok_def or_else_def split: option.splits)
next
  case (Finished q)
  with run have b: "b = a\<lparr>a_status := mf_outcome q, a_error := mf_error q, a_finished_at := Some now\<rparr>"
    by (simp add: settle_observation_def)
  show ?thesis
    using a p unfolding b Finished by (simp add: attempt_fields_ok_def model_attempt_finished_ok_def)
qed

lemma new_attempt_fields: "model_attempt_started_ok p \<Longrightarrow> attempt_fields_ok (new_attempt p now)"
  by (simp add: model_attempt_started_ok_def attempt_fields_ok_def new_attempt_def no_billing_def response_billing_ok_def)

lemma attempts_ordered_same:
  assumes "attempts_ordered th t" "t_model_attempts t' = t_model_attempts t" "t_compactions t' = t_compactions t"
    "t_budget t' = t_budget t" "t_model_steps t \<le> t_model_steps t'"
  shows "attempts_ordered th t'"
proof -
  have "accounted_attempts t' = accounted_attempts t" using assms(2,3) by (simp add: accounted_attempts_def)
  with assms show ?thesis by (auto simp: attempts_ordered_def list_all_iff intro: order_trans)
qed

lemma start_attempt_ordered:
  assumes ord: "attempts_ordered th t" and run: "start_attempt t e p = Inr t'" and p: "model_attempt_started_ok p"
    and fresh: "ms_attempt_id p \<notin> attempt_id ` set (accounted_attempts t)"
  shows "attempts_ordered th t'"
proof -
  let ?a = "new_attempt p (occurred_at e)"
  from run have n: "ms_step p = t_model_steps t" "ms_index p = length (of_step (ms_step p) (t_model_attempts t)) + 1"
    and prev: "of_step (ms_step p) (t_model_attempts t) = []
       \<or> a_status (last (of_step (ms_step p) (t_model_attempts t))) = At_failed"
    and t': "t' = t\<lparr>t_model_attempts := t_model_attempts t @ [?a]\<rparr>"
    by (auto simp: start_attempt_def Let_def of_step_def)
  have "a_index ?a = ms_index p" by (simp add: new_attempt_def)
  with n(2) prev ord have "numbered (of_step k (t_model_attempts t @ [?a]))" for k
    by (auto simp: attempts_ordered_def intro!: numbered_snoc)
  moreover have "accounted_attempts t' = t_model_attempts t @ ?a # List.map_filter cr_attempt (t_compactions t)"
    by (simp add: t' accounted_attempts_def)
  ultimately show ?thesis
    using ord fresh n(1) new_attempt_fields [OF p]
    by (auto simp: attempts_ordered_def t' accounted_attempts_def)
qed

lemma settle_attempt_ordered:
  assumes ord: "attempts_ordered th t" and run: "settle_attempt t e p = Inr t'"
    and ok: "case p of Observed q \<Rightarrow> model_usage_observed_ok q | Finished q \<Rightarrow> model_attempt_finished_ok q"
  shows "attempts_ordered th t'"
proof -
  from run obtain a b i out u where a: "find (\<lambda>a. attempt_id a = obs_attempt_id p) (t_model_attempts t) = Some a"
    and s: "settle_observation a p (occurred_at e) = Inr (b, i, out)"
    and t': "t' = t\<lparr>t_usage := u, t_model_attempts := replace_by attempt_id b (t_model_attempts t)\<rparr>"
    by (auto simp: settle_attempt_def split: option.splits)
  from find_SomeD [OF a] have mem: "a \<in> set (t_model_attempts t)" by simp
  note keeps = settle_keeps [OF s]
  have "distinct (map attempt_id (t_model_attempts t))"
    using ord by (simp add: attempts_ordered_def accounted_attempts_def)
  from this mem keeps(3) [symmetric] obtain xs ys where split: "t_model_attempts t = xs @ a # ys"
      "replace_by attempt_id b (t_model_attempts t) = xs @ b # ys"
    by (rule replace_by_split)
  have t'': "t' = t\<lparr>t_usage := u, t_model_attempts := xs @ b # ys\<rparr>" by (simp only: t' split(2))
  have old: "numbered (of_step n (xs @ a # ys))" for n
    using ord by (simp add: attempts_ordered_def split(1))
  have "numbered (of_step n (xs @ b # ys))" for n
    using old [of n] keeps by (auto intro: numbered_replace)
  moreover have "attempt_fields_ok b"
    using ord ok by (intro settle_fields [OF s]) (auto simp: attempts_ordered_def accounted_attempts_def split(1))
  ultimately show ?thesis
    using ord keeps(2,3) by (auto simp: attempts_ordered_def t'' accounted_attempts_def split(1))
qed

text \<open>How a ledger record advances: its plan stays, and its request is kept, started or settled.\<close>

inductive request_change :: "thread \<Rightarrow> compaction_record \<Rightarrow> compaction_record \<Rightarrow> bool" for th r r' where
  same: "cr_attempt r' = cr_attempt r \<Longrightarrow> request_change th r r'"
| begun: "cr_status r = Cs_planned \<Longrightarrow> cr_attempt r' = Some (new_attempt p now) \<Longrightarrow> model_attempt_started_ok p \<Longrightarrow>
    ms_attempt_id p \<notin> attempt_id ` set (thread_attempts th) \<Longrightarrow> request_change th r r'"
| settled: "cr_attempt r = Some a \<Longrightarrow> cr_attempt r' = Some b \<Longrightarrow> settle_observation a q now = Inr (b, i, out) \<Longrightarrow>
    (case q of Observed o' \<Rightarrow> model_usage_observed_ok o' | Finished f \<Rightarrow> model_attempt_finished_ok f) \<Longrightarrow>
    request_change th r r'"

lemma advance_request:
  assumes "advance_record W th t e r p = Inr (r', u)" "compaction_event_ok p"
  shows "request_change th r r' \<and> cr_plan r' = cr_plan r"
proof (cases p)
  case (CompactionAttemptStarted c a)
  with assms show ?thesis
    by (auto simp: advance_record_def start_summary_def compaction_event_ok_def list_all_iff
        intro!: request_change.begun)
next
  case (CompactionUsageObserved c q)
  with assms show ?thesis
    by (auto simp: advance_record_def settle_summary_def compaction_event_ok_def split: option.splits
        intro!: request_change.settled [where q = "Observed q"])
next
  case (CompactionAttemptFinished c q)
  with assms show ?thesis
    by (auto simp: advance_record_def settle_summary_def compaction_event_ok_def split: option.splits
        intro!: request_change.settled [where q = "Finished q"])
next
  case (CompactionSummarized c s sha tokens)
  with assms(1) show ?thesis
    by (auto simp: advance_record_def summarize_def intro: request_change.same)
next
  case (CompactionRejected c out f un)
  with assms(1) show ?thesis
    by (auto simp: advance_record_def reject_compaction_def intro: request_change.same)
qed (use assms in \<open>simp add: advance_record_def\<close>)

lemma compaction_ordered:
  assumes ord: "attempts_ordered th t" and acc: "accounts th t" and run: "apply_compaction W th' t e p = Inr t'"
    and ok: "compaction_event_ok p" and mem: "t \<in> set (th_turns th')" and new: "\<not> (\<exists>plan ds. p = CompactionPlanned plan ds)"
  shows "attempts_ordered th t'"
proof -
  from run new obtain r r' u where r: "find (\<lambda>c. record_key c = event_compaction_id p) (t_compactions t) = Some r"
    and adv: "advance_record W th' t e r p = Inr (r', u)"
    and t': "t' = t\<lparr>t_usage := u, t_compactions := replace_by record_key r' (t_compactions t)\<rparr>"
    by (cases p) (auto simp: apply_compaction_def split: option.splits)
  from find_SomeD [OF r] have in_t: "r \<in> set (t_compactions t)" by simp
  from advance_request [OF adv ok] have ch: "request_change th' r r'" and plan: "cr_plan r' = cr_plan r" by simp_all
  have "distinct (map record_key (t_compactions t))" using acc by (simp add: accounts_def)
  moreover have "record_key r = record_key r'" using plan by (simp add: record_key_def)
  ultimately obtain xs ys where split: "t_compactions t = xs @ r # ys"
      "replace_by record_key r' (t_compactions t) = xs @ r' # ys"
    using in_t replace_by_split by metis
  have t'': "t' = t\<lparr>t_usage := u, t_compactions := xs @ r' # ys\<rparr>" by (simp only: t' split(2))
  have a': "accounted_attempts t' =
      t_model_attempts t @ List.map_filter cr_attempt xs @ record_attempts r' @ List.map_filter cr_attempt ys"
    by (subst accounted_split [of _ xs r' ys]) (simp_all add: t'')
  note a = accounted_split [OF split(1)]
  from ch have "distinct (map attempt_id (accounted_attempts t')) \<and> list_all attempt_fields_ok (accounted_attempts t')"
  proof (cases rule: request_change.cases)
    case same
    with ord show ?thesis by (simp add: attempts_ordered_def a a' record_attempts_def)
  next
    case (begun p now)
    have "compaction_record_ok r" using acc in_t by (auto simp: accounts_def list_all_iff)
    with begun(1) have "cr_attempt r = None" by (simp add: compaction_record_ok_def coherent_state_def)
    moreover have "set (accounted_attempts t) \<subseteq> set (thread_attempts th')"
      using mem by (auto simp: thread_attempts_def)
    ultimately show ?thesis
      using ord begun new_attempt_fields [OF begun(3)]
      by (auto simp: attempts_ordered_def a a' record_attempts_def)
  next
    case (settled a b q now i out)
    then have "attempt_fields_ok b"
      using ord by (intro settle_fields [OF settled(3)]) (auto simp: attempts_ordered_def a record_attempts_def)
    with ord settled(1,2) settle_keeps(3) [OF settled(3)] show ?thesis
      by (simp add: attempts_ordered_def a a' record_attempts_def)
  qed
  with ord show ?thesis by (auto simp: attempts_ordered_def t'' split(1) plan)
qed

lemma active_turn:
  assumes "thread_shape th" "t \<in> set (th_turns th)" "\<not> terminal t"
  shows "find (\<lambda>u. Some (turn_id u) = th_active_turn_id th) (th_turns th) = Some t"
proof -
  from assms obtain tid where tid: "th_active_turn_id th = Some tid"
    by (cases "th_active_turn_id th") (auto simp: thread_shape_def)
  from get_turn_shape [OF assms(1) tid] obtain us u where u: "th_turns th = us @ [u]" "turn_id u = tid"
      "\<forall>u \<in> set us. terminal u" "\<forall>u \<in> set us. turn_id u \<noteq> tid"
    by metis
  with assms(2,3) have "u = t" by auto
  with u tid show ?thesis by (simp add: find_last)
qed

lemma planned_ordered:
  assumes ord: "attempts_ordered th t" and run: "planned W th' t e plan ds = Inr t'"
    and shape: "thread_shape th'" "t \<in> set (th_turns th')" "\<not> terminal t"
  shows "attempts_ordered th t'"
proof -
  from run obtain pc where pc: "replay_compaction_plan W th' plan = Inr pc"
    and few: "length (t_compactions t) < 1000"
    and other: "\<forall>c \<in> set (t_compactions t). cp_model_step (cr_plan c) \<noteq> cp_model_step plan"
    and t': "t' = t\<lparr>t_compactions := t_compactions t @ [new_record t e plan],
              t_tool_result_view_decisions := t_tool_result_view_decisions t @ ds\<rparr>"
    by (auto simp: planned_def list_all_iff)
  from pc obtain i where "current_user th' (cp_model_step plan) = Inr i"
    by (auto simp: replay_compaction_plan_def plan_steps_def)
  then have "cp_model_step plan = t_model_steps t + 1"
    by (simp add: current_user_def active_turn [OF shape])
  moreover have "accounted_attempts t' = accounted_attempts t"
    by (simp add: t' accounted_attempts_def new_record_def List.map_filter_simps)
  ultimately show ?thesis
    using ord few other by (auto simp: attempts_ordered_def t' new_record_def)
qed

interpretation ordered: turn_invariant W attempts_ordered for W
proof
  fix th :: thread and t e t' w
  assume re: "reachable W th" and mem: "t \<in> set (th_turns th)" and live: "\<not> terminal t" and ok: "event_ok e"
    and ord: "attempts_ordered th t" and run: "apply_turn_event W th t e = Inr (t', w)"
  have p: "payload_ok (payload e)" using ok by (simp add: event_ok_def)
  note acc = accounts.every_turn [OF re mem]
  show "attempts_ordered th t'"
  proof (cases "payload e")
    case (TurnStateChanged q)
    with run have "change_state th t e q = Inr t'" by (simp add: apply_turn_event_def)
    from change_state_steps [OF this] show ?thesis
      by (intro attempts_ordered_same [OF ord]) auto
  next
    case (ModelAttemptStarted q)
    have "a \<in> set (thread_attempts th)" if "a \<in> set (accounted_attempts t)" for a
      using mem that by (auto simp: thread_attempts_def)
    with ModelAttemptStarted run have "ms_attempt_id q \<notin> attempt_id ` set (accounted_attempts t)"
      by (auto simp: apply_turn_event_def list_all_iff)
    with ModelAttemptStarted run p show ?thesis
      by (auto simp: apply_turn_event_def payload_ok_def intro: start_attempt_ordered [OF ord])
  next
    case (ModelUsageObserved q)
    with run p show ?thesis
      by (auto simp: apply_turn_event_def payload_ok_def intro: settle_attempt_ordered [OF ord])
  next
    case (ModelAttemptFinished q)
    with run p show ?thesis
      by (auto simp: apply_turn_event_def payload_ok_def intro: settle_attempt_ordered [OF ord])
  next
    case (CompactionEvent q)
    then have c: "apply_compaction W th t e q = Inr t'" "compaction_event_ok q"
      using run p by (simp_all add: apply_turn_event_def payload_ok_def)
    show ?thesis
    proof (cases "\<exists>plan ds. q = CompactionPlanned plan ds")
      case True
      with c(1) show ?thesis
        using planned_ordered [OF ord _ reachable_shape [OF re] mem live] by (auto simp: apply_compaction_def)
    next
      case False
      then show ?thesis using compaction_ordered [OF ord acc c mem] by blast
    qed
  next
    case (ItemFinished q)
    with run show ?thesis
      by (intro attempts_ordered_same [OF ord])
        (auto simp: apply_turn_event_def finish_item_def split: option.splits)
  qed (use run ord in \<open>auto simp: apply_turn_event_def start_item_def prepare_context_def
      prepare_model_history_event_def record_usage_def Let_def split: if_splits
      intro!: attempts_ordered_same [OF ord]\<close>)
next
  fix th th' :: thread and t
  assume "attempts_ordered th t"
  then show "attempts_ordered th' t" by (simp add: attempts_ordered_def)
next
  fix e p th tid
  assume "event_ok e" "payload e = TurnStarted p"
  then show "attempts_ordered th (new_turn e tid p)"
    by (simp add: attempts_ordered_def accounted_attempts_def List.map_filter_simps numbered_def event_ok_def
        payload_ok_def new_turn_def)
qed

section \<open>Every attempt can be priced\<close>

definition in_order :: "model_attempt \<Rightarrow> bool" where
  "in_order a \<longleftrightarrow> (case a_finished_at a of None \<Rightarrow> True | Some f \<Rightarrow> a_started_at a \<le> f)"

text \<open>Bindings as the host makes them: at most one per attempt, each by \<open>bind_price\<close>.\<close>

definition prices_bound :: "(string \<Rightarrow> url_parts option) \<Rightarrow> turn \<Rightarrow> price_binding list \<Rightarrow> bool" where
  "prices_bound urlsplit t bs \<longleftrightarrow> distinct (map pb_attempt_id bs)
     \<and> (\<forall>b \<in> set bs. \<exists>a \<in> set (accounted_attempts t). \<exists>price context. bind_price urlsplit a price context = Inr b)"

definition cost_ready :: "model_attempt \<Rightarrow> bool" where
  "cost_ready a \<longleftrightarrow> model_attempt_ok a \<and> attempt_fields_ok a \<and> cost_attempt_ok (cost_attempt_of a)"

lemma make_line_total:
  assumes "0 \<le> n" "rate_ok r"
  shows "\<exists>l. make_line c n r = Inr l"
  using assms rate_units_nonneg [OF assms(2)] format_amount_ok [of "n * rate_units r"]
  by (simp add: make_line_def Let_def cost_line_ok_def)

lemma input_lines_total:
  assumes "usage_observation_ok u" "input_tokens u = Some n" "input_price_ok p"
  shows "\<exists>r. input_lines u c p = Inr r"
proof (cases p)
  case (FlatInputPrice rate)
  with assms obtain l where "make_line Input n rate = Inr l"
    using make_line_total [of n rate Input] usage_observation_nonneg [OF assms(1) token_fields(1)]
    by (auto simp: input_price_ok_def)
  with FlatInputPrice assms(2) show ?thesis by (simp add: input_lines_def)
next
  case (PartitionedInputPrice ur rr cr ttl)
  show ?thesis
  proof (cases "\<exists>a b d. uncached_input_tokens u = Some a \<and> cache_read_input_tokens u = Some b
      \<and> cache_creation_input_tokens u = Some d")
    case True
    then obtain a b d where parts: "uncached_input_tokens u = Some a" "cache_read_input_tokens u = Some b"
        "cache_creation_input_tokens u = Some d" by blast
    with assms(1) have "0 \<le> a" "0 \<le> b" "0 \<le> d"
      by (auto simp: usage_observation_ok_def TOKEN_FIELDS_def Let_def)
    with assms(3) obtain l1 l2 l3 where "make_line Uncached_input a ur = Inr l1"
        "make_line Cache_read_input b rr = Inr l2" "make_line Cache_creation_input d cr = Inr l3"
      using make_line_total [of a ur Uncached_input] make_line_total [of b rr Cache_read_input]
        make_line_total [of d cr Cache_creation_input]
      by (auto simp: input_price_ok_def PartitionedInputPrice)
    with parts show ?thesis by (simp add: input_lines_def PartitionedInputPrice)
  next
    case False
    then show ?thesis
      by (auto simp: input_lines_def PartitionedInputPrice split: option.splits)
  qed
qed

lemma calculate_total:
  assumes "usage_observation_ok (ca_usage a)"
    and "case binding of None \<Rightarrow> True | Some b \<Rightarrow> price_binding_ok U b \<and> pb_attempt_id b = ca_attempt_id a
      \<and> pb_attempt_sha256 b = content_digest (cost_attempt_json a)"
  shows "\<exists>r. calculate a binding = Inr r"
proof (cases binding)
  case None
  then show ?thesis by (simp add: calculate_def)
next
  case (Some b)
  with assms(2) have b: "price_binding_ok U b" "pb_attempt_id b = ca_attempt_id a"
      "pb_attempt_sha256 b = content_digest (cost_attempt_json a)" by simp_all
  then have rates: "input_price_ok (pr_input_price (pb_price b))" "rate_ok (pr_output_per_million (pb_price b))"
    by (simp_all add: price_binding_ok_def price_snapshot_ok_def)
  have "\<exists>n out. input_tokens (ca_usage a) = Some n \<and> output_tokens (ca_usage a) = Some out \<and> 0 \<le> out"
    if "completeness (ca_usage a) = Complete"
    using that assms(1) by (auto simp: usage_observation_ok_def TOKEN_FIELDS_def Let_def)
  then show ?thesis
    using b(2,3) input_lines_total [OF assms(1) _ rates(1), of _ "pb_context b"]
      make_line_total [OF _ rates(2), of _ Output]
    unfolding calculate_def Some option.case Let_def
    by (cases "completeness (ca_usage a) = Complete") (fastforce split: sum.splits option.splits)+
qed

lemma bound_price:
  assumes "bind_price U a price c = Inr b"
  shows "pb_attempt_id b = attempt_id a \<and> price_binding_ok U b
    \<and> pb_attempt_sha256 b = content_digest (cost_attempt_json (cost_attempt_of a))
    \<and> resolve_billing_context a (pb_context b) = Inr (pb_context b)"
  using assms resolve_again by (auto simp: bind_price_def from_attempt_def Let_def)

lemma estimate_total:
  assumes ready: "cost_ready a" and bound: "prices_bound U t bs" and a: "a \<in> set (accounted_attempts t)"
    and ids: "distinct (map attempt_id (accounted_attempts t))"
  shows "\<exists>c. estimate_attempt U a (binding_for bs a) = Inr c \<and> ac_attempt c = cost_attempt_of a
    \<and> attempt_cost_ok U c"
proof -
  have b: "pb_attempt_id b = attempt_id a \<and> price_binding_ok U b
      \<and> pb_attempt_sha256 b = content_digest (cost_attempt_json (cost_attempt_of a))
      \<and> resolve_billing_context a (pb_context b) = Inr (pb_context b)" if "binding_for bs a = Some b" for b
  proof -
    from that have "b \<in> set bs" and id: "pb_attempt_id b = attempt_id a"
      by (auto simp: binding_for_def dest: find_SomeD)
    with bound obtain a' p c where a': "a' \<in> set (accounted_attempts t)" "bind_price U a' p c = Inr b"
      by (auto simp: prices_bound_def)
    from bound_price [OF a'(2)] id have "attempt_id a' = attempt_id a" by simp
    with ids a a'(1) have "a' = a" by (auto simp: distinct_map inj_on_def)
    with bound_price [OF a'(2)] show ?thesis by simp
  qed
  have u: "usage_observation_ok (ca_usage (cost_attempt_of a))"
    using ready by (simp add: cost_ready_def cost_attempt_ok_def)
  obtain r where r: "calculate (cost_attempt_of a) (binding_for bs a) = Inr r"
  proof -
    have "\<exists>r. calculate (cost_attempt_of a) (binding_for bs a) = Inr r"
      using b by (intro calculate_total [OF u, where U = U]) (auto simp: cost_attempt_of_def split: option.splits)
    with that show ?thesis by blast
  qed
  with ready b show ?thesis
    by (cases "binding_for bs a")
      (simp_all add: estimate_attempt_def from_attempt_def cost_ready_def attempt_cost_ok_def)
qed

section \<open>The summary exists\<close>

lemma append_at_groups:
  assumes "distinct (map fst d)" "\<forall>k xs. (k, xs) \<in> set d \<longleftrightarrow> xs \<noteq> [] \<and> xs = filter (\<lambda>a. f a = k) as"
  shows "distinct (map fst (append_at (f x) x d))
    \<and> (\<forall>k xs. (k, xs) \<in> set (append_at (f x) x d) \<longleftrightarrow> xs \<noteq> [] \<and> xs = filter (\<lambda>a. f a = k) (as @ [x]))"
proof -
  have keys: "fst ` set (append_at (f x) x d) = insert (f x) (fst ` set d)"
    by (induction d rule: append_at.induct) auto
  have dist: "distinct (map fst (append_at (f x) x d))"
    using assms(1)
  proof (induction d)
    case (Cons p d)
    have "fst ` set (append_at (f x) x d) = insert (f x) (fst ` set d)"
      by (induction d rule: append_at.induct) auto
    with Cons show ?case by (cases p) auto
  qed simp
  have at: "map_of (append_at k y d) = (map_of d)(k \<mapsto> (case map_of d k of None \<Rightarrow> [y] | Some ys \<Rightarrow> ys @ [y]))" for k and y :: 'a
    by (induction d) auto
  have old: "map_of d k = (if filter (\<lambda>a. f a = k) as = [] then None else Some (filter (\<lambda>a. f a = k) as))" for k
  proof (cases "filter (\<lambda>a. f a = k) as = []")
    case True
    with assms(2) have "map_of d k = None" by (auto simp: map_of_eq_None_iff)
    with True show ?thesis by simp
  next
    case False
    with assms show ?thesis by simp
  qed
  have "(k, xs) \<in> set (append_at (f x) x d) \<longleftrightarrow> xs \<noteq> [] \<and> xs = filter (\<lambda>a. f a = k) (as @ [x])" for k xs
    using dist by (auto simp: old at simp flip: map_of_eq_Some_iff split: if_splits)
  with dist show ?thesis by blast
qed

lemma scan_entries:
  assumes "distinct (map (ca_attempt_id \<circ> ac_attempt) es)"
    and "distinct (map (\<lambda>e. (ca_step (ac_attempt e), ca_index (ac_attempt e))) es)"
    and "list_all (\<lambda>e. ca_step (ac_attempt e) \<le> n) es"
  shows "\<exists>s. foldE (scan_entry n) \<lparr>cf_ids = [], cf_pairs = [], cf_by_step = [], cf_totals = no_totals\<rparr> es = Inr s
    \<and> set (cf_ids s) = (ca_attempt_id \<circ> ac_attempt) ` set es
    \<and> set (cf_pairs s) = (\<lambda>e. (ca_step (ac_attempt e), ca_index (ac_attempt e))) ` set es
    \<and> distinct (map fst (cf_by_step s))
    \<and> (\<forall>k xs. (k, xs) \<in> set (cf_by_step s) \<longleftrightarrow> xs \<noteq> [] \<and> xs = filter (\<lambda>a. ca_step a = k) (map ac_attempt es))"
  using assms
proof (induction es rule: rev_induct)
  case Nil
  then show ?case by simp
next
  case (snoc e es)
  then obtain s where s: "foldE (scan_entry n) \<lparr>cf_ids = [], cf_pairs = [], cf_by_step = [], cf_totals = no_totals\<rparr> es = Inr s"
      "set (cf_ids s) = (ca_attempt_id \<circ> ac_attempt) ` set es"
      "set (cf_pairs s) = (\<lambda>e. (ca_step (ac_attempt e), ca_index (ac_attempt e))) ` set es"
      "distinct (map fst (cf_by_step s))"
      "\<forall>k xs. (k, xs) \<in> set (cf_by_step s) \<longleftrightarrow> xs \<noteq> [] \<and> xs = filter (\<lambda>a. ca_step a = k) (map ac_attempt es)"
    by auto
  from snoc.prems have fresh: "ca_attempt_id (ac_attempt e) \<notin> set (cf_ids s)"
      "(ca_step (ac_attempt e), ca_index (ac_attempt e)) \<notin> set (cf_pairs s)" "ca_step (ac_attempt e) \<le> n"
    by (auto simp: s(2,3))
  define s' where "s' = s\<lparr>cf_ids := ca_attempt_id (ac_attempt e) # cf_ids s,
    cf_pairs := (ca_step (ac_attempt e), ca_index (ac_attempt e)) # cf_pairs s,
    cf_by_step := append_at (ca_step (ac_attempt e)) (ac_attempt e) (cf_by_step s),
    cf_totals := add_total (cf_totals s) (ac_result e)\<rparr>"
  have "scan_entry n s e = Inr s'" using fresh by (simp add: scan_entry_def Let_def s'_def)
  with s(1) have "foldE (scan_entry n) \<lparr>cf_ids = [], cf_pairs = [], cf_by_step = [], cf_totals = no_totals\<rparr> (es @ [e]) = Inr s'"
    by (simp add: foldE_append)
  with append_at_groups [OF s(4,5), of "ac_attempt e"] s(2,3) show ?case
    by (intro exI [of _ s'] conjI) (simp_all add: s'_def)
qed

lemma distinct_pairs:
  assumes "\<And>n. distinct (map g (filter (\<lambda>a. f a = n) as))"
  shows "distinct (map (\<lambda>a. (f a, g a)) as)"
  using assms
proof (induction as)
  case (Cons a as)
  have "distinct (map g (filter (\<lambda>a. f a = n) as))" for n
    using Cons.prems [of n] by (simp split: if_splits)
  moreover have "(f a, g a) \<notin> (\<lambda>a. (f a, g a)) ` set as"
  proof
    assume "(f a, g a) \<in> (\<lambda>a. (f a, g a)) ` set as"
    then obtain b where "b \<in> set as" "f b = f a" "g b = g a" by auto
    with Cons.prems [of "f a"] show False by (auto simp: image_iff)
  qed
  ultimately show ?case using Cons.IH by simp
qed simp

lemma numbered_step_ok:
  assumes "numbered as"
  shows "step_ok (map cost_attempt_of as)"
proof -
  have idx: "map ca_index (map cost_attempt_of as) = [1..<length as + 1]"
    using assms by (simp add: numbered_def cost_attempt_of_def comp_def)
  then have "sorted (map ca_index (map cost_attempt_of as))" by (simp only: sorted_upt)
  then have "sort_key ca_index (map cost_attempt_of as) = map cost_attempt_of as" by (rule sort_key_id_if_sorted)
  with idx assms show ?thesis
    by (simp add: step_ok_def numbered_def map_butlast [symmetric] list.pred_map cost_attempt_of_def comp_def del: map_map)
qed

text \<open>What the totality proof needs of a Turn.\<close>

definition priceable :: "turn \<Rightarrow> bool" where
  "priceable t \<longleftrightarrow> list_all cost_ready (accounted_attempts t)"

lemma ready_attempt:
  assumes "model_attempt_ok a" "attempt_fields_ok a" "in_order a" "a_step a \<le> 1000"
  shows "cost_ready a"
  using assms
  by (auto simp: cost_ready_def cost_attempt_ok_def cost_attempt_of_def attempt_fields_ok_def model_attempt_ok_def
      in_order_def split: if_splits option.splits)

lemma turn_priceable:
  assumes acc: "accounts th t" and ord: "attempts_ordered th t" and times: "list_all in_order (t_model_attempts t)"
  shows "priceable t"
proof -
  have steps: "t_model_steps t \<le> 1000"
    using acc ord by (simp add: accounts_def attempts_ordered_def budget_ok_def)
  have "cost_ready a" if a: "a \<in> set (accounted_attempts t)" for a
  proof -
    have ok: "model_attempt_ok a" "attempt_fields_ok a"
      using a acc ord by (auto simp: accounts_def attempts_ordered_def list_all_iff)
    have "in_order a \<and> a_step a \<le> 1000"
    proof (cases "a \<in> set (t_model_attempts t)")
      case True
      with times ord steps show ?thesis by (auto simp: list_all_iff attempts_ordered_def)
    next
      case False
      with a obtain r where "r \<in> set (t_compactions t)" "cr_attempt r = Some a"
        by (auto simp: accounted_attempts_def List.map_filter_def split: if_splits)
      moreover from this acc have "compaction_record_ok r" by (auto simp: accounts_def list_all_iff)
      ultimately show ?thesis
        by (auto simp: compaction_record_ok_def coherent_state_def attempt_times_ok_def in_order_def
            compaction_plan_ok_def split: option.splits)
    qed
    with ok show ?thesis by (intro ready_attempt) simp_all
  qed
  then show ?thesis by (simp add: priceable_def list_all_iff)
qed

lemma costs_summarized:
  assumes ord: "attempts_ordered th t" and es: "map ac_attempt es = map cost_attempt_of (t_model_attempts t)"
  shows "\<exists>s. summarize_costs es (t_model_steps t) status = Inr s"
proof -
  let ?as = "t_model_attempts t"
  have num: "numbered (of_step n ?as)" for n using ord by (simp add: attempts_ordered_def)
  have lift: "map (f \<circ> ac_attempt) es = map (f \<circ> cost_attempt_of) ?as" for f :: "cost_attempt \<Rightarrow> 'b"
    using es by (metis map_map)
  have ids: "distinct (map (ca_attempt_id \<circ> ac_attempt) es)"
    using ord unfolding lift by (simp add: attempts_ordered_def accounted_attempts_def cost_attempt_of_def comp_def)
  have "distinct (map a_index (of_step n ?as))" for n
    using num [of n] by (simp add: numbered_def)
  then have "distinct (map (\<lambda>a. (a_step a, a_index a)) ?as)" by (intro distinct_pairs) (simp add: of_step_def)
  then have pairs: "distinct (map (\<lambda>e. (ca_step (ac_attempt e), ca_index (ac_attempt e))) es)"
    using lift [of "\<lambda>a. (ca_step a, ca_index a)"] by (simp add: comp_def cost_attempt_of_def)
  have "list_all (\<lambda>a. ca_step a \<le> t_model_steps t) (map ac_attempt es)"
    using ord unfolding es by (simp add: attempts_ordered_def list.pred_map cost_attempt_of_def comp_def)
  then have steps: "list_all (\<lambda>e. ca_step (ac_attempt e) \<le> t_model_steps t) es"
    by (simp add: list.pred_map comp_def)
  from scan_entries [OF ids pairs steps] obtain s where s: "foldE (scan_entry (t_model_steps t))
        \<lparr>cf_ids = [], cf_pairs = [], cf_by_step = [], cf_totals = no_totals\<rparr> es = Inr s"
      "\<forall>k xs. (k, xs) \<in> set (cf_by_step s) \<longleftrightarrow> xs \<noteq> [] \<and> xs = filter (\<lambda>a. ca_step a = k) (map ac_attempt es)"
    by (elim exE conjE)
  have "filter (\<lambda>a. ca_step a = k) (map ac_attempt es) = map cost_attempt_of (of_step k ?as)" for k
    unfolding es by (simp add: filter_map of_step_def comp_def cost_attempt_of_def)
  with s(2) numbered_step_ok [OF num] have "list_all (\<lambda>(_, xs). step_ok xs) (cf_by_step s)"
    by (auto simp: list_all_iff)
  with s(1) show ?thesis by (simp add: summarize_costs_def Let_def)
qed

lemma few_attempts:
  assumes ord: "attempts_ordered th t" and ready: "priceable t"
  shows "length (t_model_attempts t) \<le> 32000"
proof -
  let ?as = "t_model_attempts t"
  have "distinct (map a_index (of_step n ?as))" for n
    using ord by (simp add: attempts_ordered_def numbered_def)
  then have dist: "distinct (map (\<lambda>a. (a_step a, a_index a)) ?as)" by (intro distinct_pairs) (simp add: of_step_def)
  have "cost_attempt_ok (cost_attempt_of a)" if "a \<in> set ?as" for a
    using ready that by (auto simp: priceable_def cost_ready_def accounted_attempts_def list_all_iff)
  then have "(\<lambda>a. (a_step a, a_index a)) ` set ?as \<subseteq> {1..1000} \<times> {1..32}"
    by (fastforce simp: cost_attempt_ok_def cost_attempt_of_def)
  then have "card ((\<lambda>a. (a_step a, a_index a)) ` set ?as) \<le> card ({1..1000::nat} \<times> {1..32::nat})"
    by (intro card_mono) auto
  then show ?thesis using distinct_card [OF dist] by simp
qed

lemma mapE_Inr: "(\<And>x. x \<in> set xs \<Longrightarrow> f x = Inr (g x)) \<Longrightarrow> mapE f xs = Inr (map g xs)"
  by (induction xs) simp_all

section \<open>The report exists\<close>

definition the_estimate :: "(string \<Rightarrow> url_parts option) \<Rightarrow> price_binding list \<Rightarrow> model_attempt \<Rightarrow> attempt_cost" where
  "the_estimate U bs a = projr (estimate_attempt U a (binding_for bs a))"

definition generated :: "(string \<Rightarrow> url_parts option) \<Rightarrow> price_binding list \<Rightarrow> model_attempt \<Rightarrow> accounted_cost" where
  "generated U bs a = \<lparr>acc_entry = the_estimate U bs a, acc_purpose = Generation, acc_compaction_id = None\<rparr>"

definition compacted :: "(string \<Rightarrow> url_parts option) \<Rightarrow> price_binding list \<Rightarrow> uuid \<times> model_attempt \<Rightarrow> accounted_cost" where
  "compacted U bs x = \<lparr>acc_entry = the_estimate U bs (snd x), acc_purpose = Compaction, acc_compaction_id = Some (fst x)\<rparr>"

definition state_of :: "compaction_record \<Rightarrow> compaction_cost_state" where
  "state_of r = \<lparr>cc_compaction_id = record_key r, cc_model_step = cp_model_step (cr_plan r),
     cc_status = cr_status r, cc_attempt_id = map_option attempt_id (cr_attempt r),
     cc_unaccounted_request_possible = cr_unaccounted_request_possible r\<rparr>"

lemma find_map_eq: "find P (map f xs) = map_option f (find (P \<circ> f) xs)"
  by (induction xs) simp_all

lemma summary_attempts_simps:
  "t_compactions t = rs \<Longrightarrow> summary_attempts t = List.map_filter (\<lambda>c. map_option (Pair (record_key c)) (cr_attempt c)) rs"
  by (simp add: summary_attempts_def record_key_def)

lemma find_summary:
  assumes "distinct (map record_key rs)" "r \<in> set rs"
  shows "find (\<lambda>x. fst x = record_key r) (List.map_filter (\<lambda>c. map_option (Pair (record_key c)) (cr_attempt c)) rs)
    = map_option (Pair (record_key r)) (cr_attempt r)"
  using assms
proof (induction rs)
  case (Cons c rs)
  have none: "find (\<lambda>x. fst x = record_key r) (List.map_filter (\<lambda>c. map_option (Pair (record_key c)) (cr_attempt c)) rs) = None"
    if "record_key r \<notin> record_key ` set rs"
    using that by (induction rs) (simp_all add: List.map_filter_simps split: option.splits)
  show ?case
  proof (cases "r = c")
    case True
    with Cons.prems none show ?thesis by (cases "cr_attempt c") (simp_all add: List.map_filter_simps)
  next
    case False
    with Cons.prems have "record_key c \<noteq> record_key r" by auto
    with False Cons show ?thesis by (cases "cr_attempt c") (simp_all add: List.map_filter_simps)
  qed
qed simp

lemma summary_keys: "distinct (map record_key rs) \<Longrightarrow>
    distinct (map fst (List.map_filter (\<lambda>c. map_option (Pair (record_key c)) (cr_attempt c)) rs))
    \<and> fst ` set (List.map_filter (\<lambda>c. map_option (Pair (record_key c)) (cr_attempt c)) rs) \<subseteq> record_key ` set rs
    \<and> map snd (List.map_filter (\<lambda>c. map_option (Pair (record_key c)) (cr_attempt c)) rs) = List.map_filter cr_attempt rs"
  by (induction rs) (auto simp: List.map_filter_simps split: option.splits)

text \<open>The invariants of a reachable Turn with sane times and bound prices, as one condition.\<close>

definition priced :: "(string \<Rightarrow> url_parts option) \<Rightarrow> thread \<Rightarrow> turn \<Rightarrow> price_binding list \<Rightarrow> bool" where
  "priced U th t bs \<longleftrightarrow> accounts th t \<and> attempts_ordered th t \<and> priceable t \<and> prices_bound U t bs"

lemma priced_ordered: "priced U th t bs \<Longrightarrow> attempts_ordered th t"
  by (simp add: priced_def)

lemma estimate:
  assumes p: "priced U th t bs" and a: "a \<in> set (accounted_attempts t)"
  shows "estimate_attempt U a (binding_for bs a) = Inr (the_estimate U bs a)"
    "ac_attempt (the_estimate U bs a) = cost_attempt_of a" "attempt_cost_ok U (the_estimate U bs a)"
  using p estimate_total [of a U t bs] a
  by (auto simp: priced_def priceable_def list_all_iff attempts_ordered_def the_estimate_def)

lemma generation_total: "priced U th t bs \<Longrightarrow>
    mapE (\<lambda>a. estimate_attempt U a (binding_for bs a)) (t_model_attempts t)
    = Inr (map (the_estimate U bs) (t_model_attempts t))"
  by (rule mapE_Inr, rule estimate(1), assumption) (simp add: accounted_attempts_def)

lemma mapE_map: "mapE f (map g xs) = mapE (f \<circ> g) xs"
  by (induction xs) simp_all

lemma generated_total: "priced U th t bs \<Longrightarrow>
    mapE (generation_entry U) (map (the_estimate U bs) (t_model_attempts t))
    = Inr (map (generated U bs) (t_model_attempts t))"
  unfolding mapE_map using estimate(3)
  by (intro mapE_Inr) (simp add: generation_entry_def accounted_cost_ok_def accounted_attempts_def generated_def)

lemma keys:
  assumes "priced U th t bs"
  shows "distinct (map fst (summary_attempts t))" "fst ` set (summary_attempts t) \<subseteq> record_key ` set (t_compactions t)"
    "map snd (summary_attempts t) = List.map_filter cr_attempt (t_compactions t)"
proof -
  have "distinct (map record_key (t_compactions t))" using assms by (simp add: priced_def accounts_def)
  from summary_keys [OF this] show "distinct (map fst (summary_attempts t))"
    "fst ` set (summary_attempts t) \<subseteq> record_key ` set (t_compactions t)"
    "map snd (summary_attempts t) = List.map_filter cr_attempt (t_compactions t)"
    by (simp_all add: summary_attempts_simps [OF refl])
qed

lemma summary_accounted:
  assumes "priced U th t bs" "x \<in> set (summary_attempts t)"
  shows "snd x \<in> set (accounted_attempts t)"
proof -
  have "snd x \<in> set (map snd (summary_attempts t))" using assms(2) by simp
  then show ?thesis using keys(3) [OF assms(1)] by (simp add: accounted_attempts_def)
qed

lemma compacted_total:
  assumes "priced U th t bs"
  shows "mapE (compaction_entry U bs) (summary_attempts t) = Inr (map (compacted U bs) (summary_attempts t))"
proof (rule mapE_Inr)
  fix x assume "x \<in> set (summary_attempts t)"
  from estimate [OF assms summary_accounted [OF assms this]] show "compaction_entry U bs x = Inr (compacted U bs x)"
    by (simp add: compaction_entry_def compacted_def accounted_cost_ok_def)
qed

lemma states_total: "priced U th t bs \<Longrightarrow> mapE cost_state (t_compactions t) = Inr (map state_of (t_compactions t))"
  by (intro mapE_Inr) (auto simp: cost_state_def state_of_def record_key_def cost_state_ok_def accounts_def
      list_all_iff compaction_record_ok_def compaction_plan_ok_def priced_def)

lemma ids_distinct:
  assumes p: "priced U th t bs"
  shows "distinct (map (ca_attempt_id \<circ> ac_attempt \<circ> acc_entry)
    (map (generated U bs) (t_model_attempts t) @ map (compacted U bs) (summary_attempts t)))"
proof -
  have "map (ca_attempt_id \<circ> ac_attempt \<circ> acc_entry) (map (generated U bs) (t_model_attempts t))
      = map attempt_id (t_model_attempts t)"
    using estimate(2) [OF p] by (simp add: generated_def accounted_attempts_def cost_attempt_of_def)
  moreover have "map (ca_attempt_id \<circ> ac_attempt \<circ> acc_entry) (map (compacted U bs) (summary_attempts t))
      = map attempt_id (map snd (summary_attempts t))"
    using estimate(2) [OF p summary_accounted [OF p]] by (simp add: compacted_def cost_attempt_of_def)
  moreover have "distinct (map attempt_id (t_model_attempts t @ map snd (summary_attempts t)))"
    using p by (simp add: keys(3) [OF p] priced_def attempts_ordered_def accounted_attempts_def)
  ultimately show ?thesis by (simp only: map_append)
qed

lemma entry_ok:
  assumes p: "priced U th t bs" and r: "r \<in> set (t_compactions t)"
  shows "compaction_entry_ok (t_model_steps t) (map (compacted U bs) (summary_attempts t)) (state_of r)"
proof -
  have "distinct (map record_key (t_compactions t))" using p by (simp add: priced_def accounts_def)
  from find_summary [OF this r]
  have "find (\<lambda>e. acc_compaction_id e = Some (record_key r)) (map (compacted U bs) (summary_attempts t))
      = map_option (compacted U bs \<circ> Pair (record_key r)) (cr_attempt r)"
    by (simp add: find_map_eq comp_def compacted_def summary_attempts_simps [OF refl] option.map_comp)
  moreover have "a \<in> set (accounted_attempts t)" if "cr_attempt r = Some a" for a
    using that r by (force simp: accounted_attempts_def List.map_filter_def)
  note est = estimate(2) [OF p this]
  have "compaction_record_ok r" "cp_model_step (cr_plan r) \<le> t_model_steps t + 1"
    using r p by (auto simp: accounts_def attempts_ordered_def list_all_iff priced_def)
  ultimately show ?thesis
    using est by (cases "cr_attempt r")
      (auto simp: compaction_entry_ok_def state_of_def compacted_def cost_attempt_of_def cc_open_def Let_def
        compaction_record_ok_def coherent_state_def)
qed

lemma state_keys: "(Some \<circ> cc_compaction_id) ` set (map state_of rs) = Some ` record_key ` set rs"
  by (simp add: image_image state_of_def)

lemma accounted_total:
  assumes p: "priced U th t bs"
  shows "\<exists>s. summarize_accounted (map (generated U bs) (t_model_attempts t) @ map (compacted U bs) (summary_attempts t))
      (map state_of (t_compactions t)) (t_model_steps t) (t_status t) = Inr s"
proof -
  let ?g = "map (generated U bs) (t_model_attempts t)" and ?c = "map (compacted U bs) (summary_attempts t)"
  have split: "filter (\<lambda>e. acc_purpose e = Generation) (?g @ ?c) = ?g" "filter (\<lambda>e. acc_purpose e = Compaction) (?g @ ?c) = ?c"
    by (simp_all add: generated_def compacted_def filter_map comp_def)
  have "map ac_attempt (map acc_entry ?g) = map cost_attempt_of (t_model_attempts t)"
    using estimate(2) [OF p] by (simp add: generated_def accounted_attempts_def)
  from costs_summarized [OF priced_ordered [OF p] this] obtain s
    where s: "summarize_costs (map acc_entry ?g) (t_model_steps t) (t_status t) = Inr s"
    by blast
  have "distinct (map cc_compaction_id (map state_of (t_compactions t)))
      \<and> distinct (map cc_model_step (map state_of (t_compactions t)))"
    using p by (simp add: priced_def accounts_def attempts_ordered_def state_of_def comp_def)
  moreover have "distinct (map acc_compaction_id ?c)"
  proof -
    have "map acc_compaction_id ?c = map Some (map fst (summary_attempts t))" by (simp add: compacted_def)
    then show ?thesis using keys(1) [OF p] by (simp only: distinct_map inj_Some inj_on_subset simp_thms subset_UNIV)
  qed
  moreover have "list_all (\<lambda>e. acc_compaction_id e \<in> (Some \<circ> cc_compaction_id) ` set (map state_of (t_compactions t))) ?c"
    using keys(2) [OF p] unfolding state_keys by (auto simp: list_all_iff compacted_def)
  moreover have "list_all (compaction_entry_ok (t_model_steps t) ?c) (map state_of (t_compactions t))"
    using entry_ok [OF p] by (simp add: list_all_iff)
  ultimately show ?thesis
    using s ids_distinct [OF p] unfolding summarize_accounted_def Let_def split
    by (simp only: bindE_Inr_apply check_True simp_thms) simp
qed

lemma accounted_report_total:
  assumes p: "priced U th t bs" and entries: "entries = map (the_estimate U bs) (t_model_attempts t)"
    and ok: "\<And>s. summarize_accounted (map (generated U bs) (t_model_attempts t) @ map (compacted U bs) (summary_attempts t))
      (map state_of (t_compactions t)) (t_model_steps t) (t_status t) = Inr s \<Longrightarrow>
      cost_report_ok U (mk (map state_of (t_compactions t))
        (map (generated U bs) (t_model_attempts t) @ map (compacted U bs) (summary_attempts t)) s)"
  shows "\<exists>r. accounted_report U t bs entries mk = Inr r \<and> cost_report_ok U r"
proof -
  obtain s where s: "summarize_accounted (map (generated U bs) (t_model_attempts t) @ map (compacted U bs) (summary_attempts t))
      (map state_of (t_compactions t)) (t_model_steps t) (t_status t) = Inr s"
    using accounted_total [OF p] by blast
  from ok [OF this] s show ?thesis
    by (simp only: accounted_report_def entries generated_total [OF p] compacted_total [OF p] states_total [OF p]
        bindE_Inr_apply Let_def check_True sum.inject) simp
qed

lemma report_bounds:
  assumes p: "priced U th t bs"
  shows "length (t_model_attempts t) \<le> 32000" "length (summary_attempts t) \<le> 1000" "length (t_compactions t) \<le> 1000"
    "t_model_steps t \<le> 1000" "list_all cost_state_ok (map state_of (t_compactions t))"
    "list_all (accounted_cost_ok U)
       (map (generated U bs) (t_model_attempts t) @ map (compacted U bs) (summary_attempts t))"
    "list_all (attempt_cost_ok U) (map (the_estimate U bs) (t_model_attempts t))"
proof -
  show "length (t_model_attempts t) \<le> 32000" using p few_attempts by (auto simp: priced_def)
  show c: "length (t_compactions t) \<le> 1000" using p by (simp add: priced_def attempts_ordered_def)
  have "length (summary_attempts t) \<le> length (t_compactions t)"
    by (simp add: summary_attempts_def List.map_filter_def)
  with c show "length (summary_attempts t) \<le> 1000" by simp
  show "t_model_steps t \<le> 1000" using p by (simp add: priced_def accounts_def attempts_ordered_def budget_ok_def)
  show "list_all cost_state_ok (map state_of (t_compactions t))"
    using p by (auto simp: list_all_iff cost_state_ok_def state_of_def priced_def accounts_def compaction_record_ok_def
        compaction_plan_ok_def)
  show "list_all (attempt_cost_ok U) (map (the_estimate U bs) (t_model_attempts t))"
    using estimate(3) [OF p] by (simp add: list_all_iff accounted_attempts_def)
  show "list_all (accounted_cost_ok U)
       (map (generated U bs) (t_model_attempts t) @ map (compacted U bs) (summary_attempts t))"
    using estimate(3) [OF p] summary_accounted [OF p]
    by (auto simp: list_all_iff accounted_cost_ok_def generated_def compacted_def accounted_attempts_def)
qed

lemma build_total:
  assumes p: "priced U th t bs"
  shows "\<exists>r. build_cost_report U t bs = Inr r \<and> cost_report_ok U r"
proof -
  let ?es = "map (the_estimate U bs) (t_model_attempts t)"
  note bounds = report_bounds [OF p]
  have ids: "distinct (map pb_attempt_id bs) \<and> list_all (\<lambda>b. pb_attempt_id b \<in> attempt_id ` set (accounted_attempts t)) bs"
    using p bound_price by (fastforce simp: priced_def prices_bound_def list_all_iff)
  have v3: "\<exists>r. accounted_report U t bs ?es (CostReportV3 (turn_id t) (t_status t) (t_model_steps t)) = Inr r
      \<and> cost_report_ok U r"
    using bounds by (intro accounted_report_total [OF p refl]) (simp add: cost_report_ok_def)
  have v2: "\<exists>r. accounted_report U t bs ?es (CostReportV2 (turn_id t) (t_status t) (t_model_steps t)) = Inr r
      \<and> cost_report_ok U r" if "t_status t \<noteq> Ts_WAITING_INPUT" "t_compactions t \<noteq> []"
    using bounds that by (intro accounted_report_total [OF p refl]) (simp add: cost_report_ok_def status_v18_ok_def Suc_le_eq)
  have "map ac_attempt ?es = map cost_attempt_of (t_model_attempts t)"
    using estimate(2) [OF p] by (simp add: accounted_attempts_def)
  from costs_summarized [OF priced_ordered [OF p] this] obtain s
    where s: "summarize_costs ?es (t_model_steps t) (t_status t) = Inr s"
    by blast
  then have v1: "cost_report_ok U (CostReport (turn_id t) (t_status t) (t_model_steps t) ?es s)"
    if "t_status t \<noteq> Ts_WAITING_INPUT"
    using that bounds by (simp add: cost_report_ok_def status_v18_ok_def)
  show ?thesis
    using ids generation_total [OF p] v3 v2 v1 s
    by (auto simp: build_cost_report_def)
qed

section \<open>Property: a report for every Turn\<close>

text \<open>C18. Every Turn of a replayed Thread has a cost report, whatever its state and whatever prices are
  bound to its attempts, provided that no attempt ends before it starts: the report is built without an
  error and satisfies its own validators (identities and pairs distinct, every step numbered without
  gap, only failed attempts repeated, every compaction matched with its request, summary recomputed).\<close>

theorem cost_report_exists:
  assumes "replay W es = Inr th" and "list_all event_ok es" and "t \<in> set (th_turns th)"
    and "list_all in_order (t_model_attempts t)" and "prices_bound urlsplit t bs"
  shows "\<exists>r. build_cost_report urlsplit t bs = Inr r \<and> cost_report_ok urlsplit r"
proof -
  note re = replay_reachable [OF assms(1,2)]
  note acc = accounts.every_turn [OF re assms(3)] and ord = ordered.every_turn [OF re assms(3)]
  have "priced urlsplit th t bs"
    using acc ord turn_priceable [OF acc ord assms(4)] assms(5) by (simp add: priced_def)
  then show ?thesis by (rule build_total)
qed

lemma in_order_times:
  "list_all in_order as \<longleftrightarrow> list_all (\<lambda>(s, f). case f of None \<Rightarrow> True | Some x \<Rightarrow> s \<le> x)
     (map (\<lambda>a. (a_started_at a, a_finished_at a)) as)"
  by (simp add: list_all_iff in_order_def)

theorem cost_report_exists_witness:
  "\<exists>t \<in> set (th_turns (thread_of completed_run)). t_status t = Ts_COMPLETED
     \<and> (\<exists>r. build_cost_report (\<lambda>_. None) t [] = Inr r \<and> cost_report_ok (\<lambda>_. None) r)"
proof -
  from yields_thread_of [OF completed_run_times] obtain t where t: "t \<in> set (th_turns (thread_of completed_run))"
      "t_status t = Ts_COMPLETED" "map (\<lambda>a. (a_started_at a, a_finished_at a)) (t_model_attempts t)
          = [(7000000, Some 9000000), (18000000, Some 20000000)]"
    by (elim conjE bexE)
  from t(3) have times: "list_all in_order (t_model_attempts t)" by (simp add: in_order_times)
  have "prices_bound (\<lambda>_. None) t []" by (simp add: prices_bound_def)
  from cost_report_exists [OF completed_run_replays completed_run_ok t(1) times this] t(1,2) show ?thesis by blast
qed

section \<open>A clock that steps back\<close>

lemma first_attempt_backwards:
  assumes "t_model_attempts t = a # as" "\<not> in_order a"
  shows "build_cost_report urlsplit t bs = Inl ValueError"
proof -
  have "\<not> cost_attempt_ok (cost_attempt_of a)"
    using assms(2) by (auto simp: cost_attempt_ok_def cost_attempt_of_def in_order_def split: option.splits)
  then show ?thesis
    by (simp add: build_cost_report_def assms(1) estimate_attempt_def from_attempt_def check_def)
qed

text \<open>C40. The condition on times is needed: there is a valid transcript whose Turn completed although one
  of its attempts ended before it started (the clock stepped back), and the cost report of that Turn
  fails with a \<open>ValueError\<close> whatever prices are bound to its attempts.\<close>

theorem backward_clock_blocks_report:
  "\<exists>es th t a ended. list_all event_ok es \<and> replay no_wire es = Inr th \<and> t \<in> set (th_turns th)
     \<and> t_status t = Ts_COMPLETED \<and> a \<in> set (t_model_attempts t)
     \<and> a_finished_at a = Some ended \<and> ended < a_started_at a
     \<and> (\<forall>urlsplit bindings. build_cost_report urlsplit t bindings = Inl ValueError)"
proof -
  from yields_thread_of [OF clock_run_yields] obtain t where run: "replay no_wire clock_run = Inr (thread_of clock_run)"
    and t: "t \<in> set (th_turns (thread_of clock_run))" "t_status t = Ts_COMPLETED"
      "map (\<lambda>a. (a_started_at a, a_finished_at a)) (t_model_attempts t) = [(7000000, Some 0), (18000000, Some 0)]"
    by (elim conjE bexE)
  from t(3) obtain a as where a: "t_model_attempts t = a # as" "a_finished_at a = Some 0" "0 < a_started_at a"
    by (cases "t_model_attempts t") auto
  then have "\<not> in_order a" by (simp add: in_order_def)
  note fails = first_attempt_backwards [OF a(1) this]
  have "a \<in> set (t_model_attempts t)" by (simp add: a(1))
  with run clock_run_ok t(1,2) a(2,3) fails show ?thesis by blast
qed

end
