(* ===== verification/Thread_Lifecycle.thy ===== *)
theory Thread_Lifecycle
  imports Model_View
begin

text \<open>
  Forking a Thread (src/src/harnessix/agent/lifecycle.py): the history a fork inherits, its frozen view
  decisions and the owners of the artifacts it names. The store rebuilds the snapshot from the source
  before it accepts the fork, so the construction has to be a function of the source Thread. The JSON
  dump of a whole Thread is written by pydantic and is an argument.
\<close>

definition fork_invalid :: py_error where
  "fork_invalid = KernelError ''thread_fork_invalid''"

text \<open>\<^verbatim>\<open>_canonical\<close> and the hashes over it.\<close>

definition canonical_sha256 :: "json \<Rightarrow> string result" where
  "canonical_sha256 v = check (json_finite v) fork_invalid (Inr (digest v))"

definition thread_sha256 :: "(thread \<Rightarrow> json) \<Rightarrow> thread \<Rightarrow> string result" where
  "thread_sha256 dump th = canonical_sha256 (dump th)"

definition history_sha256 :: "item list \<Rightarrow> string result" where
  "history_sha256 items = canonical_sha256 (JArr (map item_json items))"

section \<open>The inherited history\<close>

text \<open>The boundary a fork without an explicit one gets.\<close>

definition last_boundary :: "thread \<Rightarrow> uuid option" where
  "last_boundary th =
     (if th_turns th \<noteq> [] then Some (turn_id (last (th_turns th)))
      else (case th_fork_snapshot th of None \<Rightarrow> None | Some f \<Rightarrow> fs_through_turn_id f))"

text \<open>The turns up to and with the first one that has the identity.\<close>

fun turns_through :: "uuid \<Rightarrow> turn list \<Rightarrow> turn list option" where
  "turns_through tid [] = None"
| "turns_through tid (t # ts) =
     (if turn_id t = tid then Some [t] else map_option (Cons t) (turns_through tid ts))"

definition history_through :: "wire \<Rightarrow> thread \<Rightarrow> uuid \<Rightarrow> item list result" where
  "history_through W th tid =
     (case turns_through tid (th_turns th) of
        None \<Rightarrow>
          (case th_fork_snapshot th of
             None \<Rightarrow> Inl (KernelError ''turn_not_found'')
           | Some f \<Rightarrow> check (Some tid = fs_through_turn_id f) (KernelError ''turn_not_found'') (Inr (fs_items f)))
      | Some ts \<Rightarrow>
          check (t_status (last ts) \<in> set TERMINAL_TURNS) (KernelError ''thread_busy'')
          (if length ts = length (th_turns th) then active_model_history_source W th
           else Inr (history_items (th\<lparr>th_turns := ts, th_compaction_windows := [],
                  th_active_compaction_window_id := None\<rparr>))))"

definition source_history :: "wire \<Rightarrow> thread \<Rightarrow> uuid option \<Rightarrow> item list result" where
  "source_history W th through =
     check (th_active_turn_id th = None) (KernelError ''thread_busy'')
     (check (th_archive th = None) (KernelError ''thread_archived'')
     (case through of
        Some tid \<Rightarrow> history_through W th tid
      | None \<Rightarrow>
          if th_turns th \<noteq> [] then history_through W th (turn_id (last (th_turns th)))
          else (case th_fork_snapshot th of None \<Rightarrow> Inr [] | Some f \<Rightarrow> Inr (fs_items f))))"

section \<open>Frozen decisions and artifact owners\<close>

definition existing_decisions :: "thread \<Rightarrow> (uuid \<times> view_decision) list result" where
  "existing_decisions th =
     check (distinct (map vd_item_id (prior_decisions th))) fork_invalid
       (Inr (map (\<lambda>d. (vd_item_id d, d)) (prior_decisions th)))"

fun look_up_all :: "('a \<Rightarrow> 'b option) \<Rightarrow> 'a list \<Rightarrow> 'b list result" where
  "look_up_all f [] = Inr []"
| "look_up_all f (x # xs) =
     (case f x of None \<Rightarrow> Inl fork_invalid | Some y \<Rightarrow> bindE (look_up_all f xs) (\<lambda>ys. Inr (y # ys)))"

definition is_result :: "item \<Rightarrow> bool" where
  "is_result i = (case i_content i of ToolResult _ \<Rightarrow> True | _ \<Rightarrow> False)"

text \<open>\<^verbatim>\<open>existing | created\<close>: the created decisions win, the last one for an item first.\<close>

definition ordered_decisions :: "thread \<Rightarrow> item list \<Rightarrow> view_decision list \<Rightarrow> view_decision list result" where
  "ordered_decisions th source created =
     bindE (existing_decisions th) (\<lambda>existing.
       look_up_all (map_of (rev (map (\<lambda>d. (vd_item_id d, d)) created) @ existing))
         (map item_id (filter is_result source)))"

definition inherited_owners :: "thread \<Rightarrow> (uuid \<times> uuid) list" where
  "inherited_owners th =
     (case th_fork_snapshot th of None \<Rightarrow> []
      | Some f \<Rightarrow> rev (map (\<lambda>a. (fo_artifact_id a, fo_owner_thread_id a)) (fs_artifact_owners f)))"

definition owner_of :: "thread \<Rightarrow> history_reference \<Rightarrow> uuid" where
  "owner_of th r =
     (case hr_owner_thread_id r of Some o' \<Rightarrow> o'
      | None \<Rightarrow> (case map_of (inherited_owners th) (artifact_id (ab_artifact (hr_binding r))) of
          Some o' \<Rightarrow> o' | None \<Rightarrow> thread_id th))"

definition add_owner :: "thread \<Rightarrow> fork_artifact_owner list \<Rightarrow> history_reference \<Rightarrow> fork_artifact_owner list result" where
  "add_owner th found r =
     (let aid = artifact_id (ab_artifact (hr_binding r)); owner = owner_of th r
      in case find (\<lambda>a. fo_artifact_id a = aid) found of
           None \<Rightarrow> Inr (found @ [\<lparr>fo_artifact_id = aid, fo_owner_thread_id = owner\<rparr>])
         | Some a \<Rightarrow> check (fo_owner_thread_id a = owner) fork_invalid (Inr found))"

definition artifact_owners :: "thread \<Rightarrow> prepared_model_history \<Rightarrow> fork_artifact_owner list result" where
  "artifact_owners th prepared = foldE (add_owner th) [] (ph_references prepared)"

section \<open>The snapshot\<close>

definition effective_boundary :: "thread \<Rightarrow> uuid option \<Rightarrow> uuid option" where
  "effective_boundary th through = (if through = None then last_boundary th else through)"

definition make_snapshot :: "fork_snapshot \<Rightarrow> fork_snapshot result" where
  "make_snapshot f = check (fork_snapshot_ok f) ValueError (Inr f)"

definition empty_snapshot :: "bool \<Rightarrow> string \<Rightarrow> thread \<Rightarrow> uuid option \<Rightarrow> string \<Rightarrow> string
    \<Rightarrow> tool_result_view_policy \<Rightarrow> fork_snapshot" where
  "empty_snapshot v2 request th boundary thread_sha sha policy =
     \<lparr>fs_allow_rejections = v2, fs_request_id = request, fs_source_thread_id = thread_id th,
      fs_source_sequence = th_sequence th, fs_through_turn_id = boundary,
      fs_source_compaction_window_id = None, fs_source_thread_sha256 = thread_sha,
      fs_source_history_sha256 = sha, fs_view_history_sha256 = sha, fs_tool_result_view_policy = policy,
      fs_items = [], fs_tool_result_view_decisions = [], fs_artifact_owners = []\<rparr>"

definition prepare_fork_snapshot :: "wire \<Rightarrow> (thread \<Rightarrow> json) \<Rightarrow> thread \<Rightarrow> string \<Rightarrow> uuid option
    \<Rightarrow> tool_result_view_policy \<Rightarrow> bool \<Rightarrow> (fork_snapshot \<times> prepared_model_history option) result" where
  "prepare_fork_snapshot W dump th request through policy v2 =
     bindE (source_history W th through) (\<lambda>source.
     let boundary = effective_boundary th through in
     if source = []
     then bindE (history_sha256 []) (\<lambda>sha.
          bindE (thread_sha256 dump th) (\<lambda>thread_sha.
          bindE (make_snapshot (empty_snapshot v2 request th boundary thread_sha sha policy)) (\<lambda>f.
          Inr (f, None))))
     else bindE (prepare_model_history_items W th source 1 policy None False) (\<lambda>prepared.
          bindE (ordered_decisions th source (ph_new_decisions prepared)) (\<lambda>decisions.
          bindE (thread_sha256 dump th) (\<lambda>thread_sha.
          bindE (history_sha256 source) (\<lambda>sha.
          bindE (artifact_owners th prepared) (\<lambda>owners.
          bindE (make_snapshot ((empty_snapshot v2 request th boundary thread_sha sha policy)
            \<lparr>fs_source_compaction_window_id :=
               (if th_turns th \<noteq> [] \<and> boundary = Some (turn_id (last (th_turns th)))
                then th_active_compaction_window_id th else None),
             fs_view_history_sha256 := mh_view_history_sha256 (inspection_base (ph_inspection prepared)),
             fs_items := source, fs_tool_result_view_decisions := decisions,
             fs_artifact_owners := owners\<rparr>)) (\<lambda>f.
          Inr (f, Some prepared))))))))"

definition validate_fork_snapshot :: "wire \<Rightarrow> (thread \<Rightarrow> json) \<Rightarrow> thread \<Rightarrow> fork_snapshot
    \<Rightarrow> prepared_model_history option result" where
  "validate_fork_snapshot W dump source f =
     check (fs_source_thread_id f = thread_id source \<and> fs_source_sequence f = th_sequence source)
       (KernelError ''sequence_conflict'')
     (bindE (thread_sha256 dump source) (\<lambda>sha.
      check (fs_source_thread_sha256 f = sha) (KernelError ''sequence_conflict'')
      (bindE (prepare_fork_snapshot W dump source (fs_request_id f) (fs_through_turn_id f)
          (fs_tool_result_view_policy f) (fs_allow_rejections f)) (\<lambda>(expected, history).
       check (expected = f) fork_invalid (Inr history)))))"

section \<open>Rebuilding\<close>

lemma history_through_last:
  assumes "th_turns th = [] " "th_fork_snapshot th = Some f" "fs_through_turn_id f = Some tid"
  shows "history_through W th tid = Inr (fs_items f)"
  using assms by (simp add: history_through_def)

lemma source_history_boundary:
  "source_history W th (effective_boundary th through) = source_history W th through"
proof (cases through)
  case None
  show ?thesis
  proof (cases "th_turns th")
    case Nil
    then show ?thesis
      using None history_through_last [OF Nil]
      by (cases "th_fork_snapshot th")
        (auto simp: effective_boundary_def last_boundary_def source_history_def split: option.splits)
  next
    case (Cons t ts)
    then show ?thesis
      using None by (simp add: effective_boundary_def last_boundary_def source_history_def)
  qed
qed (simp add: effective_boundary_def)

lemma effective_boundary_again [simp]: "effective_boundary th (effective_boundary th b) = effective_boundary th b"
  by (simp add: effective_boundary_def)

lemma prepare_boundary:
  "prepare_fork_snapshot W dump th request (effective_boundary th through) policy v2
     = prepare_fork_snapshot W dump th request through policy v2"
  unfolding prepare_fork_snapshot_def source_history_boundary effective_boundary_again ..

lemma prepared_fields:
  assumes "prepare_fork_snapshot W dump th request through policy v2 = Inr (f, h)"
  shows "fs_request_id f = request" "fs_source_thread_id f = thread_id th" "fs_source_sequence f = th_sequence th"
    "fs_through_turn_id f = effective_boundary th through" "fs_tool_result_view_policy f = policy"
    "fs_allow_rejections f = v2" "thread_sha256 dump th = Inr (fs_source_thread_sha256 f)" "fork_snapshot_ok f"
    "source_history W th through = Inr (fs_items f)"
  using assms
  by (auto simp: prepare_fork_snapshot_def make_snapshot_def empty_snapshot_def Let_def split: if_splits)

lemma prepared_validates:
  assumes "prepare_fork_snapshot W dump th request through policy v2 = Inr (f, h)"
  shows "validate_fork_snapshot W dump th f = Inr h"
  using prepared_fields [OF assms] assms
  by (simp add: validate_fork_snapshot_def prepare_boundary)

end
