(* ===== verification/Session_Records.thy ===== *)
theory Session_Records
  imports Reducer Event_Compatibility Thread_Lifecycle
begin

text \<open>
  What the session store writes and reads (src/src/harnessix/session/): drafts of events and their
  export to older schema versions, the rows of the tables \<^verbatim>\<open>agent_events\<close> and \<^verbatim>\<open>agent_threads\<close>, and
  the checks a stored row has to pass before it is believed. The encoding of a model as JSON text and
  back is pydantic's; it is the argument \<open>K\<close>, whose texts have an arbitrary type.
\<close>

section \<open>Drafts\<close>

text \<open>\<^verbatim>\<open>EventDraft\<close>: an event before it has a Thread and a position.\<close>

record event_draft =
  d_schema_version :: nat
  d_event_id :: uuid
  d_turn_id :: "uuid option"
  d_occurred_at :: datetime
  d_payload :: event_payload

definition draft_of :: "agent_event \<Rightarrow> event_draft" where
  "draft_of e = \<lparr>d_schema_version = schema_version e, d_event_id = event_id e, d_turn_id = e_turn_id e,
     d_occurred_at = occurred_at e, d_payload = payload e\<rparr>"

text \<open>\<^verbatim>\<open>AgentEvent(**draft.model_dump(), thread_id=..., sequence=...)\<close>.\<close>

definition at_position :: "event_draft \<Rightarrow> uuid \<Rightarrow> nat \<Rightarrow> agent_event" where
  "at_position d tid n = \<lparr>schema_version = d_schema_version d, event_id = d_event_id d,
     e_turn_id = d_turn_id d, occurred_at = d_occurred_at d, payload = d_payload d,
     e_thread_id = tid, e_sequence = n\<rparr>"

text \<open>A failure whose category was dropped on export and classified again on reading.\<close>

definition reclassified :: "agent_failure \<Rightarrow> agent_failure" where
  "reclassified f = AgentFailure (f_code f) (f_message f) (f_retryable f) None"

text \<open>
  \<^verbatim>\<open>serialize_event\<close> drops the fields a schema version does not have; a reader fills in their
  defaults. \<open>legacy_payload\<close> is the payload after both.
\<close>

definition legacy_content :: "nat \<Rightarrow> item_content \<Rightarrow> item_content" where
  "legacy_content v c =
     (case c of
        ToolResult r \<Rightarrow> if v < 3 then ToolResult (r\<lparr>tr_error := map_option reclassified (tr_error r)\<rparr>) else c
      | ToolCall t \<Rightarrow> if v = 1 then ToolCall (t\<lparr>tc_requires_approval := False, tc_tool_fingerprint := None\<rparr>)
          else c
      | _ \<Rightarrow> c)"

definition legacy_error :: "nat \<Rightarrow> agent_failure option \<Rightarrow> agent_failure option" where
  "legacy_error v f = (if v < 3 then map_option reclassified f else f)"

definition legacy_payload :: "nat \<Rightarrow> event_payload \<Rightarrow> event_payload" where
  "legacy_payload v p =
     (case p of
        TurnStateChanged s \<Rightarrow> TurnStateChanged (s\<lparr>tsc_error := legacy_error v (tsc_error s),
            tsc_reason := (if v < 19 then Normal else tsc_reason s)\<rparr>)
      | TurnStarted s \<Rightarrow> TurnStarted (s\<lparr>
            tn_execution_mode := (if v < 18 then Immediate else tn_execution_mode s),
            tn_retry_of_turn_id := (if v < 17 then None else tn_retry_of_turn_id s)\<rparr>)
      | ModelUsageObserved m \<Rightarrow>
          ModelUsageObserved (m\<lparr>mo_billing := (if v < 5 then None else mo_billing m)\<rparr>)
      | ModelAttemptFinished m \<Rightarrow> ModelAttemptFinished (m\<lparr>mf_error := legacy_error v (mf_error m)\<rparr>)
      | ItemStarted i c \<Rightarrow> ItemStarted i (legacy_content v c)
      | ItemFinished f \<Rightarrow> ItemFinished (f\<lparr>fi_content := legacy_content v (fi_content f),
            fi_error := legacy_error v (fi_error f)\<rparr>)
      | _ \<Rightarrow> p)"

definition legacy_draft :: "event_draft \<Rightarrow> event_draft" where
  "legacy_draft d = d\<lparr>d_payload := legacy_payload (d_schema_version d) (d_payload d)\<rparr>"

definition legacy_event :: "agent_event \<Rightarrow> agent_event" where
  "legacy_event e = e\<lparr>payload := legacy_payload (schema_version e) (payload e)\<rparr>"

definition draft_ok :: "event_draft \<Rightarrow> bool" where
  "draft_ok d =
     (1 \<le> d_schema_version d \<and> d_schema_version d \<le> 22 \<and> payload_ok (d_payload d)
      \<and> validate_event_boundary (d_schema_version d) (d_payload d))"

lemma reclassified_again [simp]: "reclassified (reclassified f) = reclassified f"
  by (simp add: reclassified_def AgentFailure_def)

lemma legacy_error_again [simp]: "legacy_error v (legacy_error v f) = legacy_error v f"
  by (cases f) (simp_all add: legacy_error_def)

lemma legacy_content_again [simp]: "legacy_content v (legacy_content v c) = legacy_content v c"
  by (cases c) (auto simp: legacy_content_def option.map_comp comp_def)

lemma legacy_payload_again [simp]: "legacy_payload v (legacy_payload v p) = legacy_payload v p"
  by (cases p) (simp_all add: legacy_payload_def)

lemma legacy_draft_again [simp]: "legacy_draft (legacy_draft d) = legacy_draft d"
  by (simp add: legacy_draft_def)

lemma draft_at_position [simp]: "draft_of (at_position d tid n) = d"
  by (simp add: draft_of_def at_position_def)

lemma position_fields [simp]:
  "e_thread_id (at_position d tid n) = tid" "e_sequence (at_position d tid n) = n"
  "event_id (at_position d tid n) = d_event_id d" "payload (at_position d tid n) = d_payload d"
  "schema_version (at_position d tid n) = d_schema_version d"
  by (simp_all add: at_position_def)

lemma at_position_draft [simp]: "at_position (draft_of e) (e_thread_id e) (e_sequence e) = e"
  by (simp add: draft_of_def at_position_def)

lemma draft_fields [simp]:
  "d_event_id (draft_of e) = event_id e" "d_payload (draft_of e) = payload e"
  "d_schema_version (draft_of e) = schema_version e" "d_turn_id (draft_of e) = e_turn_id e"
  by (simp_all add: draft_of_def)

lemma legacy_draft_fields [simp]:
  "d_event_id (legacy_draft d) = d_event_id d" "d_schema_version (legacy_draft d) = d_schema_version d"
  "d_turn_id (legacy_draft d) = d_turn_id d"
  by (simp_all add: legacy_draft_def)

lemma legacy_at_position [simp]:
  "legacy_event (at_position d tid n) = at_position (legacy_draft d) tid n"
  by (simp add: legacy_event_def legacy_draft_def at_position_def)

lemma event_ok_at_position: "event_ok (at_position d tid n) \<longleftrightarrow> draft_ok d \<and> 1 \<le> n"
  by (auto simp: event_ok_def draft_ok_def)

section \<open>Texts and rows\<close>

text \<open>
  Pydantic and SQLite as the store uses them: \<open>k_freeze\<close> writes a draft as JSON and reads it back
  (\<open>None\<close> where one of them raises), the event and Thread encodings with their validating readers,
  the dump of a Thread behind \<^verbatim>\<open>thread_sha256\<close>, the test of \<^verbatim>\<open>$.archive\<close> in a stored snapshot and
  the digest of a text.
\<close>

record 'd codec =
  k_freeze :: "event_draft \<Rightarrow> event_draft option"
  k_write_event :: "agent_event \<Rightarrow> 'd"
  k_read_event :: "'d \<Rightarrow> agent_event option"
  k_write_thread :: "thread \<Rightarrow> 'd"
  k_read_thread :: "'d \<Rightarrow> thread option"
  k_thread_json :: "thread \<Rightarrow> json"
  k_is_archived :: "'d \<Rightarrow> bool"
  k_sha256 :: "'d \<Rightarrow> string"

record 'd event_row =
  er_thread :: uuid
  er_sequence :: nat
  er_event :: uuid
  er_body :: 'd

record 'd thread_row =
  pj_thread :: uuid
  pj_sequence :: nat
  pj_body :: 'd
  pj_sha256 :: string
  pj_version :: nat

record 'd session_store =
  s_events :: "'d event_row list"
  s_threads :: "'d thread_row list"

definition empty_store :: "'d session_store" where
  "empty_store = \<lparr>s_events = [], s_threads = []\<rparr>"

definition rows_of :: "'d session_store \<Rightarrow> uuid \<Rightarrow> 'd event_row list" where
  "rows_of s tid = filter (\<lambda>r. er_thread r = tid) (s_events s)"

definition thread_row_of :: "'d session_store \<Rightarrow> uuid \<Rightarrow> 'd thread_row option" where
  "thread_row_of s tid = find (\<lambda>r. pj_thread r = tid) (s_threads s)"

text \<open>\<^verbatim>\<open>COALESCE(MAX(sequence), 0)\<close>.\<close>

definition last_sequence :: "'d event_row list \<Rightarrow> nat" where
  "last_sequence rs = foldr max (map er_sequence rs) 0"

section \<open>Reading a projection\<close>

abbreviation event_corrupt :: py_error where
  "event_corrupt \<equiv> KernelError ''event_corrupt''"

abbreviation projection_corrupt :: py_error where
  "projection_corrupt \<equiv> KernelError ''projection_corrupt''"

definition unproven :: py_error where
  "unproven = KernelError ''publication_history_unproven''"

definition uses_working_set_view :: "thread \<Rightarrow> bool" where
  "uses_working_set_view th =
     list_ex (\<lambda>t. list_ex (\<lambda>i. case i of Inspection_v3 _ _ \<Rightarrow> True | _ \<Rightarrow> False)
       (t_model_history_inspections t)) (th_turns th)"

definition is_rejection_item :: "item \<Rightarrow> bool" where
  "is_rejection_item i = (case i_content i of Rejection _ \<Rightarrow> True | _ \<Rightarrow> False)"

definition require_projection_content_version :: "thread \<Rightarrow> nat \<Rightarrow> unit result" where
  "require_projection_content_version th v =
     check (1 \<le> v \<and> v \<le> 22) unproven
     (check (\<not> (v < 22 \<and> uses_working_set_view th)) unproven
     (if v < 21
      then check (\<not> (case th_fork_snapshot th of None \<Rightarrow> False | Some f \<Rightarrow> fs_allow_rejections f)) unproven
        (check (\<not> (list_ex (\<lambda>t. list_ex is_rejection_item (t_items t)) (th_turns th)
            \<or> (case th_fork_snapshot th of None \<Rightarrow> False | Some f \<Rightarrow> list_ex is_rejection_item (fs_items f))))
          unproven (Inr ()))
      else Inr ()))"

text \<open>\<^verbatim>\<open>Thread.model_validate_json\<close>: pydantic's reading, then the validators of the class.\<close>

definition load_thread :: "'d codec \<Rightarrow> 'd \<Rightarrow> thread option" where
  "load_thread K x =
     (case k_read_thread K x of None \<Rightarrow> None | Some th \<Rightarrow> if thread_ok th then Some th else None)"

definition validated_snapshot :: "'d codec \<Rightarrow> uuid \<Rightarrow> 'd thread_row option \<Rightarrow> nat \<Rightarrow> nat
    \<Rightarrow> thread option result" where
  "validated_snapshot K tid row last_seq event_count =
     check (last_seq = event_count) event_corrupt
     (case row of
        None \<Rightarrow> check (last_seq = 0) (KernelError ''projection_missing'') (Inr None)
      | Some r \<Rightarrow>
          check (1 \<le> pj_version r \<and> pj_version r \<le> 22) (KernelError ''projection_too_new'')
          (check (k_sha256 K (pj_body r) = pj_sha256 r) projection_corrupt
          (case load_thread K (pj_body r) of
             None \<Rightarrow> Inl projection_corrupt
           | Some th \<Rightarrow>
               bindE (require_projection_content_version th (pj_version r)) (\<lambda>_.
               bindE (require_closed_rejections th) (\<lambda>_.
               check (thread_id th = tid \<and> th_sequence th = pj_sequence r \<and> th_sequence th = last_seq)
                 projection_corrupt (Inr (Some th)))))))"

definition read_snapshot :: "'d codec \<Rightarrow> 'd session_store \<Rightarrow> uuid \<Rightarrow> thread option result" where
  "read_snapshot K s tid =
     validated_snapshot K tid (thread_row_of s tid) (last_sequence (rows_of s tid)) (length (rows_of s tid))"

section \<open>Reading and writing events\<close>

text \<open>\<^verbatim>\<open>AgentEvent.model_validate_json\<close> with the validators of the class, then the index columns.\<close>

definition parse_event :: "'d codec \<Rightarrow> 'd event_row \<Rightarrow> agent_event result" where
  "parse_event K r =
     (case k_read_event K (er_body r) of
        None \<Rightarrow> Inl event_corrupt
      | Some e \<Rightarrow> check (event_ok e) event_corrupt
          (check (e_thread_id e = er_thread r \<and> e_sequence e = er_sequence r \<and> event_id e = er_event r)
            event_corrupt (Inr e)))"

definition event_row_of :: "'d codec \<Rightarrow> agent_event \<Rightarrow> 'd event_row" where
  "event_row_of K e = \<lparr>er_thread = e_thread_id e, er_sequence = e_sequence e, er_event = event_id e,
     er_body = k_write_event K (legacy_event e)\<rparr>"

text \<open>The primary key, the unique event identity and the \<^verbatim>\<open>CHECK\<close> of the table guard the insertion.\<close>

definition persist_event :: "'d codec \<Rightarrow> 'd session_store \<Rightarrow> agent_event \<Rightarrow> 'd session_store result" where
  "persist_event K s e =
     check (0 < e_sequence e
         \<and> list_all (\<lambda>r. er_event r \<noteq> event_id e
             \<and> \<not> (er_thread r = e_thread_id e \<and> er_sequence r = e_sequence e)) (s_events s))
       (KernelError ''storage_unavailable'')
       (Inr (s\<lparr>s_events := s_events s @ [event_row_of K e]\<rparr>))"

definition projection_row :: "'d codec \<Rightarrow> thread \<Rightarrow> 'd thread_row" where
  "projection_row K th = \<lparr>pj_thread = thread_id th, pj_sequence = th_sequence th,
     pj_body = k_write_thread K th, pj_sha256 = k_sha256 K (k_write_thread K th), pj_version = 22\<rparr>"

text \<open>\<^verbatim>\<open>INSERT ... ON CONFLICT(thread_id) DO UPDATE\<close>.\<close>

definition upsert_row :: "'d thread_row \<Rightarrow> 'd thread_row list \<Rightarrow> 'd thread_row list" where
  "upsert_row r rs = (if pj_thread r \<in> pj_thread ` set rs then replace_by pj_thread r rs else rs @ [r])"

definition save_projection :: "'d codec \<Rightarrow> 'd session_store \<Rightarrow> thread \<Rightarrow> 'd session_store result" where
  "save_projection K s th =
     bindE (require_closed_rejections th) (\<lambda>_.
     check (0 < th_sequence th) (KernelError ''storage_unavailable'')
       (Inr (s\<lparr>s_threads := upsert_row (projection_row K th) (s_threads s)\<rparr>)))"

end
