(* ===== verification/Session_Store.thy ===== *)
theory Session_Store
  imports Session_Records
begin

text \<open>
  The operations of the session store (src/src/harnessix/session/sqlite.py, sqlite_append.py) without
  the optional publication keys. Each operation is one SQLite transaction: it returns its result with
  the new store, or an error, and then the caller keeps the old one (rollback).
\<close>

section \<open>Appending\<close>

definition invalid_batch :: py_error where
  "invalid_batch = KernelError ''invalid_batch''"

definition event_conflict :: py_error where
  "event_conflict = KernelError ''event_conflict''"

definition sequence_conflict :: py_error where
  "sequence_conflict = KernelError ''sequence_conflict''"

text \<open>The private copy of a draft, validated like any model.\<close>

definition freeze_draft :: "'d codec \<Rightarrow> event_draft \<Rightarrow> event_draft option" where
  "freeze_draft K d =
     (case k_freeze K d of None \<Rightarrow> None
      | Some x \<Rightarrow> if draft_ok (legacy_draft x) then Some (legacy_draft x) else None)"

definition freeze_batch :: "'d codec \<Rightarrow> event_draft list \<Rightarrow> event_draft list result" where
  "freeze_batch K ds =
     (case those (map (freeze_draft K) ds) of
        None \<Rightarrow> Inl invalid_batch
      | Some batch \<Rightarrow> check (batch \<noteq> [] \<and> distinct (map d_event_id batch)) invalid_batch (Inr batch))"

definition event_row_with :: "'d session_store \<Rightarrow> uuid \<Rightarrow> 'd event_row option" where
  "event_row_with s eid = find (\<lambda>r. er_event r = eid) (s_events s)"

text \<open>The first loop: the stored events that carry an identity of the batch.\<close>

definition match_draft :: "'d codec \<Rightarrow> 'd session_store \<Rightarrow> uuid \<Rightarrow> agent_event list \<Rightarrow> event_draft
    \<Rightarrow> agent_event list result" where
  "match_draft K s tid matched d =
     (case event_row_with s (d_event_id d) of
        None \<Rightarrow> Inr matched
      | Some r \<Rightarrow> bindE (parse_event K r) (\<lambda>e.
          check (draft_ok (legacy_draft (draft_of e))) ValueError
          (check (legacy_draft (draft_of e) = d \<and> e_thread_id e = tid) event_conflict
          (Inr (matched @ [e])))))"

definition matched_events :: "'d codec \<Rightarrow> 'd session_store \<Rightarrow> uuid \<Rightarrow> event_draft list
    \<Rightarrow> agent_event list result" where
  "matched_events K s tid batch = foldE (match_draft K s tid) [] batch"

text \<open>The second loop: reduce one new event and insert it.\<close>

definition append_draft :: "'d codec \<Rightarrow> wire \<Rightarrow> uuid \<Rightarrow> thread option \<times> nat \<times> 'd session_store
    \<Rightarrow> event_draft \<Rightarrow> (thread option \<times> nat \<times> 'd session_store) result" where
  "append_draft K W tid st d =
    (let e = at_position (legacy_draft d) tid (fst (snd st) + 1) in
     check (event_ok e) ValueError
     (bindE (apply_event W (fst st) e) (\<lambda>th.
      bindE (persist_event K (snd (snd st)) e) (\<lambda>s.
      Inr (Some th, fst (snd st) + 1, s)))))"

definition sequence_of :: "thread option \<Rightarrow> nat" where
  "sequence_of t = (case t of None \<Rightarrow> 0 | Some th \<Rightarrow> th_sequence th)"

definition the_thread :: "thread option \<Rightarrow> thread result" where
  "the_thread t = (case t of None \<Rightarrow> Inl AssertionError | Some th \<Rightarrow> Inr th)"

text \<open>The stored events are exactly the batch, at the positions after the expected sequence.\<close>

definition repeats_batch :: "agent_event list \<Rightarrow> event_draft list \<Rightarrow> nat \<Rightarrow> bool" where
  "repeats_batch matched batch expected \<longleftrightarrow>
     length matched = length batch \<and> map e_sequence matched = [expected + 1..<expected + 1 + length matched]"

definition append_in_transaction :: "'d codec \<Rightarrow> wire \<Rightarrow> 'd session_store \<Rightarrow> uuid \<Rightarrow> event_draft list
    \<Rightarrow> nat \<Rightarrow> (thread \<times> bool \<times> 'd session_store) result" where
  "append_in_transaction K W s tid batch expected =
     bindE (matched_events K s tid batch) (\<lambda>matched.
     if matched \<noteq> []
     then check (repeats_batch matched batch expected) event_conflict
       (bindE (read_snapshot K s tid) (\<lambda>t. bindE (the_thread t) (\<lambda>th. Inr (th, False, s))))
     else bindE (read_snapshot K s tid) (\<lambda>t.
       check (sequence_of t = expected) sequence_conflict
       (bindE (foldE (append_draft K W tid) (t, sequence_of t, s) batch) (\<lambda>st.
        bindE (the_thread (fst st)) (\<lambda>th.
        bindE (require_closed_rejections th) (\<lambda>_.
        bindE (save_projection K (snd (snd st)) th) (\<lambda>s'.
        Inr (th, True, s'))))))))"

definition is_fork :: "event_draft \<Rightarrow> bool" where
  "is_fork d = (case d_payload d of ThreadForked _ _ \<Rightarrow> True | _ \<Rightarrow> False)"

definition append_events :: "'d codec \<Rightarrow> wire \<Rightarrow> 'd session_store \<Rightarrow> uuid \<Rightarrow> event_draft list \<Rightarrow> nat
    \<Rightarrow> (thread \<times> bool \<times> 'd session_store) result" where
  "append_events K W s tid drafts expected =
     bindE (freeze_batch K drafts) (\<lambda>batch.
     check (\<not> list_ex is_fork batch) (KernelError ''thread_fork_requires_cas'')
     (append_in_transaction K W s tid batch expected))"

section \<open>Forking\<close>

definition fork_thread :: "'d codec \<Rightarrow> wire \<Rightarrow> 'd session_store \<Rightarrow> uuid \<Rightarrow> uuid \<Rightarrow> event_draft \<Rightarrow> nat
    \<Rightarrow> (thread \<times> bool \<times> 'd session_store) result" where
  "fork_thread K W s src dst draft expected =
     bindE (freeze_batch K [draft]) (\<lambda>batch.
     case d_payload (hd batch) of
       ThreadForked w f \<Rightarrow>
         check (d_turn_id (hd batch) = None \<and> src \<noteq> dst \<and> fs_source_thread_id f = src) fork_invalid
         (bindE (read_snapshot K s dst) (\<lambda>destination.
          if destination \<noteq> None then append_in_transaction K W s dst batch 0
          else bindE (read_snapshot K s src) (\<lambda>source.
            case source of
              None \<Rightarrow> Inl (KernelError ''thread_not_found'')
            | Some th \<Rightarrow>
                check (th_sequence th = expected) sequence_conflict
                (check (w = th_workspace th) fork_invalid
                (bindE (validate_fork_snapshot W (k_thread_json K) th f) (\<lambda>_.
                 append_in_transaction K W s dst batch 0))))))
     | _ \<Rightarrow> Inl fork_invalid)"

section \<open>Reading\<close>

definition get_thread :: "'d codec \<Rightarrow> 'd session_store \<Rightarrow> uuid \<Rightarrow> thread result" where
  "get_thread K s tid =
     bindE (read_snapshot K s tid) (\<lambda>t.
     case t of None \<Rightarrow> Inl (KernelError ''thread_not_found'') | Some th \<Rightarrow> Inr th)"

text \<open>The rows after a cursor in the order of their sequence; their numbers may not have a gap.\<close>

definition read_event :: "'d codec \<Rightarrow> nat \<times> agent_event list \<Rightarrow> 'd event_row
    \<Rightarrow> (nat \<times> agent_event list) result" where
  "read_event K st r =
     bindE (parse_event K r) (\<lambda>e.
     check (er_sequence r = fst st) event_corrupt (Inr (fst st + 1, snd st @ [e])))"

definition events_after :: "'d codec \<Rightarrow> 'd session_store \<Rightarrow> uuid \<Rightarrow> nat \<Rightarrow> agent_event list result" where
  "events_after K s tid after =
     bindE (foldE (read_event K) (after + 1, [])
         (sort_key er_sequence (filter (\<lambda>r. after < er_sequence r) (rows_of s tid))))
       (\<lambda>st. Inr (snd st))"

definition get_events :: "'d codec \<Rightarrow> 'd session_store \<Rightarrow> uuid \<Rightarrow> int \<Rightarrow> agent_event list result" where
  "get_events K s tid after =
     check (0 \<le> after) (KernelError ''invalid_cursor'') (events_after K s tid (nat after))"

text \<open>The identities of both tables, ascending: the text order of UUIDs is their numeric order.\<close>

definition thread_ids :: "'d session_store \<Rightarrow> uuid list" where
  "thread_ids s = sort (remdups (map er_thread (s_events s) @ map pj_thread (s_threads s)))"

definition scan_thread :: "'d codec \<Rightarrow> 'd session_store \<Rightarrow> thread list \<Rightarrow> uuid \<Rightarrow> thread list result" where
  "scan_thread K s active tid =
     bindE (read_snapshot K s tid) (\<lambda>t.
     Inr (case t of None \<Rightarrow> active
          | Some th \<Rightarrow> if th_active_turn_id th \<noteq> None then active @ [th] else active))"

definition recovery_threads :: "'d codec \<Rightarrow> 'd session_store \<Rightarrow> thread list result" where
  "recovery_threads K s = foldE (scan_thread K s) [] (thread_ids s)"

section \<open>One page of the list of Threads\<close>

definition page_rows :: "'d codec \<Rightarrow> 'd session_store \<Rightarrow> uuid option \<Rightarrow> bool option \<Rightarrow> uuid list" where
  "page_rows K s after archived =
     sort (map pj_thread (filter (\<lambda>r.
         (case after of None \<Rightarrow> True | Some a \<Rightarrow> a < pj_thread r)
         \<and> (case archived of None \<Rightarrow> True | Some b \<Rightarrow> k_is_archived K (pj_body r) = b)) (s_threads s)))"

definition page_thread :: "'d codec \<Rightarrow> 'd session_store \<Rightarrow> bool option \<Rightarrow> thread list \<Rightarrow> uuid
    \<Rightarrow> thread list result" where
  "page_thread K s archived selected tid =
     bindE (read_snapshot K s tid) (\<lambda>t.
     case t of
       None \<Rightarrow> Inl projection_corrupt
     | Some th \<Rightarrow> check (case archived of None \<Rightarrow> True | Some b \<Rightarrow> (th_archive th \<noteq> None) = b)
         projection_corrupt (Inr (selected @ [th])))"

definition list_thread_page :: "'d codec \<Rightarrow> 'd session_store \<Rightarrow> uuid option \<Rightarrow> bool option \<Rightarrow> int
    \<Rightarrow> (thread list \<times> bool) result" where
  "list_thread_page K s after archived limit =
     check (1 \<le> limit \<and> limit \<le> 200) (KernelError ''invalid_limit'')
     (let ids = take (nat limit + 1) (page_rows K s after archived) in
      bindE (foldE (page_thread K s archived) [] (take (nat limit) ids)) (\<lambda>selected.
      Inr (selected, nat limit < length ids)))"

section \<open>Rebuilding a projection\<close>

lemma bindE_cong [fundef_cong]:
  "m = m' \<Longrightarrow> (\<And>x. m' = Inr x \<Longrightarrow> f x = g x) \<Longrightarrow> bindE m f = bindE m' g"
  by (cases m') simp_all

lemma check_cong [fundef_cong]: "b = c \<Longrightarrow> (c \<Longrightarrow> k = k') \<Longrightarrow> check b e k = check c e k'"
  by (simp add: check_def)

definition through_prefix :: "nat option \<Rightarrow> agent_event list \<Rightarrow> agent_event list result" where
  "through_prefix through es =
     (case through of None \<Rightarrow> Inr es
      | Some n \<Rightarrow> check (n \<le> length es) fork_invalid (Inr (take n es)))"

lemma replay_Nil: "replay W [] = Inl (KernelError ''empty_transcript'')"
  by (simp add: replay_def)

lemma through_Nil: "through_prefix through [] = Inr es \<Longrightarrow> es = []"
  by (auto simp: through_prefix_def split: option.splits)

lemma events_after_absent:
  assumes "tid \<notin> set (map er_thread (s_events s))"
  shows "events_after K s tid n = Inr []"
proof -
  have "rows_of s tid = []" using assms by (auto simp: rows_of_def filter_empty_conv)
  then show ?thesis by (simp add: events_after_def)
qed

lemma replayed_present:
  assumes "events_after K s tid 0 = Inr es" "through_prefix through es = Inr es'" "replay W es' = Inr th"
  shows "tid \<in> set (map er_thread (s_events s))"
proof (rule ccontr)
  assume "tid \<notin> set (map er_thread (s_events s))"
  then have "es = []" using events_after_absent assms(1) by fastforce
  with assms(2) have "es' = []" by (simp add: through_Nil)
  with assms(3) show False by (simp add: replay_Nil)
qed

text \<open>
  \<^verbatim>\<open>_validated_replay\<close> follows the chain of sources. A cycle is an error, and a Thread without events
  has no replay, so the Threads of the event table that are not yet ancestors become fewer.
\<close>

function (sequential) validated_replay :: "'d codec \<Rightarrow> wire \<Rightarrow> 'd session_store \<Rightarrow> uuid \<Rightarrow> nat option
    \<Rightarrow> uuid list \<Rightarrow> thread result" where
  "validated_replay K W s tid through ancestors =
     check (tid \<notin> set ancestors) fork_invalid
     (bindE (events_after K s tid 0) (\<lambda>es.
      bindE (through_prefix through es) (\<lambda>es'.
      bindE (replay W es') (\<lambda>th.
      case th_fork_snapshot th of
        None \<Rightarrow> Inr th
      | Some f \<Rightarrow>
          bindE (validated_replay K W s (fs_source_thread_id f) (Some (fs_source_sequence f)) (tid # ancestors))
            (\<lambda>source. bindE (validate_fork_snapshot W (k_thread_json K) source f) (\<lambda>_. Inr th))))))"
  by pat_completeness auto
termination
proof (relation "measure (\<lambda>(K, W, s, tid, through, ancestors).
    card (set (map er_thread (s_events s)) - set ancestors))")
  fix K :: "'d codec" and W s tid through ancestors es es' th f
  assume "tid \<notin> set ancestors" "events_after K s tid 0 = Inr es" "through_prefix through es = Inr es'"
    "replay W es' = Inr th"
  moreover from this(2-4) have "tid \<in> set (map er_thread (s_events s))"
    by (rule replayed_present)
  ultimately have "set (map er_thread (s_events s)) - set (tid # ancestors)
      \<subset> set (map er_thread (s_events s)) - set ancestors"
    by auto
  then show "((K, W, s, fs_source_thread_id f, Some (fs_source_sequence f), tid # ancestors),
      (K, W, s, tid, through, ancestors)) \<in> measure (\<lambda>(K, W, s, tid, through, ancestors).
        card (set (map er_thread (s_events s)) - set ancestors))"
    by (simp add: psubset_card_mono)
qed simp

declare validated_replay.simps [simp del]

definition rebuild :: "'d codec \<Rightarrow> wire \<Rightarrow> 'd session_store \<Rightarrow> uuid \<Rightarrow> (thread \<times> 'd session_store) result" where
  "rebuild K W s tid =
     bindE (validated_replay K W s tid None []) (\<lambda>th.
     bindE (save_projection K s th) (\<lambda>s'. Inr (th, s')))"

end
