(* ===== verification/Session_Refinement.thy ===== *)
theory Session_Refinement
  imports Session_Store Reducer_Invariants
begin

text \<open>
  The session store implements a map from Threads to transcripts. \<open>represents\<close> relates the two tables
  to this map: the rows of a Thread are the encoded events of its transcript, its projection is the
  encoded replay, and a forked Thread can be traced to a prefix of its source.
\<close>

type_synonym transcripts = "uuid \<Rightarrow> agent_event list"

section \<open>The encoding\<close>

text \<open>An event as the store leaves it behind: valid, in the form its version exports, and readable.\<close>

definition stored_form :: "'d codec \<Rightarrow> agent_event \<Rightarrow> bool" where
  "stored_form K e \<longleftrightarrow> event_ok e \<and> legacy_event e = e \<and> k_read_event K (k_write_event K e) = Some e"

text \<open>
  What the store relies on of pydantic and SQLite: an event whose draft was read from JSON reads back
  from its own JSON, a snapshot of such events reads back unchanged if it reads at all, and
  \<^verbatim>\<open>$.archive\<close> of a snapshot is null exactly when the field is.
\<close>

definition codec_ok :: "'d codec \<Rightarrow> wire \<Rightarrow> bool" where
  "codec_ok K W \<longleftrightarrow>
     (\<forall>d x tid n. k_freeze K d = Some x \<longrightarrow> draft_ok (legacy_draft x) \<longrightarrow> 0 < n \<longrightarrow>
        k_read_event K (k_write_event K (at_position (legacy_draft x) tid n))
          = Some (at_position (legacy_draft x) tid n))
     \<and> (\<forall>es th th'. list_all (stored_form K) es \<longrightarrow> replay W es = Inr th \<longrightarrow>
        k_read_thread K (k_write_thread K th) = Some th' \<longrightarrow> th' = th)
     \<and> (\<forall>th. k_is_archived K (k_write_thread K th) \<longleftrightarrow> th_archive th \<noteq> None)"

text \<open>A snapshot that reads back and passes the validators of its class.\<close>

definition readable :: "'d codec \<Rightarrow> thread \<Rightarrow> bool" where
  "readable K th \<longleftrightarrow> load_thread K (k_write_thread K th) = Some th"

section \<open>The representation\<close>

definition events_represent :: "'d codec \<Rightarrow> wire \<Rightarrow> 'd session_store \<Rightarrow> transcripts \<Rightarrow> bool" where
  "events_represent K W s hist \<longleftrightarrow>
     distinct (map er_event (s_events s))
     \<and> (\<forall>tid. rows_of s tid = map (event_row_of K) (hist tid) \<and> list_all (stored_form K) (hist tid)
         \<and> (hist tid \<noteq> [] \<longrightarrow> (\<exists>th. replay W (hist tid) = Inr th \<and> thread_id th = tid)))"

definition projections_represent :: "'d codec \<Rightarrow> wire \<Rightarrow> 'd session_store \<Rightarrow> transcripts \<Rightarrow> bool" where
  "projections_represent K W s hist \<longleftrightarrow>
     distinct (map pj_thread (s_threads s))
     \<and> (\<forall>tid. thread_row_of s tid =
         (if hist tid = [] then None else Some (projection_row K (projr (replay W (hist tid))))))"

definition traced :: "'d codec \<Rightarrow> wire \<Rightarrow> transcripts \<Rightarrow> fork_snapshot \<Rightarrow> bool" where
  "traced K W hist f \<longleftrightarrow>
     fs_source_sequence f \<le> length (hist (fs_source_thread_id f))
     \<and> (\<exists>source h. replay W (take (fs_source_sequence f) (hist (fs_source_thread_id f))) = Inr source
         \<and> validate_fork_snapshot W (k_thread_json K) source f = Inr h)"

definition provenance :: "'d codec \<Rightarrow> wire \<Rightarrow> transcripts \<Rightarrow> (uuid \<Rightarrow> nat) \<Rightarrow> bool" where
  "provenance K W hist rank \<longleftrightarrow>
     (\<forall>tid th f. replay W (hist tid) = Inr th \<longrightarrow> th_fork_snapshot th = Some f \<longrightarrow>
        rank (fs_source_thread_id f) < rank tid \<and> traced K W hist f)"

definition represents :: "'d codec \<Rightarrow> wire \<Rightarrow> 'd session_store \<Rightarrow> transcripts \<Rightarrow> bool" where
  "represents K W s hist \<longleftrightarrow>
     codec_ok K W \<and> events_represent K W s hist \<and> projections_represent K W s hist
     \<and> (\<exists>rank. provenance K W hist rank)"

lemma empty_represents: "codec_ok K W \<Longrightarrow> represents K W empty_store (\<lambda>_. [])"
  by (simp add: represents_def events_represent_def projections_represent_def provenance_def
      empty_store_def rows_of_def thread_row_of_def replay_Nil)

section \<open>Replays\<close>

lemma replay_run:
  "replay W es = Inr th \<longleftrightarrow>
     foldE (replay_step W) (None, []) es = Inr (Some th, rev (map event_id es))
     \<and> require_closed_rejections th = Inr ()"
proof -
  have seen: "foldE (replay_step W) st es = Inr st' \<Longrightarrow> snd st' = rev (map event_id es) @ snd st" for st st'
    by (induction es arbitrary: st) (auto simp: replay_step_def)
  show ?thesis
    using seen [of "(None, [])"] by (force simp: replay_def split: option.splits)
qed

lemma replay_append:
  assumes "foldE (replay_step W) (t, rev (map event_id es)) fs = Inr (Some th, seen)"
    and "if es = [] then t = None else (\<exists>u. t = Some u \<and> replay W es = Inr u)"
    and "require_closed_rejections th = Inr ()"
  shows "replay W (es @ fs) = Inr th"
proof -
  have "foldE (replay_step W) (None, []) es = Inr (t, rev (map event_id es))"
    using assms(2) by (auto simp: replay_run split: if_splits)
  with assms(1) have run: "foldE (replay_step W) (None, []) (es @ fs) = Inr (Some th, seen)"
    by (simp add: foldE_append)
  then show ?thesis using assms(3) by (simp add: replay_def)
qed

lemma create_fields:
  assumes "create_thread e = Inr th"
  shows "e_sequence e = 1"
    "th_fork_snapshot th = (case payload e of ThreadForked w f \<Rightarrow> Some f | _ \<Rightarrow> None)"
  using assms by (auto simp: create_thread_def Let_def split: event_payload.splits)

lemma apply_thread_fields:
  assumes "apply_to_thread W u e = Inr th"
  shows "th_sequence th = e_sequence e" "thread_id th = e_thread_id e" "e_sequence e = th_sequence u + 1"
    "thread_id u = e_thread_id e" "th_fork_snapshot th = th_fork_snapshot u"
  using assms
  by (cases "payload e";
      auto simp: apply_to_thread_def archive_thread_def apply_active_def split: option.splits)+

lemma apply_event_fields:
  assumes "apply_event W t e = Inr th"
  shows "th_sequence th = e_sequence e" "thread_id th = e_thread_id e"
    "e_sequence e = sequence_of t + 1" "\<And>u. t = Some u \<Longrightarrow> thread_id u = e_thread_id e"
    "th_fork_snapshot th = (case t of None \<Rightarrow> (case payload e of ThreadForked w f \<Rightarrow> Some f | _ \<Rightarrow> None)
       | Some u \<Rightarrow> th_fork_snapshot u)"
proof -
  have A: "th_sequence th = e_sequence e \<and> thread_id th = e_thread_id e \<and> e_sequence e = sequence_of t + 1
      \<and> th_fork_snapshot th = (case payload e of ThreadForked w f \<Rightarrow> Some f | _ \<Rightarrow> None)" if "t = None"
    using assms that create_thread_fields [of e th] create_fields [of e th]
    by (simp add: apply_event_def sequence_of_def)
  have B: "th_sequence th = e_sequence e \<and> thread_id th = e_thread_id e \<and> e_sequence e = sequence_of t + 1
      \<and> thread_id u = e_thread_id e \<and> th_fork_snapshot th = th_fork_snapshot u" if "t = Some u" for u
    using assms that apply_thread_fields [of W u e th] by (simp add: apply_event_def sequence_of_def)
  show "th_sequence th = e_sequence e" using A B by (cases t) simp_all
  show "thread_id th = e_thread_id e" using A B by (cases t) simp_all
  show "e_sequence e = sequence_of t + 1" using A B by (cases t) simp_all
  show "\<And>u. t = Some u \<Longrightarrow> thread_id u = e_thread_id e" using B by blast
  show "th_fork_snapshot th = (case t of None \<Rightarrow> (case payload e of ThreadForked w f \<Rightarrow> Some f | _ \<Rightarrow> None)
       | Some u \<Rightarrow> th_fork_snapshot u)"
    using A B by (cases t) simp_all
qed

lemma run_positions:
  assumes "foldE (replay_step W) (t, seen) es = Inr (t', seen')"
  shows "sequence_of t' = sequence_of t + length es"
    and "map e_sequence es = [sequence_of t + 1..<sequence_of t + 1 + length es]"
    and "\<And>th. t' = Some th \<Longrightarrow> es \<noteq> [] \<Longrightarrow> list_all (\<lambda>e. e_thread_id e = thread_id th) es"
    and "\<And>th u. t' = Some th \<Longrightarrow> t = Some u \<Longrightarrow> thread_id th = thread_id u \<and> th_fork_snapshot th = th_fork_snapshot u"
  using assms
proof (induction es arbitrary: t seen)
  case (Cons e es)
  {
    case 1
    then obtain u where u: "apply_event W t e = Inr u"
        "foldE (replay_step W) (Some u, event_id e # seen) es = Inr (t', seen')"
      by (auto simp: replay_step_Inr)
    from Cons.IH(1) [OF u(2)] apply_event_fields(1,3) [OF u(1)]
    show ?case by (simp add: sequence_of_def)
  next
    case 2
    then obtain u where u: "apply_event W t e = Inr u"
        "foldE (replay_step W) (Some u, event_id e # seen) es = Inr (t', seen')"
      by (auto simp: replay_step_Inr)
    have step: "sequence_of (Some u) = sequence_of t + 1" "e_sequence e = sequence_of t + 1"
      using apply_event_fields(1,3) [OF u(1)] by (simp_all add: sequence_of_def)
    have "[sequence_of t + 1..<sequence_of t + 1 + length (e # es)]
        = (sequence_of t + 1) # [sequence_of (Some u) + 1..<sequence_of (Some u) + 1 + length es]"
      using step(1) by (simp add: upt_conv_Cons del: upt_Suc)
    with Cons.IH(2) [OF u(2)] step(2) show ?case by (simp del: upt_Suc)
  next
    case (3 th)
    then obtain u where u: "apply_event W t e = Inr u"
        "foldE (replay_step W) (Some u, event_id e # seen) es = Inr (t', seen')"
      by (auto simp: replay_step_Inr)
    have "thread_id th = thread_id u" using Cons.IH(4) [OF 3(1) _ u(2)] by simp
    moreover have "es \<noteq> [] \<longrightarrow> list_all (\<lambda>e. e_thread_id e = thread_id th) es"
      using Cons.IH(3) [OF 3(1) _ u(2)] by simp
    ultimately show ?case using apply_event_fields(2) [OF u(1)] by (cases es) auto
  next
    case (4 th u)
    then obtain v where v: "apply_event W t e = Inr v"
        "foldE (replay_step W) (Some v, event_id e # seen) es = Inr (t', seen')"
      by (auto simp: replay_step_Inr)
    from Cons.IH(4) [OF 4(1) _ v(2)] apply_event_fields [OF v(1)] 4(2)
    show ?case by simp
  }
qed (auto simp: sequence_of_def)

lemma replay_positions:
  assumes "replay W es = Inr th"
  shows "th_sequence th = length es" "map e_sequence es = [1..<1 + length es]"
    "list_all (\<lambda>e. e_thread_id e = thread_id th) es" "es \<noteq> []"
proof -
  from assms have run: "foldE (replay_step W) (None, []) es = Inr (Some th, rev (map event_id es))"
    by (simp add: replay_run)
  from assms show ne: "es \<noteq> []" by (auto simp: replay_Nil)
  from run_positions(1,2) [OF run] show "th_sequence th = length es" "map e_sequence es = [1..<1 + length es]"
    by (simp_all add: sequence_of_def)
  from run_positions(3) [OF run] ne show "list_all (\<lambda>e. e_thread_id e = thread_id th) es" by simp
qed

definition forked_from :: "agent_event list \<Rightarrow> fork_snapshot option" where
  "forked_from es = (case es of [] \<Rightarrow> None | e # _ \<Rightarrow> (case payload e of ThreadForked _ f \<Rightarrow> Some f | _ \<Rightarrow> None))"

lemma replay_fork:
  assumes "replay W es = Inr th"
  shows "th_fork_snapshot th = forked_from es"
proof (cases es)
  case (Cons e fs)
  with assms obtain u where u: "apply_event W None e = Inr u"
      "foldE (replay_step W) (Some u, [event_id e]) fs = Inr (Some th, rev (map event_id es))"
    by (auto simp: replay_run replay_step_Inr)
  have "th_fork_snapshot th = th_fork_snapshot u" using run_positions(4) [OF u(2) refl refl] by blast
  then show ?thesis using apply_event_fields(5) [OF u(1)] by (simp add: forked_from_def Cons)
qed (use assms in \<open>simp add: replay_Nil\<close>)

section \<open>Reading what the tables represent\<close>

lemma representsD:
  assumes "represents K W s hist"
  shows "codec_ok K W" "events_represent K W s hist" "projections_represent K W s hist"
    "\<exists>rank. provenance K W hist rank"
  using assms by (simp_all add: represents_def)

lemma events_representD:
  assumes "events_represent K W s hist"
  shows "rows_of s tid = map (event_row_of K) (hist tid)" "list_all (stored_form K) (hist tid)"
    "hist tid \<noteq> [] \<Longrightarrow> \<exists>th. replay W (hist tid) = Inr th \<and> thread_id th = tid"
    "distinct (map er_event (s_events s))"
  using assms by (simp_all add: events_represent_def)

lemma stored_events_ok: "list_all (stored_form K) es \<Longrightarrow> list_all event_ok es"
  by (simp add: list_all_iff stored_form_def)

lemma hist_replay:
  assumes "events_represent K W s hist"
  shows "replay W (hist tid) = Inr th \<Longrightarrow> thread_id th = tid \<and> hist tid \<noteq> []"
  using events_representD(3) [OF assms, of tid] by (cases "hist tid = []") (auto simp: replay_Nil)

lemma last_sequence_upt: "map er_sequence rs = [1..<1 + n] \<Longrightarrow> last_sequence rs = n"
proof (induction n arbitrary: rs)
  case (Suc n)
  then obtain qs q where rs: "rs = qs @ [q]" "map er_sequence qs = [1..<1 + n]" "er_sequence q = Suc n"
    by (cases rs rule: rev_cases) auto
  have "foldr max xs (Suc n) = max (foldr max xs 0) (Suc n)" for xs
    by (induction xs) auto
  from this [of "map er_sequence qs"] Suc.IH [OF rs(2)] rs(1,3) show ?case by (simp add: last_sequence_def)
qed (simp add: last_sequence_def)

lemma row_fields [simp]:
  "er_thread (event_row_of K e) = e_thread_id e" "er_sequence (event_row_of K e) = e_sequence e"
  "er_event (event_row_of K e) = event_id e"
  "pj_thread (projection_row K th) = thread_id th" "pj_sequence (projection_row K th) = th_sequence th"
  "pj_body (projection_row K th) = k_write_thread K th"
  "pj_sha256 (projection_row K th) = k_sha256 K (k_write_thread K th)" "pj_version (projection_row K th) = 22"
  by (simp_all add: event_row_of_def projection_row_def)

lemma rows_last:
  assumes "events_represent K W s hist"
  shows "last_sequence (rows_of s tid) = length (hist tid)" "length (rows_of s tid) = length (hist tid)"
proof -
  note ev = events_representD(1-3) [OF assms, of tid]
  show "length (rows_of s tid) = length (hist tid)" by (simp add: ev(1))
  show "last_sequence (rows_of s tid) = length (hist tid)"
  proof (cases "hist tid = []")
    case False
    with ev(3) obtain th where "replay W (hist tid) = Inr th" by blast
    from replay_positions(2) [OF this] show ?thesis
      by (intro last_sequence_upt) (simp add: ev(1) comp_def)
  qed (simp add: ev(1) last_sequence_def)
qed

lemma load_replay:
  assumes "codec_ok K W" "list_all (stored_form K) es" "replay W es = Inr th"
    "load_thread K (k_write_thread K th) = Some th'"
  shows "th' = th"
  using assms by (auto simp: load_thread_def codec_ok_def split: option.splits if_splits)

text \<open>Reading a projection yields nothing, the replay, or a refusal; never another state.\<close>

lemma read_snapshot_absent:
  assumes "represents K W s hist" "hist tid = []"
  shows "read_snapshot K s tid = Inr None"
  using assms rows_last [OF representsD(2) [OF assms(1)], of tid]
  by (simp add: represents_def projections_represent_def read_snapshot_def validated_snapshot_def)

lemma read_snapshot_present:
  assumes "represents K W s hist" "replay W (hist tid) = Inr th"
  shows "read_snapshot K s tid = (if readable K th then Inr (Some th) else Inl projection_corrupt)"
proof -
  note ev = events_representD(1-3) [OF representsD(2) [OF assms(1)], of tid]
  from hist_replay [OF representsD(2) [OF assms(1)] assms(2)]
  have id: "thread_id th = tid" and ne: "hist tid \<noteq> []" by simp_all
  with assms have row: "thread_row_of s tid = Some (projection_row K th)"
    by (simp add: represents_def projections_represent_def)
  have closed: "require_closed_rejections th = Inr ()" using assms(2) by (simp add: replay_run)
  have version: "require_projection_content_version th 22 = Inr ()"
    by (simp add: require_projection_content_version_def)
  have same: "load_thread K (k_write_thread K th) = Some th' \<Longrightarrow> th' = th" for th'
    using load_replay [OF representsD(1) [OF assms(1)] ev(2) assms(2)] .
  show ?thesis
    using row id closed version same replay_positions(1) [OF assms(2)] rows_last [OF representsD(2) [OF assms(1)], of tid]
    by (auto simp: read_snapshot_def validated_snapshot_def readable_def split: option.splits)
qed

lemma read_snapshot_replay:
  assumes "represents K W s hist" "read_snapshot K s tid = Inr t"
  shows "(t = None \<and> hist tid = []) \<or> (\<exists>th. t = Some th \<and> replay W (hist tid) = Inr th \<and> readable K th)"
proof (cases "hist tid = []")
  case True
  with assms read_snapshot_absent show ?thesis by fastforce
next
  case False
  with events_representD(3) [OF representsD(2) [OF assms(1)]]
  obtain th where th: "replay W (hist tid) = Inr th" by blast
  with assms read_snapshot_present [OF assms(1) th] show ?thesis by (auto split: if_splits)
qed

lemma get_thread_replay:
  assumes "represents K W s hist" "get_thread K s tid = Inr th"
  shows "replay W (hist tid) = Inr th \<and> readable K th"
proof -
  from assms(2) obtain t where t: "read_snapshot K s tid = Inr t" "t = Some th"
    by (auto simp: get_thread_def split: option.splits)
  with read_snapshot_replay [OF assms(1) t(1)] show ?thesis by auto
qed

lemma parse_stored:
  assumes "stored_form K e"
  shows "parse_event K (event_row_of K e) = Inr e"
  using assms by (simp add: parse_event_def stored_form_def event_row_of_def)

text \<open>The events of a represented Thread, from any cursor.\<close>

lemma read_events_run:
  assumes "list_all (stored_form K) es" "map e_sequence es = [n..<n + length es]"
  shows "foldE (read_event K) (n, acc) (map (event_row_of K) es) = Inr (n + length es, acc @ es)"
  using assms
proof (induction es arbitrary: n acc)
  case (Cons e es)
  have "[n..<n + length (e # es)] = n # [Suc n..<Suc n + length es]"
    by (simp add: upt_conv_Cons del: upt_Suc)
  with Cons.prems(2) have "e_sequence e = n" "map e_sequence es = [Suc n..<Suc n + length es]"
    by (simp_all del: upt_Suc)
  with Cons show ?case by (simp add: read_event_def parse_stored del: upt_Suc)
qed simp

lemma sort_key_sorted: "sorted (map f xs) \<Longrightarrow> sort_key f xs = xs"
  by (induction xs) (auto simp: insort_key.simps intro: insort_is_Cons)

lemma filter_upt_drop:
  assumes "map f xs = [1..<1 + length xs]"
  shows "filter (\<lambda>x. n < f x) xs = drop n xs"
proof -
  have nth: "f (xs ! i) = Suc i" if "i < length xs" for i
    using arg_cong [OF assms, of "\<lambda>l. l ! i"] that by (simp del: upt_Suc)
  have "filter (\<lambda>x. n < f x) (take n xs) = []"
    by (auto simp: filter_empty_conv in_set_conv_nth nth)
  moreover have "filter (\<lambda>x. n < f x) (drop n xs) = drop n xs"
    by (auto simp: filter_id_conv in_set_conv_nth nth)
  ultimately have "filter (\<lambda>x. n < f x) (take n xs @ drop n xs) = drop n xs"
    by (simp only: filter_append append.simps)
  then show ?thesis by simp
qed

lemma events_after_hist:
  assumes "events_represent K W s hist"
  shows "events_after K s tid n = Inr (drop n (hist tid))"
proof (cases "hist tid = []")
  case True
  then show ?thesis by (simp add: events_after_def events_representD(1) [OF assms])
next
  case False
  note ev = events_representD(1-3) [OF assms, of tid]
  from ev(3) [OF False] obtain th where "replay W (hist tid) = Inr th" by blast
  note seqs = replay_positions(2) [OF this]
  have "filter (\<lambda>r. n < er_sequence r) (rows_of s tid) = drop n (rows_of s tid)"
    using seqs by (intro filter_upt_drop) (simp add: ev(1) comp_def)
  then have rows: "filter (\<lambda>r. n < er_sequence r) (rows_of s tid) = map (event_row_of K) (drop n (hist tid))"
    by (simp add: ev(1) drop_map)
  have ds: "map e_sequence (drop n (hist tid)) = [n + 1..<n + 1 + length (drop n (hist tid))]"
  proof -
    have "map e_sequence (drop n (hist tid)) = [1 + n..<1 + length (hist tid)]"
      unfolding drop_map [symmetric] seqs by (simp del: upt_Suc)
    then show ?thesis by (cases "n \<le> length (hist tid)") (simp_all del: upt_Suc)
  qed
  have "sorted (map er_sequence (map (event_row_of K) (drop n (hist tid))))"
    unfolding map_map comp_def row_fields ds by (rule sorted_upt)
  then have sorted: "sort_key er_sequence (map (event_row_of K) (drop n (hist tid)))
      = map (event_row_of K) (drop n (hist tid))"
    by (rule sort_key_sorted)
  have "list_all (stored_form K) (drop n (hist tid))" using ev(2) by (auto simp: list_all_iff dest: in_set_dropD)
  from read_events_run [OF this ds, of "[]"] show ?thesis
    unfolding events_after_def rows sorted by simp
qed

section \<open>Appending\<close>

text \<open>The events a batch becomes.\<close>

fun positioned :: "uuid \<Rightarrow> nat \<Rightarrow> event_draft list \<Rightarrow> agent_event list" where
  "positioned tid n [] = []"
| "positioned tid n (d # ds) = at_position (legacy_draft d) tid (n + 1) # positioned tid (n + 1) ds"

lemma positioned_facts [simp]:
  "length (positioned tid n ds) = length ds"
  "map event_id (positioned tid n ds) = map d_event_id ds"
  "map draft_of (positioned tid n ds) = map legacy_draft ds"
  "list_all (\<lambda>e. e_thread_id e = tid) (positioned tid n ds)"
  "positioned tid n ds = [] \<longleftrightarrow> ds = []"
  by (induction ds arbitrary: n) auto

text \<open>The drafts a frozen batch consists of.\<close>

definition frozen_draft :: "'d codec \<Rightarrow> event_draft \<Rightarrow> bool" where
  "frozen_draft K d \<longleftrightarrow> (\<exists>d0 x. k_freeze K d0 = Some x \<and> d = legacy_draft x \<and> draft_ok d)"

lemma frozen_legacy: "frozen_draft K d \<Longrightarrow> legacy_draft d = d"
  by (auto simp: frozen_draft_def)

lemma those_Some: "those xs = Some ys \<longleftrightarrow> xs = map Some ys"
  by (induction xs arbitrary: ys) (auto split: option.splits)

lemma freeze_batch_Inr:
  assumes "freeze_batch K ds = Inr batch"
  shows "list_all (frozen_draft K) batch" "batch \<noteq> []" "distinct (map d_event_id batch)"
    "map (freeze_draft K) ds = map Some batch"
proof -
  from assms have b: "map (freeze_draft K) ds = map Some batch" "batch \<noteq> []" "distinct (map d_event_id batch)"
    by (auto simp: freeze_batch_def those_Some split: option.splits)
  then show "batch \<noteq> []" "distinct (map d_event_id batch)" "map (freeze_draft K) ds = map Some batch" by simp_all
  have "freeze_draft K d = Some x \<Longrightarrow> frozen_draft K x" for d x
    by (auto simp: freeze_draft_def frozen_draft_def split: option.splits if_splits)
  moreover have "\<exists>d. freeze_draft K d = Some x" if "x \<in> set batch" for x
  proof -
    from that have "Some x \<in> set (map (freeze_draft K) ds)" unfolding b(1) by simp
    then show ?thesis by auto
  qed
  ultimately show "list_all (frozen_draft K) batch" unfolding list_all_iff by blast
qed

lemma stored_positioned:
  assumes "codec_ok K W" "list_all (frozen_draft K) ds"
  shows "list_all (stored_form K) (positioned tid n ds)"
  using assms(2)
proof (induction ds arbitrary: n)
  case (Cons d ds)
  then obtain d0 x where x: "k_freeze K d0 = Some x" "d = legacy_draft x" "draft_ok d"
    by (auto simp: frozen_draft_def)
  with assms(1) have "k_read_event K (k_write_event K (at_position d tid (n + 1))) = Some (at_position d tid (n + 1))"
    by (simp add: codec_ok_def)
  with x have "stored_form K (at_position (legacy_draft d) tid (n + 1))"
    by (simp add: stored_form_def event_ok_at_position)
  with Cons show ?case by simp
qed simp

lemma append_loop_step:
  assumes "foldE (append_draft K W tid) (t, n, s) (d # ds) = Inr st"
  obtains u where "apply_event W t (at_position (legacy_draft d) tid (n + 1)) = Inr u"
    and "d_event_id d \<notin> er_event ` set (s_events s)"
    and "foldE (append_draft K W tid) (Some u, n + 1,
        s\<lparr>s_events := s_events s @ [event_row_of K (at_position (legacy_draft d) tid (n + 1))]\<rparr>) ds = Inr st"
  using assms unfolding append_draft_def persist_event_def Let_def list_all_iff by fastforce

text \<open>The loop over new drafts: it replays them, and appends their rows under fresh identities.\<close>

lemma append_loop:
  assumes "foldE (append_draft K W tid) (t, n, s) ds = Inr (t', n', s')"
  shows "s' = s\<lparr>s_events := s_events s @ map (event_row_of K) (positioned tid n ds)\<rparr>"
    and "distinct (map er_event (s_events s)) \<Longrightarrow> distinct (map er_event (s_events s'))"
    and "set seen \<subseteq> er_event ` set (s_events s) \<Longrightarrow>
      foldE (replay_step W) (t, seen) (positioned tid n ds) = Inr (t', rev (map d_event_id ds) @ seen)"
  using assms
proof (induction ds arbitrary: t n s seen)
  case (Cons d ds)
  {
    case 1
    from append_loop_step [OF 1] obtain u where "foldE (append_draft K W tid) (Some u, n + 1,
        s\<lparr>s_events := s_events s @ [event_row_of K (at_position (legacy_draft d) tid (n + 1))]\<rparr>) ds = Inr (t', n', s')"
      by blast
    from Cons.IH(1) [OF this] show ?case by simp
  next
    case 2
    from append_loop_step [OF 2(2)] obtain u where u: "d_event_id d \<notin> er_event ` set (s_events s)"
        "foldE (append_draft K W tid) (Some u, n + 1,
          s\<lparr>s_events := s_events s @ [event_row_of K (at_position (legacy_draft d) tid (n + 1))]\<rparr>) ds = Inr (t', n', s')"
      by blast
    show ?case using 2(1) u(1) by (intro Cons.IH(2) [OF _ u(2)]) auto
  next
    case 3
    from append_loop_step [OF 3(2)] obtain u
      where u: "apply_event W t (at_position (legacy_draft d) tid (n + 1)) = Inr u"
        "d_event_id d \<notin> er_event ` set (s_events s)"
        "foldE (append_draft K W tid) (Some u, n + 1,
          s\<lparr>s_events := s_events s @ [event_row_of K (at_position (legacy_draft d) tid (n + 1))]\<rparr>) ds = Inr (t', n', s')"
      by blast
    have "foldE (replay_step W) (Some u, d_event_id d # seen) (positioned tid (n + 1) ds)
        = Inr (t', rev (map d_event_id ds) @ d_event_id d # seen)"
      using 3(1) by (intro Cons.IH(3) [OF _ u(3)]) auto
    moreover have "d_event_id d \<notin> set seen" using 3(1) u(2) by blast
    ultimately show ?case using u(1) by (auto simp: replay_step_Inr)
  }
qed simp_all

lemma find_replace_by:
  "find (\<lambda>x. k x = i) (replace_by k y xs) =
     (if k y = i \<and> i \<in> k ` set xs then Some y else find (\<lambda>x. k x = i) xs)"
  by (induction xs) auto

lemma thread_row_upsert:
  "thread_row_of (s\<lparr>s_threads := upsert_row r (s_threads s)\<rparr>) tid =
     (if pj_thread r = tid then Some r else thread_row_of s tid)"
proof -
  have "find (\<lambda>x. pj_thread x = tid) (xs @ [r]) = (if pj_thread r = tid then Some r else find (\<lambda>x. pj_thread x = tid) xs)"
    if "pj_thread r \<notin> pj_thread ` set xs" for xs
    using that by (induction xs) auto
  then show ?thesis by (auto simp: thread_row_of_def upsert_row_def find_replace_by)
qed

lemma upsert_distinct: "distinct (map pj_thread rs) \<Longrightarrow> distinct (map pj_thread (upsert_row r rs))"
  by (auto simp: upsert_row_def)

lemma rows_of_append:
  assumes "list_all (\<lambda>e. e_thread_id e = tid) es"
  shows "rows_of (s\<lparr>s_events := s_events s @ map (event_row_of K) es\<rparr>) t =
     (if t = tid then rows_of s t @ map (event_row_of K) es else rows_of s t)"
proof -
  have "filter (\<lambda>r. er_thread r = t) (map (event_row_of K) es) = (if t = tid then map (event_row_of K) es else [])"
    using assms by (induction es) auto
  then show ?thesis by (simp add: rows_of_def)
qed

text \<open>A new batch extends the transcript of its Thread by exactly its events.\<close>

lemma append_transaction:
  assumes rep: "represents K W s hist" and batch: "list_all (frozen_draft K) batch" "batch \<noteq> []"
    and run: "append_in_transaction K W s tid batch n = Inr (th, changed, s')"
  shows "\<not> changed \<Longrightarrow> s' = s \<and> replay W (hist tid) = Inr th"
    and "changed \<Longrightarrow> length (hist tid) = n
      \<and> replay W (hist tid @ positioned tid n batch) = Inr th \<and> thread_id th = tid
      \<and> events_represent K W s' (hist(tid := hist tid @ positioned tid n batch))
      \<and> projections_represent K W s' (hist(tid := hist tid @ positioned tid n batch))"
proof -
  assume "\<not> changed"
  with run obtain t where "s' = s" "read_snapshot K s tid = Inr t" "t = Some th"
    by (auto simp: append_in_transaction_def the_thread_def split: if_splits option.splits)
  with read_snapshot_replay [OF rep] show "s' = s \<and> replay W (hist tid) = Inr th" by fastforce
next
  assume changed
  let ?es = "positioned tid n batch" and ?hist = "hist(tid := hist tid @ positioned tid n batch)"
  from run \<open>changed\<close> obtain t k s1 where t: "read_snapshot K s tid = Inr t" "sequence_of t = n"
      and loop: "foldE (append_draft K W tid) (t, n, s) batch = Inr (Some th, k, s1)"
      and closed: "require_closed_rejections th = Inr ()" and save: "save_projection K s1 th = Inr s'"
    by (auto simp: append_in_transaction_def the_thread_def split: if_splits option.splits)
  note ev = events_representD [OF representsD(2) [OF rep]]
  from read_snapshot_replay [OF rep t(1)]
  have t': "if hist tid = [] then t = None else \<exists>u. t = Some u \<and> replay W (hist tid) = Inr u"
    by (auto simp: replay_Nil)
  then have len: "length (hist tid) = n"
    using t(2) by (auto simp: sequence_of_def dest: replay_positions(1) split: if_splits)
  have "event_id ` set (hist tid) = er_event ` set (rows_of s tid)"
    by (simp add: ev(1) image_image)
  then have seen: "set (rev (map event_id (hist tid))) \<subseteq> er_event ` set (s_events s)"
    by (auto simp: rows_of_def)
  from append_loop(3) [OF loop seen] have new: "replay W (hist tid @ ?es) = Inr th"
    using t' closed by (rule replay_append)
  from replay_positions(3) [OF new] batch(2) have id: "thread_id th = tid"
    by (cases batch) auto
  have events: "s_events s' = s_events s1" and threads: "s_threads s' = upsert_row (projection_row K th) (s_threads s)"
    using save append_loop(1) [OF loop] by (auto simp: save_projection_def)
  have rows: "rows_of s' i = (if i = tid then rows_of s i @ map (event_row_of K) ?es else rows_of s i)" for i
  proof -
    have "rows_of s' i = rows_of s1 i" by (simp add: rows_of_def events)
    then show ?thesis unfolding append_loop(1) [OF loop] by (simp add: rows_of_append)
  qed
  have "events_represent K W s' ?hist"
    using ev append_loop(2) [OF loop ev(4)] new id stored_positioned [OF representsD(1) [OF rep] batch(1)]
    by (auto simp: events_represent_def rows events)
  moreover have "projections_represent K W s' ?hist"
  proof -
    have pr: "distinct (map pj_thread (s_threads s))"
      "thread_row_of s i = (if hist i = [] then None else Some (projection_row K (projr (replay W (hist i)))))" for i
      using representsD(3) [OF rep] by (simp_all add: projections_represent_def)
    have "thread_row_of s' i = thread_row_of (s\<lparr>s_threads := upsert_row (projection_row K th) (s_threads s)\<rparr>) i" for i
      by (simp add: thread_row_of_def threads)
    then show ?thesis
      using pr new id batch(2) by (simp add: projections_represent_def thread_row_upsert threads upsert_distinct)
  qed
  ultimately show "length (hist tid) = n
      \<and> replay W (hist tid @ ?es) = Inr th \<and> thread_id th = tid
      \<and> events_represent K W s' ?hist \<and> projections_represent K W s' ?hist"
    using len new id by blast
qed

section \<open>Provenance of forks\<close>

lemma traced_extend:
  assumes "traced K W hist f"
  shows "traced K W (hist(tid := hist tid @ es)) f"
  using assms by (auto simp: traced_def)

lemma provenance_append:
  assumes "provenance K W hist rank" and "events_represent K W s hist"
    and "replay W (hist tid @ es) = Inr th"
    and "hist tid = [] \<Longrightarrow> forked_from es = None"
  shows "provenance K W (hist(tid := hist tid @ es)) rank"
  unfolding provenance_def
proof (intro allI impI)
  fix i u f
  assume u: "replay W ((hist(tid := hist tid @ es)) i) = Inr u" "th_fork_snapshot u = Some f"
  have "rank (fs_source_thread_id f) < rank i \<and> traced K W hist f"
  proof (cases "i = tid")
    case True
    with u assms(3) have f: "forked_from (hist tid @ es) = Some f" using replay_fork by fastforce
    with assms(4) have ne: "hist tid \<noteq> []" by auto
    with events_representD(3) [OF assms(2)] obtain v where v: "replay W (hist tid) = Inr v" by blast
    have "th_fork_snapshot v = Some f"
      using replay_fork [OF v] f ne by (cases "hist tid") (simp_all add: forked_from_def)
    with v assms(1) True show ?thesis by (auto simp: provenance_def)
  next
    case False
    with u assms(1) show ?thesis by (auto simp: provenance_def)
  qed
  then show "rank (fs_source_thread_id f) < rank i \<and> traced K W (hist(tid := hist tid @ es)) f"
    using traced_extend by blast
qed

text \<open>A fork ranks above its source; no Thread can have been forked from one that did not exist.\<close>

lemma provenance_fork:
  assumes prov: "provenance K W hist rank" and "hist dst = []" and "src \<noteq> dst"
    and fork: "forked_from es = Some f" "fs_source_thread_id f = src" "traced K W hist f"
    and "replay W es = Inr th"
  shows "provenance K W (hist(dst := es)) (rank(dst := Suc (rank src)))"
  unfolding provenance_def
proof (intro allI impI)
  fix i u g
  assume u: "replay W ((hist(dst := es)) i) = Inr u" "th_fork_snapshot u = Some g"
  have g: "(if i = dst then g = f else rank (fs_source_thread_id g) < rank i \<and> traced K W hist g)"
    using u fork(1) prov replay_fork [OF u(1)] by (auto simp: provenance_def)
  then have tr: "traced K W hist g" using fork(3) by (auto split: if_splits)
  then have "fs_source_thread_id g \<noteq> dst" using assms(2) by (auto simp: traced_def replay_Nil)
  with g tr assms(3) fork(2) show "(rank(dst := Suc (rank src))) (fs_source_thread_id g) < (rank(dst := Suc (rank src))) i
      \<and> traced K W (hist(dst := es)) g"
    by (auto simp: traced_def split: if_splits)
qed

end
