(* ===== verification/Session_Safety.thy ===== *)
theory Session_Safety
  imports Session_Refinement Turn_Invariants
begin

text \<open>
  What the session store guarantees: every operation refines an append to one transcript, a rebuild
  restores any projection, and through any sequence of operations the record of a Thread only grows.
\<close>

section \<open>Every operation keeps the representation\<close>

lemma append_represents:
  assumes rep: "represents K W s hist" and run: "append_events K W s tid ds n = Inr (th, changed, s')"
  shows "\<exists>batch. freeze_batch K ds = Inr batch
    \<and> (if changed
       then length (hist tid) = n \<and> replay W (hist tid @ positioned tid n batch) = Inr th
         \<and> represents K W s' (hist(tid := hist tid @ positioned tid n batch))
       else s' = s \<and> replay W (hist tid) = Inr th)"
proof -
  from run obtain batch where fb: "freeze_batch K ds = Inr batch" and nofork: "\<not> list_ex is_fork batch"
      and app: "append_in_transaction K W s tid batch n = Inr (th, changed, s')"
    by (auto simp: append_events_def)
  note tr = append_transaction [OF rep freeze_batch_Inr(1,2) [OF fb] app]
  have "represents K W s' (hist(tid := hist tid @ positioned tid n batch))" if changed
  proof -
    from tr(2) [OF that] have new: "replay W (hist tid @ positioned tid n batch) = Inr th"
        "events_represent K W s' (hist(tid := hist tid @ positioned tid n batch))"
        "projections_represent K W s' (hist(tid := hist tid @ positioned tid n batch))"
      by simp_all
    from rep obtain rank where prov: "provenance K W hist rank" by (auto simp: represents_def)
    have "forked_from (positioned tid n batch) = None"
      using nofork
      by (cases batch) (auto simp: forked_from_def is_fork_def legacy_draft_def legacy_payload_def
          split: event_payload.splits)
    from provenance_append [OF prov representsD(2) [OF rep] new(1)] this
    have "provenance K W (hist(tid := hist tid @ positioned tid n batch)) rank" by blast
    with new(2,3) representsD(1) [OF rep] show ?thesis by (auto simp: represents_def)
  qed
  with fb tr show ?thesis by auto
qed

lemma validated_source:
  assumes "validate_fork_snapshot W dump source f = Inr h"
  shows "fs_source_thread_id f = thread_id source" "fs_source_sequence f = th_sequence source"
    "source_history W source (fs_through_turn_id f) = Inr (fs_items f)"
proof -
  from assms show "fs_source_thread_id f = thread_id source" "fs_source_sequence f = th_sequence source"
    by (auto simp: validate_fork_snapshot_def split: prod.splits)
  from assms obtain h' where "prepare_fork_snapshot W dump source (fs_request_id f) (fs_through_turn_id f)
      (fs_tool_result_view_policy f) (fs_allow_rejections f) = Inr (f, h')"
    by (auto simp: validate_fork_snapshot_def split: prod.splits)
  from prepared_fields(9) [OF this] show "source_history W source (fs_through_turn_id f) = Inr (fs_items f)" .
qed

lemma fork_represents:
  assumes rep: "represents K W s hist" and run: "fork_thread K W s src dst d n = Inr (th, changed, s')"
  shows "\<not> changed \<Longrightarrow> s' = s \<and> replay W (hist dst) = Inr th"
    and "changed \<Longrightarrow> \<exists>d' f source h. freeze_batch K [d] = Inr [d'] \<and> hist dst = [] \<and> src \<noteq> dst
      \<and> replay W (hist src) = Inr source \<and> length (hist src) = n
      \<and> validate_fork_snapshot W (k_thread_json K) source f = Inr h
      \<and> replay W (positioned dst 0 [d']) = Inr th \<and> th_fork_snapshot th = Some f
      \<and> represents K W s' (hist(dst := positioned dst 0 [d']))"
proof -
  from run obtain batch where fb: "freeze_batch K [d] = Inr batch"
    by (auto simp: fork_thread_def)
  then obtain d' where batch: "batch = [d']"
    using freeze_batch_Inr(4) by fastforce
  from run fb batch obtain w f where p: "d_payload d' = ThreadForked w f"
      and ids: "src \<noteq> dst" "fs_source_thread_id f = src"
    by (auto simp: fork_thread_def split: event_payload.splits)
  from run fb batch p obtain t where t: "read_snapshot K s dst = Inr t"
    by (auto simp: fork_thread_def)
  have app: "append_in_transaction K W s dst [d'] 0 = Inr (th, changed, s')"
    using run fb batch p t by (auto simp: fork_thread_def split: if_splits option.splits)
  note tr = append_transaction [OF rep _ _ app]
  note fz = freeze_batch_Inr(1,2) [OF fb, unfolded batch]
  {
    assume "\<not> changed"
    then show "s' = s \<and> replay W (hist dst) = Inr th" using tr(1) [OF fz] by blast
  next
    assume ch: changed
    from tr(2) [OF fz this] have new: "hist dst = []" "replay W (positioned dst 0 [d']) = Inr th"
        "events_represent K W s' (hist(dst := positioned dst 0 [d']))"
        "projections_represent K W s' (hist(dst := positioned dst 0 [d']))"
      by auto
    from read_snapshot_absent [OF rep new(1)] t have "t = None" by simp
    with run fb batch p t obtain source h where src: "read_snapshot K s src = Inr (Some source)"
        "th_sequence source = n" "validate_fork_snapshot W (k_thread_json K) source f = Inr h"
      by (auto simp: fork_thread_def split: option.splits)
    from read_snapshot_replay [OF rep src(1)] have source: "replay W (hist src) = Inr source" by auto
    have ff: "forked_from (positioned dst 0 [d']) = Some f"
      by (simp add: forked_from_def legacy_draft_def legacy_payload_def p)
    then have snap: "th_fork_snapshot th = Some f" using replay_fork [OF new(2)] by simp
    from replay_positions(1) [OF source] src(2) validated_source(2) [OF src(3)]
    have len: "length (hist src) = n" "fs_source_sequence f = length (hist src)" by simp_all
    then have "traced K W hist f" using source src(3) ids(2) by (auto simp: traced_def)
    from rep obtain rank where prov: "provenance K W hist rank" by (auto simp: represents_def)
    from provenance_fork [OF prov new(1) ids(1) ff ids(2) \<open>traced K W hist f\<close> new(2)]
    have "represents K W s' (hist(dst := positioned dst 0 [d']))"
      using new(3,4) representsD(1) [OF rep] by (auto simp: represents_def)
    then show "\<exists>d' f source h. freeze_batch K [d] = Inr [d'] \<and> hist dst = [] \<and> src \<noteq> dst
      \<and> replay W (hist src) = Inr source \<and> length (hist src) = n
      \<and> validate_fork_snapshot W (k_thread_json K) source f = Inr h
      \<and> replay W (positioned dst 0 [d']) = Inr th \<and> th_fork_snapshot th = Some f
      \<and> represents K W s' (hist(dst := positioned dst 0 [d']))"
      using fb batch new(1,2) ids(1) source len(1) src(3) snap by blast
  }
qed

section \<open>Rebuilding\<close>

lemma forked_from_take: "0 < n \<Longrightarrow> forked_from (take n es) = forked_from es"
  by (cases es; cases n) (simp_all add: forked_from_def)

lemma validated_replay_hist:
  assumes ev: "events_represent K W s hist" and prov: "provenance K W hist rank"
  shows "through_prefix through (hist tid) = Inr es \<Longrightarrow> replay W es = Inr th \<Longrightarrow>
    \<forall>a \<in> set ancestors. rank tid < rank a \<Longrightarrow> validated_replay K W s tid through ancestors = Inr th"
proof (induction "rank tid" arbitrary: tid through es th ancestors rule: less_induct)
  case less
  have fresh: "tid \<notin> set ancestors" using less.prems(3) by blast
  have events: "events_after K s tid 0 = Inr (hist tid)" using events_after_hist [OF ev, of tid 0] by simp
  show ?case
  proof (cases "th_fork_snapshot th")
    case None
    with fresh events less.prems show ?thesis by (subst validated_replay.simps) simp
  next
    case (Some f)
    have "es \<noteq> []" using less.prems(2) by (auto simp: replay_Nil)
    then have ne: "hist tid \<noteq> []" and "forked_from (hist tid) = forked_from es"
      using less.prems(1) forked_from_take by (fastforce simp: through_prefix_def split: option.splits)+
    with Some replay_fork [OF less.prems(2)] have ff: "forked_from (hist tid) = Some f" by simp
    from events_representD(3) [OF ev ne] obtain u where u: "replay W (hist tid) = Inr u" by blast
    with prov ff replay_fork [OF u] have rank: "rank (fs_source_thread_id f) < rank tid" and "traced K W hist f"
      by (auto simp: provenance_def)
    then obtain source h where src: "replay W (take (fs_source_sequence f) (hist (fs_source_thread_id f))) = Inr source"
        "validate_fork_snapshot W (k_thread_json K) source f = Inr h"
        "through_prefix (Some (fs_source_sequence f)) (hist (fs_source_thread_id f))
          = Inr (take (fs_source_sequence f) (hist (fs_source_thread_id f)))"
      by (auto simp: traced_def through_prefix_def)
    have "validated_replay K W s (fs_source_thread_id f) (Some (fs_source_sequence f)) (tid # ancestors) = Inr source"
      using rank less.prems(3) by (intro less.hyps [OF rank src(3,1)]) auto
    with fresh events less.prems Some src(2) show ?thesis by (subst validated_replay.simps) simp
  qed
qed

lemma rebuild_hist:
  assumes ev: "events_represent K W s hist" and prov: "provenance K W hist rank"
    and th: "replay W (hist tid) = Inr th"
  shows "rebuild K W s tid = Inr (th, s\<lparr>s_threads := upsert_row (projection_row K th) (s_threads s)\<rparr>)"
proof -
  have "validated_replay K W s tid None [] = Inr th"
    by (rule validated_replay_hist [OF ev prov _ th]) (simp_all add: through_prefix_def)
  moreover have "0 < th_sequence th" using replay_positions(1,4) [OF th] by simp
  moreover have "require_closed_rejections th = Inr ()" using th by (simp add: replay_run)
  ultimately show ?thesis by (simp add: rebuild_def save_projection_def)
qed

lemma rebuild_represents:
  assumes rep: "represents K W s hist" and run: "rebuild K W s tid = Inr (th, s')"
  shows "replay W (hist tid) = Inr th \<and> represents K W s' hist"
proof -
  note ev = representsD(2) [OF rep]
  from run have "validated_replay K W s tid None [] = Inr th" by (auto simp: rebuild_def)
  then have "replay W (hist tid) = Inr th"
    by (subst (asm) validated_replay.simps)
      (auto simp: events_after_hist [OF ev] through_prefix_def split: option.splits)
  note th = this
  from rep obtain rank where prov: "provenance K W hist rank" by (auto simp: represents_def)
  from run rebuild_hist [OF ev prov th]
  have s': "s' = s\<lparr>s_threads := upsert_row (projection_row K th) (s_threads s)\<rparr>" by simp
  have "events_represent K W s' hist" using ev by (simp add: s' events_represent_def rows_of_def)
  moreover have "projections_represent K W s' hist"
    using representsD(3) [OF rep] hist_replay [OF ev th] th
    by (auto simp: projections_represent_def s' thread_row_upsert upsert_distinct)
  ultimately show ?thesis using th prov representsD(1) [OF rep] by (auto simp: represents_def)
qed

end
