(* ===== verification/Session_Properties.thy ===== *)
theory Session_Properties
  imports Session_Safety
begin

text \<open>
  The interface of the session store (src/src/harnessix/session/ports.py) as a locale over the
  transcripts a store represents, interpreted on the SQLite operations, and the properties that follow:
  appends refine the transcript, forks inherit their history, a rebuild repairs any projection, and the
  record of a Thread survives every sequence of operations.
\<close>

section \<open>The interface\<close>

locale transcript_store =
  fixes rep :: "'s \<Rightarrow> transcripts \<Rightarrow> bool"
    and perform :: "'s \<Rightarrow> 'c \<Rightarrow> 's"
    and read :: "'s \<Rightarrow> uuid \<Rightarrow> thread result"
    and W :: wire
  assumes perform_extends: "rep s hist \<Longrightarrow> \<exists>hist'. rep (perform s c) hist' \<and> (\<forall>tid. prefix (hist tid) (hist' tid))"
    and read_replay: "rep s hist \<Longrightarrow> read s tid = Inr th \<Longrightarrow> replay W (hist tid) = Inr th"
    and rep_valid: "rep s hist \<Longrightarrow> list_all event_ok (hist tid)"
begin

lemma run_extends:
  "rep s hist \<Longrightarrow> \<exists>hist'. rep (foldl perform s cs) hist' \<and> (\<forall>tid. prefix (hist tid) (hist' tid))"
proof (induction cs arbitrary: s hist)
  case (Cons c cs)
  from perform_extends [OF Cons.prems] obtain h where h: "rep (perform s c) h" "\<forall>tid. prefix (hist tid) (h tid)"
    by blast
  from Cons.IH [OF h(1)] obtain h' where "rep (foldl perform (perform s c) cs) h'" "\<forall>tid. prefix (h tid) (h' tid)"
    by blast
  with h(2) show ?case by (auto intro: prefix_order.trans)
qed auto

lemma read_again:
  assumes "rep s hist" "read s tid = Inr th" "read (foldl perform s cs) tid = Inr th'"
  shows "thread_extends th th'"
proof -
  from run_extends [OF assms(1)] obtain h where h: "rep (foldl perform s cs) h" "prefix (hist tid) (h tid)"
    by blast
  then obtain es where es: "h tid = hist tid @ es" by (auto simp: prefix_def)
  from read_replay [OF assms(1,2)] read_replay [OF h(1) assms(3)] rep_valid [OF h(1), of tid] es
  show ?thesis using replay_extension by metis
qed

end

section \<open>The SQLite store\<close>

text \<open>The writing operations of the port; one that raises leaves the store as it was.\<close>

datatype store_command =
    Store_append uuid "event_draft list" nat
  | Store_fork uuid uuid event_draft nat
  | Store_rebuild uuid

definition written :: "'d session_store \<Rightarrow> (thread \<times> bool \<times> 'd session_store) result \<Rightarrow> 'd session_store" where
  "written s r = (case r of Inl _ \<Rightarrow> s | Inr (_, _, s') \<Rightarrow> s')"

definition perform :: "'d codec \<Rightarrow> wire \<Rightarrow> 'd session_store \<Rightarrow> store_command \<Rightarrow> 'd session_store" where
  "perform K W s c =
     (case c of
        Store_append tid ds n \<Rightarrow> written s (append_events K W s tid ds n)
      | Store_fork src dst d n \<Rightarrow> written s (fork_thread K W s src dst d n)
      | Store_rebuild tid \<Rightarrow> (case rebuild K W s tid of Inl _ \<Rightarrow> s | Inr (_, s') \<Rightarrow> s'))"

lemma perform_represents:
  assumes rep: "represents K W s hist"
  shows "\<exists>hist'. represents K W (perform K W s c) hist' \<and> (\<forall>tid. prefix (hist tid) (hist' tid))"
proof (cases c)
  case (Store_append tid ds n)
  show ?thesis
  proof (cases "append_events K W s tid ds n")
    case (Inr r)
    then obtain th changed s' where "append_events K W s tid ds n = Inr (th, changed, s')" by (cases r) auto
    with append_represents [OF rep this] rep show ?thesis
      by (cases changed) (force simp: perform_def written_def Store_append)+
  qed (use rep in \<open>auto simp: perform_def written_def Store_append\<close>)
next
  case (Store_fork src dst d n)
  show ?thesis
  proof (cases "fork_thread K W s src dst d n")
    case (Inr r)
    then obtain th changed s' where fk: "fork_thread K W s src dst d n = Inr (th, changed, s')" by (cases r) auto
    show ?thesis
    proof (cases changed)
      case True
      with fork_represents(2) [OF rep fk] obtain d' where "hist dst = []"
          "represents K W s' (hist(dst := positioned dst 0 [d']))"
        by blast
      with fk show ?thesis
        by (intro exI [of _ "hist(dst := positioned dst 0 [d'])"]) (simp add: perform_def written_def Store_fork)
    next
      case False
      with fork_represents(1) [OF rep fk] fk rep show ?thesis
        by (auto simp: perform_def written_def Store_fork)
    qed
  qed (use rep in \<open>auto simp: perform_def written_def Store_fork\<close>)
next
  case (Store_rebuild tid)
  show ?thesis
  proof (cases "rebuild K W s tid")
    case (Inr r)
    then obtain th s' where "rebuild K W s tid = Inr (th, s')" by (cases r) auto
    with rebuild_represents [OF rep this] show ?thesis by (auto simp: perform_def Store_rebuild)
  qed (use rep in \<open>auto simp: perform_def Store_rebuild\<close>)
qed

interpretation sqlite: transcript_store "represents K W" "perform K W" "get_thread K" W for K W
  by unfold_locales
    (auto dest: perform_represents get_thread_replay representsD(2) events_representD(2) stored_events_ok)

section \<open>A concrete store\<close>

text \<open>The simplest encoding that meets the assumptions: a text is the value itself.\<close>

definition plain_codec :: "(agent_event + thread) codec" where
  "plain_codec = \<lparr>k_freeze = Some, k_write_event = Inl,
     k_read_event = (\<lambda>x. case x of Inl e \<Rightarrow> Some e | Inr _ \<Rightarrow> None), k_write_thread = Inr,
     k_read_thread = (\<lambda>x. case x of Inl _ \<Rightarrow> None | Inr th \<Rightarrow> Some th), k_thread_json = (\<lambda>_. JNull),
     k_is_archived = (\<lambda>x. case x of Inl _ \<Rightarrow> False | Inr th \<Rightarrow> th_archive th \<noteq> None),
     k_sha256 = (\<lambda>_. some_digest)\<rparr>"

lemma plain_codec_ok: "codec_ok plain_codec no_wire"
  by (simp add: codec_ok_def plain_codec_def)

definition first_draft :: event_draft where
  "first_draft = draft_of creation"

definition fresh_thread :: thread where
  "fresh_thread = \<lparr>thread_id = 1, th_workspace = ''/w'', th_sequence = 1, th_active_turn_id = None,
     th_turns = [], th_compaction_windows = [], th_active_compaction_window_id = None,
     th_fork_snapshot = None, th_archive = None, th_created_at = 1000000, th_updated_at = 1000000\<rparr>"

definition stored_store :: "(agent_event + thread) session_store" where
  "stored_store = \<lparr>s_events = [event_row_of plain_codec creation],
     s_threads = [projection_row plain_codec fresh_thread]\<rparr>"

lemmas store_defs = append_events_def freeze_batch_def freeze_draft_def append_in_transaction_def
  matched_events_def match_draft_def read_snapshot_def validated_snapshot_def rows_of_def thread_row_of_def
  last_sequence_def sequence_of_def the_thread_def append_draft_def persist_event_def save_projection_def
  upsert_row_def empty_store_def event_row_with_def is_fork_def

lemma first_append:
  "append_events plain_codec no_wire empty_store 1 [first_draft] 0 = Inr (fresh_thread, True, stored_store)"
  by (simp add: store_defs first_draft_def creation_def event_def draft_of_def legacy_draft_def
      legacy_payload_def draft_ok_def at_position_def event_ok_def apply_event_def create_thread_def
      check_defs plain_codec_def payload_ok_def workspace_ok_def is_absolute_def py_len_def
      is_continuation_def byte_of_def validate_event_boundary_def validate_v20_to_v18_def
      validate_v17_to_v15_def validate_v14_to_v9_def validate_v8_to_v4_def validate_v3_to_v1_def
      content_is_def item_content_of_def state_change_is_def turn_start_is_def history_is_def
      context_is_def fresh_thread_def stored_store_def event_row_of_def projection_row_def
      legacy_event_def Let_def)

lemma stored_represents:
  "\<exists>hist. represents plain_codec no_wire stored_store hist \<and> hist 1 \<noteq> []"
  using append_represents [OF empty_represents [OF plain_codec_ok] first_append] freeze_batch_Inr(2)
  by fastforce

lemma fresh_readable: "readable plain_codec fresh_thread"
  by (simp add: readable_def load_thread_def plain_codec_def fresh_thread_def check_defs)

lemma stored_get: "get_thread plain_codec stored_store 1 = Inr fresh_thread"
proof -
  from append_represents [OF empty_represents [OF plain_codec_ok] first_append]
  obtain batch where b: "replay no_wire (positioned 1 0 batch) = Inr fresh_thread"
      "represents plain_codec no_wire stored_store ((\<lambda>_. [])(1 := positioned 1 0 batch))"
    by auto
  from read_snapshot_present [OF b(2), of 1 fresh_thread] b(1) fresh_readable
  show ?thesis by (simp add: get_thread_def)
qed

section \<open>Properties\<close>

text \<open>C9. An append refines the abstract store. It either commits the whole frozen batch, at the end of the
  transcript whose length the caller expected, and returns the replay of the extended transcript; or
  it recognises the batch as already stored, changes nothing and returns the replay of the transcript.
  In both cases every projection of the store is still the replay of its events.\<close>

theorem append_refines_transcript:
  assumes "represents K W s hist" and "append_events K W s tid drafts n = Inr (th, changed, s')"
  shows "\<exists>batch. freeze_batch K drafts = Inr batch
    \<and> (if changed
       then length (hist tid) = n \<and> replay W (hist tid @ positioned tid n batch) = Inr th
         \<and> represents K W s' (hist(tid := hist tid @ positioned tid n batch))
       else s' = s \<and> replay W (hist tid) = Inr th)"
  using assms by (rule append_represents)

theorem append_refines_transcript_witness:
  "\<exists>batch. replay no_wire (positioned 1 0 batch) = Inr fresh_thread
     \<and> represents plain_codec no_wire stored_store ((\<lambda>_. [])(1 := positioned 1 0 batch))"
  using append_refines_transcript [OF empty_represents [OF plain_codec_ok] first_append] by auto

text \<open>C10. The record of a Thread survives every sequence of writing operations, whether they succeed or
  not. When a Thread is read before and after, its model history, its ended items and its
  inherited history are all still there; the only other outcome of the second read is the
  refusal of a projection that no longer validates.\<close>

theorem stored_history_survives:
  assumes "represents K W s hist" and "get_thread K s tid = Inr th"
  shows "case get_thread K (foldl (perform K W) s cs) tid of
      Inl e \<Rightarrow> e = KernelError ''projection_corrupt''
    | Inr th' \<Rightarrow> subseq (history_items th) (history_items th')
        \<and> (\<forall>i \<in> set (thread_items th). i_status i \<noteq> Is_STARTED \<longrightarrow> i \<in> set (thread_items th'))
        \<and> th_fork_snapshot th' = th_fork_snapshot th"
proof (cases "get_thread K (foldl (perform K W) s cs) tid")
  case (Inr th')
  from sqlite.read_again [OF assms Inr] have ext: "thread_extends th th'" .
  then have "th_fork_snapshot th' = th_fork_snapshot th" by (simp add: thread_extends_def)
  with extends_history [OF ext] extends_item [OF ext] Inr show ?thesis by simp
next
  case (Inl e)
  from sqlite.run_extends [OF assms(1), of cs] obtain h
    where h: "represents K W (foldl (perform K W) s cs) h" "prefix (hist tid) (h tid)" by blast
  from get_thread_replay [OF assms] have "hist tid \<noteq> []" by (auto simp: replay_Nil)
  with h(2) have "h tid \<noteq> []" by auto
  with events_representD(3) [OF representsD(2) [OF h(1)]] obtain u where "replay W (h tid) = Inr u" by blast
  from read_snapshot_present [OF h(1) this] Inl show ?thesis by (simp add: get_thread_def split: if_splits)
qed

theorem stored_history_survives_witness:
  "case get_thread plain_codec (foldl (perform plain_codec no_wire) stored_store [Store_rebuild 1]) 1 of
      Inl e \<Rightarrow> e = KernelError ''projection_corrupt''
    | Inr th' \<Rightarrow> subseq (history_items fresh_thread) (history_items th')
        \<and> (\<forall>i \<in> set (thread_items fresh_thread). i_status i \<noteq> Is_STARTED \<longrightarrow> i \<in> set (thread_items th'))
        \<and> th_fork_snapshot th' = th_fork_snapshot fresh_thread"
proof -
  from stored_represents obtain hist where "represents plain_codec no_wire stored_store hist" by blast
  from stored_history_survives [OF this stored_get] show ?thesis .
qed

text \<open>C11. A rebuild repairs any damage to the projections. Whatever the table of projections has become,
  as long as the events are the ones the store committed, rebuilding a Thread succeeds, returns the
  replay of its transcript, leaves the events alone and writes exactly the projection row the store
  had; the chain of fork sources is always found and never cyclic.\<close>

theorem rebuild_repairs_projection:
  assumes "represents K W s hist" and "hist tid \<noteq> []" and "s_events damaged = s_events s"
  shows "\<exists>th repaired. rebuild K W damaged tid = Inr (th, repaired) \<and> replay W (hist tid) = Inr th
    \<and> s_events repaired = s_events s \<and> thread_row_of repaired tid = thread_row_of s tid"
proof -
  note ev = representsD(2) [OF assms(1)]
  from events_representD(3) [OF ev assms(2)] obtain th where th: "replay W (hist tid) = Inr th" "thread_id th = tid"
    by blast
  from representsD(4) [OF assms(1)] obtain rank where prov: "provenance K W hist rank" ..
  have "events_represent K W damaged hist" using ev by (simp add: events_represent_def rows_of_def assms(3))
  from rebuild_hist [OF this prov th(1)] th assms representsD(3) [OF assms(1)] show ?thesis
    by (simp add: thread_row_upsert projections_represent_def)
qed

theorem rebuild_repairs_projection_witness:
  "\<exists>th repaired. rebuild plain_codec no_wire (stored_store\<lparr>s_threads := []\<rparr>) 1 = Inr (th, repaired)
     \<and> thread_row_of repaired 1 = thread_row_of stored_store 1"
proof -
  from stored_represents obtain hist where h: "represents plain_codec no_wire stored_store hist" "hist 1 \<noteq> []"
    by blast
  from rebuild_repairs_projection [OF h, of "stored_store\<lparr>s_threads := []\<rparr>"] show ?thesis by auto
qed

section \<open>Concurrent and repeated writers\<close>

lemma matched_none:
  assumes "list_all (\<lambda>d. event_row_with s (d_event_id d) = None) batch"
  shows "matched_events K s tid batch = Inr []"
proof -
  have "foldE (match_draft K s tid) acc batch = Inr acc" for acc
    using assms by (induction batch arbitrary: acc) (simp_all add: match_draft_def)
  then show ?thesis by (simp add: matched_events_def)
qed

lemma find_unique: "distinct (map k xs) \<Longrightarrow> x \<in> set xs \<Longrightarrow> find (\<lambda>y. k y = k x) xs = Some x"
  by (induction xs) (auto simp: image_iff)

lemma matched_all:
  assumes stored: "\<forall>e \<in> set (positioned tid n batch). event_row_of K e \<in> set (s_events s)"
    and dist: "distinct (map er_event (s_events s))"
    and forms: "list_all (stored_form K) (positioned tid n batch)" and frozen: "list_all (frozen_draft K) batch"
  shows "foldE (match_draft K s tid) acc batch = Inr (acc @ positioned tid n batch)"
  using stored forms frozen
proof (induction batch arbitrary: n acc)
  case (Cons d ds)
  let ?e = "at_position d tid (n + 1)"
  have d: "legacy_draft d = d" "draft_ok d" using Cons.prems(3) by (auto simp: frozen_draft_def)
  then have row: "event_row_of K ?e \<in> set (s_events s)" and form: "stored_form K ?e"
    using Cons.prems by simp_all
  from find_unique [OF dist row] have "event_row_with s (d_event_id d) = Some (event_row_of K ?e)"
    by (simp add: event_row_with_def)
  then have "match_draft K s tid acc d = Inr (acc @ [?e])"
    using d parse_stored [OF form] by (simp add: match_draft_def)
  with Cons.IH [of "n + 1" "acc @ [?e]"] Cons.prems d(1) show ?case by simp
qed simp

text \<open>C13. Two writers that read a Thread at the same position cannot both commit. Once a batch has been
  appended at position n, an append that expects position n never changes the store again, whatever
  its drafts are: it fails, or it is recognised as a repetition and returns the Thread as it is. A batch
  that passes the checks before the transaction (its drafts freeze, none is a fork) and whose event
  identities are all its own is refused with \<open>sequence_conflict\<close>, or with \<open>projection_corrupt\<close> where the
  stored Thread no longer reads.\<close>

theorem second_writer_refused:
  assumes "represents K W s hist" and "append_events K W s tid drafts n = Inr (th, True, s')"
  shows "(case append_events K W s' tid others n of
        Inl e \<Rightarrow> True
      | Inr (th', changed, s'') \<Rightarrow> \<not> changed \<and> s'' = s' \<and> th' = th)
    \<and> (case freeze_batch K others of
        Inl e \<Rightarrow> append_events K W s' tid others n = Inl e
      | Inr batch \<Rightarrow>
          if list_ex is_fork batch
          then append_events K W s' tid others n = Inl (KernelError ''thread_fork_requires_cas'')
          else list_all (\<lambda>d. event_row_with s' (d_event_id d) = None) batch \<longrightarrow>
            append_events K W s' tid others n
              = Inl (if readable K th then KernelError ''sequence_conflict'' else projection_corrupt))"
proof -
  from append_represents [OF assms] obtain b where b: "freeze_batch K drafts = Inr b" "length (hist tid) = n"
      "replay W (hist tid @ positioned tid n b) = Inr th"
      "represents K W s' (hist(tid := hist tid @ positioned tid n b))"
    by auto
  let ?hist = "hist(tid := hist tid @ positioned tid n b)"
  have more: "length (?hist tid) \<noteq> n" using b(2) freeze_batch_Inr(2) [OF b(1)] by simp
  have snap: "read_snapshot K s' tid = (if readable K th then Inr (Some th) else Inl projection_corrupt)"
    using read_snapshot_present [OF b(4), of tid th] b(3) by simp
  have seq: "th_sequence th \<noteq> n" using replay_positions(1) [OF b(3)] more by simp
  have kept: "case append_events K W s' tid others n of Inl e \<Rightarrow> True
      | Inr (th', changed, s'') \<Rightarrow> \<not> changed \<and> s'' = s' \<and> th' = th"
  proof (cases "append_events K W s' tid others n")
    case (Inr r)
    then obtain th' changed s'' where r: "append_events K W s' tid others n = Inr (th', changed, s'')"
      by (cases r) auto
    from append_represents [OF b(4) r] more b(3) show ?thesis unfolding r by (auto split: if_splits)
  qed simp
  have "append_events K W s' tid others n
      = Inl (if readable K th then KernelError ''sequence_conflict'' else projection_corrupt)"
    if "freeze_batch K others = Inr batch" "\<not> list_ex is_fork batch"
      "list_all (\<lambda>d. event_row_with s' (d_event_id d) = None) batch" for batch
    using that snap seq
    by (simp add: append_events_def append_in_transaction_def matched_none sequence_of_def sequence_conflict_def check_def)
  with kept show ?thesis
    by (auto simp: append_events_def check_def split: sum.splits)
qed

definition other_draft :: event_draft where
  "other_draft = first_draft\<lparr>d_event_id := 5\<rparr>"

lemma other_frozen: "freeze_batch plain_codec [other_draft] = Inr [other_draft]"
  by (simp add: freeze_batch_def freeze_draft_def other_draft_def first_draft_def creation_def event_def
      draft_of_def legacy_draft_def legacy_payload_def draft_ok_def plain_codec_def payload_ok_def
      workspace_ok_def is_absolute_def py_len_def is_continuation_def byte_of_def boundary_defs)

theorem second_writer_refused_witness:
  "append_events plain_codec no_wire stored_store 1 [other_draft] 0 = Inl (KernelError ''sequence_conflict'')"
proof -
  have "\<not> list_ex is_fork [other_draft]" "list_all (\<lambda>d. event_row_with stored_store (d_event_id d) = None) [other_draft]"
    by (simp_all add: is_fork_def other_draft_def first_draft_def creation_def event_def draft_of_def
      event_row_with_def stored_store_def)
  with second_writer_refused [OF empty_represents [OF plain_codec_ok] first_append, where others = "[other_draft]"]
  show ?thesis by (simp add: other_frozen fresh_readable)
qed

text \<open>C12. Appending is idempotent. A client that repeats a committed request, because the answer was lost,
  gets the same Thread, and the store does not change. The one other outcome is the refusal of a stored
  Thread whose projection does not read back (\<open>projection_corrupt\<close>); it happens exactly when that
  is so, as after the append of a window beyond the bound of the class.\<close>

theorem repeated_append_idempotent:
  assumes "represents K W s hist" and "append_events K W s tid drafts n = Inr (th, True, s')"
  shows "append_events K W s' tid drafts n
    = (if readable K th then Inr (th, False, s') else Inl projection_corrupt)"
proof -
  from append_represents [OF assms(1,2)] obtain b where b: "freeze_batch K drafts = Inr b" "length (hist tid) = n"
      "replay W (hist tid @ positioned tid n b) = Inr th"
      "represents K W s' (hist(tid := hist tid @ positioned tid n b))"
    by auto
  from assms(2) b(1) have nofork: "\<not> list_ex is_fork b" by (simp add: append_events_def)
  note fz = freeze_batch_Inr [OF b(1)]
  note ev = events_representD(1,2) [OF representsD(2) [OF b(4)], of tid]
  have "matched_events K s' tid b = Inr (positioned tid n b)"
    unfolding matched_events_def
  proof (subst matched_all [where n = n])
    have "event_row_of K ` set (positioned tid n b) \<subseteq> set (rows_of s' tid)" by (simp add: ev(1))
    then show "\<forall>e \<in> set (positioned tid n b). event_row_of K e \<in> set (s_events s')" by (auto simp: rows_of_def)
    show "distinct (map er_event (s_events s'))" using representsD(2) [OF b(4)] by (simp add: events_represent_def)
    show "list_all (stored_form K) (positioned tid n b)" using ev(2) by simp
  qed (use fz(1) in simp_all)
  moreover have "repeats_batch (positioned tid n b) b n"
  proof -
    have "map e_sequence (positioned tid m ds) = [m + 1..<m + 1 + length ds]" for m ds
      by (induction ds arbitrary: m) (simp_all add: upt_conv_Cons del: upt_Suc)
    then show ?thesis by (simp add: repeats_batch_def del: upt_Suc)
  qed
  moreover have "read_snapshot K s' tid = (if readable K th then Inr (Some th) else Inl projection_corrupt)"
    using read_snapshot_present [OF b(4), of tid th] b(3) by simp
  ultimately show ?thesis
    using b(1) nofork fz(2) by (simp add: append_events_def append_in_transaction_def the_thread_def)
qed

theorem repeated_append_idempotent_witness:
  "append_events plain_codec no_wire stored_store 1 [first_draft] 0 = Inr (fresh_thread, False, stored_store)"
  using repeated_append_idempotent [OF empty_represents [OF plain_codec_ok] first_append] fresh_readable by simp

end
