(* ===== verification/Session_Forks.thy ===== *)
theory Session_Forks
  imports Session_Properties
begin

text \<open>
  Forks through the session store: what a client prepares from a Thread is what the store accepts, and
  the child starts with the model history of its source while every other Thread stays as it was.
\<close>

section \<open>Reading a Thread the operation did not touch\<close>

lemma untouched_snapshot:
  assumes "represents K W s hist" "represents K W s' hist'" "hist' i = hist i"
  shows "read_snapshot K s' i = read_snapshot K s i"
proof (cases "hist i = []")
  case True
  with assms show ?thesis by (simp add: read_snapshot_absent)
next
  case False
  with events_representD(3) [OF representsD(2) [OF assms(1)]] obtain th where "replay W (hist i) = Inr th" by blast
  with assms show ?thesis by (simp add: read_snapshot_present)
qed

lemma single_event_thread:
  assumes "replay W [e] = Inr th"
  shows "th_turns th = []"
  using assms create_thread_fields(1) by (auto simp: replay_run replay_step_Inr apply_event_def)

lemma fork_history:
  assumes rep: "represents K W s hist" and run: "fork_thread K W s src dst d n = Inr (child, True, s')"
  obtains f source h hist' where "th_fork_snapshot child = Some f" "replay W (hist src) = Inr source"
    "source_history W source (fs_through_turn_id f) = Inr (history_items child)" "th_sequence source = n"
    "represents K W s' hist'" "replay W (hist' dst) = Inr child" "\<forall>i. i \<noteq> dst \<longrightarrow> hist' i = hist i" "src \<noteq> dst"
proof -
  from fork_represents(2) [OF rep run] obtain d' f source h where f: "replay W (hist src) = Inr source"
      "length (hist src) = n" "validate_fork_snapshot W (k_thread_json K) source f = Inr h"
      "replay W (positioned dst 0 [d']) = Inr child" "th_fork_snapshot child = Some f" "src \<noteq> dst"
      "represents K W s' (hist(dst := positioned dst 0 [d']))"
    by auto
  have "history_items child = fs_items f"
    using single_event_thread [of W _ child] f(4,5) by (simp add: history_items_def inherited_items_def)
  with validated_source(3) [OF f(3)]
  have "source_history W source (fs_through_turn_id f) = Inr (history_items child)" by simp
  moreover have "th_sequence source = n" using replay_positions(1) [OF f(1)] f(2) by simp
  ultimately show ?thesis using f by (intro that [of f source "hist(dst := positioned dst 0 [d'])"]) auto
qed

section \<open>What a client prepares is accepted\<close>

lemma fork_creates:
  assumes f: "fork_snapshot_ok f" "fs_allow_rejections f" "fs_source_thread_id f \<noteq> dst"
    and d: "d_payload d = ThreadForked w f" "d_turn_id d = None"
  obtains child where "apply_event W None (at_position d dst 1) = Inr child"
    "require_closed_rejections child = Inr ()" "0 < th_sequence child"
proof -
  have closed: "require_closed_rejection_items (fs_items f) = Inr ()"
    using f(1,2) by (auto simp: fork_snapshot_ok_def safe_history_def Let_def)
  let ?th = "\<lparr>thread_id = dst, th_workspace = w, th_sequence = 1, th_active_turn_id = None, th_turns = [],
     th_compaction_windows = [], th_active_compaction_window_id = None, th_fork_snapshot = Some f,
     th_archive = None, th_created_at = d_occurred_at d, th_updated_at = d_occurred_at d\<rparr>"
  have rc: "require_closed_rejections ?th = Inr ()" using closed by (simp add: require_closed_rejections_def)
  then have "thread_ok ?th" using f(3) by (simp add: thread_ok_def linear_compaction_windows_def)
  then have "apply_event W None (at_position d dst 1) = Inr ?th"
    using d by (simp add: apply_event_def create_thread_def at_position_def)
  with rc show ?thesis by (intro that [of ?th]) simp_all
qed

lemma prepared_fork_runs:
  assumes "represents K W s hist" and "replay W (hist src) = Inr source" and "readable K source"
    and "prepare_fork_snapshot W (k_thread_json K) source request through policy True = Inr (f, h)"
    and "freeze_batch K [d] = Inr [d']" and "d_payload d' = ThreadForked (th_workspace source) f"
    and "d_turn_id d' = None" and "event_row_with s (d_event_id d') = None" and "hist dst = []" and "src \<noteq> dst"
  shows "\<exists>child s'. fork_thread K W s src dst d (th_sequence source) = Inr (child, True, s')"
proof -
  note ev = representsD(2) [OF assms(1)]
  from hist_replay [OF ev assms(2)] have id: "thread_id source = src" by simp
  note pf = prepared_fields [OF assms(4)]
  have src: "read_snapshot K s src = Inr (Some source)"
    using read_snapshot_present [OF assms(1,2)] assms(3) by simp
  have dst: "read_snapshot K s dst = Inr None" using read_snapshot_absent [OF assms(1,9)] .
  from freeze_batch_Inr(1) [OF assms(5)] have d': "legacy_draft d' = d'" "draft_ok d'"
    by (auto simp: frozen_draft_def)
  obtain child where child: "apply_event W None (at_position d' dst 1) = Inr child"
      "require_closed_rejections child = Inr ()" "0 < th_sequence child"
    using pf(2,6,8) id assms(6,7,10) by (elim fork_creates [of f dst d']) simp_all
  have "rows_of s dst = []" using events_representD(1) [OF ev, of dst] assms(9) by simp
  then have "\<exists>s1. persist_event K s (at_position d' dst 1) = Inr s1"
    using assms(8) by (auto simp: persist_event_def rows_of_def event_row_with_def find_None_iff list_all_iff
        filter_empty_conv)
  then obtain s1 where s1: "persist_event K s (at_position d' dst 1) = Inr s1" ..
  have "matched_events K s dst [d'] = Inr []" using assms(8) by (intro matched_none) simp
  then have "\<exists>s'. append_in_transaction K W s dst [d'] 0 = Inr (child, True, s')"
    using dst child s1 d'
    by (simp add: append_in_transaction_def sequence_of_def append_draft_def the_thread_def
        save_projection_def event_ok_at_position)
  moreover have "fork_thread K W s src dst d (th_sequence source) = append_in_transaction K W s dst [d'] 0"
    using assms(5-7,10) dst src id pf(2) prepared_validates [OF assms(4)] by (simp add: fork_thread_def)
  ultimately show ?thesis by auto
qed

section \<open>A fork of the concrete store\<close>

definition fork_request :: fork_snapshot where
  "fork_request = empty_snapshot True ''r'' fresh_thread None (digest JNull) (digest (JArr []))
     \<lparr>max_inline_utf8_bytes = 4096\<rparr>"

definition fork_draft :: event_draft where
  "fork_draft = \<lparr>d_schema_version = 22, d_event_id = 9, d_turn_id = None, d_occurred_at = 0,
     d_payload = ThreadForked ''/w'' fork_request\<rparr>"

lemma fork_request_ok: "fork_snapshot_ok fork_request"
  by (simp add: fork_snapshot_ok_def fork_request_def empty_snapshot_def safe_history_def digest_def
      fresh_thread_def py_len_def is_continuation_def byte_of_def view_policy_ok_def empty_fork_scan_def
      require_closed_rejection_items_def empty_scan_def is_digest_sha256)

lemma fork_request_prepared:
  "prepare_fork_snapshot no_wire (k_thread_json plain_codec) fresh_thread ''r'' None
     \<lparr>max_inline_utf8_bytes = 4096\<rparr> True = Inr (fork_request, None)"
proof -
  have "source_history no_wire fresh_thread None = Inr []" "effective_boundary fresh_thread None = None"
    by (simp_all add: fresh_thread_def source_history_def effective_boundary_def last_boundary_def)
  moreover have "history_sha256 [] = Inr (digest (JArr []))"
      "thread_sha256 (k_thread_json plain_codec) fresh_thread = Inr (digest JNull)"
    by (simp_all add: history_sha256_def thread_sha256_def canonical_sha256_def plain_codec_def)
  ultimately show ?thesis
    using fork_request_ok by (simp add: prepare_fork_snapshot_def make_snapshot_def fork_request_def Let_def)
qed

lemma fork_draft_frozen: "freeze_batch plain_codec [fork_draft] = Inr [fork_draft]"
  using fork_request_ok
  by (simp add: freeze_batch_def freeze_draft_def fork_draft_def legacy_draft_def legacy_payload_def
      draft_ok_def plain_codec_def payload_ok_def workspace_ok_def is_absolute_def py_len_def
      is_continuation_def byte_of_def boundary_defs)

lemma stored_history:
  obtains hist where "represents plain_codec no_wire stored_store hist"
    "replay no_wire (hist 1) = Inr fresh_thread" "hist 2 = []"
  using append_represents [OF empty_represents [OF plain_codec_ok] first_append] by force

lemma stored_fork:
  obtains child s' where "fork_thread plain_codec no_wire stored_store 1 2 fork_draft 1 = Inr (child, True, s')"
proof -
  obtain hist where h: "represents plain_codec no_wire stored_store hist"
      "replay no_wire (hist 1) = Inr fresh_thread" "hist 2 = []" by (rule stored_history)
  have seq: "th_sequence fresh_thread = 1" by (simp add: fresh_thread_def)
  have "\<exists>child s'. fork_thread plain_codec no_wire stored_store 1 2 fork_draft 1 = Inr (child, True, s')"
    using prepared_fork_runs [OF h(1,2) fresh_readable fork_request_prepared fork_draft_frozen _ _ _ h(3)]
    unfolding seq by (simp add: fork_draft_def fresh_thread_def event_row_with_def stored_store_def creation_def event_def)
  then show ?thesis using that by blast
qed

section \<open>Properties\<close>

text \<open>C14. A fork inherits exactly the history of its source. When the store commits a fork, the child's
  model history is the source's history at the requested boundary, computed from the state the source
  had at the expected sequence; the source and every other Thread read the same as before.\<close>

theorem fork_inherits_history:
  assumes "represents K W s hist" and "fork_thread K W s src dst d n = Inr (child, True, s')"
  shows "\<exists>source f. replay W (hist src) = Inr source \<and> th_sequence source = n
    \<and> th_fork_snapshot child = Some f
    \<and> source_history W source (fs_through_turn_id f) = Inr (history_items child)
    \<and> (\<forall>i. get_thread K s' i =
        (if i = dst then if readable K child then Inr child else Inl (KernelError ''projection_corrupt'')
         else get_thread K s i))"
proof -
  from fork_history [OF assms] obtain f source h hist' where
      f: "th_fork_snapshot child = Some f" "replay W (hist src) = Inr source"
      "source_history W source (fs_through_turn_id f) = Inr (history_items child)" "th_sequence source = n"
    and h: "represents K W s' hist'" "replay W (hist' dst) = Inr child" "\<forall>i. i \<noteq> dst \<longrightarrow> hist' i = hist i"
    by metis
  have "get_thread K s' i =
        (if i = dst then if readable K child then Inr child else Inl (KernelError ''projection_corrupt'')
         else get_thread K s i)" for i
    using read_snapshot_present [OF h(1,2)] untouched_snapshot [OF assms(1) h(1), of i] h(3)
    by (simp add: get_thread_def)
  with f show ?thesis by blast
qed

theorem fork_inherits_history_witness:
  "\<exists>child s' f. fork_thread plain_codec no_wire stored_store 1 2 fork_draft 1 = Inr (child, True, s')
     \<and> th_fork_snapshot child = Some f \<and> source_history no_wire fresh_thread (fs_through_turn_id f) = Inr (history_items child)
     \<and> get_thread plain_codec s' 1 = get_thread plain_codec stored_store 1"
proof -
  obtain hist where h: "represents plain_codec no_wire stored_store hist"
      "replay no_wire (hist 1) = Inr fresh_thread" by (rule stored_history)
  obtain child s' where fk: "fork_thread plain_codec no_wire stored_store 1 2 fork_draft 1 = Inr (child, True, s')"
    by (rule stored_fork)
  from fork_inherits_history [OF h(1) fk] obtain source f
    where f: "replay no_wire (hist 1) = Inr source" "th_fork_snapshot child = Some f"
      "source_history no_wire source (fs_through_turn_id f) = Inr (history_items child)"
      "\<forall>i. get_thread plain_codec s' i =
        (if i = 2 then if readable plain_codec child then Inr child else Inl (KernelError ''projection_corrupt'')
         else get_thread plain_codec stored_store i)"
    by blast
  from f(1) h(2) have "source = fresh_thread" by simp
  moreover from f(4) have "get_thread plain_codec s' 1 = get_thread plain_codec stored_store 1" by simp
  ultimately show ?thesis using fk f(2,3) by blast
qed

text \<open>C15. A prepared fork goes through. The snapshot that \<open>prepare_fork_snapshot\<close> builds from a Thread, in an
  event for a new Thread with the same workspace, is rebuilt identically by the store and committed,
  as long as the source has not changed.\<close>

theorem prepared_fork_commits:
  assumes "represents K W s hist" and "replay W (hist src) = Inr source" and "readable K source"
    and "prepare_fork_snapshot W (k_thread_json K) source request through policy True = Inr (f, h)"
    and "freeze_batch K [d] = Inr [d']" and "d_payload d' = ThreadForked (th_workspace source) f"
    and "d_turn_id d' = None" and "event_row_with s (d_event_id d') = None" and "hist dst = []" and "src \<noteq> dst"
  shows "\<exists>child s'. fork_thread K W s src dst d (th_sequence source) = Inr (child, True, s')"
  using assms by (rule prepared_fork_runs)

theorem prepared_fork_commits_witness:
  "\<exists>child s'. fork_thread plain_codec no_wire stored_store 1 2 fork_draft 1 = Inr (child, True, s')"
proof -
  obtain hist where h: "represents plain_codec no_wire stored_store hist"
      "replay no_wire (hist 1) = Inr fresh_thread" "hist 2 = []" by (rule stored_history)
  have seq: "th_sequence fresh_thread = 1" by (simp add: fresh_thread_def)
  show ?thesis
    using prepared_fork_commits [OF h(1,2) fresh_readable fork_request_prepared fork_draft_frozen _ _ _ h(3)]
    unfolding seq by (simp add: fork_draft_def fresh_thread_def event_row_with_def stored_store_def creation_def event_def)
qed

end
