(* ===== verification/Session_Listing.thy ===== *)
theory Session_Listing
  imports Session_Forks
begin

text \<open>
  The scans of the session store over all Threads: the recovery scan after a restart and the paged
  list. Both are compared with the list of all transcripts in the order of their identities.
\<close>

definition replayed :: "wire \<Rightarrow> transcripts \<Rightarrow> uuid \<Rightarrow> thread" where
  "replayed W hist tid = projr (replay W (hist tid))"

lemma represented_replay:
  assumes "represents K W s hist" "hist tid \<noteq> []"
  shows "replay W (hist tid) = Inr (replayed W hist tid)"
  using events_representD(3) [OF representsD(2) [OF assms(1)] assms(2)] by (auto simp: replayed_def)

lemma read_replayed:
  assumes "represents K W s hist" "hist tid \<noteq> []"
  shows "read_snapshot K s tid =
    (if readable K (replayed W hist tid) then Inr (Some (replayed W hist tid)) else Inl projection_corrupt)"
  by (rule read_snapshot_present [OF assms(1) represented_replay [OF assms]])

text \<open>The rows of the projection table.\<close>

lemma represented_row:
  assumes rep: "represents K W s hist" and r: "r \<in> set (s_threads s)"
  shows "hist (pj_thread r) \<noteq> []" "r = projection_row K (replayed W hist (pj_thread r))"
proof -
  have pr: "distinct (map pj_thread (s_threads s))"
    "thread_row_of s i = (if hist i = [] then None else Some (projection_row K (projr (replay W (hist i)))))" for i
    using representsD(3) [OF rep] by (simp_all add: projections_represent_def)
  have "thread_row_of s (pj_thread r) = Some r"
    using find_unique [OF pr(1) r] by (simp add: thread_row_of_def)
  with pr(2) [of "pj_thread r"] show "hist (pj_thread r) \<noteq> []"
      "r = projection_row K (replayed W hist (pj_thread r))"
    by (auto simp: replayed_def split: if_splits)
qed

lemma represented_ids:
  assumes rep: "represents K W s hist"
  shows "pj_thread ` set (s_threads s) = {tid. hist tid \<noteq> []}" "er_thread ` set (s_events s) = {tid. hist tid \<noteq> []}"
proof -
  have "\<exists>r \<in> set (s_threads s). pj_thread r = tid" if "hist tid \<noteq> []" for tid
  proof -
    from representsD(3) [OF rep] that obtain r where "find (\<lambda>r. pj_thread r = tid) (s_threads s) = Some r"
      by (auto simp: projections_represent_def thread_row_of_def)
    then show ?thesis by (induction "s_threads s") (auto simp: find_Some_iff)
  qed
  with represented_row(1) [OF rep] show "pj_thread ` set (s_threads s) = {tid. hist tid \<noteq> []}" by auto
  have "tid \<in> er_thread ` set (s_events s) \<longleftrightarrow> rows_of s tid \<noteq> []" for tid
    by (auto simp: rows_of_def filter_empty_conv)
  then show "er_thread ` set (s_events s) = {tid. hist tid \<noteq> []}"
    by (auto simp: events_representD(1) [OF representsD(2) [OF rep]])
qed

lemma thread_ids_represent:
  assumes rep: "represents K W s hist"
  shows "sorted (thread_ids s)" "distinct (thread_ids s)" "set (thread_ids s) = {tid. hist tid \<noteq> []}"
  using represented_ids [OF rep] by (simp_all add: thread_ids_def)

section \<open>Recovery\<close>

lemma scan_run:
  assumes rep: "represents K W s hist" and "list_all (\<lambda>tid. hist tid \<noteq> []) ids"
  shows "foldE (scan_thread K s) acc ids =
    (if list_all (\<lambda>tid. readable K (replayed W hist tid)) ids
     then Inr (acc @ filter (\<lambda>th. th_active_turn_id th \<noteq> None) (map (replayed W hist) ids))
     else Inl projection_corrupt)"
  using assms(2)
proof (induction ids arbitrary: acc)
  case (Cons i ids)
  then show ?case using read_replayed [OF rep, of i] by (auto simp: scan_thread_def)
qed simp

text \<open>C16. After a restart the store finds exactly the Threads to resume. The scan returns, in the order of
  their identities, the replays of all transcripts that have an active Turn, each once, and it fails as
  a whole when any projection of the store, active or not, does not validate.\<close>

theorem recovery_scan_exact:
  assumes "represents K W s hist"
  shows "sorted (thread_ids s) \<and> distinct (thread_ids s) \<and> set (thread_ids s) = {tid. hist tid \<noteq> []}
    \<and> recovery_threads K s =
       (if list_all (\<lambda>tid. readable K (replayed W hist tid)) (thread_ids s)
        then Inr (filter (\<lambda>th. th_active_turn_id th \<noteq> None) (map (replayed W hist) (thread_ids s)))
        else Inl (KernelError ''projection_corrupt''))"
proof -
  have "list_all (\<lambda>tid. hist tid \<noteq> []) (thread_ids s)"
    using thread_ids_represent(3) [OF assms] by (simp add: list_all_iff)
  from scan_run [OF assms this, of "[]"] thread_ids_represent [OF assms] show ?thesis
    by (simp add: recovery_threads_def)
qed

theorem recovery_scan_exact_witness:
  "recovery_threads plain_codec stored_store = Inr []"
proof -
  obtain hist where h: "represents plain_codec no_wire stored_store hist"
      "replay no_wire (hist 1) = Inr fresh_thread" by (rule stored_history)
  have "replayed no_wire hist 1 = fresh_thread" using h(2) by (simp add: replayed_def)
  moreover have "thread_ids stored_store = [1]"
    by (simp add: thread_ids_def stored_store_def creation_def event_def fresh_thread_def)
  moreover have "th_active_turn_id fresh_thread = None" by (simp add: fresh_thread_def)
  ultimately show ?thesis using recovery_scan_exact [OF h(1)] fresh_readable by simp
qed

section \<open>Pages\<close>

definition listed :: "uuid option \<Rightarrow> bool option \<Rightarrow> wire \<Rightarrow> transcripts \<Rightarrow> uuid \<Rightarrow> bool" where
  "listed after archived W hist tid \<longleftrightarrow>
     (case after of None \<Rightarrow> True | Some a \<Rightarrow> a < tid)
     \<and> (case archived of None \<Rightarrow> True | Some b \<Rightarrow> (th_archive (replayed W hist tid) \<noteq> None) = b)"

lemma page_rows_listed:
  assumes rep: "represents K W s hist"
  shows "page_rows K s after archived = filter (listed after archived W hist) (thread_ids s)"
proof -
  let ?P = "\<lambda>r. (case after of None \<Rightarrow> True | Some a \<Rightarrow> a < pj_thread r)
      \<and> (case archived of None \<Rightarrow> True | Some b \<Rightarrow> k_is_archived K (pj_body r) = b)"
  have P: "?P r \<longleftrightarrow> listed after archived W hist (pj_thread r)" if "r \<in> set (s_threads s)" for r
  proof -
    have "k_is_archived K (pj_body r) \<longleftrightarrow> th_archive (replayed W hist (pj_thread r)) \<noteq> None"
      by (subst represented_row(2) [OF rep that])
        (use representsD(1) [OF rep] in \<open>simp add: codec_ok_def\<close>)
    then show ?thesis by (cases archived) (simp_all add: listed_def)
  qed
  then have f: "filter ?P (s_threads s) = filter (\<lambda>r. listed after archived W hist (pj_thread r)) (s_threads s)"
    by (rule filter_cong [OF refl])
  have "distinct (map pj_thread (s_threads s))"
    using representsD(3) [OF rep] by (simp add: projections_represent_def)
  then have "distinct (page_rows K s after archived)"
    by (simp add: page_rows_def distinct_map_filter)
  moreover have "set (page_rows K s after archived) = {tid. hist tid \<noteq> [] \<and> listed after archived W hist tid}"
  proof -
    have "set (page_rows K s after archived)
        = pj_thread ` {r \<in> set (s_threads s). listed after archived W hist (pj_thread r)}"
      by (simp add: page_rows_def f)
    also have "\<dots> = {tid \<in> pj_thread ` set (s_threads s). listed after archived W hist tid}" by auto
    finally show ?thesis by (simp add: represented_ids(1) [OF rep])
  qed
  ultimately show ?thesis
    using thread_ids_represent [OF rep]
    by (intro sorted_distinct_set_unique) (auto simp: page_rows_def sorted_filter [of id, simplified])
qed

lemma page_run:
  assumes rep: "represents K W s hist"
    and "list_all (\<lambda>tid. hist tid \<noteq> [] \<and> listed after archived W hist tid) ids"
  shows "foldE (page_thread K s archived) acc ids =
    (if list_all (\<lambda>tid. readable K (replayed W hist tid)) ids
     then Inr (acc @ map (replayed W hist) ids) else Inl projection_corrupt)"
  using assms(2)
proof (induction ids arbitrary: acc)
  case (Cons i ids)
  then show ?case
    using read_replayed [OF rep, of i] by (auto simp: page_thread_def listed_def split: option.splits)
qed simp

text \<open>C17. A page of the Thread list is exact. It holds the first Threads, at most \<open>limit\<close>, of all
  transcripts after the cursor that pass the archive filter, in the order of their identities and read
  from validated projections, and it announces more exactly when one of these transcripts is left; the
  check of the archive state against the index never fires.\<close>

theorem thread_page_exact:
  assumes "represents K W s hist" and "1 \<le> limit" and "limit \<le> 200"
  shows "list_thread_page K s after archived (int limit) =
    (let ids = filter (listed after archived W hist) (thread_ids s)
     in if list_all (\<lambda>tid. readable K (replayed W hist tid)) (take limit ids)
        then Inr (map (replayed W hist) (take limit ids), limit < length ids)
        else Inl (KernelError ''projection_corrupt''))"
proof -
  let ?ids = "filter (listed after archived W hist) (thread_ids s)"
  have mem: "list_all (\<lambda>tid. hist tid \<noteq> [] \<and> listed after archived W hist tid) (take limit ?ids)"
    using thread_ids_represent(3) [OF assms(1)] set_take_subset [of limit ?ids]
    unfolding list_all_iff by auto
  have nat: "nat (int limit) = limit" "1 \<le> int limit \<and> int limit \<le> 200" using assms(2,3) by simp_all
  have take: "take limit (take (limit + 1) xs) = take limit xs"
    "limit < length (take (limit + 1) xs) \<longleftrightarrow> limit < length xs" for xs :: "uuid list"
    by (simp_all add: less_Suc_eq_le)
  show ?thesis
    unfolding list_thread_page_def page_rows_listed [OF assms(1)] nat Let_def take
      page_run [OF assms(1) mem]
    using assms(2,3) by (simp split: if_split)
qed

theorem thread_page_exact_witness:
  "list_thread_page plain_codec stored_store None (Some False) (int 5) = Inr ([fresh_thread], False)"
proof -
  obtain hist where h: "represents plain_codec no_wire stored_store hist"
      "replay no_wire (hist 1) = Inr fresh_thread" by (rule stored_history)
  have r: "replayed no_wire hist 1 = fresh_thread" using h(2) by (simp add: replayed_def)
  have "thread_ids stored_store = [1]"
    by (simp add: thread_ids_def stored_store_def creation_def event_def fresh_thread_def)
  moreover have "listed None (Some False) no_wire hist 1" using r by (simp add: listed_def fresh_thread_def)
  moreover have "list_thread_page plain_codec stored_store None (Some False) (int 5) =
    (let ids = filter (listed None (Some False) no_wire hist) (thread_ids stored_store)
     in if list_all (\<lambda>tid. readable plain_codec (replayed no_wire hist tid)) (take 5 ids)
        then Inr (map (replayed no_wire hist) (take 5 ids), 5 < length ids)
        else Inl (KernelError ''projection_corrupt''))"
    by (rule thread_page_exact [OF h(1)]) simp_all
  ultimately show ?thesis using r fresh_readable by simp
qed

end
