(* ===== verification/Session_Commits.thy ===== *)
theory Session_Commits
  imports Session_Forks
begin

text \<open>
  When an append goes through. A frozen batch of new events that the reducer accepts one after the
  other, at the position the Thread is at, is always committed; what a caller reads afterwards is the
  replay it expected, unless its snapshot is refused.
\<close>

section \<open>The loop over new events succeeds\<close>

lemma append_loop_commits:
  assumes "foldE (apply_to_thread W) th (positioned tid n batch) = Inr th'"
    and "list_all (frozen_draft K) batch" and "distinct (map d_event_id batch)"
    and "\<forall>r \<in> set (s_events s). er_event r \<notin> d_event_id ` set batch \<and> (er_thread r = tid \<longrightarrow> er_sequence r \<le> n)"
  shows "\<exists>s'. foldE (append_draft K W tid) (Some th, n, s) batch = Inr (Some th', n + length batch, s')"
  using assms
proof (induction batch arbitrary: n s th)
  case (Cons d ds)
  have d: "legacy_draft d = d" "draft_ok d" using Cons.prems(2) by (auto simp: frozen_draft_def)
  from Cons.prems(1) d obtain u where u: "apply_to_thread W th (at_position d tid (n + 1)) = Inr u"
      "foldE (apply_to_thread W) u (positioned tid (n + 1) ds) = Inr th'"
    by auto
  let ?s = "s\<lparr>s_events := s_events s @ [event_row_of K (at_position d tid (n + 1))]\<rparr>"
  have "persist_event K s (at_position d tid (n + 1)) = Inr ?s"
    using Cons.prems(4) by (force simp: persist_event_def list_all_iff)
  then have "append_draft K W tid (Some th, n, s) d = Inr (Some u, n + 1, ?s)"
    using d u(1) by (simp add: append_draft_def apply_event_def event_ok_at_position)
  moreover have "\<exists>s'. foldE (append_draft K W tid) (Some u, n + 1, ?s) ds = Inr (Some th', n + 1 + length ds, s')"
    using Cons.prems u(2) by (intro Cons.IH) (auto simp: le_Suc_eq)
  ultimately show ?case by auto
qed simp

lemma row_positions:
  assumes "events_represent K W s hist" "r \<in> set (s_events s)" "er_thread r = tid"
  shows "er_sequence r \<le> length (hist tid)"
proof -
  from assms(2,3) have "r \<in> set (rows_of s tid)" by (simp add: rows_of_def)
  then obtain e where e: "e \<in> set (hist tid)" "er_sequence r = e_sequence e"
    unfolding events_representD(1) [OF assms(1)] by auto
  then have "hist tid \<noteq> []" by auto
  with events_representD(3) [OF assms(1)] obtain th where "replay W (hist tid) = Inr th" by blast
  from replay_positions(2) [OF this] e(1) have "e_sequence e \<in> set [1..<1 + length (hist tid)]"
    by (metis image_eqI set_map)
  with e(2) show ?thesis by (simp del: upt_Suc)
qed

theorem append_commits:
  assumes rep: "represents K W s hist" and th: "replay W (hist tid) = Inr th" "readable K th"
    and batch: "freeze_batch K ds = Inr batch" "\<not> list_ex is_fork batch"
    and fresh: "list_all (\<lambda>d. event_row_with s (d_event_id d) = None) batch"
    and run: "foldE (apply_to_thread W) th (positioned tid (th_sequence th) batch) = Inr th'"
    and closed: "require_closed_rejections th' = Inr ()"
  obtains s' where "append_events K W s tid ds (th_sequence th) = Inr (th', True, s')"
    "represents K W s' (hist(tid := hist tid @ positioned tid (th_sequence th) batch))"
    "replay W (hist tid @ positioned tid (th_sequence th) batch) = Inr th'"
proof -
  note fz = freeze_batch_Inr [OF batch(1)]
  note ev = representsD(2) [OF rep]
  from read_snapshot_present [OF rep th(1)] th(2) have snap: "read_snapshot K s tid = Inr (Some th)" by simp
  from replay_positions(1) [OF th(1)] have seq: "th_sequence th = length (hist tid)" .
  have rows: "\<forall>r \<in> set (s_events s). er_event r \<notin> d_event_id ` set batch
      \<and> (er_thread r = tid \<longrightarrow> er_sequence r \<le> th_sequence th)"
    using fresh row_positions [OF ev] seq by (auto simp: event_row_with_def list_all_iff find_None_iff)
  from append_loop_commits [OF run fz(1,3) rows] obtain s1
    where s1: "foldE (append_draft K W tid) (Some th, th_sequence th, s) batch
        = Inr (Some th', th_sequence th + length batch, s1)" by blast
  have "th_sequence th' \<noteq> 0"
  proof -
    from append_loop(3) [OF s1, of "[]"]
    have "foldE (replay_step W) (Some th, []) (positioned tid (th_sequence th) batch) = Inr (Some th', rev (map d_event_id batch))"
      by simp
    from run_positions(1) [OF this] fz(2) show ?thesis by (cases batch) (simp_all add: sequence_of_def)
  qed
  then have "\<exists>s'. append_events K W s tid ds (th_sequence th) = Inr (th', True, s')"
    using batch snap s1 closed matched_none [OF fresh]
    by (simp add: append_events_def append_in_transaction_def sequence_of_def the_thread_def save_projection_def)
  then obtain s' where s': "append_events K W s tid ds (th_sequence th) = Inr (th', True, s')" ..
  from append_represents [OF rep this] batch(1)
  show ?thesis by (intro that [OF s']) simp_all
qed

section \<open>Reading after any commands\<close>

text \<open>What a Thread looks like when it is read again after any sequence of store operations.\<close>

lemma read_later:
  assumes "represents K W s hist" "replay W (hist tid) = Inr th"
    and "get_thread K (foldl (perform K W) s cs) tid = Inr th'"
  shows "thread_extends th th'"
proof -
  from sqlite.run_extends [OF assms(1)] obtain h
    where h: "represents K W (foldl (perform K W) s cs) h" "prefix (hist tid) (h tid)" by blast
  then obtain es where es: "h tid = hist tid @ es" by (auto simp: prefix_def)
  from get_thread_replay [OF h(1) assms(3)] have "replay W (h tid) = Inr th'" by simp
  moreover have "list_all event_ok (h tid)"
    using representsD(2) [OF h(1)] events_representD(2) stored_events_ok by blast
  ultimately show ?thesis using replay_extension [OF assms(2)] unfolding es by blast
qed

lemma read_later_refused:
  assumes "represents K W s hist" "replay W (hist tid) = Inr th"
    and "get_thread K (foldl (perform K W) s cs) tid = Inl e"
  shows "e = projection_corrupt"
proof -
  from sqlite.run_extends [OF assms(1)] obtain h
    where h: "represents K W (foldl (perform K W) s cs) h" "prefix (hist tid) (h tid)" by blast
  from assms(2) have "hist tid \<noteq> []" by (auto simp: replay_Nil)
  with h(2) have "h tid \<noteq> []" by auto
  with events_representD(3) [OF representsD(2) [OF h(1)]] obtain u where "replay W (h tid) = Inr u" by blast
  from read_snapshot_present [OF h(1) this] assms(3) show ?thesis by (simp add: get_thread_def split: if_splits)
qed

end
