(* ===== verification/Active_Steps.thy ===== *)
theory Active_Steps
  imports Turn_Invariants
begin

text \<open>
  Events the reducer accepts. The other theories ask what follows from an accepted event; this one
  shows when events of the running Turn are accepted and what they leave behind: one event, an item
  that starts and finishes at once, and the pairing of rejections with their results across both.
\<close>

section \<open>One event of the running Turn\<close>

definition live :: "thread \<Rightarrow> turn list \<Rightarrow> turn \<Rightarrow> bool" where
  "live th us t \<longleftrightarrow> th_archive th = None \<and> th_active_turn_id th = Some (turn_id t)
     \<and> th_turns th = us @ [t] \<and> \<not> terminal t \<and> (\<forall>u \<in> set us. turn_id u \<noteq> turn_id t)"

lemma live_get: "live th us t \<Longrightarrow> get_turn th (turn_id t) = Inr t"
  using find_last [of us "\<lambda>u. turn_id u = turn_id t" t] by (auto simp: live_def get_turn_def image_iff)

lemma shape_live:
  assumes "thread_shape th" "th_active_turn_id th = Some tid"
  obtains us t where "live th us t" "turn_id t = tid"
proof -
  from assms obtain us t where t: "th_turns th = us @ [t]" "turn_id t = tid" "\<not> terminal t"
      "\<forall>u \<in> set us. turn_id u \<noteq> tid"
    by (elim get_turn_shape)
  with assms show ?thesis by (intro that [of us t]) (auto simp: live_def thread_shape_def)
qed

definition addressed :: "thread \<Rightarrow> turn \<Rightarrow> agent_event \<Rightarrow> bool" where
  "addressed th t e \<longleftrightarrow> e_thread_id e = thread_id th \<and> e_sequence e = th_sequence th + 1
     \<and> e_turn_id e = Some (turn_id t)"

definition turn_payload :: "event_payload \<Rightarrow> bool" where
  "turn_payload p = (case p of ThreadCreated _ \<Rightarrow> False | ThreadForked _ _ \<Rightarrow> False
     | ThreadArchived _ \<Rightarrow> False | TurnStarted _ \<Rightarrow> False | _ \<Rightarrow> True)"

lemma active_step:
  assumes "live th us t" "addressed th t e" "turn_payload (payload e)"
    and "open_compaction_guard t (payload e)" "apply_turn_event W th t e = Inr (t', w)"
  shows "apply_to_thread W th e = Inr (add_window w (update_thread th e t' (us @ [t'])))"
proof -
  have same: "turn_id t' = turn_id t" using apply_turn_event_same [OF assms(5)] by (simp add: same_turn_def)
  with assms(1) have "replace_by turn_id t' (us @ [t]) = us @ [t']"
    by (intro replace_by_last) (auto simp: live_def)
  with assms live_get [OF assms(1)] have "apply_active W th e (turn_id t)
      = Inr (add_window w (update_thread th e t' (us @ [t'])))"
    by (simp add: apply_active_def live_def)
  with assms(1-3) show ?thesis
    by (cases "payload e") (simp_all add: apply_to_thread_def addressed_def live_def turn_payload_def)
qed

lemma live_update:
  assumes "live th us t" "same_turn t t'" "\<not> terminal t'"
  shows "live (update_thread th e t' (us @ [t'])) us t'"
  using assms by (auto simp: live_def same_turn_def)

text \<open>Two updates of the same Turn in a row.\<close>

lemma update_twice:
  "update_thread (update_thread th e t ts) e' t' ts' = update_thread th e' t' ts'"
  by (simp add: update_thread_def)

section \<open>An item that starts and finishes\<close>

definition place :: "thread \<Rightarrow> turn \<Rightarrow> item \<Rightarrow> item list" where
  "place th t i = (if is_step_item (i_content i) then append_step_item_before_pending_steering th t i
     else t_items t @ [i])"

definition fresh_item :: "thread \<Rightarrow> turn \<Rightarrow> uuid \<Rightarrow> bool" where
  "fresh_item th t iid \<longleftrightarrow> iid \<notin> item_id ` set (history_items th) \<and> iid \<notin> item_id ` set (thread_items th)
     \<and> iid \<notin> item_id ` set (t_items t)"

lemma live_items: "live th us t \<Longrightarrow> set (t_items t) \<subseteq> set (thread_items th)"
  by (auto simp: live_def thread_items_def)

lemma place_split:
  obtains xs ys where "t_items t = xs @ ys"
    "\<And>i. i_content i = c \<Longrightarrow> place th t i = xs @ i # ys"
proof (cases "is_step_item c")
  case True
  let ?P = "\<lambda>i. item_id i \<in> set (pending_steering th t)"
  have "insert_before_first ?P i xs = takeWhile (\<lambda>x. \<not> ?P x) xs @ i # dropWhile (\<lambda>x. \<not> ?P x) xs" for i xs
    by (induction xs) simp_all
  with True show ?thesis
    by (intro that [of "takeWhile (\<lambda>x. \<not> ?P x) (t_items t)" "dropWhile (\<lambda>x. \<not> ?P x) (t_items t)"])
      (simp_all add: place_def append_step_item_before_pending_steering_def)
next
  case False
  then show ?thesis by (intro that [of "t_items t" "[]"]) (simp_all add: place_def)
qed

definition done_item :: "uuid \<Rightarrow> item_content \<Rightarrow> item" where
  "done_item iid c = \<lparr>item_id = iid, i_status = Is_COMPLETED, i_content = c, i_error = None\<rparr>"

lemma done_item_fields [simp]:
  "item_id (done_item iid c) = iid" "i_status (done_item iid c) = Is_COMPLETED"
  "i_content (done_item iid c) = c" "i_error (done_item iid c) = None"
  by (simp_all add: done_item_def)

definition completion :: "uuid \<Rightarrow> item_content \<Rightarrow> item_finished" where
  "completion iid c = \<lparr>fi_item_id = iid, fi_status = Is_COMPLETED, fi_content = c, fi_error = None\<rparr>"

text \<open>Every content but an approval may finish the moment it has started.\<close>

lemma publish_steps:
  assumes live: "live th us t" and e: "addressed th t e" "payload e = ItemStarted iid c"
    and f: "e_thread_id f = thread_id th" "e_sequence f = th_sequence th + 2" "e_turn_id f = Some (turn_id t)"
      "payload f = ItemFinished (completion iid c)"
    and fresh: "fresh_item th t iid" and guard: "start_guard W th t e c = Inr ()"
    and no_approval: "case c of Approval _ \<Rightarrow> False | _ \<Rightarrow> True" and closed: "no_open_compactions t"
  shows "foldE (apply_to_thread W) th [e, f]
    = Inr (update_thread th f (t\<lparr>t_items := place th t (done_item iid c)\<rparr>)
        (us @ [t\<lparr>t_items := place th t (done_item iid c)\<rparr>]))"
proof -
  let ?i = "\<lparr>item_id = iid, i_status = Is_STARTED, i_content = c, i_error = None\<rparr>"
  let ?t1 = "t\<lparr>t_items := place th t ?i\<rparr>" and ?t2 = "t\<lparr>t_items := place th t (done_item iid c)\<rparr>"
  let ?th1 = "update_thread th e ?t1 (us @ [?t1])"
  obtain xs ys where split: "t_items t = xs @ ys" and placed: "place th t ?i = xs @ ?i # ys"
      "place th t (done_item iid c) = xs @ done_item iid c # ys"
    by (rule place_split [of t c th]) simp
  have new: "iid \<notin> item_id ` set xs" "iid \<notin> item_id ` set ys"
    using fresh split by (auto simp: fresh_item_def)
  have "apply_turn_event W th t e = Inr (?t1, None)"
    using e(2) fresh guard by (simp add: apply_turn_event_def start_item_def fresh_item_def place_def Let_def)
  from active_step [OF live e(1) _ _ this] e(2) closed
  have first: "apply_to_thread W th e = Inr ?th1"
    by (simp add: turn_payload_def open_compaction_guard_def add_window_def)
  have live1: "live ?th1 us ?t1" using live by (intro live_update [of th us t]) (auto simp: same_turn_def live_def)
  have "finish_item ?t1 f (completion iid c) = Inr ?t2"
  proof -
    have found: "find (\<lambda>i. item_id i = fi_item_id (completion iid c)) (t_items ?t1) = Some ?i"
      using new(1) by (simp add: placed completion_def) (induction xs; auto)
    have "replace_by item_id (done_item iid c) (t_items ?t1) = t_items ?t2"
      using new by (simp add: placed replace_by_absent)
    then show ?thesis
      unfolding finish_item_def found option.case
      using no_approval by (cases c) (simp_all add: completion_def done_item_def)
  qed
  then have "apply_turn_event W ?th1 ?t1 f = Inr (?t2, None)"
    using f(4) by (simp add: apply_turn_event_def)
  from active_step [OF live1 _ _ _ this] f closed e(1)
  have "apply_to_thread W ?th1 f = Inr (update_thread ?th1 f ?t2 (us @ [?t2]))"
    by (simp add: addressed_def turn_payload_def open_compaction_guard_def no_open_compactions_def add_window_def)
  with first show ?thesis by (simp add: update_twice)
qed

section \<open>Closed rejections\<close>

text \<open>Items that are not part of a rejection pair do not matter to the scan.\<close>

definition same_pairs :: "uuid set \<Rightarrow> rejection_scan \<Rightarrow> rejection_scan \<Rightarrow> bool" where
  "same_pairs cs s s' \<longleftrightarrow> rs_rejected s' = rs_rejected s \<and> rs_settled s' = rs_settled s
     \<and> rs_ordinary s' = rs_ordinary s \<and> set (rs_result_ids s) \<subseteq> set (rs_result_ids s')
     \<and> set (rs_result_ids s') \<subseteq> set (rs_result_ids s) \<union> cs \<and> (\<forall>k \<in> cs. map_of (rs_rejected s) k = None)"

lemma rejections_Cons:
  "rejections_of (i # js) = (case i_content i of Rejection r \<Rightarrow> [r] | _ \<Rightarrow> []) @ rejections_of js"
  by (simp add: rejections_of_def List.map_filter_simps split: item_content.splits)

lemma same_pairs_step:
  assumes "same_pairs cs s s'" "scan_item s i = Inr u" "\<And>r. i_content i = Rejection r \<Longrightarrow> rj_call_id r \<notin> cs"
  shows "\<exists>u'. scan_item s' i = Inr u' \<and> same_pairs cs u u'"
proof (cases "i_content i")
  case (ToolResult c)
  show ?thesis
  proof (cases "map_of (rs_rejected s) (tr_call_id c)")
    case None
    with ToolResult assms show ?thesis by (auto simp: scan_item_def same_pairs_def)
  next
    case (Some r)
    with ToolResult assms show ?thesis by (auto simp: scan_item_def same_pairs_def)
  qed
next
  case (Rejection r)
  with assms show ?thesis by (auto simp: scan_item_def same_pairs_def)
qed (use assms in \<open>auto simp: scan_item_def same_pairs_def\<close>)

lemma same_pairs_run:
  assumes "same_pairs cs s s'" "foldE scan_item s is = Inr u"
    and "\<forall>r \<in> set (rejections_of is). rj_call_id r \<notin> cs"
  shows "\<exists>u'. foldE scan_item s' is = Inr u' \<and> same_pairs cs u u'"
  using assms
proof (induction "is" arbitrary: s s')
  case (Cons i js)
  from Cons.prems(2) obtain v where v: "scan_item s i = Inr v" "foldE scan_item v js = Inr u" by auto
  have rej: "\<And>r. i_content i = Rejection r \<Longrightarrow> rj_call_id r \<notin> cs" "\<forall>r \<in> set (rejections_of js). rj_call_id r \<notin> cs"
    using Cons.prems(3) by (auto simp: rejections_Cons)
  from same_pairs_step [OF Cons.prems(1) v(1) rej(1)] obtain v' where "scan_item s' i = Inr v'" "same_pairs cs v v'"
    by blast
  with Cons.IH [OF _ v(2) rej(2)] show ?case by auto
qed simp

lemma scanned_step:
  assumes "scan_item s i = Inr v" "map_of (rs_rejected v) k \<noteq> None" "map_of (rs_rejected s) k = None"
  shows "\<exists>r. i_content i = Rejection r \<and> rj_call_id r = k"
  using assms by (cases "i_content i") (auto simp: scan_item_def split: if_splits option.splits)

lemma scanned_rejections:
  assumes "foldE scan_item s is = Inr u" "map_of (rs_rejected s) k = None" "k \<notin> rj_call_id ` set (rejections_of is)"
  shows "map_of (rs_rejected u) k = None"
  using assms
proof (induction "is" arbitrary: s)
  case (Cons i js)
  from Cons.prems(1) obtain v where v: "scan_item s i = Inr v" "foldE scan_item v js = Inr u" by auto
  have "map_of (rs_rejected v) k = None"
    using scanned_step [OF v(1) _ Cons.prems(2)] Cons.prems(3)
    by (cases "map_of (rs_rejected v) k") (auto simp: rejections_Cons)
  moreover have "k \<notin> rj_call_id ` set (rejections_of js)" using Cons.prems(3) by (auto simp: rejections_Cons)
  ultimately show ?case using Cons.IH [OF v(2)] by blast
qed simp

text \<open>An item outside every pair may be added anywhere.\<close>

definition unpaired :: "item list \<Rightarrow> item_content \<Rightarrow> bool" where
  "unpaired is c = (case c of ToolCall _ \<Rightarrow> False | Rejection _ \<Rightarrow> False
     | ToolResult r \<Rightarrow> tr_call_id r \<notin> rj_call_id ` set (rejections_of is) | _ \<Rightarrow> True)"

lemma rejections_append: "rejections_of (xs @ ys) = rejections_of xs @ rejections_of ys"
  by (simp add: rejections_of_def List.map_filter_def)

lemma closed_insert:
  assumes "require_closed_rejection_items (xs @ ys) = Inr ()" "unpaired (xs @ ys) (i_content i)"
  shows "require_closed_rejection_items (xs @ i # ys) = Inr ()"
proof -
  from assms(1) obtain s u where s: "foldE scan_item empty_scan xs = Inr s" "foldE scan_item s ys = Inr u"
      "set (map fst (rs_rejected u)) = set (rs_settled u)"
    by (auto simp: require_closed_rejection_items_def foldE_append)
  let ?cs = "case i_content i of ToolResult r \<Rightarrow> {tr_call_id r} | _ \<Rightarrow> {}"
  have "k \<notin> rj_call_id ` set (rejections_of xs) \<Longrightarrow> map_of (rs_rejected s) k = None" for k
    using scanned_rejections [OF s(1)] by (simp add: empty_scan_def)
  then have "\<forall>k \<in> ?cs. map_of (rs_rejected s) k = None"
    using assms(2) by (cases "i_content i") (auto simp: unpaired_def rejections_append)
  then have "\<exists>s'. scan_item s i = Inr s' \<and> same_pairs ?cs s s'"
    using assms(2) by (cases "i_content i") (auto simp: scan_item_def same_pairs_def unpaired_def)
  then obtain s' where s': "scan_item s i = Inr s'" "same_pairs ?cs s s'" by blast
  have "\<forall>r \<in> set (rejections_of ys). rj_call_id r \<notin> ?cs"
    using assms(2) by (force simp: unpaired_def rejections_append split: item_content.splits)
  from same_pairs_run [OF s'(2) s(2) this] obtain u' where "foldE scan_item s' ys = Inr u'" "same_pairs ?cs u u'"
    by blast
  with s s'(1) show ?thesis
    by (simp add: require_closed_rejection_items_def foldE_append same_pairs_def)
qed

lemma closed_place:
  assumes "require_closed_rejection_items (t_items t) = Inr ()" "unpaired (t_items t) (i_content i)"
  shows "require_closed_rejection_items (place th t i) = Inr ()"
proof -
  obtain xs ys where "t_items t = xs @ ys" "place th t i = xs @ i # ys"
    by (rule place_split [of t "i_content i" th]) simp
  with assms closed_insert show ?thesis by simp
qed

text \<open>The closedness of a Thread after an update of its last Turn.\<close>

lemma closed_turns:
  "foldE (\<lambda>_ t. require_closed_rejection_items (t_items t)) () ts = Inr ()
    \<longleftrightarrow> list_all (\<lambda>t. require_closed_rejection_items (t_items t) = Inr ()) ts"
  by (induction ts) auto

lemma closed_thread_turns:
  assumes "require_closed_rejections th = Inr ()"
  shows "list_all (\<lambda>t. require_closed_rejection_items (t_items t) = Inr ()) (th_turns th)"
  using assms by (auto simp: require_closed_rejections_def closed_turns)

lemma closed_update:
  assumes "require_closed_rejections th = Inr ()"
    and "list_all (\<lambda>t. require_closed_rejection_items (t_items t) = Inr ()) ts"
  shows "require_closed_rejections (update_thread th e t ts) = Inr ()"
  using assms by (auto simp: require_closed_rejections_def closed_turns)

end
