(* ===== verification/Thread_Requests.thy ===== *)
theory Thread_Requests
  imports Session_Commits Active_Steps
begin

text \<open>
  The requests a client sends to the runtime (src/src/harnessix/agent/runtime.py) and that only read
  and append, without a model or a tool: creating, resuming and archiving a Thread, accepting a Turn,
  steering it, answering its question and recording its cancellation. Each runs under the lock of its
  Thread, so it is one function on the session store; a request that raises leaves the store as it was.
  The optional protection of public inputs is not configured.
\<close>

section \<open>What a request draws from its host\<close>

text \<open>
  The identities \<^verbatim>\<open>new_id()\<close> returns and the times \<^verbatim>\<open>utc_now()\<close> returns during one request, in the
  order of the calls.
\<close>

record host =
  h_new_id :: "nat \<Rightarrow> uuid"
  h_utc_now :: "nat \<Rightarrow> datetime"

text \<open>
  The configured tools: for each name the fields of its descriptor the runtime compares, with
  \<^verbatim>\<open>tool_fingerprint(definition)\<close> as a value.
\<close>

record tool_contract =
  td_version :: string
  td_effect_class :: effect_class
  td_requires_approval :: bool
  td_fingerprint :: string

type_synonym tool_table = "string \<Rightarrow> tool_contract option"

text \<open>\<^verbatim>\<open>[EventDraft(turn_id=turn_id, payload=p) for p in payloads]\<close>.\<close>

fun stamped :: "host \<Rightarrow> uuid option \<Rightarrow> nat \<Rightarrow> nat \<Rightarrow> event_payload list \<Rightarrow> event_draft list" where
  "stamped H turn i k [] = []"
| "stamped H turn i k (p # ps) =
     \<lparr>d_schema_version = 22, d_event_id = h_new_id H i, d_turn_id = turn, d_occurred_at = h_utc_now H k,
      d_payload = p\<rparr> # stamped H turn (i + 1) (k + 1) ps"

text \<open>The constructor of a draft validates it.\<close>

definition new_drafts :: "host \<Rightarrow> uuid option \<Rightarrow> nat \<Rightarrow> nat \<Rightarrow> event_payload list \<Rightarrow> event_draft list result" where
  "new_drafts H turn i k ps =
    (let ds = stamped H turn i k ps in check (list_all draft_ok ds) ValueError (Inr ds))"

definition commit :: "'d codec \<Rightarrow> wire \<Rightarrow> 'd session_store \<Rightarrow> uuid \<Rightarrow> event_draft list \<Rightarrow> nat
    \<Rightarrow> (thread \<times> 'd session_store) result" where
  "commit K W s tid ds n = bindE (append_events K W s tid ds n) (\<lambda>(th, _, s'). Inr (th, s'))"

section \<open>Threads\<close>

definition create_request :: "'d codec \<Rightarrow> wire \<Rightarrow> host \<Rightarrow> 'd session_store \<Rightarrow> string \<Rightarrow> uuid option
    \<Rightarrow> (thread \<times> 'd session_store) result" where
  "create_request K W H s workspace named =
    (let create = (\<lambda>tid i. bindE (new_drafts H None i 0 [ThreadCreated workspace]) (\<lambda>ds.
           commit K W s tid ds 0))
     in case named of
          None \<Rightarrow> create (h_new_id H 0) 1
        | Some tid \<Rightarrow>
            (case get_thread K s tid of
               Inr th \<Rightarrow> check (th_workspace th = workspace) (KernelError ''thread_create_conflict'') (Inr (th, s))
             | Inl e \<Rightarrow> if e = KernelError ''thread_not_found'' then create tid 0 else Inl e))"

definition thread_archived :: py_error where
  "thread_archived = KernelError ''thread_archived''"

definition thread_busy :: py_error where
  "thread_busy = KernelError ''thread_busy''"

definition resume_request :: "'d codec \<Rightarrow> 'd session_store \<Rightarrow> uuid \<Rightarrow> thread result" where
  "resume_request K s tid =
     bindE (get_thread K s tid) (\<lambda>th. check (th_archive th = None) thread_archived (Inr th))"

definition archive_request :: "'d codec \<Rightarrow> wire \<Rightarrow> host \<Rightarrow> 'd session_store \<Rightarrow> uuid \<Rightarrow> string option
    \<Rightarrow> (thread \<times> 'd session_store) result" where
  "archive_request K W H s tid reason =
     bindE (get_thread K s tid) (\<lambda>th.
     case th_archive th of
       Some a \<Rightarrow> check (reason = av_reason a) (KernelError ''thread_archive_conflict'') (Inr (th, s))
     | None \<Rightarrow>
         check (th_active_turn_id th = None) thread_busy
         (bindE (new_drafts H None 0 0 [ThreadArchived reason]) (\<lambda>ds.
          commit K W s tid ds (th_sequence th))))"

section \<open>Accepting a Turn\<close>

record client_request =
  rq_prompt :: string
  rq_request_id :: string
  rq_budget :: budget
  rq_trace_context :: "trace_context option"
  rq_retry_of :: "uuid option"
  rq_mode :: execution_mode

text \<open>\<^verbatim>\<open>budget.model_dump()\<close> and the fingerprint input, with their keys sorted.\<close>

definition budget_json :: "budget \<Rightarrow> json" where
  "budget_json b = JObj
     [(''max_output_chars'', JInt (max_output_chars b)), (''max_steps'', JInt (int (max_steps b))),
      (''max_tokens'', JInt (max_tokens b)),
      (''max_tool_calls_per_step'', JInt (max_tool_calls_per_step b)),
      (''timeout_seconds'', JFloat (float_repr (timeout_seconds b)))]"

definition fingerprint_input :: "client_request \<Rightarrow> json" where
  "fingerprint_input rq = JObj
     ([(''budget'', budget_json (rq_budget rq))]
      @ (if rq_mode rq = Deferred then [(''execution_mode'', JStr ''deferred'')] else [])
      @ [(''prompt'', JStr (rq_prompt rq))]
      @ (case rq_retry_of rq of None \<Rightarrow> [] | Some source \<Rightarrow> [(''retry_of_turn_id'', JStr (uuid_str source))]))"

definition turn_fingerprint :: "client_request \<Rightarrow> string" where
  "turn_fingerprint rq = digest (fingerprint_input rq)"

definition turn_start :: "client_request \<Rightarrow> turn_started" where
  "turn_start rq = \<lparr>tn_request_id = rq_request_id rq, tn_request_fingerprint = turn_fingerprint rq,
     tn_retry_of_turn_id = rq_retry_of rq, tn_execution_mode = rq_mode rq, tn_budget = rq_budget rq,
     tn_trace_context = rq_trace_context rq\<rparr>"

definition user_text :: "string \<Rightarrow> item_content" where
  "user_text s = Text \<lparr>tx_kind = User_message, tx_text = s\<rparr>"

text \<open>An item that starts and finishes in the same batch.\<close>

definition published_item :: "uuid \<Rightarrow> item_content \<Rightarrow> event_payload list" where
  "published_item iid c =
     [ItemStarted iid c, ItemFinished \<lparr>fi_item_id = iid, fi_status = Is_COMPLETED, fi_content = c, fi_error = None\<rparr>]"

definition same_request :: "turn \<Rightarrow> client_request \<Rightarrow> bool" where
  "same_request t rq \<longleftrightarrow> t_request_fingerprint t = turn_fingerprint rq
     \<and> t_retry_of_turn_id t = rq_retry_of rq \<and> t_execution_mode t = rq_mode rq"

definition retry_allowed :: "thread \<Rightarrow> uuid option \<Rightarrow> unit result" where
  "retry_allowed th retry =
     (case retry of
        None \<Rightarrow> Inr ()
      | Some source \<Rightarrow>
          check (th_active_turn_id th = None) thread_busy
          (bindE (get_turn th source) (\<lambda>t.
           check (th_turns th \<noteq> [] \<and> turn_id (last (th_turns th)) = turn_id t)
             (KernelError ''turn_retry_not_latest'')
           (check (t_status t \<in> {Ts_FAILED, Ts_CANCELLED, Ts_INTERRUPTED}) (KernelError ''turn_not_retryable'')
           (check (\<not> has_unknown_result (t_items t)) (KernelError ''retry_unsafe_effect'') (Inr ()))))))"

definition accept_request :: "'d codec \<Rightarrow> wire \<Rightarrow> host \<Rightarrow> 'd session_store \<Rightarrow> uuid \<Rightarrow> uuid \<Rightarrow> client_request
    \<Rightarrow> (turn \<times> bool \<times> 'd session_store) result" where
  "accept_request K W H s tid turn rq =
    (let content = user_text (rq_prompt rq); start = TurnStarted (turn_start rq) in
     check (item_content_ok content \<and> payload_ok start) ValueError
     (bindE (get_thread K s tid) (\<lambda>th.
      check (th_archive th = None) thread_archived
      (case find (\<lambda>t. t_request_id t = rq_request_id rq) (th_turns th) of
         Some t \<Rightarrow> check (same_request t rq) (KernelError ''request_conflict'') (Inr (t, False, s))
       | None \<Rightarrow>
           bindE (retry_allowed th (rq_retry_of rq)) (\<lambda>_.
           bindE (new_drafts H (Some turn) 1 0 (start # published_item (h_new_id H 0) content)) (\<lambda>ds.
           bindE (commit K W s tid ds (th_sequence th)) (\<lambda>(th', s').
           bindE (get_turn th' turn) (\<lambda>t. Inr (t, True, s')))))))))"

text \<open>\<^verbatim>\<open>RETRY_INSTRUCTIONS\<close> as UTF-8 bytes.\<close>

definition of_bytes :: "nat list \<Rightarrow> string" where
  "of_bytes ns = map char_of ns"

definition RETRY_INSTRUCTIONS :: string where
  "RETRY_INSTRUCTIONS = of_bytes
     [231, 187, 167, 231, 187, 173, 229, 174, 140, 230, 136, 144, 228, 184, 138, 228, 184, 128, 232,
      189, 174, 230, 156, 170, 229, 174, 140, 230, 136, 144, 231, 154, 132, 232, 175, 183, 230,
      177, 130, 227, 128, 130, 228, 184, 141, 232, 166, 129, 233, 135, 141, 229, 164, 141, 229,
      183, 178, 229, 174, 140, 230, 136, 144, 231, 154, 132, 229, 137, 175, 228, 189, 156, 231,
      148, 168, 239, 188, 155, 229, 133, 136, 230, 160, 184, 229, 175, 185, 229, 189, 147, 229,
      137, 141, 87, 111, 114, 107, 115, 112, 97, 99, 101, 228, 184, 142, 230, 140, 129, 228,
      185, 133, 230, 149, 136, 230, 158, 156, 228, 186, 139, 229, 174, 158, 227, 128, 130]"

definition accept_turn :: "'d codec \<Rightarrow> wire \<Rightarrow> host \<Rightarrow> 'd session_store \<Rightarrow> uuid \<Rightarrow> string \<Rightarrow> string \<Rightarrow> budget
    \<Rightarrow> trace_context option \<Rightarrow> (turn \<times> 'd session_store) result" where
  "accept_turn K W H s tid prompt request budget trace =
     bindE (accept_request K W H s tid (uuid5 tid (''harnessix.turn/v1:'' @ request))
         \<lparr>rq_prompt = prompt, rq_request_id = request, rq_budget = budget, rq_trace_context = trace,
          rq_retry_of = None, rq_mode = Deferred\<rparr>)
       (\<lambda>(t, _, s'). Inr (t, s'))"

definition accept_retry_turn :: "'d codec \<Rightarrow> wire \<Rightarrow> host \<Rightarrow> 'd session_store \<Rightarrow> uuid \<Rightarrow> uuid \<Rightarrow> string \<Rightarrow> budget
    \<Rightarrow> trace_context option \<Rightarrow> (turn \<times> 'd session_store) result" where
  "accept_retry_turn K W H s tid source request budget trace =
     bindE (accept_request K W H s tid (uuid5 tid (''harnessix.turn-retry/v1:'' @ request))
         \<lparr>rq_prompt = RETRY_INSTRUCTIONS, rq_request_id = request, rq_budget = budget,
          rq_trace_context = trace, rq_retry_of = Some source, rq_mode = Deferred\<rparr>)
       (\<lambda>(t, _, s'). Inr (t, s'))"

section \<open>Steering and cancelling\<close>

definition STEERABLE :: "turn_status list" where
  "STEERABLE = [Ts_ACCEPTED, Ts_PREPARING_CONTEXT, Ts_CALLING_MODEL, Ts_EXECUTING_TOOLS,
     Ts_WAITING_APPROVAL, Ts_WAITING_ACTION, Ts_WAITING_INPUT]"

definition steering_item_id :: "uuid \<Rightarrow> string \<Rightarrow> uuid" where
  "steering_item_id turn request = uuid5 turn (''harnessix.turn-steering/v1:'' @ request)"

definition steer_turn :: "'d codec \<Rightarrow> wire \<Rightarrow> host \<Rightarrow> 'd session_store \<Rightarrow> uuid \<Rightarrow> uuid \<Rightarrow> string \<Rightarrow> string
    \<Rightarrow> (turn \<times> 'd session_store) result" where
  "steer_turn K W H s tid turn text request =
    (let content = user_text text; iid = steering_item_id turn request in
     check (request \<noteq> [] \<and> py_len request \<le> 256) (KernelError ''steering_invalid'')
     (check (text \<noteq> [] \<and> py_len text \<le> 1000000) (KernelError ''steering_invalid'')
     (bindE (get_thread K s tid) (\<lambda>th.
      bindE (get_turn th turn) (\<lambda>t.
      check (t_status t \<in> set STEERABLE) (KernelError ''steering_closed'')
      (case find (\<lambda>i. item_id i = iid) (t_items t) of
         Some i \<Rightarrow> check (i_status i = Is_COMPLETED \<and> i_content i = content)
           (KernelError ''steering_conflict'') (Inr (t, s))
       | None \<Rightarrow>
           bindE (new_drafts H (Some turn) 0 0 (published_item iid content)) (\<lambda>ds.
           bindE (commit K W s tid ds (th_sequence th)) (\<lambda>(th', s').
           bindE (get_turn th' turn) (\<lambda>t'. Inr (t', s'))))))))))"

definition record_cancel :: "'d codec \<Rightarrow> wire \<Rightarrow> host \<Rightarrow> 'd session_store \<Rightarrow> uuid \<Rightarrow> uuid
    \<Rightarrow> (turn \<times> 'd session_store) result" where
  "record_cancel K W H s tid turn =
     bindE (get_thread K s tid) (\<lambda>th.
     bindE (get_turn th turn) (\<lambda>t.
     if t_status t \<in> set TERMINAL_TURNS \<or> t_status t = Ts_CANCELLING then Inr (t, s)
     else
       bindE (new_drafts H (Some turn) 0 0
           [TurnStateChanged \<lparr>tsc_status = Ts_CANCELLING, tsc_error = None, tsc_reason = Normal\<rparr>]) (\<lambda>ds.
       bindE (commit K W s tid ds (th_sequence th)) (\<lambda>(th', s').
       bindE (get_turn th' turn) (\<lambda>t'. Inr (t', s'))))))"

section \<open>Answering a question\<close>

text \<open>\<^verbatim>\<open>question_answer_events\<close> of agent/question_events.py.\<close>

definition answered_result :: "uuid \<Rightarrow> string \<Rightarrow> tool_result_content" where
  "answered_result call answer = \<lparr>tr_call_id = call, tr_outcome = Oc_succeeded,
     tr_output = JObj [(''answer'', JStr answer)], tr_error = None, tr_action_id = None, tr_patch = None,
     tr_patch_batch = None, tr_process = None, tr_trusted_action = None, tr_diff_artifact = None\<rparr>"

definition question_answer_events :: "uuid \<Rightarrow> uuid \<Rightarrow> string \<Rightarrow> event_payload list" where
  "question_answer_events question call answer =
     published_item (uuid5 question ''harnessix.question-answer/v1'')
       (QuestionAnswer \<lparr>qa_question_id = question, qa_call_id = call, qa_answer = answer\<rparr>)
     @ [TurnStateChanged \<lparr>tsc_status = Ts_EXECUTING_TOOLS, tsc_error = None, tsc_reason = Normal\<rparr>]
     @ published_item (uuid5 question ''harnessix.question-result/v1'') (ToolResult (answered_result call answer))"

definition asked_by :: "uuid \<Rightarrow> item \<Rightarrow> question_request option" where
  "asked_by question i = (case i_content i of
     QuestionRequest q \<Rightarrow> if qr_question_id q = question then Some q else None | _ \<Rightarrow> None)"

definition answered_by :: "uuid \<Rightarrow> item \<Rightarrow> question_answer option" where
  "answered_by question i = (case i_content i of
     QuestionAnswer a \<Rightarrow> if qa_question_id a = question then Some a else None | _ \<Rightarrow> None)"

text \<open>\<^verbatim>\<open>_validate_tool_contract\<close>.\<close>

definition validate_tool_contract :: "tool_table \<Rightarrow> tool_call_content \<Rightarrow> unit result" where
  "validate_tool_contract tools call =
     check (case tools (tc_tool call) of
         None \<Rightarrow> False
       | Some d \<Rightarrow> td_version d = tc_tool_version call \<and> td_effect_class d = tc_effect_class call
           \<and> td_requires_approval d = tc_requires_approval call
           \<and> Some (td_fingerprint d) = tc_tool_fingerprint call)
       (KernelError ''tool_contract_changed'') (Inr ())"

definition reply_question :: "'d codec \<Rightarrow> wire \<Rightarrow> host \<Rightarrow> tool_table \<Rightarrow> bool \<Rightarrow> 'd session_store \<Rightarrow> uuid \<Rightarrow> uuid
    \<Rightarrow> uuid \<Rightarrow> string \<Rightarrow> (turn \<times> 'd session_store) result" where
  "reply_question K W H tools enabled s tid turn question answer =
     check enabled (KernelError ''question_not_enabled'')
     (check (answer \<noteq> [] \<and> py_len answer \<le> 4000) (KernelError ''question_answer_invalid'')
     (bindE (get_thread K s tid) (\<lambda>th.
      bindE (get_turn th turn) (\<lambda>t.
      case find (\<lambda>i. asked_by question i \<noteq> None) (t_items t) of
        None \<Rightarrow> Inl (KernelError ''question_not_found'')
      | Some i \<Rightarrow>
          (case List.map_filter (answered_by question) (t_items t) of
             a # _ \<Rightarrow> check (qa_answer a = answer) (KernelError ''question_conflict'') (Inr (t, s))
           | [] \<Rightarrow>
               check (t_status t = Ts_WAITING_INPUT \<and> i_status i = Is_COMPLETED) (KernelError ''question_closed'')
               (check (0 < remaining_us t (h_utc_now H 0)) (KernelError ''question_expired'')
               (case pending_calls t of
                  [] \<Rightarrow> Inl (KernelError ''question_mismatch'')
                | call # _ \<Rightarrow>
                    check (map_option qr_call_id (asked_by question i) = Some (tc_call_id call))
                      (KernelError ''question_mismatch'')
                    (bindE (validate_tool_contract tools call) (\<lambda>_.
                     bindE (new_drafts H (Some turn) 0 1
                         (question_answer_events question (tc_call_id call) answer)) (\<lambda>ds.
                     bindE (commit K W s tid ds (th_sequence th)) (\<lambda>(th', s').
                     bindE (get_turn th' turn) (\<lambda>t'. Inr (t', s')))))))))))))"

end
