(* ===== verification/Patch_Recovery.thy ===== *)
theory Patch_Recovery
  imports Thread_Requests
begin

text \<open>
  How an unfinished write is examined after the fact (\<^verbatim>\<open>_recover_patch\<close> and \<^verbatim>\<open>_recover_patch_batch\<close> of
  src/src/harnessix/agent/runtime_recovery.py, with \<^verbatim>\<open>inspection_scope\<close>, \<^verbatim>\<open>execution_approval\<close> and
  \<^verbatim>\<open>result_content\<close> of agent/patching.py and \<^verbatim>\<open>result_content\<close> of agent/batch_patching.py). The patch back ends,
  which look at files and ledgers, are a parameter: any answer they give is checked here.
\<close>

section \<open>Scopes and errors\<close>

record tool_scope =
  sc_thread_id :: uuid
  sc_turn_id :: uuid
  sc_call_id :: uuid
  sc_workspace :: string
  sc_request_fingerprint :: string

definition scope_of :: "thread \<Rightarrow> turn \<Rightarrow> tool_call_content \<Rightarrow> tool_scope" where
  "scope_of th t call = \<lparr>sc_thread_id = thread_id th, sc_turn_id = turn_id t, sc_call_id = tc_call_id call,
     sc_workspace = th_workspace th,
     sc_request_fingerprint = request_fingerprint th t call READ_ONLY_POLICY_VERSION\<rparr>"

definition inspection_scope :: "thread \<Rightarrow> turn \<Rightarrow> tool_call_content \<Rightarrow> tool_scope result" where
  "inspection_scope th t call =
     check (th_active_turn_id th = Some (turn_id t) \<and> call \<in> set (pending_calls t))
       (KernelError ''tool_scope_mismatch'') (Inr (scope_of th t call))"

definition for_pending_call :: "thread \<Rightarrow> uuid \<Rightarrow> tool_call_content \<Rightarrow> tool_scope result" where
  "for_pending_call th turn call =
     bindE (get_turn th turn) (\<lambda>t.
     check (th_active_turn_id th = Some turn \<and> t_status t = Ts_EXECUTING_TOOLS \<and> call \<in> set (pending_calls t))
       (KernelError ''tool_scope_mismatch'') (Inr (scope_of th t call)))"

definition validate_call :: "tool_scope \<Rightarrow> tool_call_content \<Rightarrow> unit result" where
  "validate_call sc call =
     check (sc_call_id sc = tc_call_id call
       \<and> sc_request_fingerprint sc = execution_fingerprint (sc_thread_id sc) (sc_turn_id sc) (sc_workspace sc) call
           READ_ONLY_POLICY_VERSION)
       (KernelError ''tool_scope_mismatch'') (Inr ())"

text \<open>
  \<^verbatim>\<open>to_failure\<close>, or the fallback for any other exception. The model's errors carry their code only, so the
  public message and the retry flag of a kernel error are given by a function.
\<close>

type_synonym error_texts = "py_error \<Rightarrow> string \<times> bool"

definition failure :: "string \<Rightarrow> string \<Rightarrow> agent_failure" where
  "failure code message = AgentFailure code message False None"

definition failure_of :: "error_texts \<Rightarrow> agent_failure \<Rightarrow> py_error \<Rightarrow> agent_failure" where
  "failure_of X fallback e =
     (case e of KernelError code \<Rightarrow> AgentFailure code (fst (X e)) (snd (X e)) None | _ \<Rightarrow> fallback)"

definition recovery_failure :: "tool_call_content \<Rightarrow> agent_failure \<Rightarrow> tool_result_content" where
  "recovery_failure call f = \<lparr>tr_call_id = tc_call_id call, tr_outcome = Oc_unknown, tr_output = JNull,
     tr_error = Some f, tr_action_id = None, tr_patch = None, tr_patch_batch = None, tr_process = None,
     tr_trusted_action = None, tr_diff_artifact = None\<rparr>"

text \<open>The messages as UTF-8 bytes.\<close>

definition PATCH_RECOVERY :: string where
  "PATCH_RECOVERY = of_bytes
     [80, 97, 116, 99, 104, 32, 230, 160, 184, 229, 175, 185, 229, 164, 177, 232, 180, 165,
      239, 188, 155, 229, 142, 159, 229, 167, 139, 233, 148, 153, 232, 175, 175, 230, 156,
      170, 230, 140, 129, 228, 185, 133, 229, 140, 150]"

definition BATCH_RECOVERY :: string where
  "BATCH_RECOVERY = of_bytes
     [230, 149, 180, 231, 187, 132, 230, 160, 184, 229, 175, 185, 229, 164, 177, 232, 180,
      165, 239, 188, 155, 229, 142, 159, 229, 167, 139, 233, 148, 153, 232, 175, 175, 230,
      156, 170, 230, 140, 129, 228, 185, 133, 229, 140, 150]"

definition ACTION_RECOVERY :: string where
  "ACTION_RECOVERY = of_bytes
     [84, 114, 117, 115, 116, 101, 100, 32, 65, 99, 116, 105, 111, 110, 230, 160, 184, 229,
      175, 185, 229, 164, 177, 232, 180, 165, 239, 188, 155, 229, 142, 159, 229, 167, 139,
      233, 148, 153, 232, 175, 175, 230, 156, 170, 230, 140, 129, 228, 185, 133, 229, 140,
      150]"

section \<open>One file\<close>

record patch_record =
  pr_plan_id :: uuid
  pr_workspace_id :: uuid
  pr_request_id :: string
  pr_manifest :: patch_manifest
  pr_approval_fingerprint :: string
  pr_state :: patch_state
  pr_decision :: "approval_decision option"
  pr_error_code :: "string option"

record patch_call_result =
  pc_result :: tool_result_content
  pc_plan :: "managed_patch_call_plan option"
  pc_record :: "patch_record option"

text \<open>\<^verbatim>\<open>approval_for(turn, call)\<close> narrowed to a patch approval, and the execution guard.\<close>

definition patch_approval :: "turn \<Rightarrow> tool_call_content \<Rightarrow> (item \<times> patch_approval_request) option" where
  "patch_approval t call =
     (case approval_for t call of None \<Rightarrow> None
      | Some i \<Rightarrow> (case i_content i of Approval (PatchApproval a) \<Rightarrow> Some (i, a) | _ \<Rightarrow> None))"

definition patch_execution_approval ::
  "wire \<Rightarrow> thread \<Rightarrow> turn \<Rightarrow> tool_call_content \<Rightarrow> datetime \<Rightarrow> patch_approval_request result" where
  "patch_execution_approval W th t call now =
     (case patch_approval t call of
        None \<Rightarrow> Inl (KernelError ''patch_execution_not_authorized'')
      | Some (i, a) \<Rightarrow>
          check (th_active_turn_id th = Some (turn_id t) \<and> t_status t = Ts_EXECUTING_TOOLS
              \<and> (case pending_calls t of [] \<Rightarrow> False | c # _ \<Rightarrow> c = call)
              \<and> 0 < remaining_us t now \<and> i_status i = Is_COMPLETED \<and> pa_decision a \<noteq> None
              \<and> approval_matches W th t call (PatchApproval a))
            (KernelError ''patch_execution_not_authorized'') (Inr a))"

definition patch_effect_of :: "managed_patch_call_plan \<Rightarrow> patch_record \<Rightarrow> origin \<Rightarrow> patch_effect" where
  "patch_effect_of plan rec origin = \<lparr>pe_workspace_id = mp_workspace_id plan, pe_plan_id = mp_plan_id plan,
     pe_request_id = mp_request_id plan, pe_approval_fingerprint = mp_approval_fingerprint plan,
     pe_state = pr_state rec, pe_origin = origin\<rparr>"

definition patch_result_content ::
  "patch_call_result \<Rightarrow> tool_call_content \<Rightarrow> origin \<Rightarrow> tool_result_content result" where
  "patch_result_content r call origin =
    (let result = pc_result r
     in check (tr_call_id result = tc_call_id call \<and> tr_patch result = None \<and> tr_patch_batch result = None)
          (KernelError ''tool_result_mismatch'')
        (bindE (case (pc_plan r, pc_record r) of
             (Some plan, Some rec) \<Rightarrow>
               check ((mp_plan_id plan, mp_workspace_id plan, mp_request_id plan, mp_backend_fingerprint plan,
                       mp_manifest plan)
                   = (pr_plan_id rec, pr_workspace_id rec, pr_request_id rec, pr_approval_fingerprint rec,
                      pr_manifest rec))
                 (KernelError ''patch_result_mismatch'') (Inr (Some (patch_effect_of plan rec origin)))
           | _ \<Rightarrow> Inr None) (\<lambda>effect.
         check (\<not> (tr_outcome result = Oc_succeeded \<and> effect = None)) (KernelError ''patch_result_mismatch'')
           (Inr (result\<lparr>tr_patch := effect\<rparr>)))))"

text \<open>An output beyond the budget of the Turn is dropped.\<close>

definition bound_output :: "turn \<Rightarrow> tool_result_content \<Rightarrow> tool_result_content" where
  "bound_output t r =
     (if max_output_chars (t_budget t)
          < int (py_len (json_dumps (tool_result_json (r\<lparr>tr_patch := None, tr_patch_batch := None\<rparr>))))
      then r\<lparr>tr_output := JNull\<rparr> else r)"

type_synonym patch_port = "tool_call_content \<Rightarrow> tool_scope \<Rightarrow> managed_patch_call_plan option
  \<Rightarrow> approval_record option \<Rightarrow> patch_call_result result"

definition recovery_plan :: "wire \<Rightarrow> thread \<Rightarrow> turn \<Rightarrow> tool_call_content \<Rightarrow> patch_approval_request option result" where
  "recovery_plan W th t call =
     (case approval_for t call of
        None \<Rightarrow> Inr None
      | Some i \<Rightarrow> (case i_content i of
          Approval (PatchApproval a) \<Rightarrow>
            check (approval_matches W th t call (PatchApproval a)) (KernelError ''approval_mismatch'') (Inr (Some a))
        | _ \<Rightarrow> Inl (KernelError ''approval_mismatch'')))"

definition inspect_patch :: "wire \<Rightarrow> tool_table \<Rightarrow> patch_port option \<Rightarrow> thread \<Rightarrow> turn \<Rightarrow> tool_call_content
    \<Rightarrow> tool_result_content result" where
  "inspect_patch W tools patches th t call =
     (case patches of
        None \<Rightarrow> Inl (KernelError ''patch_not_enabled'')
      | Some port \<Rightarrow>
          bindE (validate_tool_contract tools call) (\<lambda>_.
          bindE (recovery_plan W th t call) (\<lambda>a.
          bindE (inspection_scope th t call) (\<lambda>sc.
          bindE (port call sc (map_option pa_plan a) (Option.bind a pa_decision)) (\<lambda>settled.
          bindE (patch_result_content settled call Recovery) (\<lambda>r. Inr (bound_output t r)))))))"

definition recover_patch :: "wire \<Rightarrow> error_texts \<Rightarrow> tool_table \<Rightarrow> patch_port option \<Rightarrow> thread \<Rightarrow> turn
    \<Rightarrow> tool_call_content \<Rightarrow> tool_result_content" where
  "recover_patch W X tools patches th t call =
     (case inspect_patch W tools patches th t call of
        Inr r \<Rightarrow> r
      | Inl e \<Rightarrow> recovery_failure call (failure_of X (failure ''patch_recovery_failed'' PATCH_RECOVERY) e))"

section \<open>A group of files\<close>

record batch_approval_fact =
  bf_plan :: managed_patch_batch_plan
  bf_decision :: "approval_decision option"

record batch_call_result =
  bcr_result :: tool_result_content
  bcr_plan :: "managed_patch_batch_call_plan option"
  bcr_approval :: "batch_approval_fact option"
  bcr_execution :: "batch_execution_result option"

text \<open>\<^verbatim>\<open>ApprovalDecision.model_validate_json(decision.model_dump_json(include=...))\<close>.\<close>

definition decision_of :: "approval_record \<Rightarrow> approval_decision result" where
  "decision_of d =
    (let x = \<lparr>d_outcome = ar_outcome d, d_actor = ar_actor d, d_reason = ar_reason d\<rparr>
     in check (approval_decision_ok x) ValueError (Inr x))"

definition batch_effect_of ::
  "managed_patch_batch_call_plan \<Rightarrow> batch_execution_result option \<Rightarrow> origin \<Rightarrow> patch_batch_effect" where
  "batch_effect_of plan execution origin = \<lparr>pbe_workspace_id = bp_workspace_id (bc_backend plan),
     pbe_batch_id = bp_batch_id (bc_backend plan), pbe_request_id = bp_request_id (bc_backend plan),
     pbe_approval_fingerprint = bc_approval_fingerprint plan, pbe_origin = origin, pbe_execution = execution\<rparr>"

text \<open>\<^verbatim>\<open>ToolResultContent.model_validate_json(content.model_dump_json())\<close>.\<close>

definition revalidated :: "tool_result_content \<Rightarrow> tool_result_content result" where
  "revalidated r =
    (let r' = r\<lparr>tr_output := json_mode (tr_output r)\<rparr> in check (tool_result_ok r') ValueError (Inr r'))"

definition batch_result_content :: "wire \<Rightarrow> batch_call_result \<Rightarrow> thread \<Rightarrow> turn \<Rightarrow> tool_call_content \<Rightarrow> origin
    \<Rightarrow> tool_result_content result" where
  "batch_result_content W r th t call origin =
    (let result = bcr_result r; mismatch = KernelError ''patch_batch_result_mismatch''
     in check (tr_call_id result = tc_call_id call \<and> tr_patch result = None \<and> tr_patch_batch result = None
            \<and> tr_diff_artifact result = None) (KernelError ''tool_result_mismatch'')
        (case (bcr_plan r, bcr_approval r) of
           (Some plan, Some backing) \<Rightarrow>
             (case batch_approval t call of
                None \<Rightarrow> Inl mismatch
              | Some (i, a) \<Rightarrow>
                  check (ba_plan a = plan) mismatch
                  (case ba_decision a of
                     None \<Rightarrow> Inl mismatch
                   | Some d \<Rightarrow>
                       check (bc_backend plan = bf_plan backing) mismatch
                       (bindE (decision_of d) (\<lambda>x.
                        check (Some x = bf_decision backing) mismatch
                        (check (patch_batch_effect_ok (batch_effect_of plan (bcr_execution r) origin)) ValueError
                         (bindE (revalidated (result\<lparr>tr_patch_batch := Some (batch_effect_of plan (bcr_execution r) origin)\<rparr>))
                           (\<lambda>content. bindE (validate_effect W th t call content) (\<lambda>_. Inr content))))))))
         | (None, None) \<Rightarrow>
             check (bcr_execution r = None \<and> tr_outcome result = Oc_unknown) mismatch (Inr result)
         | _ \<Rightarrow> Inl mismatch))"

type_synonym batch_port = "tool_call_content \<Rightarrow> tool_scope \<Rightarrow> managed_patch_batch_call_plan option
  \<Rightarrow> approval_record option \<Rightarrow> batch_call_result result"

definition batch_recovery_plan ::
  "wire \<Rightarrow> thread \<Rightarrow> turn \<Rightarrow> tool_call_content \<Rightarrow> batch_approval_request option result" where
  "batch_recovery_plan W th t call =
     (case approval_for t call of
        None \<Rightarrow> Inr None
      | Some i \<Rightarrow> (case i_content i of
          Approval (PatchBatchApproval a) \<Rightarrow>
            check (approval_matches W th t call (PatchBatchApproval a)) (KernelError ''approval_mismatch'')
              (Inr (Some a))
        | _ \<Rightarrow> Inl (KernelError ''approval_mismatch'')))"

definition inspect_batch :: "wire \<Rightarrow> tool_table \<Rightarrow> batch_port option \<Rightarrow> thread \<Rightarrow> turn \<Rightarrow> tool_call_content
    \<Rightarrow> tool_result_content result" where
  "inspect_batch W tools batches th t call =
     (case batches of
        None \<Rightarrow> Inl (KernelError ''patch_batch_not_enabled'')
      | Some port \<Rightarrow>
          bindE (validate_tool_contract tools call) (\<lambda>_.
          bindE (batch_recovery_plan W th t call) (\<lambda>a.
          bindE (inspection_scope th t call) (\<lambda>sc.
          bindE (port call sc (map_option ba_plan a) (Option.bind a ba_decision)) (\<lambda>settled.
          bindE (batch_result_content W settled th t call Recovery) (\<lambda>r. Inr (bound_output t r)))))))"

definition recover_patch_batch :: "wire \<Rightarrow> error_texts \<Rightarrow> tool_table \<Rightarrow> batch_port option \<Rightarrow> thread \<Rightarrow> turn
    \<Rightarrow> tool_call_content \<Rightarrow> tool_result_content" where
  "recover_patch_batch W X tools batches th t call =
     (case inspect_batch W tools batches th t call of
        Inr r \<Rightarrow> r
      | Inl e \<Rightarrow> recovery_failure call (failure_of X (failure ''patch_batch_recovery_failed'' BATCH_RECOVERY) e))"

end
