(* ===== verification/Recovered_Writes.thy ===== *)
theory Recovered_Writes
  imports Patch_Recovery
begin

text \<open>
  What the examination of an unfinished write can report, whatever the back ends answer.
\<close>

section \<open>Results of the back ends\<close>

lemma patch_result_facts:
  assumes "patch_result_content p call origin = Inr r"
  shows "tr_call_id r = tc_call_id call" "tr_patch_batch r = None"
    "case tr_patch r of None \<Rightarrow> tr_outcome r \<noteq> Oc_succeeded | Some e \<Rightarrow> pe_origin e = origin"
  using assms
  by (auto simp: patch_result_content_def Let_def patch_effect_of_def split: option.splits prod.splits if_splits)

lemma batch_result_facts:
  assumes "batch_result_content W b th t call origin = Inr r"
  shows "tr_call_id r = tc_call_id call" "tr_patch r = None"
    "case tr_patch_batch r of None \<Rightarrow> tr_outcome r = Oc_unknown
      | Some e \<Rightarrow> pbe_origin e = origin \<and> validate_effect W th t call r = Inr ()"
  using assms
  by (auto simp: batch_result_content_def Let_def revalidated_def batch_effect_of_def split: option.splits prod.splits)

text \<open>Dropping the output removes no evidence and passes the same checks.\<close>

lemma validate_effect_without_output:
  assumes "validate_effect W th t call r = Inr ()"
  shows "validate_effect W th t call (r\<lparr>tr_output := JNull\<rparr>) = Inr ()"
proof (cases "tr_patch_batch r")
  case (Some e)
  then show ?thesis
  proof (cases "batch_approval t call")
    case (Some ia)
    obtain i a where ia: "ia = (i, a)" by (cases ia)
    show ?thesis
    proof (cases "ba_decision a")
      case d: (Some d)
      show ?thesis using assms \<open>tr_patch_batch r = Some e\<close> Some ia d
        by (simp add: validate_effect_def Let_def require_def split: if_split_asm)
    qed (use assms Some ia in \<open>simp add: validate_effect_def require_def split: if_split_asm option.splits\<close>)
  qed (use assms in \<open>simp add: validate_effect_def require_def split: if_split_asm\<close>)
qed (use assms in \<open>simp add: validate_effect_def\<close>)

lemma bound_output_fields [simp]:
  "tr_call_id (bound_output t r) = tr_call_id r" "tr_outcome (bound_output t r) = tr_outcome r"
  "tr_patch (bound_output t r) = tr_patch r" "tr_patch_batch (bound_output t r) = tr_patch_batch r"
  by (simp_all add: bound_output_def)

lemma bound_output_valid:
  "validate_effect W th t call r = Inr () \<Longrightarrow> validate_effect W th t call (bound_output t r) = Inr ()"
  by (simp add: bound_output_def validate_effect_without_output)

lemma recovery_failure_fields [simp]:
  "tr_call_id (recovery_failure call f) = tc_call_id call" "tr_outcome (recovery_failure call f) = Oc_unknown"
  "tr_patch (recovery_failure call f) = None" "tr_patch_batch (recovery_failure call f) = None"
  by (simp_all add: recovery_failure_def)

lemma inspected_patch:
  assumes "inspect_patch W tools patches th t call = Inr r"
  obtains p q where "patch_result_content p call Recovery = Inr q" "r = bound_output t q"
  using assms by (auto simp: inspect_patch_def split: option.splits)

lemma inspected_batch:
  assumes "inspect_batch W tools batches th t call = Inr r"
  obtains b q where "batch_result_content W b th t call Recovery = Inr q" "r = bound_output t q"
  using assms by (auto simp: inspect_batch_def split: option.splits)

section \<open>Property\<close>

text \<open>C34. Recovery of an unfinished write never invents an effect. Whatever the patch back ends answer or raise, the
  result belongs to the call; a single file is reported as written only with evidence that is marked as
  recovered, and a group of files is either unknown, without any evidence, or carries recovered evidence
  that passes the very check the reducer applies to the recorded result.\<close>

theorem recovered_writes_have_evidence:
  "(let r = recover_patch W X tools patches th t call
    in tr_call_id r = tc_call_id call \<and> tr_patch_batch r = None
       \<and> (case tr_patch r of None \<Rightarrow> tr_outcome r \<noteq> Oc_succeeded | Some e \<Rightarrow> pe_origin e = Recovery))
   \<and> (let r = recover_patch_batch W X tools batches th t call
      in tr_call_id r = tc_call_id call \<and> tr_patch r = None
         \<and> (case tr_patch_batch r of None \<Rightarrow> tr_outcome r = Oc_unknown
            | Some e \<Rightarrow> pbe_origin e = Recovery \<and> validate_effect W th t call r = Inr ()))"
proof (intro conjI)
  show "let r = recover_patch W X tools patches th t call
    in tr_call_id r = tc_call_id call \<and> tr_patch_batch r = None
       \<and> (case tr_patch r of None \<Rightarrow> tr_outcome r \<noteq> Oc_succeeded | Some e \<Rightarrow> pe_origin e = Recovery)"
  proof (cases "inspect_patch W tools patches th t call")
    case (Inr r)
    then obtain p q where "patch_result_content p call Recovery = Inr q" "r = bound_output t q"
      by (rule inspected_patch)
    with Inr patch_result_facts [OF this(1)] show ?thesis
      by (auto simp: recover_patch_def split: option.splits)
  qed (simp add: recover_patch_def)
  show "let r = recover_patch_batch W X tools batches th t call
      in tr_call_id r = tc_call_id call \<and> tr_patch r = None
         \<and> (case tr_patch_batch r of None \<Rightarrow> tr_outcome r = Oc_unknown
            | Some e \<Rightarrow> pbe_origin e = Recovery \<and> validate_effect W th t call r = Inr ())"
  proof (cases "inspect_batch W tools batches th t call")
    case (Inr r)
    then obtain b q where "batch_result_content W b th t call Recovery = Inr q" "r = bound_output t q"
      by (rule inspected_batch)
    with Inr batch_result_facts [OF this(1)] show ?thesis
      by (auto simp: recover_patch_batch_def bound_output_valid split: option.splits)
  qed (simp add: recover_patch_batch_def)
qed

end
