(* ===== verification/Accepted_Turns.thy ===== *)
theory Accepted_Turns
  imports Thread_Requests Window_Chain
begin

text \<open>
  A request starts one Turn. Accepting a Turn commits its three events whenever the Thread is free; from
  then on the request identity names this Turn and its input, whatever happens to the store.
\<close>

section \<open>Drafts of the runtime\<close>

text \<open>
  What a request relies on: its drafts survive the JSON round trip of the store unchanged, and
  \<^verbatim>\<open>new_id()\<close> has not returned the identity of a stored event.
\<close>

definition clean_drafts :: "'d codec \<Rightarrow> 'd session_store \<Rightarrow> event_draft list \<Rightarrow> bool" where
  "clean_drafts K s ds \<longleftrightarrow> freeze_batch K ds = Inr ds \<and> list_all (\<lambda>d. event_row_with s (d_event_id d) = None) ds"

lemma current_payload [simp]: "legacy_payload 22 p = p"
  by (cases p) (simp_all add: legacy_payload_def legacy_content_def legacy_error_def split: item_content.splits)

lemma stamped_current: "d \<in> set (stamped H turn i k ps) \<Longrightarrow> legacy_draft d = d"
  by (induction ps arbitrary: i k) (auto simp: legacy_draft_def)

lemma stamped_map [simp]: "map d_payload (stamped H turn i k ps) = ps"
  by (induction ps arbitrary: i k) auto

lemma stamped_not_fork:
  "list_all turn_payload ps \<Longrightarrow> \<not> list_ex is_fork (stamped H turn i k ps)"
  by (induction ps arbitrary: i k) (auto simp: is_fork_def turn_payload_def split: event_payload.splits)

section \<open>Accepting\<close>

definition accept_drafts :: "host \<Rightarrow> uuid \<Rightarrow> client_request \<Rightarrow> event_draft list" where
  "accept_drafts H turn rq = stamped H (Some turn) 1 0
     (TurnStarted (turn_start rq) # published_item (h_new_id H 0) (user_text (rq_prompt rq)))"

lemma represented_ok: "represents K W s hist \<Longrightarrow> list_all event_ok (hist tid)"
  by (rule stored_events_ok [OF events_representD(2) [OF representsD(2)]])

lemma new_drafts_accept:
  "new_drafts H (Some turn) (Suc 0) 0 (TurnStarted (turn_start rq)
      # published_item (h_new_id H 0) (user_text (rq_prompt rq)))
    = check (list_all draft_ok (accept_drafts H turn rq)) ValueError (Inr (accept_drafts H turn rq))"
  by (simp only: new_drafts_def accept_drafts_def Let_def One_nat_def)

definition request_valid :: "client_request \<Rightarrow> bool" where
  "request_valid rq \<longleftrightarrow> item_content_ok (user_text (rq_prompt rq)) \<and> payload_ok (TurnStarted (turn_start rq))"

lemma accept_drafts_ok: "request_valid rq \<Longrightarrow> list_all draft_ok (accept_drafts H turn rq)"
  by (auto simp: request_valid_def accept_drafts_def published_item_def draft_ok_def user_text_def
      payload_ok_def boundary_defs)

text \<open>The Turn the three events leave behind.\<close>

definition accepted_turn :: "host \<Rightarrow> uuid \<Rightarrow> client_request \<Rightarrow> uuid \<Rightarrow> nat \<Rightarrow> turn" where
  "accepted_turn H turn rq tid n =
     (new_turn (at_position (hd (accept_drafts H turn rq)) tid (n + 1)) turn (turn_start rq))
       \<lparr>t_items := [done_item (h_new_id H 0) (user_text (rq_prompt rq))]\<rparr>"

lemma accepted_fields [simp]:
  "turn_id (accepted_turn H turn rq tid n) = turn" "t_status (accepted_turn H turn rq tid n) = Ts_ACCEPTED"
  "t_items (accepted_turn H turn rq tid n) = [done_item (h_new_id H 0) (user_text (rq_prompt rq))]"
  "t_request_id (accepted_turn H turn rq tid n) = rq_request_id rq"
  "same_request (accepted_turn H turn rq tid n) rq"
  by (simp_all add: accepted_turn_def new_turn_def turn_start_def same_request_def)

lemma retry_allowed_guard:
  assumes "retry_allowed th retry = Inr ()"
  shows "case retry of None \<Rightarrow> True | Some source \<Rightarrow> th_turns th \<noteq> []
    \<and> turn_id (last (th_turns th)) = source \<and> (\<exists>t. get_turn th source = Inr t \<and> retryable_source t)"
  using assms
  by (auto simp: retry_allowed_def retryable_source_def get_turn_def dest: find_SomeD split: option.splits)

lemma last_unique:
  assumes "distinct (map turn_id ts)" "ts \<noteq> []" "find (\<lambda>t. turn_id t = turn_id (last ts)) ts = Some t"
  shows "t = last ts"
  using find_by_key [OF assms(1), of "last ts"] assms(2,3) by simp

lemma accept_runs:
  assumes shape: "thread_shape th" and idle: "th_archive th = None" "th_active_turn_id th = None"
    and new: "list_all (\<lambda>t. t_request_id t \<noteq> rq_request_id rq) (th_turns th)"
      "list_all (\<lambda>t. turn_id t \<noteq> turn) (th_turns th)"
    and retry: "retry_allowed th (rq_retry_of rq) = Inr ()"
    and fresh: "h_new_id H 0 \<notin> item_id ` set (history_items th)" "h_new_id H 0 \<notin> item_id ` set (thread_items th)"
    and tid: "thread_id th = tid"
  obtains th' where "foldE (apply_to_thread W) th (positioned tid (th_sequence th) (accept_drafts H turn rq)) = Inr th'"
    "th_turns th' = th_turns th @ [accepted_turn H turn rq tid (th_sequence th)]"
    "th_active_turn_id th' = Some turn" "th_archive th' = None"
    "require_closed_rejections th = Inr () \<longrightarrow> require_closed_rejections th' = Inr ()"
    "th_compaction_windows th' = th_compaction_windows th"
proof -
  let ?n = "th_sequence th" and ?ds = "accept_drafts H turn rq"
  define draft where "draft i k p = \<lparr>d_schema_version = 22, d_event_id = h_new_id H i, d_turn_id = Some turn,
      d_occurred_at = h_utc_now H k, d_payload = p\<rparr>" for i k p
  define d1 where "d1 = draft 1 0 (TurnStarted (turn_start rq))"
  define d2 where "d2 = draft 2 1 (ItemStarted (h_new_id H 0) (user_text (rq_prompt rq)))"
  define d3 where "d3 = draft 3 2 (ItemFinished (completion (h_new_id H 0) (user_text (rq_prompt rq))))"
  have ds: "?ds = [d1, d2, d3]" "d_payload d1 = TurnStarted (turn_start rq)"
      "d_payload d2 = ItemStarted (h_new_id H 0) (user_text (rq_prompt rq))"
      "d_payload d3 = ItemFinished (completion (h_new_id H 0) (user_text (rq_prompt rq)))"
      "d_turn_id d1 = Some turn" "d_turn_id d2 = Some turn" "d_turn_id d3 = Some turn"
      "legacy_draft d1 = d1" "legacy_draft d2 = d2" "legacy_draft d3 = d3" "d_schema_version d1 = 22"
    by (simp_all add: d1_def d2_def d3_def draft_def accept_drafts_def published_item_def completion_def
        legacy_draft_def numeral_2_eq_2 numeral_3_eq_3)
  let ?e1 = "at_position d1 tid (?n + 1)" and ?e2 = "at_position d2 tid (?n + 2)" and ?e3 = "at_position d3 tid (?n + 3)"
  have pos: "positioned tid ?n ?ds = [?e1, ?e2, ?e3]" using ds by (simp add: numeral_eq_Suc)
  let ?t = "new_turn ?e1 turn (turn_start rq)"
  have "retry_guard th ?e1 (turn_start rq)"
  proof (cases "rq_retry_of rq")
    case (Some source)
    from retry_allowed_guard [OF retry] Some obtain t where t: "th_turns th \<noteq> []"
        "turn_id (last (th_turns th)) = source" "get_turn th source = Inr t" "retryable_source t" by auto
    then have "t = last (th_turns th)"
      using shape by (intro last_unique) (auto simp: thread_shape_def get_turn_def split: option.splits)
    with t Some ds show ?thesis by (simp add: retry_guard_def turn_start_def)
  qed (simp add: retry_guard_def turn_start_def)
  with new idle have "start_turn th ?e1 turn (turn_start rq) = Inr ?t"
    by (simp add: start_turn_def turn_start_def)
  then have one: "apply_to_thread W th ?e1 = Inr (update_thread th ?e1 ?t (th_turns th @ [?t]))"
    using ds tid idle by (simp add: apply_to_thread_def at_position_def)
  let ?u = "update_thread th ?e1 ?t (th_turns th @ [?t])"
  have live: "live ?u (th_turns th) ?t"
    using idle new(2) by (auto simp: live_def list_all_iff)
  have items: "history_items ?u = history_items th" "thread_items ?u = thread_items th"
    by (simp_all add: history_items_def inherited_items_def thread_items_def)
  from idle(1) have closed_t: "no_open_compactions ?t" by (simp add: no_open_compactions_def)
  have guard: "start_guard W ?u ?t ?e2 (user_text (rq_prompt rq)) = Inr ()"
    by (simp add: start_guard_def user_text_def start_text_def)
  let ?t' = "?t\<lparr>t_items := place ?u ?t (done_item (h_new_id H 0) (user_text (rq_prompt rq)))\<rparr>"
  have two: "foldE (apply_to_thread W) ?u [?e2, ?e3] = Inr (update_thread ?u ?e3 ?t' (th_turns th @ [?t']))"
    using ds tid fresh items
    by (intro publish_steps [OF live _ _ _ _ _ _ _ guard _ closed_t])
      (auto simp: addressed_def at_position_def fresh_item_def user_text_def)
  have t': "?t' = accepted_turn H turn rq tid ?n"
    using ds(1) by (simp add: accepted_turn_def place_def is_step_item_def user_text_def)
  let ?a = "accepted_turn H turn rq tid ?n"
  let ?th' = "update_thread ?u ?e3 ?a (th_turns th @ [?a])"
  have run: "foldE (apply_to_thread W) th (positioned tid ?n ?ds) = Inr ?th'"
    using one two unfolding pos t' by simp
  have closed: "require_closed_rejections ?th' = Inr ()" if "require_closed_rejections th = Inr ()"
    using that closed_thread_turns [OF that] unfolding update_twice
    by (intro closed_update)
      (auto simp: require_closed_rejection_items_def scan_item_def user_text_def empty_scan_def)
  show ?thesis
  proof (rule that [OF run])
    show "require_closed_rejections th = Inr () \<longrightarrow> require_closed_rejections ?th' = Inr ()"
      using closed by blast
    show "th_turns ?th' = th_turns th @ [?a]" "th_active_turn_id ?th' = Some turn" "th_archive ?th' = None"
      "th_compaction_windows ?th' = th_compaction_windows th"
      using idle by simp_all
  qed
qed

lemma clean_appends:
  assumes "clean_drafts K s ds" "append_events K W s tid ds n = Inr (th, changed, s')"
  shows changed
  using assms by (auto simp: clean_drafts_def append_events_def append_in_transaction_def matched_none the_thread_def
      split: if_splits option.splits)

lemma accept_commits:
  assumes rep: "represents K W s hist" and th: "replay W (hist tid) = Inr th" "readable K th"
    and idle: "th_archive th = None" "th_active_turn_id th = None"
    and new: "list_all (\<lambda>t. t_request_id t \<noteq> rq_request_id rq) (th_turns th)"
      "list_all (\<lambda>t. turn_id t \<noteq> turn) (th_turns th)"
    and retry: "retry_allowed th (rq_retry_of rq) = Inr ()" and valid: "request_valid rq"
    and fresh: "h_new_id H 0 \<notin> item_id ` set (history_items th)" "h_new_id H 0 \<notin> item_id ` set (thread_items th)"
    and clean: "clean_drafts K s (accept_drafts H turn rq)"
  obtains th' s' where "accept_request K W H s tid turn rq = Inr (accepted_turn H turn rq tid (th_sequence th), True, s')"
    "represents K W s' (hist(tid := hist tid @ positioned tid (th_sequence th) (accept_drafts H turn rq)))"
    "replay W (hist tid @ positioned tid (th_sequence th) (accept_drafts H turn rq)) = Inr th'"
    "th_compaction_windows th' = th_compaction_windows th" "th_archive th' = None"
proof -
  note ev = representsD(2) [OF rep]
  from hist_replay [OF ev th(1)] have tid: "thread_id th = tid" by simp
  from reachable_shape [OF replay_reachable [OF th(1) represented_ok [OF rep]]] have shape: "thread_shape th" .
  obtain th' where run: "foldE (apply_to_thread W) th (positioned tid (th_sequence th) (accept_drafts H turn rq)) = Inr th'"
    and turns: "th_turns th' = th_turns th @ [accepted_turn H turn rq tid (th_sequence th)]"
    and "th_active_turn_id th' = Some turn" and open_th: "th_archive th' = None"
    and closed: "require_closed_rejections th = Inr () \<longrightarrow> require_closed_rejections th' = Inr ()"
    and windows: "th_compaction_windows th' = th_compaction_windows th"
    by (rule accept_runs [OF shape idle new retry fresh tid, of W])
  have "require_closed_rejections th = Inr ()" using th(1) by (simp add: replay_run)
  with closed have closed: "require_closed_rejections th' = Inr ()" by simp
  have no_fork: "\<not> list_ex is_fork (accept_drafts H turn rq)"
    by (simp add: accept_drafts_def is_fork_def published_item_def)
  from clean have fb: "freeze_batch K (accept_drafts H turn rq) = Inr (accept_drafts H turn rq)"
      "list_all (\<lambda>d. event_row_with s (d_event_id d) = None) (accept_drafts H turn rq)"
    by (simp_all add: clean_drafts_def)
  obtain s' where s': "append_events K W s tid (accept_drafts H turn rq) (th_sequence th) = Inr (th', True, s')"
      "represents K W s' (hist(tid := hist tid @ positioned tid (th_sequence th) (accept_drafts H turn rq)))"
      "replay W (hist tid @ positioned tid (th_sequence th) (accept_drafts H turn rq)) = Inr th'"
    by (rule append_commits [OF rep th fb(1) no_fork fb(2) run closed])
  have read: "get_thread K s tid = Inr th"
    using read_snapshot_present [OF rep th(1)] th(2) by (simp add: get_thread_def)
  have absent: "find (\<lambda>t. t_request_id t = rq_request_id rq) (th_turns th) = None"
    using new(1) by (auto simp: find_None_iff_all list_all_iff)
  have "get_turn th' turn = Inr (accepted_turn H turn rq tid (th_sequence th))"
    using find_last [of "th_turns th" "\<lambda>t. turn_id t = turn"] new(2) turns by (simp add: get_turn_def list_all_iff)
  then show ?thesis
    using valid accept_drafts_ok [OF valid] read idle(1) absent retry s'(1)
    by (intro that [OF _ s'(2,3) windows open_th]) (simp add: accept_request_def Let_def request_valid_def commit_def new_drafts_accept)
qed

section \<open>The identity of a request\<close>

text \<open>The first Turn with a given fixed attribute stays the first one.\<close>

lemma find_extended:
  assumes ext: "thread_extends u v" and fixed: "\<And>t t'. same_turn t t' \<Longrightarrow> k t' = k t"
    and first: "find (\<lambda>t. k t = r) (th_turns u) = Some t"
  shows "\<exists>t'. find (\<lambda>t. k t = r) (th_turns v) = Some t' \<and> turn_extends t t'"
proof -
  from first obtain n where n: "n < length (th_turns u)" "k (th_turns u ! n) = r" "t = th_turns u ! n"
      "\<forall>j < n. k (th_turns u ! j) \<noteq> r"
    by (auto simp: find_Some_iff)
  have ext': "turn_extends (th_turns u ! j) (th_turns v ! j)" if "j < length (th_turns u)" for j
    using ext that by (simp add: thread_extends_def)
  then have same: "k (th_turns v ! j) = k (th_turns u ! j)" if "j < length (th_turns u)" for j
    using fixed that by (simp add: turn_extends_def)
  have "length (th_turns u) \<le> length (th_turns v)" using ext by (simp add: thread_extends_def)
  with n same have "find (\<lambda>t. k t = r) (th_turns v) = Some (th_turns v ! n)"
    by (auto simp: find_Some_iff intro!: exI [of _ n])
  with ext' n show ?thesis by blast
qed

lemma request_extended:
  assumes "thread_extends u v" "find (\<lambda>t. t_request_id t = r) (th_turns u) = Some t"
  shows "\<exists>t'. find (\<lambda>t. t_request_id t = r) (th_turns v) = Some t' \<and> turn_extends t t'"
  using find_extended [OF assms(1) _ assms(2)] by (simp add: same_turn_def)

lemma get_turn_extended:
  assumes "thread_extends u v" "get_turn u tid = Inr t"
  shows "\<exists>t'. get_turn v tid = Inr t' \<and> turn_extends t t'"
  using find_extended [OF assms(1), of turn_id tid t] assms(2)
  by (auto simp: get_turn_def same_turn_def split: option.splits)

lemma extends_from_step:
  assumes "reachable W th" "foldE (accept_event W) (Some th) es = Inr (Some v)"
  shows "thread_extends th v"
  using extension.run_from_start [of "Some th" th W es] assms by blast

text \<open>A committed request leaves a Turn with its identity and fingerprint.\<close>

lemma accepted_request_turn:
  assumes rep: "represents K W s hist" and run: "accept_request K W H s tid turn rq = Inr (t, b, s')"
    and clean: "b \<Longrightarrow> clean_drafts K s (accept_drafts H turn rq)"
  obtains hist' th' where "represents K W s' hist'" "replay W (hist' tid) = Inr th'"
    "find (\<lambda>t. t_request_id t = rq_request_id rq) (th_turns th') = Some t" "same_request t rq"
proof -
  from run obtain th where th: "get_thread K s tid = Inr th" "th_archive th = None"
    by (auto simp: accept_request_def Let_def)
  from get_thread_replay [OF rep th(1)] have rp: "replay W (hist tid) = Inr th" by simp
  show ?thesis
  proof (cases "find (\<lambda>t. t_request_id t = rq_request_id rq) (th_turns th)")
    case (Some t0)
    with run th have "t0 = t" "same_request t rq" "s' = s" by (auto simp: accept_request_def Let_def)
    with Some rep rp show ?thesis by (intro that) auto
  next
    case None
    let ?ds = "accept_drafts H turn rq"
    from run th None obtain th' changed where b: "b" and app: "append_events K W s tid ?ds (th_sequence th) = Inr (th', changed, s')"
        and t: "get_turn th' turn = Inr t"
      by (auto simp: accept_request_def Let_def commit_def new_drafts_accept)
    have "changed" using clean_appends [OF clean [OF b] app] .
    with append_represents [OF rep app] clean [OF b]
    have new: "replay W (hist tid @ positioned tid (th_sequence th) ?ds) = Inr th'"
        "represents K W s' (hist(tid := hist tid @ positioned tid (th_sequence th) ?ds))"
      by (auto simp: clean_drafts_def)
    have ok: "list_all event_ok (hist tid @ positioned tid (th_sequence th) ?ds)"
      using represented_ok [OF new(2), of tid] by simp
    note cont = replay_continues [OF rp new(1) ok]
    obtain e es where pos: "positioned tid (th_sequence th) ?ds = e # es" "payload e = TurnStarted (turn_start rq)"
        "e_turn_id e = Some turn"
      by (auto simp: accept_drafts_def legacy_draft_def at_position_def)
    from cont(2) pos obtain u where u: "event_ok e" "apply_to_thread W th e = Inr u"
        "foldE (accept_event W) (Some u) es = Inr (Some th')"
      by (auto simp: accept_event_def apply_event_def)
    let ?n = "new_turn e turn (turn_start rq)"
    from u(2) pos have turns: "th_turns u = th_turns th @ [?n]"
      by (auto simp: apply_to_thread_def start_turn_def)
    from cont(1) u have reach: "reachable W u" by (blast intro: reachable.advanced)
    have "find (\<lambda>t. t_request_id t = rq_request_id rq) (th_turns u) = Some ?n"
      using None by (simp add: turns find_None_iff_all find_last turn_start_def)
    from request_extended [OF extends_from_step [OF reach u(3)] this]
    obtain t' where t': "find (\<lambda>t. t_request_id t = rq_request_id rq) (th_turns th') = Some t'" "turn_extends ?n t'"
      by blast
    then have id: "turn_id t' = turn" and same: "same_request t' rq"
      by (auto simp: turn_extends_def same_turn_def same_request_def new_turn_def turn_start_def)
    from replay_reachable [OF new(1) ok] have "distinct (map turn_id (th_turns th'))" using reachable_shape by (auto simp: thread_shape_def)
    from find_by_key [OF this, of t'] find_SomeD [OF t'(1)] id t
    have "t' = t" by (simp add: get_turn_def)
    with t'(1) same new show ?thesis by (intro that [OF new(2)]) auto
  qed
qed

text \<open>The same request identity later: the Turn it started, or a refusal.\<close>

lemma request_again:
  assumes rep: "represents K W s hist" and run: "accept_request K W H s tid turn rq = Inr (t, b, s')"
    and clean: "b \<Longrightarrow> clean_drafts K s (accept_drafts H turn rq)"
    and id: "rq_request_id rq' = rq_request_id rq" and valid: "request_valid rq'"
    and later: "later = foldl (perform K W) s' cs"
  shows "case accept_request K W H' later tid turn' rq' of
      Inl e \<Rightarrow> e \<in> {thread_archived, projection_corrupt} \<or> (e = KernelError ''request_conflict'' \<and> \<not> same_request t rq')
    | Inr (t', b', s'') \<Rightarrow> \<not> b' \<and> s'' = later \<and> turn_extends t t' \<and> same_request t rq' \<and> same_request t rq"
proof -
  obtain hist' th' where h: "represents K W s' hist'" "replay W (hist' tid) = Inr th'"
      "find (\<lambda>t. t_request_id t = rq_request_id rq) (th_turns th') = Some t" "same_request t rq"
    by (rule accepted_request_turn [OF rep run clean])
  show ?thesis
  proof (cases "get_thread K later tid")
    case (Inl e)
    with read_later_refused [OF h(1,2)] have "e = projection_corrupt" by (simp add: later)
    with Inl valid show ?thesis by (simp add: accept_request_def Let_def request_valid_def)
  next
    case (Inr v)
    with read_later [OF h(1,2)] have "thread_extends th' v" by (simp add: later)
    from request_extended [OF this h(3)] obtain t' where
      t': "find (\<lambda>t. t_request_id t = rq_request_id rq) (th_turns v) = Some t'" "turn_extends t t'" by blast
    then have "same_request t' q \<longleftrightarrow> same_request t q" for q
      by (auto simp: turn_extends_def same_turn_def same_request_def)
    with Inr t' id valid h(4) show ?thesis
      by (auto simp: accept_request_def Let_def request_valid_def check_def)
  qed
qed

section \<open>The fingerprint binds the input\<close>

text \<open>Everything a request says except its identity and its trace.\<close>

definition same_input :: "client_request \<Rightarrow> client_request \<Rightarrow> bool" where
  "same_input a b \<longleftrightarrow> rq_prompt a = rq_prompt b \<and> budget_json (rq_budget a) = budget_json (rq_budget b)
     \<and> rq_mode a = rq_mode b \<and> rq_retry_of a = rq_retry_of b"

definition representable :: "client_request \<Rightarrow> bool" where
  "representable rq \<longleftrightarrow> float_text (float_repr (timeout_seconds (rq_budget rq)))
     \<and> (case rq_retry_of rq of None \<Rightarrow> True | Some u \<Rightarrow> u < 2 ^ 128)"

lemma fingerprint_input_inj:
  assumes "representable a" "representable b" "fingerprint_input a = fingerprint_input b"
  shows "same_input a b"
proof -
  have retry: "rq_retry_of a = Some u \<Longrightarrow> rq_retry_of b = Some v \<Longrightarrow> uuid_str u = uuid_str v \<longleftrightarrow> u = v" for u v
    using assms(1,2) uuid_str_inj [of u v] by (auto simp: representable_def)
  show ?thesis
    using assms(3) retry
    by (cases "rq_mode a"; cases "rq_mode b"; cases "rq_retry_of a"; cases "rq_retry_of b")
      (simp_all add: fingerprint_input_def same_input_def)
qed

lemma fingerprint_input_wf: "representable rq \<Longrightarrow> json_wf (fingerprint_input rq)"
  by (auto simp: representable_def fingerprint_input_def budget_json_def split: option.splits)

lemma fingerprint_binds:
  assumes "representable a" "representable b" "turn_fingerprint a = turn_fingerprint b"
  shows "same_input a b \<or> digest_collision (fingerprint_input a) (fingerprint_input b)"
  using digest_binds [OF fingerprint_input_wf [OF assms(1)] fingerprint_input_wf [OF assms(2)]]
    fingerprint_input_inj [OF assms(1,2)] assms(3)
  by (auto simp: turn_fingerprint_def)

section \<open>A request to the concrete store\<close>

definition some_host :: host where
  "some_host = \<lparr>h_new_id = (\<lambda>n. 100 + n), h_utc_now = (\<lambda>n. 2000000)\<rparr>"

definition hello :: client_request where
  "hello = \<lparr>rq_prompt = ''hi'', rq_request_id = ''r'', rq_budget = small_budget, rq_trace_context = None,
     rq_retry_of = None, rq_mode = Deferred\<rparr>"

lemma hello_valid: "request_valid hello"
  by (simp add: request_valid_def hello_def user_text_def turn_start_def turn_fingerprint_def
      digest_def is_digest_sha256 small_budget_def item_content_ok_def payload_ok_def budget_ok_def py_len_def
      is_continuation_def byte_of_def is_finite_def float_rat_def)

lemma hello_clean: "clean_drafts plain_codec stored_store (accept_drafts some_host 7 hello)"
proof -
  have "freeze_draft plain_codec d = Some d" if "d \<in> set (accept_drafts some_host 7 hello)" for d
  proof -
    from that have "legacy_draft d = d" unfolding accept_drafts_def by (rule stamped_current)
    moreover have "draft_ok d" using that accept_drafts_ok [OF hello_valid] by (auto simp: list_all_iff)
    ultimately show ?thesis by (simp add: freeze_draft_def plain_codec_def)
  qed
  then have "map (freeze_draft plain_codec) (accept_drafts some_host 7 hello) = map Some (accept_drafts some_host 7 hello)"
    by (intro map_cong refl) simp
  then have "those (map (freeze_draft plain_codec) (accept_drafts some_host 7 hello)) = Some (accept_drafts some_host 7 hello)"
    by (simp add: those_Some)
  then show ?thesis
    by (simp add: clean_drafts_def freeze_batch_def)
      (simp add: accept_drafts_def published_item_def some_host_def event_row_with_def stored_store_def
        creation_def event_def)
qed

lemma hello_fresh:
  "th_archive fresh_thread = None" "th_active_turn_id fresh_thread = None"
  "list_all (\<lambda>t. t_request_id t \<noteq> rq_request_id hello) (th_turns fresh_thread)"
  "list_all (\<lambda>t. turn_id t \<noteq> 7) (th_turns fresh_thread)" "retry_allowed fresh_thread (rq_retry_of hello) = Inr ()"
  "h_new_id some_host 0 \<notin> item_id ` set (history_items fresh_thread)"
  "h_new_id some_host 0 \<notin> item_id ` set (thread_items fresh_thread)"
  by (simp_all add: fresh_thread_def hello_def retry_allowed_def history_items_def inherited_items_def thread_items_def)

section \<open>Properties\<close>

text \<open>C29. A request on a free Thread is accepted. If the Thread is neither archived nor running a Turn, the
  request and the Turn are new and a retry names the latest Turn, which may be retried, then the three
  events are committed: the Turn is accepted with the user's message as its only item, and the
  transcript grows by exactly these events.\<close>

theorem new_turn_accepted:
  assumes "represents K W s hist" and "replay W (hist tid) = Inr th" "readable K th"
    and "th_archive th = None" "th_active_turn_id th = None"
    and "list_all (\<lambda>t. t_request_id t \<noteq> rq_request_id rq) (th_turns th)"
      "list_all (\<lambda>t. turn_id t \<noteq> turn) (th_turns th)"
    and "retry_allowed th (rq_retry_of rq) = Inr ()" and "request_valid rq"
    and "h_new_id H 0 \<notin> item_id ` set (history_items th)" "h_new_id H 0 \<notin> item_id ` set (thread_items th)"
    and "clean_drafts K s (accept_drafts H turn rq)"
  shows "\<exists>s'. accept_request K W H s tid turn rq = Inr (accepted_turn H turn rq tid (th_sequence th), True, s')
    \<and> represents K W s' (hist(tid := hist tid @ positioned tid (th_sequence th) (accept_drafts H turn rq)))"
  by (rule accept_commits [OF assms]) blast

theorem new_turn_accepted_witness:
  "\<exists>s'. accept_request plain_codec no_wire some_host stored_store 1 7 hello
    = Inr (accepted_turn some_host 7 hello 1 1, True, s')"
proof -
  obtain hist where h: "represents plain_codec no_wire stored_store hist"
      "replay no_wire (hist 1) = Inr fresh_thread" by (rule stored_history)
  from new_turn_accepted [OF h fresh_readable hello_fresh(1-5) hello_valid hello_fresh(6,7) hello_clean]
  show ?thesis by (auto simp: fresh_thread_def)
qed

lemma hello_accepted:
  obtains t s' hist' th' where "accept_request plain_codec no_wire some_host stored_store 1 7 hello = Inr (t, True, s')"
    "represents plain_codec no_wire s' hist'" "replay no_wire (hist' 1) = Inr th'" "readable plain_codec th'"
    "th_archive th' = None"
proof -
  obtain hist where h: "represents plain_codec no_wire stored_store hist"
      "replay no_wire (hist 1) = Inr fresh_thread" by (rule stored_history)
  let ?es = "hist 1 @ positioned 1 (th_sequence fresh_thread) (accept_drafts some_host 7 hello)"
  obtain th' s' where a: "accept_request plain_codec no_wire some_host stored_store 1 7 hello
      = Inr (accepted_turn some_host 7 hello 1 (th_sequence fresh_thread), True, s')"
      "represents plain_codec no_wire s' (hist(1 := ?es))" "replay no_wire ?es = Inr th'"
      "th_compaction_windows th' = th_compaction_windows fresh_thread" "th_archive th' = None"
    by (rule accept_commits [OF h fresh_readable hello_fresh(1-5) hello_valid hello_fresh(6,7) hello_clean])
  have "list_all event_ok ?es" using represented_ok [OF a(2), of 1] by simp
  from reachable_chain [OF replay_reachable [OF a(3) this]] a(3,4)
  have "thread_ok th'" by (simp add: thread_ok_def chain_inv_def replay_run fresh_thread_def)
  then have "readable plain_codec th'" by (simp add: readable_def load_thread_def plain_codec_def)
  with a that [OF a(1,2)] show ?thesis by simp
qed

text \<open>C27. One request identity starts one Turn. Once a request has been answered with a Turn, sending it
  again, with any further operations on the store in between and whatever identities the host draws,
  never starts a second Turn: the answer is a later state of the same Turn and the store is left
  alone, or the Thread is archived or its snapshot refused.\<close>

theorem request_starts_one_turn:
  assumes "represents K W s hist" and "accept_request K W H s tid turn rq = Inr (t, b, s')"
    and "b \<Longrightarrow> clean_drafts K s (accept_drafts H turn rq)"
  shows "case accept_request K W H' (foldl (perform K W) s' cs) tid turn' rq of
      Inl e \<Rightarrow> e = KernelError ''thread_archived'' \<or> e = KernelError ''projection_corrupt''
    | Inr (t', b', s'') \<Rightarrow> \<not> b' \<and> s'' = foldl (perform K W) s' cs \<and> turn_id t' = turn_id t \<and> turn_extends t t'"
proof -
  have valid: "request_valid rq" using assms(2) by (auto simp: accept_request_def Let_def request_valid_def)
  obtain h th' where "same_request t rq"
    by (rule accepted_request_turn [OF assms])
  with request_again [OF assms refl valid refl, of cs H' turn'] show ?thesis
    by (auto simp: thread_archived_def turn_extends_def same_turn_def split: sum.splits prod.splits)
qed

theorem request_starts_one_turn_witness:
  "\<exists>t s'. accept_request plain_codec no_wire some_host stored_store 1 7 hello = Inr (t, True, s')
    \<and> (case accept_request plain_codec no_wire some_host (foldl (perform plain_codec no_wire) s' [Store_rebuild 1]) 1 8 hello of
        Inl e \<Rightarrow> e = KernelError ''thread_archived'' \<or> e = KernelError ''projection_corrupt''
      | Inr (t', b', s'') \<Rightarrow> \<not> b' \<and> turn_id t' = turn_id t)"
proof -
  obtain hist where h: "represents plain_codec no_wire stored_store hist" by (rule stored_history)
  obtain t s' hist' th' where a: "accept_request plain_codec no_wire some_host stored_store 1 7 hello = Inr (t, True, s')"
      "represents plain_codec no_wire s' hist'" "replay no_wire (hist' 1) = Inr th'" "readable plain_codec th'"
      "th_archive th' = None"
    by (rule hello_accepted)
  from request_starts_one_turn [OF h a(1) hello_clean, of "[Store_rebuild 1]" some_host 8] a(1) show ?thesis
    by (auto split: sum.splits prod.splits)
qed

text \<open>C28. A request identity is bound to its input. If a later request under the same identity is answered
  with a Turn, it is the Turn of the first request, and both requests have the same prompt, budget,
  mode and retry source, or their fingerprint inputs are a SHA-256 collision; no other input is
  ever answered with that Turn.\<close>

theorem request_bound_to_input:
  assumes "represents K W s hist" and "accept_request K W H s tid turn rq = Inr (t, b, s')"
    and "b \<Longrightarrow> clean_drafts K s (accept_drafts H turn rq)"
    and "accept_request K W H' (foldl (perform K W) s' cs) tid turn' rq' = Inr (t', b', s'')"
    and "rq_request_id rq' = rq_request_id rq" and "representable rq" "representable rq'"
  shows "\<not> b' \<and> turn_id t' = turn_id t
    \<and> (same_input rq rq' \<or> digest_collision (fingerprint_input rq) (fingerprint_input rq'))"
proof -
  have valid: "request_valid rq'" using assms(4) by (auto simp: accept_request_def Let_def request_valid_def)
  from request_again [OF assms(1-3,5) valid refl, of cs H' turn'] assms(4)
  have a: "\<not> b'" "turn_extends t t'" "same_request t rq'" "same_request t rq" by simp_all
  then have "turn_fingerprint rq = turn_fingerprint rq'" by (simp add: same_request_def)
  from fingerprint_binds [OF assms(6,7) this] a show ?thesis by (simp add: turn_extends_def same_turn_def)
qed

lemma hello_again:
  obtains t s' t' where "accept_request plain_codec no_wire some_host stored_store 1 7 hello = Inr (t, True, s')"
    "accept_request plain_codec no_wire some_host (foldl (perform plain_codec no_wire) s' []) 1 8 hello = Inr (t', False, s')"
proof -
  obtain hist where h: "represents plain_codec no_wire stored_store hist" by (rule stored_history)
  obtain t s' hist' th' where a: "accept_request plain_codec no_wire some_host stored_store 1 7 hello = Inr (t, True, s')"
      "represents plain_codec no_wire s' hist'" "replay no_wire (hist' 1) = Inr th'" "readable plain_codec th'"
      "th_archive th' = None"
    by (rule hello_accepted)
  have read: "get_thread plain_codec s' 1 = Inr th'"
    using read_snapshot_present [OF a(2,3)] a(4) by (simp add: get_thread_def)
  obtain g u where "represents plain_codec no_wire s' g" "replay no_wire (g 1) = Inr u"
      "find (\<lambda>t. t_request_id t = rq_request_id hello) (th_turns u) = Some t" "same_request t hello"
    by (rule accepted_request_turn [OF h a(1) hello_clean])
  moreover from this(1,2) read have "u = th'" using get_thread_replay by fastforce
  ultimately have "accept_request plain_codec no_wire some_host s' 1 8 hello = Inr (t, False, s')"
    using hello_valid read a(5) by (simp add: accept_request_def Let_def request_valid_def)
  with a(1) show ?thesis by (intro that) auto
qed

theorem request_bound_to_input_witness:
  "\<exists>t s' t'. accept_request plain_codec no_wire some_host stored_store 1 7 hello = Inr (t, True, s')
    \<and> accept_request plain_codec no_wire some_host s' 1 8 hello = Inr (t', False, s') \<and> turn_id t' = turn_id t"
proof -
  obtain hist where h: "represents plain_codec no_wire stored_store hist" by (rule stored_history)
  obtain t s' t' where a: "accept_request plain_codec no_wire some_host stored_store 1 7 hello = Inr (t, True, s')"
      "accept_request plain_codec no_wire some_host (foldl (perform plain_codec no_wire) s' []) 1 8 hello = Inr (t', False, s')"
    by (rule hello_again)
  have "representable hello"
    by (simp add: representable_def hello_def small_budget_def float_repr_def float_text_def num_char_def)
  from request_bound_to_input [OF h a(1) hello_clean a(2) refl this this] a show ?thesis by auto
qed

end
