(* ===== verification/Running_Requests.thy ===== *)
theory Running_Requests
  imports Accepted_Turns
begin

text \<open>
  Requests to a running Turn. Steering and answering are recorded exactly once whatever the client
  repeats, and an archived Thread never changes again.
\<close>

section \<open>What a committed batch did\<close>

text \<open>Two accepted events that start and finish one item, read backwards.\<close>

lemma published_inverse:
  assumes shape: "thread_shape th"
    and run: "foldE (apply_to_thread W) th (e # f # es) = Inr th'"
    and e: "payload e = ItemStarted iid c" "e_turn_id e = Some tid"
    and f: "payload f = ItemFinished (completion iid c)" "e_turn_id f = Some tid"
    and no_approval: "case c of Approval _ \<Rightarrow> False | _ \<Rightarrow> True"
  obtains us t t' where "live th us t" "turn_id t = tid" "t' = t\<lparr>t_items := place th t (done_item iid c)\<rparr>"
    "start_guard W th t e c = Inr ()" "fresh_item th t iid"
    "foldE (apply_to_thread W) (update_thread th f t' (us @ [t'])) es = Inr th'"
    "thread_shape (update_thread th f t' (us @ [t']))"
proof -
  from run obtain u v where u: "apply_to_thread W th e = Inr u" and v: "apply_to_thread W u f = Inr v"
    and rest: "foldE (apply_to_thread W) v es = Inr th'" by auto
  note pos = apply_to_thread_shape(2,3) [OF shape u]
  from u have "apply_active W th e tid = Inr u" "th_archive th = None"
    using e by (simp_all add: apply_to_thread_def)
  then have act: "th_active_turn_id th = Some tid" by (simp add: apply_active_def)
  from shape act obtain us t where live: "live th us t" and tid: "turn_id t = tid" by (rule shape_live)
  from \<open>apply_active W th e tid = Inr u\<close> live_get [OF live] tid e(1) obtain t1
    where g: "open_compaction_guard t (payload e)" "apply_turn_event W th t e = Inr (t1, None)"
    by (auto simp: apply_active_def apply_turn_event_def)
  from g(1) e(1) have closed: "no_open_compactions t" by (simp add: open_compaction_guard_def)
  from g(2) e(1) have st: "iid \<notin> item_id ` set (history_items th)" "iid \<notin> item_id ` set (thread_items th)"
      "start_item W th t e iid c = Inr t1"
    by (auto simp: apply_turn_event_def)
  then have guard: "start_guard W th t e c = Inr ()" "iid \<notin> item_id ` set (t_items t)"
    by (auto simp: start_item_def)
  then have fresh: "fresh_item th t iid" using st by (simp add: fresh_item_def)
  have seq: "th_sequence u = th_sequence th + 1" "thread_id u = thread_id th"
    using apply_thread_fields [OF u] by simp_all
  have shape_u: "thread_shape u" using step_shape_keeps_shape [OF shape apply_to_thread_shape(1) [OF shape u]] .
  have shape_v: "thread_shape v" using step_shape_keeps_shape [OF shape_u apply_to_thread_shape(1) [OF shape_u v]] .
  from apply_to_thread_shape(2,3) [OF shape_u v] seq
  have fpos: "e_thread_id f = thread_id th" "e_sequence f = th_sequence th + 2" by simp_all
  have addr: "addressed th t e" using pos e(2) tid by (simp add: addressed_def)
  from publish_steps [OF live addr e(1) fpos _ f(1) fresh guard(1) no_approval closed] f(2) tid u v
  have "v = update_thread th f (t\<lparr>t_items := place th t (done_item iid c)\<rparr>)
        (us @ [t\<lparr>t_items := place th t (done_item iid c)\<rparr>])"
    by simp
  with that [OF live tid refl guard(1) fresh] rest shape_v show ?thesis by simp
qed

text \<open>A committed batch of clean drafts, as a run of the reducer.\<close>

lemma accept_run:
  "foldE (accept_event W) (Some th) es = Inr (Some th') \<Longrightarrow> foldE (apply_to_thread W) th es = Inr th'"
proof (induction es arbitrary: th)
  case (Cons e es)
  then show ?case by (auto simp: accept_event_def apply_event_def)
qed simp

lemma committed_run:
  assumes rep: "represents K W s hist" and clean: "clean_drafts K s ds" and th: "replay W (hist tid) = Inr th"
    and run: "commit K W s tid ds n = Inr (th', s')"
  obtains hist' where "represents K W s' hist'" "replay W (hist' tid) = Inr th'"
    "foldE (apply_to_thread W) th (positioned tid (th_sequence th) ds) = Inr th'"
    "foldE (accept_event W) (Some th) (positioned tid (th_sequence th) ds) = Inr (Some th')"
    "reachable W th" "reachable W th'" "n = th_sequence th"
proof -
  from run obtain changed where app: "append_events K W s tid ds n = Inr (th', changed, s')"
    by (auto simp: commit_def)
  with clean_appends [OF clean] have changed by blast
  with append_represents [OF rep app] clean have new: "length (hist tid) = n"
      "replay W (hist tid @ positioned tid n ds) = Inr th'"
      "represents K W s' (hist(tid := hist tid @ positioned tid n ds))"
    by (auto simp: clean_drafts_def)
  have ok: "list_all event_ok (hist tid @ positioned tid n ds)" using represented_ok [OF new(3), of tid] by simp
  note cont = replay_continues [OF th new(2) ok]
  have n: "n = th_sequence th" using replay_positions(1) [OF th] new(1) by simp
  show ?thesis
    using new(2) cont replay_reachable [OF new(2) ok] n
    by (intro that [OF new(3)]) (auto dest: accept_run)
qed

section \<open>Items that stay\<close>

lemma ended_item_stays:
  assumes "turn_extends t t'" "i \<in> set (t_items t)" "i_status i \<noteq> Is_STARTED"
  shows "i \<in> set (t_items t')"
proof -
  from assms(1) have "subseq (filter (\<lambda>i. i_status i \<noteq> Is_STARTED) (t_items t))
      (filter (\<lambda>i. i_status i \<noteq> Is_STARTED) (t_items t'))"
    by (simp add: turn_extends_def items_extend_def)
  then have "set (filter (\<lambda>i. i_status i \<noteq> Is_STARTED) (t_items t)) \<subseteq> set (filter (\<lambda>i. i_status i \<noteq> Is_STARTED) (t_items t'))"
    by (auto elim: list_emb_set)
  with assms(2,3) show ?thesis by auto
qed

lemma get_turn_mem: "get_turn th tid = Inr t \<Longrightarrow> t \<in> set (th_turns th) \<and> turn_id t = tid"
  by (auto simp: get_turn_def dest: find_SomeD split: option.splits)

lemma find_item:
  assumes "reachable W th" "t \<in> set (th_turns th)" "i \<in> set (t_items t)"
  shows "find (\<lambda>j. item_id j = item_id i) (t_items t) = Some i"
  using find_by_key [OF reachable_distinct_items [OF assms(1,2)] assms(3)] .

text \<open>Reading a Turn later: its ended items are where they were, under their identities.\<close>

lemma turn_later:
  assumes rep: "represents K W s hist" "replay W (hist tid) = Inr th" and t: "get_turn th turn = Inr t"
    and i: "i \<in> set (t_items t)" "i_status i \<noteq> Is_STARTED"
    and v: "get_thread K (foldl (perform K W) s cs) tid = Inr v"
  obtains t' where "get_turn v turn = Inr t'" "turn_extends t t'" "i \<in> set (t_items t')"
    "find (\<lambda>j. item_id j = item_id i) (t_items t') = Some i" "reachable W v" "t' \<in> set (th_turns v)"
proof -
  from get_turn_extended [OF read_later [OF rep v] t] obtain t'
    where t': "get_turn v turn = Inr t'" "turn_extends t t'" by blast
  from ended_item_stays [OF t'(2) i] have mem: "i \<in> set (t_items t')" .
  from sqlite.run_extends [OF rep(1)] obtain h where h: "represents K W (foldl (perform K W) s cs) h" by blast
  from get_thread_replay [OF h v] have "replay W (h tid) = Inr v" by simp
  from replay_reachable [OF this represented_ok [OF h]] have reach: "reachable W v" .
  have in_v: "t' \<in> set (th_turns v)" using get_turn_mem [OF t'(1)] by simp
  show ?thesis using that [OF t' mem find_item [OF reach in_v mem] reach in_v] .
qed

section \<open>Steering\<close>

definition steering_drafts :: "host \<Rightarrow> uuid \<Rightarrow> string \<Rightarrow> string \<Rightarrow> event_draft list" where
  "steering_drafts H turn text request =
     stamped H (Some turn) 0 0 (published_item (steering_item_id turn request) (user_text text))"

lemma published_positions:
  "positioned tid n (stamped H turn i k (published_item iid c @ ps)) =
     at_position (hd (stamped H turn i k (published_item iid c))) tid (n + 1)
     # at_position (hd (tl (stamped H turn i k (published_item iid c)))) tid (n + 2)
     # positioned tid (n + 2) (stamped H turn (i + 2) (k + 2) ps)"
  by (simp add: published_item_def legacy_draft_def)

lemma published_fields:
  "payload (at_position (hd (stamped H turn i k (published_item iid c))) tid n) = ItemStarted iid c"
  "e_turn_id (at_position (hd (stamped H turn i k (published_item iid c))) tid n) = turn"
  "payload (at_position (hd (tl (stamped H turn i k (published_item iid c)))) tid n) = ItemFinished (completion iid c)"
  "e_turn_id (at_position (hd (tl (stamped H turn i k (published_item iid c)))) tid n) = turn"
  by (simp_all add: published_item_def at_position_def completion_def)

lemma place_mem: "i \<in> set (place th t i)"
  by (rule place_split [of t "i_content i" th]) auto

lemma steered:
  assumes rep: "represents K W s hist" and run: "steer_turn K W H s tid turn text request = Inr (t, s')"
    and clean: "clean_drafts K s (steering_drafts H turn text request)"
  obtains hist' th' i where "represents K W s' hist'" "replay W (hist' tid) = Inr th'" "get_turn th' turn = Inr t"
    "i \<in> set (t_items t)" "item_id i = steering_item_id turn request" "i_status i = Is_COMPLETED"
    "i_content i = user_text text"
proof -
  let ?iid = "steering_item_id turn request"
  from run obtain th u where th: "get_thread K s tid = Inr th" "get_turn th turn = Inr u" "t_status u \<in> set STEERABLE"
    by (auto simp: steer_turn_def Let_def)
  from get_thread_replay [OF rep th(1)] have rp: "replay W (hist tid) = Inr th" by simp
  show ?thesis
  proof (cases "find (\<lambda>i. item_id i = ?iid) (t_items u)")
    case (Some i)
    with run th have "u = t" "s' = s" "i_status i = Is_COMPLETED" "i_content i = user_text text"
      by (auto simp: steer_turn_def Let_def)
    with rep rp th(2) find_SomeD [OF Some] show ?thesis by (intro that [of hist th i]) auto
  next
    case None
    with run th obtain th' where com: "commit K W s tid (steering_drafts H turn text request) (th_sequence th) = Inr (th', s')"
        and t: "get_turn th' turn = Inr t"
      by (auto simp: steer_turn_def Let_def new_drafts_def steering_drafts_def)
    obtain hist' where h: "represents K W s' hist'" "replay W (hist' tid) = Inr th'"
        "foldE (apply_to_thread W) th (positioned tid (th_sequence th) (steering_drafts H turn text request)) = Inr th'"
        "reachable W th"
      by (rule committed_run [OF rep clean rp com])
    note run2 = h(3) [unfolded steering_drafts_def published_positions [where ps = "[]", simplified append_Nil2]]
    have na: "case user_text text of Approval _ \<Rightarrow> False | _ \<Rightarrow> True" by (simp add: user_text_def)
    obtain us v v' where v: "live th us v" "turn_id v = turn" "v' = v\<lparr>t_items := place th v (done_item ?iid (user_text text))\<rparr>"
        "foldE (apply_to_thread W) (update_thread th (at_position (hd (tl (stamped H (Some turn) 0 0
          (published_item ?iid (user_text text))))) tid (th_sequence th + 2)) v' (us @ [v']))
          (positioned tid (th_sequence th + 2) (stamped H (Some turn) (0 + 2) (0 + 2) [])) = Inr th'"
      using published_inverse [OF reachable_shape [OF h(4)] run2 published_fields(1,2,3,4) na] by metis
    then have turns: "th_turns th' = us @ [v']" by auto
    have "find (\<lambda>t. turn_id t = turn) (us @ [v']) = Some v'"
      using v(1-3) by (intro find_last) (auto simp: live_def)
    with turns t have "t = v'" by (simp add: get_turn_def)
    then have "done_item ?iid (user_text text) \<in> set (t_items t)" using v(3) place_mem by simp
    then show ?thesis using that [OF h(1,2) t] by fastforce
  qed
qed

lemma user_text_inj [simp]: "user_text a = user_text b \<longleftrightarrow> a = b"
  by (simp add: user_text_def)

lemma steer_again:
  assumes rep: "represents K W s hist" and run: "steer_turn K W H s tid turn text request = Inr (t, s')"
    and clean: "clean_drafts K s (steering_drafts H turn text request)"
    and later: "later = foldl (perform K W) s' cs"
  shows "case steer_turn K W H' later tid turn text' request of
      Inl e \<Rightarrow> e \<in> KernelError ` {''projection_corrupt'', ''steering_closed'', ''steering_invalid''}
        \<or> (e = KernelError ''steering_conflict'' \<and> text' \<noteq> text)
    | Inr (t', s'') \<Rightarrow> text' = text \<and> s'' = later \<and> turn_extends t t'"
proof -
  obtain hist' th' i where h: "represents K W s' hist'" "replay W (hist' tid) = Inr th'" "get_turn th' turn = Inr t"
      and i: "i \<in> set (t_items t)" "item_id i = steering_item_id turn request" "i_status i = Is_COMPLETED"
        "i_content i = user_text text"
    by (rule steered [OF rep run clean])
  from i(3) have ended: "i_status i \<noteq> Is_STARTED" by simp
  from run have request: "request \<noteq> []" "py_len request \<le> 256" by (simp_all add: steer_turn_def Let_def)
  show ?thesis
  proof (cases "get_thread K later tid")
    case (Inl e)
    with read_later_refused [OF h(1,2)] have "e = projection_corrupt" by (simp add: later)
    with Inl request show ?thesis by (simp add: steer_turn_def Let_def check_def)
  next
    case (Inr v)
    with later have v: "get_thread K (foldl (perform K W) s' cs) tid = Inr v" by simp
    obtain t' where t': "get_turn v turn = Inr t'" "turn_extends t t'"
        "find (\<lambda>j. item_id j = item_id i) (t_items t') = Some i"
      by (rule turn_later [OF h i(1) ended v])
    with Inr i request show ?thesis by (simp add: steer_turn_def Let_def check_def)
  qed
qed

section \<open>Questions\<close>

definition answers :: "turn \<Rightarrow> uuid \<Rightarrow> question_answer list" where
  "answers t question = List.map_filter (answered_by question) (t_items t)"

definition one_answer :: "thread \<Rightarrow> turn \<Rightarrow> bool" where
  "one_answer th t \<longleftrightarrow> (\<forall>q. length (answers t q) \<le> 1)"

lemma answered_content:
  "i_content i = i_content j \<Longrightarrow> answered_by q i = answered_by q j"
  by (simp add: answered_by_def)

lemma answers_split:
  "List.map_filter f (xs @ i # ys) = List.map_filter f xs @ (case f i of None \<Rightarrow> [] | Some a \<Rightarrow> [a]) @ List.map_filter f ys"
  by (auto simp: List.map_filter_def split: option.splits)

lemma start_answer_new:
  assumes "start_guard W th t e c = Inr ()" "c = QuestionAnswer a"
  shows "answers t (qa_question_id a) = []"
proof -
  from assms have "list_all (\<lambda>i. case i_content i of QuestionAnswer b \<Rightarrow> qa_question_id b \<noteq> qa_question_id a
      | _ \<Rightarrow> True) (t_items t)"
    by (simp add: start_guard_def start_answer_def)
  then show ?thesis
    by (auto simp: answers_def answered_by_def List.map_filter_def filter_empty_conv list_all_iff
        split: item_content.splits)
qed

lemma finish_keeps_answer:
  assumes "finish_item t e p = Inr t'" "find (\<lambda>i. item_id i = fi_item_id p) (t_items t) = Some i"
  shows "answered_by q \<lparr>item_id = fi_item_id p, i_status = fi_status p, i_content = fi_content p, i_error = fi_error p\<rparr>
    = answered_by q i"
proof -
  from assms have "content_kind (i_content i) = content_kind (fi_content p)"
      "case i_content i of Approval a \<Rightarrow> True | Text _ \<Rightarrow> True | c \<Rightarrow> c = fi_content p"
    by (auto simp: finish_item_def split: item_content.splits)
  then show ?thesis
    by (cases "i_content i"; cases "fi_content p")
      (auto simp: answered_by_def content_kind_def text_kind_value_def
        split: text_kind.splits approval_content.splits)
qed

interpretation answered: turn_invariant W one_answer for W
proof
  fix th t e t' w
  assume th: "reachable W th" "t \<in> set (th_turns th)" and one: "one_answer th t"
    and ev: "apply_turn_event W th t e = Inr (t', w)"
  from apply_turn_event_items [OF ev] show "one_answer th t'"
  proof (cases rule: item_change.cases)
    case (started iid c xs ys)
    have "length (answers t' q) \<le> 1" for q
    proof (cases "answered_by q \<lparr>item_id = iid, i_status = Is_STARTED, i_content = c, i_error = None\<rparr>")
      case None
      with started one show ?thesis by (simp add: one_answer_def answers_def answers_split List.map_filter_def)
    next
      case (Some a)
      then have "c = QuestionAnswer a" "qa_question_id a = q"
        by (auto simp: answered_by_def split: item_content.splits if_splits)
      with start_answer_new [OF started(5)] have "answers t q = []" by simp
      with started Some show ?thesis by (simp add: answers_def answers_split List.map_filter_def)
    qed
    then show ?thesis by (simp add: one_answer_def)
  next
    case (finished p original)
    from finished(2) have mem: "original \<in> set (t_items t)" "item_id original = fi_item_id p" by (auto dest: find_SomeD)
    let ?f = "\<lparr>item_id = fi_item_id p, i_status = fi_status p, i_content = fi_content p, i_error = fi_error p\<rparr>"
    from mem(2) have key: "item_id original = item_id ?f" by simp
    obtain us vs where split: "t_items t = us @ original # vs" "t_items t' = us @ ?f # vs"
      unfolding finished(5) by (rule replace_by_split [OF reachable_distinct_items [OF th] mem(1) key])
    from finish_keeps_answer [OF finished(4,2)] split one show ?thesis
      by (simp add: one_answer_def answers_def answers_split)
  qed (use one in \<open>simp add: one_answer_def answers_def\<close>)
qed (simp_all add: one_answer_def answers_def List.map_filter_simps)

lemma only_answer:
  assumes "reachable W th" "t \<in> set (th_turns th)" "i \<in> set (t_items t)" "i_content i = QuestionAnswer a"
  shows "answers t (qa_question_id a) = [a]"
proof -
  from assms(3) obtain xs ys where "t_items t = xs @ i # ys" by (auto dest: split_list)
  with assms(4) have "a \<in> set (answers t (qa_question_id a))"
    by (simp add: answers_def answers_split answered_by_def)
  moreover have "length (answers t (qa_question_id a)) \<le> 1"
    using answered.every_turn [OF assms(1,2)] by (simp add: one_answer_def)
  ultimately show ?thesis by (cases "answers t (qa_question_id a)") auto
qed

text \<open>An accepted change of state, read backwards.\<close>

lemma state_inverse:
  assumes shape: "thread_shape th" and run: "apply_to_thread W th e = Inr u"
    and e: "payload e = TurnStateChanged p" "e_turn_id e = Some tid"
  obtains us t t' where "live th us t" "turn_id t = tid" "change_state th t e p = Inr t'"
    "u = update_thread th e t' (us @ [t'])" "turn_id t' = tid" "t_items t' = t_items t"
proof -
  from apply_to_thread_shape(1) [OF shape run] show ?thesis
  proof (cases rule: step_shape.cases)
    case (active t us t' w)
    from active(10) e(1) have cs: "change_state th t e p = Inr t'" and w: "w = None"
      by (auto simp: apply_turn_event_def)
    from active e(2) have "turn_id t = tid" "turn_id t' = tid" by (auto simp: same_turn_def)
    moreover from active have "live th us t" by (auto simp: live_def)
    moreover have "u = update_thread th e t' (us @ [t'])" using active(1) w by (simp add: add_window_def)
    ultimately show ?thesis using cs change_state_items [OF cs] by (intro that)
  qed (use e in simp_all)
qed

definition answer_drafts :: "host \<Rightarrow> uuid \<Rightarrow> uuid \<Rightarrow> uuid \<Rightarrow> string \<Rightarrow> event_draft list" where
  "answer_drafts H turn question call answer =
     stamped H (Some turn) 0 1 (question_answer_events question call answer)"

lemma live_unique: "live th us t \<Longrightarrow> th_turns th = vs @ [v] \<Longrightarrow> us = vs \<and> t = v"
  by (simp add: live_def)

lemma place_keeps: "i \<in> set (t_items t) \<Longrightarrow> i \<in> set (place th t j)"
  by (rule place_split [of t "i_content j" th]) auto

text \<open>The five events of an answer leave the Turn executing tools, with the answer and the call's result.\<close>

lemma answer_run:
  assumes shape: "thread_shape th"
    and run: "foldE (apply_to_thread W) th (positioned tid n (answer_drafts H turn question call answer)) = Inr th'"
  obtains us t where "th_turns th' = us @ [t]" "\<forall>u \<in> set us. turn_id u \<noteq> turn" "turn_id t = turn"
    "t_status t = Ts_EXECUTING_TOOLS"
    "done_item (uuid5 question ''harnessix.question-answer/v1'')
       (QuestionAnswer \<lparr>qa_question_id = question, qa_call_id = call, qa_answer = answer\<rparr>) \<in> set (t_items t)"
    "done_item (uuid5 question ''harnessix.question-result/v1'') (ToolResult (answered_result call answer)) \<in> set (t_items t)"
proof -
  let ?a = "QuestionAnswer \<lparr>qa_question_id = question, qa_call_id = call, qa_answer = answer\<rparr>"
    and ?r = "ToolResult (answered_result call answer)"
    and ?ai = "uuid5 question ''harnessix.question-answer/v1''" and ?ri = "uuid5 question ''harnessix.question-result/v1''"
    and ?p = "\<lparr>tsc_status = Ts_EXECUTING_TOOLS, tsc_error = None, tsc_reason = Normal\<rparr>"
  define draft where "draft i k p = at_position \<lparr>d_schema_version = 22, d_event_id = h_new_id H i,
      d_turn_id = Some turn, d_occurred_at = h_utc_now H k, d_payload = p\<rparr> tid" for i k p
  let ?e1 = "draft 0 (Suc 0) (ItemStarted ?ai ?a) (Suc n)" and ?e2 = "draft (Suc 0) (Suc (Suc 0)) (ItemFinished (completion ?ai ?a)) (Suc (Suc n))"
    and ?e3 = "draft (Suc (Suc 0)) (Suc (Suc (Suc 0))) (TurnStateChanged ?p) (Suc (Suc (Suc n)))"
    and ?e4 = "draft (Suc (Suc (Suc 0))) (Suc (Suc (Suc (Suc 0)))) (ItemStarted ?ri ?r) (Suc (Suc (Suc (Suc n))))"
    and ?e5 = "draft (Suc (Suc (Suc (Suc 0)))) (Suc (Suc (Suc (Suc (Suc 0))))) (ItemFinished (completion ?ri ?r)) (Suc (Suc (Suc (Suc (Suc n)))))"
  have pos: "positioned tid n (answer_drafts H turn question call answer) = [?e1, ?e2, ?e3, ?e4, ?e5]"
    by (simp add: answer_drafts_def question_answer_events_def published_item_def draft_def completion_def
        legacy_draft_def)
  from run pos have run5: "foldE (apply_to_thread W) th (?e1 # ?e2 # [?e3, ?e4, ?e5]) = Inr th'" by simp
  obtain us t0 t1 where t1: "live th us t0" "turn_id t0 = turn" "t1 = t0\<lparr>t_items := place th t0 (done_item ?ai ?a)\<rparr>"
      and rest: "foldE (apply_to_thread W) (update_thread th ?e2 t1 (us @ [t1])) [?e3, ?e4, ?e5] = Inr th'"
      and shape1: "thread_shape (update_thread th ?e2 t1 (us @ [t1]))"
    by (rule published_inverse [OF shape run5, of ?ai ?a turn]) (auto simp: draft_def at_position_def)
  let ?u1 = "update_thread th ?e2 t1 (us @ [t1])"
  from rest obtain u2 where u2: "apply_to_thread W ?u1 ?e3 = Inr u2" "foldE (apply_to_thread W) u2 (?e4 # ?e5 # []) = Inr th'"
    by auto
  obtain us' t1' t2 where t2: "live ?u1 us' t1'" "change_state ?u1 t1' ?e3 ?p = Inr t2"
      "u2 = update_thread ?u1 ?e3 t2 (us' @ [t2])" "turn_id t2 = turn" "t_items t2 = t_items t1'"
    by (rule state_inverse [OF shape1 u2(1), of ?p turn]) (auto simp: draft_def at_position_def)
  from live_unique [OF t2(1), of us t1] have same: "us' = us" "t1' = t1" by simp_all
  have status: "t_status t2 = Ts_EXECUTING_TOOLS"
    using t2(2) by (auto simp: change_state_def Let_def TERMINAL_TURNS_def split: if_splits)
  have shape2: "thread_shape u2" using step_shape_keeps_shape [OF shape1 apply_to_thread_shape(1) [OF shape1 u2(1)]] .
  obtain us'' t2' t3 where t3: "live u2 us'' t2'" "t3 = t2'\<lparr>t_items := place u2 t2' (done_item ?ri ?r)\<rparr>"
      "foldE (apply_to_thread W) (update_thread u2 ?e5 t3 (us'' @ [t3])) [] = Inr th'"
    by (rule published_inverse [OF shape2 u2(2), of ?ri ?r turn]) (auto simp: draft_def at_position_def)
  from live_unique [OF t3(1), of us t2] t2(3) same(1) have same': "us'' = us" "t2' = t2" by simp_all
  have "done_item ?ai ?a \<in> set (t_items t2)" using t2(5) same(2) t1(3) place_mem by simp
  then have "done_item ?ai ?a \<in> set (t_items t3)" using t3(2) same' place_keeps by simp
  moreover have "done_item ?ri ?r \<in> set (t_items t3)" using t3(2) place_mem by simp
  moreover have "th_turns th' = us @ [t3]" using t3(3) same' by auto
  moreover have "\<forall>u \<in> set us. turn_id u \<noteq> turn" using t1(1,2) by (auto simp: live_def)
  moreover have "turn_id t3 = turn" "t_status t3 = Ts_EXECUTING_TOOLS" using t3(2) same' t2(4) status by simp_all
  ultimately show ?thesis by (intro that [of us t3]) auto
qed

lemma new_drafts_answer:
  "new_drafts H (Some turn) 0 (Suc 0) (question_answer_events question call answer)
    = check (list_all draft_ok (answer_drafts H turn question call answer)) ValueError
        (Inr (answer_drafts H turn question call answer))"
  by (simp only: new_drafts_def answer_drafts_def Let_def One_nat_def)

text \<open>The first answer to a question: what the request found, and what its batch left behind.\<close>

lemma first_answer:
  assumes rep: "represents K W s hist" and th: "get_thread K s tid = Inr th" "get_turn th turn = Inr u"
    and none: "answers u question = []"
    and run: "reply_question K W H tools enabled s tid turn question answer = Inr (t, s')"
    and clean: "clean_drafts K s (answer_drafts H turn question (tc_call_id (hd (pending_calls u))) answer)"
  obtains hist' th' i q where "represents K W s' hist'" "replay W (hist' tid) = Inr th'" "get_turn th' turn = Inr t"
    "reachable W th'" "i \<in> set (t_items t)" "i_status i = Is_COMPLETED" "asked_by question i = Some q"
    "t_status t = Ts_EXECUTING_TOOLS"
    "done_item (uuid5 question ''harnessix.question-answer/v1'') (QuestionAnswer \<lparr>qa_question_id = question,
       qa_call_id = tc_call_id (hd (pending_calls u)), qa_answer = answer\<rparr>) \<in> set (t_items t)"
    "done_item (uuid5 question ''harnessix.question-result/v1'')
       (ToolResult (answered_result (tc_call_id (hd (pending_calls u))) answer)) \<in> set (t_items t)"
proof -
  from run th none obtain i where i: "find (\<lambda>i. asked_by question i \<noteq> None) (t_items u) = Some i" "i_status i = Is_COMPLETED"
    by (auto simp: reply_question_def answers_def split: option.splits)
  from run th none i(1) obtain call calls where calls: "pending_calls u = call # calls"
    by (cases "pending_calls u") (auto simp: reply_question_def answers_def)
  let ?ds = "answer_drafts H turn question (tc_call_id call) answer"
  from run th none i(1) calls obtain th' where com: "commit K W s tid ?ds (th_sequence th) = Inr (th', s')"
      and t: "get_turn th' turn = Inr t"
    by (auto simp: reply_question_def answers_def new_drafts_answer)
  from get_thread_replay [OF rep th(1)] have rp: "replay W (hist tid) = Inr th" by simp
  have clean': "clean_drafts K s ?ds" using clean calls by simp
  obtain hist' where h: "represents K W s' hist'" "replay W (hist' tid) = Inr th'"
      "foldE (apply_to_thread W) th (positioned tid (th_sequence th) ?ds) = Inr th'"
      "foldE (accept_event W) (Some th) (positioned tid (th_sequence th) ?ds) = Inr (Some th')"
      "reachable W th" "reachable W th'"
    by (rule committed_run [OF rep clean' rp com])
  obtain us v where v: "th_turns th' = us @ [v]" "\<forall>u \<in> set us. turn_id u \<noteq> turn" "turn_id v = turn"
      "t_status v = Ts_EXECUTING_TOOLS"
      "done_item (uuid5 question ''harnessix.question-answer/v1'') (QuestionAnswer \<lparr>qa_question_id = question,
         qa_call_id = tc_call_id call, qa_answer = answer\<rparr>) \<in> set (t_items v)"
      "done_item (uuid5 question ''harnessix.question-result/v1'')
         (ToolResult (answered_result (tc_call_id call) answer)) \<in> set (t_items v)"
    by (rule answer_run [OF reachable_shape [OF h(5)] h(3)])
  have "find (\<lambda>t. turn_id t = turn) (us @ [v]) = Some v" using v(2,3) by (intro find_last) auto
  with v(1) t have tv: "t = v" by (simp add: get_turn_def)
  from get_turn_extended [OF extends_from_step [OF h(5,4)] th(2)] t have "turn_extends u t" by auto
  with ended_item_stays [of u t i] i find_SomeD [OF i(1)] have "i \<in> set (t_items t)" by simp
  with find_SomeD [OF i(1)] obtain q where "i \<in> set (t_items t)" "asked_by question i = Some q" by auto
  with i(2) v tv calls show ?thesis by (intro that [OF h(1,2) t h(6)]) auto
qed

lemma answer_again:
  assumes h: "represents K W s' hist'" "replay W (hist' tid) = Inr th'" "get_turn th' turn = Inr t"
    and q: "i \<in> set (t_items t)" "i_status i = Is_COMPLETED" "asked_by question i = Some q"
    and a: "j \<in> set (t_items t)" "i_status j = Is_COMPLETED" "i_content j = QuestionAnswer a" "qa_question_id a = question"
    and later: "later = foldl (perform K W) s' cs"
  shows "case reply_question K W H' tools enabled later tid turn question answer of
      Inl e \<Rightarrow> e \<in> KernelError ` {''projection_corrupt'', ''question_not_enabled'', ''question_answer_invalid''}
        \<or> (e = KernelError ''question_conflict'' \<and> answer \<noteq> qa_answer a)
    | Inr (t', s'') \<Rightarrow> answer = qa_answer a \<and> s'' = later \<and> turn_extends t t'"
proof (cases "get_thread K later tid")
  case (Inl e)
  with read_later_refused [OF h(1,2)] have "e = projection_corrupt" by (simp add: later)
  with Inl show ?thesis by (simp add: reply_question_def check_def)
next
  case (Inr v)
  with later have v: "get_thread K (foldl (perform K W) s' cs) tid = Inr v" by simp
  from a(2) have ended: "i_status j \<noteq> Is_STARTED" by simp
  obtain t' where t': "get_turn v turn = Inr t'" "turn_extends t t'" "j \<in> set (t_items t')" "reachable W v"
      "t' \<in> set (th_turns v)"
    by (rule turn_later [OF h a(1) ended v])
  have "answers t' question = [a]" using only_answer [OF t'(4,5,3) a(3)] a(4) by simp
  moreover have "i \<in> set (t_items t')" using ended_item_stays [OF t'(2) q(1)] q(2) by simp
  with q(3) have "find (\<lambda>i. asked_by question i \<noteq> None) (t_items t') \<noteq> None"
    unfolding find_None_iff_all by auto
  ultimately show ?thesis using Inr t'(1,2) by (auto simp: reply_question_def answers_def check_def split: option.splits)
qed

section \<open>Archiving\<close>

lemma archived_stays:
  assumes rep: "represents K W s hist" and run: "archive_request K W H s tid reason = Inr (th', s')"
    and clean: "clean_drafts K s (stamped H None 0 0 [ThreadArchived reason])"
  obtains hist' where "represents K W s' hist'" "replay W (hist' tid) = Inr th'" "th_archive th' \<noteq> None"
    "map_option av_reason (th_archive th') = Some reason" "th_active_turn_id th' = None"
proof -
  from run obtain th where th: "get_thread K s tid = Inr th" by (auto simp: archive_request_def)
  from get_thread_replay [OF rep th] have rp: "replay W (hist tid) = Inr th" by simp
  show ?thesis
  proof (cases "th_archive th")
    case (Some a)
    with run th have "th' = th" "s' = s" "reason = av_reason a" by (auto simp: archive_request_def)
    moreover have "th_active_turn_id th = None"
      using reachable_shape [OF replay_reachable [OF rp represented_ok [OF rep]]] Some by (simp add: thread_shape_def)
    ultimately show ?thesis using rep rp Some by (intro that [of hist]) auto
  next
    case None
    with run th have com: "commit K W s tid (stamped H None 0 0 [ThreadArchived reason]) (th_sequence th) = Inr (th', s')"
      by (auto simp: archive_request_def new_drafts_def Let_def)
    obtain hist' where h: "represents K W s' hist'" "replay W (hist' tid) = Inr th'"
        "foldE (apply_to_thread W) th (positioned tid (th_sequence th) (stamped H None 0 0 [ThreadArchived reason])) = Inr th'"
        "reachable W th"
      by (rule committed_run [OF rep clean rp com])
    from h(3) have "archive_thread th (at_position (hd (stamped H None 0 0 [ThreadArchived reason])) tid (th_sequence th + 1)) reason = Inr th'"
      by (simp add: legacy_draft_def apply_to_thread_def)
    then show ?thesis by (intro that [OF h(1,2)]) (auto simp: archive_thread_def)
  qed
qed

end
