(* ===== verification/Approval_Requests.thy ===== *)
theory Approval_Requests
  imports Patch_Recovery
begin

text \<open>
  The reply of a client to an approval request (\<^verbatim>\<open>reply_approval\<close> and \<^verbatim>\<open>_reply_approval\<close> of
  src/src/harnessix/agent/runtime.py, with \<^verbatim>\<open>record_action_decision\<close> of agent/trusted_action_session.py). The back ends that
  review a plan before it is approved, and the gateway that keeps the authority over trusted actions, are
  parameters.
\<close>

section \<open>Back ends\<close>

text \<open>
  A review looks at the files of a plan again; the flag asks for the source to be verified. The review of
  a group runs under a time limit: \<open>None\<close> is its expiry.
\<close>

record review_ports =
  rv_patch :: "(tool_call_content \<Rightarrow> tool_scope \<Rightarrow> managed_patch_call_plan \<Rightarrow> bool \<Rightarrow> unit result) option"
  rv_batch :: "(tool_call_content \<Rightarrow> tool_scope \<Rightarrow> managed_patch_batch_call_plan \<Rightarrow> bool
    \<Rightarrow> unit result option) option"
  rv_decide :: "(thread \<Rightarrow> turn \<Rightarrow> tool_call_content \<Rightarrow> trusted_approval_request \<Rightarrow> approval_decision
    \<Rightarrow> trusted_approval_request result) option"

section \<open>The decision\<close>

definition has_approval_id :: "uuid \<Rightarrow> item \<Rightarrow> bool" where
  "has_approval_id q i = (case i_content i of Approval a \<Rightarrow> ap_id a = q | _ \<Rightarrow> False)"

definition decision_record :: "approval_decision \<Rightarrow> string \<Rightarrow> datetime \<Rightarrow> approval_record" where
  "decision_record d fingerprint now = \<lparr>ar_outcome = d_outcome d, ar_actor = d_actor d, ar_reason = d_reason d,
     ar_request_fingerprint = fingerprint, ar_decided_at = now\<rparr>"

text \<open>\<^verbatim>\<open>content.model_copy(update={"decision": record})\<close>.\<close>

definition decided :: "approval_content \<Rightarrow> approval_record \<Rightarrow> approval_content" where
  "decided c d =
     (case c of ApprovalRequest a \<Rightarrow> ApprovalRequest (a\<lparr>aq_decision := Some d\<rparr>)
      | PatchApproval a \<Rightarrow> PatchApproval (a\<lparr>pa_decision := Some d\<rparr>)
      | PatchBatchApproval a \<Rightarrow> PatchBatchApproval (a\<lparr>ba_decision := Some d\<rparr>)
      | ProcessApproval a \<Rightarrow> ProcessApproval (a\<lparr>pq_decision := Some d\<rparr>)
      | TrustedApproval a \<Rightarrow> TrustedApproval (a\<lparr>tq_decision := Some d\<rparr>))"

text \<open>The one event of a decision; it happens at the time of the decision.\<close>

definition decision_draft :: "host \<Rightarrow> uuid \<Rightarrow> uuid \<Rightarrow> approval_content \<Rightarrow> datetime \<Rightarrow> event_draft" where
  "decision_draft H turn iid c now = \<lparr>d_schema_version = 22, d_event_id = h_new_id H 0, d_turn_id = Some turn,
     d_occurred_at = now, d_payload = ItemFinished \<lparr>fi_item_id = iid, fi_status = Is_COMPLETED,
       fi_content = Approval c, fi_error = None\<rparr>\<rparr>"

definition record_decision :: "'d codec \<Rightarrow> wire \<Rightarrow> host \<Rightarrow> 'd session_store \<Rightarrow> uuid \<Rightarrow> uuid \<Rightarrow> thread \<Rightarrow> uuid
    \<Rightarrow> approval_content \<Rightarrow> datetime \<Rightarrow> (turn \<times> 'd session_store) result" where
  "record_decision K W H s tid turn th iid c now =
    (let d = decision_draft H turn iid c now
     in check (draft_ok d) ValueError
          (bindE (commit K W s tid [d] (th_sequence th)) (\<lambda>(th', s').
           bindE (get_turn th' turn) (\<lambda>t'. Inr (t', s')))))"

section \<open>Reviewing before the decision\<close>

definition expired :: py_error where
  "expired = KernelError ''approval_expired''"

text \<open>The number of clock readings a review takes, or the reason to refuse.\<close>

definition review :: "host \<Rightarrow> review_ports \<Rightarrow> thread \<Rightarrow> turn \<Rightarrow> tool_call_content \<Rightarrow> approval_content \<Rightarrow> bool
    \<Rightarrow> nat result" where
  "review H R th t call c verify =
     (case c of
        PatchBatchApproval a \<Rightarrow>
          (case rv_batch R of
             None \<Rightarrow> Inl (KernelError ''patch_batch_not_enabled'')
           | Some port \<Rightarrow>
               bindE (inspection_scope th t call) (\<lambda>sc.
               case port call sc (ba_plan a) verify of
                 None \<Rightarrow> Inl expired
               | Some r \<Rightarrow> bindE r (\<lambda>_. check (0 < remaining_us t (h_utc_now H 2)) expired (Inr 3))))
      | PatchApproval a \<Rightarrow>
          (case rv_patch R of
             None \<Rightarrow> Inl (KernelError ''patch_not_enabled'')
           | Some port \<Rightarrow>
               bindE (inspection_scope th t call) (\<lambda>sc.
               bindE (port call sc (pa_plan a) verify) (\<lambda>_.
               check (0 < remaining_us t (h_utc_now H 1)) expired (Inr 2))))
      | _ \<Rightarrow> Inr 1)"

section \<open>The request\<close>

text \<open>\<^verbatim>\<open>record_trusted_action_decision\<close>: the gateway decides first, the projection it returns is recorded.\<close>

definition decide_trusted :: "'d codec \<Rightarrow> wire \<Rightarrow> host \<Rightarrow> review_ports \<Rightarrow> 'd session_store \<Rightarrow> uuid \<Rightarrow> thread \<Rightarrow> turn
    \<Rightarrow> tool_call_content \<Rightarrow> uuid \<Rightarrow> trusted_approval_request \<Rightarrow> approval_decision \<Rightarrow> (turn \<times> 'd session_store) result" where
  "decide_trusted K W H R s tid th t call iid a decision =
     (case rv_decide R of
        None \<Rightarrow> Inl (KernelError ''trusted_action_not_enabled'')
      | Some port \<Rightarrow>
          bindE (port th t call a decision) (\<lambda>p.
          case tq_decision p of
            None \<Rightarrow> Inl AssertionError
          | Some d \<Rightarrow> record_decision K W H s tid (turn_id t) th iid (TrustedApproval p) (ar_decided_at d)))"

text \<open>
  The locked part. Taking the first of no pending calls would raise \<^verbatim>\<open>IndexError\<close>; a Turn that waits for an
  approval has one, and the branch returns \<open>AssertionError\<close>.
\<close>

definition decide_approval :: "'d codec \<Rightarrow> wire \<Rightarrow> host \<Rightarrow> review_ports \<Rightarrow> tool_table \<Rightarrow> 'd session_store \<Rightarrow> uuid
    \<Rightarrow> thread \<Rightarrow> turn \<Rightarrow> item \<Rightarrow> approval_content \<Rightarrow> string \<Rightarrow> approval_decision \<Rightarrow> (turn \<times> 'd session_store) result" where
  "decide_approval K W H R tools s tid th t i content fingerprint decision =
     check (t_status t = Ts_WAITING_APPROVAL \<and> i_status i = Is_STARTED) (KernelError ''approval_closed'')
     (check (0 < remaining_us t (h_utc_now H 0)) expired
     (case pending_calls t of
        [] \<Rightarrow> Inl AssertionError
      | call # _ \<Rightarrow>
          check (tc_call_id call = ap_call content \<and> approval_matches W th t call content)
            (KernelError ''approval_mismatch'')
          (check (\<not> is_process_approval content) (KernelError ''legacy_process_state_archived'')
          (bindE (validate_tool_contract tools call) (\<lambda>_.
             case content of
               TrustedApproval a \<Rightarrow> decide_trusted K W H R s tid th t call (item_id i) a decision
             | _ \<Rightarrow>
                 bindE (review H R th t call content (d_outcome decision = APPROVED)) (\<lambda>k.
                   let now = h_utc_now H k
                   in record_decision K W H s tid (turn_id t) th (item_id i)
                        (decided content (decision_record decision fingerprint now)) now))))))"

definition reply_approval :: "'d codec \<Rightarrow> wire \<Rightarrow> host \<Rightarrow> review_ports \<Rightarrow> tool_table \<Rightarrow> 'd session_store \<Rightarrow> uuid
    \<Rightarrow> uuid \<Rightarrow> uuid \<Rightarrow> string \<Rightarrow> approval_decision \<Rightarrow> (turn \<times> 'd session_store) result" where
  "reply_approval K W H R tools s tid turn approval fingerprint decision =
     check (approval_decision_ok decision) ValueError
     (bindE (get_thread K s tid) (\<lambda>th.
      bindE (get_turn th turn) (\<lambda>t.
      case find (has_approval_id approval) (t_items t) of
        None \<Rightarrow> Inl (KernelError ''approval_not_found'')
      | Some i \<Rightarrow>
         (case i_content i of
            Approval content \<Rightarrow>
              check (fingerprint = ap_fingerprint content) (KernelError ''approval_mismatch'')
              (bindE (approval_was_decided content decision) (\<lambda>done.
               if done then Inr (t, s)
               else decide_approval K W H R tools s tid th t i content fingerprint decision))
          | _ \<Rightarrow> Inl AssertionError))))"

end
