(* ===== verification/Decided_Approvals.thy ===== *)
theory Decided_Approvals
  imports Running_Requests Approval_Requests
begin

text \<open>
  An approval is decided once: the first reply settles it, every later one only reads it.
\<close>

section \<open>One approval per identity\<close>

definition approvals_with :: "uuid \<Rightarrow> item list \<Rightarrow> item list" where
  "approvals_with q is = filter (has_approval_id q) is"

definition one_approval :: "thread \<Rightarrow> turn \<Rightarrow> bool" where
  "one_approval th t \<longleftrightarrow> (\<forall>q. length (approvals_with q (t_items t)) \<le> 1)"

lemma approvals_split [simp]:
  "approvals_with q (xs @ i # ys) = approvals_with q xs @ (if has_approval_id q i then [i] else []) @ approvals_with q ys"
  by (simp add: approvals_with_def)

lemma start_approval_new:
  assumes "start_guard W th t e (Approval a) = Inr ()"
  shows "approvals_with (ap_id a) (t_items t) = []"
proof -
  from assms have "list_all (\<lambda>i. case i_content i of Approval b \<Rightarrow> ap_id b \<noteq> ap_id a | _ \<Rightarrow> True) (t_items t)"
    by (auto simp: start_guard_def start_approval_def split: option.splits)
  then show ?thesis
    by (auto simp: approvals_with_def has_approval_id_def filter_empty_conv list_all_iff split: item_content.splits)
qed

lemma cleared_id: "ap_id (cleared b c) = ap_id c"
  by (simp add: cleared_def ap_id_def split: approval_content.splits)

lemma finish_keeps_approval:
  assumes "finish_item t e p = Inr t'" "find (\<lambda>i. item_id i = fi_item_id p) (t_items t) = Some i"
  shows "has_approval_id q \<lparr>item_id = fi_item_id p, i_status = fi_status p, i_content = fi_content p, i_error = fi_error p\<rparr>
    = has_approval_id q i"
proof -
  from assms have kind: "content_kind (i_content i) = content_kind (fi_content p)"
    and con: "case i_content i of Approval a \<Rightarrow> (case fi_content p of Approval c \<Rightarrow> finish_approval t e (fi_status p) a c | _ \<Rightarrow> False)
        | Text _ \<Rightarrow> True | c \<Rightarrow> c = fi_content p"
    by (auto simp: finish_item_def split: item_content.splits)
  show ?thesis
  proof (cases "i_content i")
    case (Approval a)
    with con obtain c where c: "fi_content p = Approval c" "a = cleared a c"
      by (auto simp: finish_approval_def split: item_content.splits)
    then have "ap_id a = ap_id c" using cleared_id [of a c] by simp
    with Approval c(1) show ?thesis by (simp add: has_approval_id_def)
  next
    case (Text x)
    with kind show ?thesis
      by (cases "fi_content p") (auto simp: has_approval_id_def content_kind_def text_kind_value_def
          split: text_kind.splits approval_content.splits)
  qed (use con in \<open>simp_all add: has_approval_id_def\<close>)
qed

interpretation approvals: turn_invariant W one_approval for W
proof
  fix th t e t' w
  assume th: "reachable W th" "t \<in> set (th_turns th)" and one: "one_approval th t"
    and ev: "apply_turn_event W th t e = Inr (t', w)"
  from apply_turn_event_items [OF ev] show "one_approval th t'"
  proof (cases rule: item_change.cases)
    case (started iid c xs ys)
    let ?i = "\<lparr>item_id = iid, i_status = Is_STARTED, i_content = c, i_error = None\<rparr>"
    have "length (approvals_with q (t_items t')) \<le> 1" for q
    proof (cases "has_approval_id q ?i")
      case False
      with started one show ?thesis by (simp add: one_approval_def) (simp add: approvals_with_def)
    next
      case True
      then obtain a where "c = Approval a" "ap_id a = q"
        by (auto simp: has_approval_id_def split: item_content.splits)
      with start_approval_new [of W th t e a] started(5) have "approvals_with q (t_items t) = []" by simp
      with started True show ?thesis by (simp add: approvals_with_def)
    qed
    then show ?thesis by (simp add: one_approval_def)
  next
    case (finished p original)
    from finished(2) have mem: "original \<in> set (t_items t)" "item_id original = fi_item_id p" by (auto dest: find_SomeD)
    let ?f = "\<lparr>item_id = fi_item_id p, i_status = fi_status p, i_content = fi_content p, i_error = fi_error p\<rparr>"
    from mem(2) have key: "item_id original = item_id ?f" by simp
    obtain us vs where split: "t_items t = us @ original # vs" "t_items t' = us @ ?f # vs"
      unfolding finished(5) by (rule replace_by_split [OF reachable_distinct_items [OF th] mem(1) key])
    have "length (approvals_with q (t_items t')) = length (approvals_with q (t_items t))" for q
      using finish_keeps_approval [OF finished(4,2), of q] by (simp add: split)
    with one show ?thesis by (simp add: one_approval_def)
  qed (use one in \<open>simp add: one_approval_def\<close>)
qed (simp_all add: one_approval_def approvals_with_def)

lemma find_approval:
  assumes "reachable W th" "t \<in> set (th_turns th)" "i \<in> set (t_items t)" "has_approval_id q i"
  shows "find (has_approval_id q) (t_items t) = Some i"
proof -
  from assms(3) obtain xs ys where items: "t_items t = xs @ i # ys" by (auto dest: split_list)
  from approvals.every_turn [OF assms(1,2)] have "length (approvals_with q (t_items t)) \<le> 1" by (simp add: one_approval_def)
  with items assms(4) have "approvals_with q xs = []" by simp
  then have "find (has_approval_id q) xs = None" by (auto simp: approvals_with_def find_None_iff filter_empty_conv)
  then have "find (has_approval_id q) (xs @ i # ys) = Some i" using assms(4) by (induction xs) auto
  with items show ?thesis by simp
qed

section \<open>The recorded decision\<close>

lemma decided_fields [simp]:
  "ap_id (decided c d) = ap_id c" "ap_fingerprint (decided c d) = ap_fingerprint c"
  "ap_decision (decided c d) = Some d" "ap_call (decided c d) = ap_call c"
  by (simp_all add: decided_def ap_id_def ap_fingerprint_def ap_decision_def ap_call_def split: approval_content.splits)

text \<open>The decision a record stands for.\<close>

definition answer_of :: "approval_record \<Rightarrow> approval_decision" where
  "answer_of d = \<lparr>d_outcome = ar_outcome d, d_actor = ar_actor d, d_reason = ar_reason d\<rparr>"

lemma answer_of_record [simp]: "answer_of (decision_record d fp now) = d"
  by (simp add: answer_of_def decision_record_def)

lemma was_decided_again:
  "ap_decision c = Some d \<Longrightarrow>
     approval_was_decided c d' = check (answer_of d = d') (KernelError ''approval_conflict'') (Inr True)"
  by (cases d') (auto simp: approval_was_decided_def answer_of_def)

text \<open>What may change when an approval is decided: its decision, and the state its route reports.\<close>

lemma cleared_keeps:
  assumes "cleared a c = a"
  shows "ap_id c = ap_id a" "ap_fingerprint c = ap_fingerprint a" "ap_call c = ap_call a"
  using arg_cong [OF assms, of ap_id] arg_cong [OF assms, of ap_fingerprint] arg_cong [OF assms, of ap_call]
  by (auto simp: cleared_def ap_id_def ap_fingerprint_def ap_call_def split: approval_content.splits)

text \<open>An accepted end of an item, read backwards.\<close>

lemma finish_inverse:
  assumes shape: "thread_shape th" and run: "apply_to_thread W th e = Inr u"
    and e: "payload e = ItemFinished p" "e_turn_id e = Some tid"
  obtains us t t' where "live th us t" "turn_id t = tid" "finish_item t e p = Inr t'" "turn_id t' = tid"
    "u = update_thread th e t' (us @ [t'])"
proof -
  from apply_to_thread_shape(1) [OF shape run] show ?thesis
  proof (cases rule: step_shape.cases)
    case (active t us t' w)
    from active(10) e(1) have fin: "finish_item t e p = Inr t'" and w: "w = None"
      by (auto simp: apply_turn_event_def)
    from active e(2) have "turn_id t = tid" "turn_id t' = tid" by (auto simp: same_turn_def)
    moreover from active have "live th us t" by (auto simp: live_def)
    moreover have "u = update_thread th e t' (us @ [t'])" using active(1) w by (simp add: add_window_def)
    ultimately show ?thesis using fin by (intro that)
  qed (use e in simp_all)
qed

lemma approval_finish:
  assumes "finish_item t e \<lparr>fi_item_id = iid, fi_status = Is_COMPLETED, fi_content = Approval c, fi_error = None\<rparr> = Inr t'"
    and "find (\<lambda>i. item_id i = iid) (t_items t) = Some i"
  shows "\<exists>a d. i_content i = Approval a \<and> cleared a c = a \<and> ap_decision c = Some d
    \<and> ar_request_fingerprint d = decision_subject a"
proof -
  from assms have kind: "content_kind (i_content i) = content_kind (Approval c)"
    and con: "case i_content i of Approval a \<Rightarrow> finish_approval t e Is_COMPLETED a c
        | Text _ \<Rightarrow> True | x \<Rightarrow> x = Approval c"
    by (auto simp: finish_item_def split: item_content.splits)
  show ?thesis
  proof (cases "i_content i")
    case (Approval a)
    with con show ?thesis by (auto simp: finish_approval_def split: option.splits)
  next
    case (Text x)
    with kind show ?thesis
      by (auto simp: content_kind_def text_kind_value_def split: text_kind.splits approval_content.splits)
  qed (use con in simp_all)
qed

lemma decision_recorded:
  assumes rep: "represents K W s hist" and th: "get_thread K s tid = Inr th" "get_turn th turn = Inr u"
    and run: "record_decision K W H s tid turn th iid c now = Inr (t, s')"
    and clean: "clean_drafts K s [decision_draft H turn iid c now]"
  obtains hist' th' where "represents K W s' hist'" "replay W (hist' tid) = Inr th'" "get_turn th' turn = Inr t"
    "reachable W th'" "t_status t = t_status u" "done_item iid (Approval c) \<in> set (t_items t)"
    "\<exists>i a d. find (\<lambda>i. item_id i = iid) (t_items u) = Some i \<and> i_content i = Approval a \<and> cleared a c = a
       \<and> ap_decision c = Some d \<and> ar_request_fingerprint d = decision_subject a"
proof -
  let ?d = "decision_draft H turn iid c now"
  let ?e = "at_position ?d tid (th_sequence th + 1)"
    and ?p = "\<lparr>fi_item_id = iid, fi_status = Is_COMPLETED, fi_content = Approval c, fi_error = None\<rparr>"
  from run obtain th' where com: "commit K W s tid [?d] (th_sequence th) = Inr (th', s')" and t: "get_turn th' turn = Inr t"
    by (auto simp: record_decision_def Let_def)
  from get_thread_replay [OF rep th(1)] have rp: "replay W (hist tid) = Inr th" by simp
  obtain hist' where h: "represents K W s' hist'" "replay W (hist' tid) = Inr th'"
      "foldE (apply_to_thread W) th (positioned tid (th_sequence th) [?d]) = Inr th'"
      "foldE (accept_event W) (Some th) (positioned tid (th_sequence th) [?d]) = Inr (Some th')"
      "reachable W th" "reachable W th'"
    by (rule committed_run [OF rep clean rp com])
  have "legacy_draft ?d = ?d" by (simp add: legacy_draft_def decision_draft_def)
  with h(3) have step: "apply_to_thread W th ?e = Inr th'" by simp
  obtain us v t' where v: "live th us v" "turn_id v = turn" "finish_item v ?e ?p = Inr t'" "turn_id t' = turn"
      "th' = update_thread th ?e t' (us @ [t'])"
    by (rule finish_inverse [OF reachable_shape [OF h(5)] step, of ?p turn])
      (simp_all add: at_position_def decision_draft_def)
  from live_get [OF v(1)] v(2) th(2) have u: "v = u" by simp
  have "find (\<lambda>t. turn_id t = turn) (us @ [t']) = Some t'"
    using v(1,2,4) by (intro find_last) (auto simp: live_def)
  with v(5) t have tt: "t' = t" by (simp add: get_turn_def)
  from v(3) obtain original where o: "find (\<lambda>i. item_id i = iid) (t_items v) = Some original"
      "t = v\<lparr>t_items := replace_by item_id (done_item iid (Approval c)) (t_items v)\<rparr>"
    by (auto simp: finish_item_def done_item_def tt split: option.splits)
  have "iid \<in> item_id ` set (t_items v)" using find_SomeD [OF o(1)] by auto
  then have "done_item iid (Approval c) \<in> set (t_items t)" using o(2) by (simp add: in_replace_by)
  moreover have "t_status t = t_status u" using o(2) u by simp
  moreover have "\<exists>i a d. find (\<lambda>i. item_id i = iid) (t_items u) = Some i \<and> i_content i = Approval a \<and> cleared a c = a
       \<and> ap_decision c = Some d \<and> ar_request_fingerprint d = decision_subject a"
    using o(1) approval_finish [OF v(3)] u by auto
  ultimately show ?thesis using that [OF h(1,2) t h(6)] by blast
qed

text \<open>
  The first reply: what is recorded, and where its decision comes from. Trusted actions are decided by the
  gateway, all others by the reply itself.
\<close>

definition decision_source :: "review_ports \<Rightarrow> thread \<Rightarrow> turn \<Rightarrow> approval_content \<Rightarrow> approval_decision \<Rightarrow> approval_record \<Rightarrow> bool" where
  "decision_source R th u content decision d =
     (case content of
        TrustedApproval a \<Rightarrow> (case rv_decide R of None \<Rightarrow> False
          | Some port \<Rightarrow> (case port th u (hd (pending_calls u)) a decision of Inl _ \<Rightarrow> False
              | Inr p \<Rightarrow> tq_decision p = Some d))
      | _ \<Rightarrow> answer_of d = decision)"

lemma first_decision:
  assumes th: "get_thread K s tid = Inr th" "get_turn th turn = Inr u"
    and item: "find (has_approval_id approval) (t_items u) = Some i" "i_content i = Approval content"
      "ap_decision content = None"
    and run: "reply_approval K W H R tools s tid turn approval fp decision = Inr (t, s')"
  obtains c now d call calls where "record_decision K W H s tid turn th (item_id i) c now = Inr (t, s')"
    "ap_decision c = Some d" "decision_source R th u content decision d"
    "pending_calls u = call # calls" "tc_call_id call = ap_call content" "approval_matches W th u call content"
    "fp = ap_fingerprint content"
proof -
  from run th item have d: "fp = ap_fingerprint content"
      "decide_approval K W H R tools s tid th u i content fp decision = Inr (t, s')"
    by (auto simp: reply_approval_def approval_was_decided_def)
  have id: "turn_id u = turn" using get_turn_mem [OF th(2)] by simp
  from d(2) obtain call calls where calls: "pending_calls u = call # calls"
    by (cases "pending_calls u") (auto simp: decide_approval_def)
  with d(2) have m: "tc_call_id call = ap_call content" "approval_matches W th u call content"
    by (simp_all add: decide_approval_def)
  show ?thesis
  proof (cases "\<exists>a. content = TrustedApproval a")
    case True
    then obtain a where a: "content = TrustedApproval a" by blast
    with d(2) calls have "decide_trusted K W H R s tid th u call (item_id i) a decision = Inr (t, s')"
      by (simp add: decide_approval_def)
    then obtain port p r where p: "rv_decide R = Some port" "port th u call a decision = Inr p" "tq_decision p = Some r"
        "record_decision K W H s tid turn th (item_id i) (TrustedApproval p) (ar_decided_at r) = Inr (t, s')"
      using id by (auto simp: decide_trusted_def split: option.splits)
    then have "ap_decision (TrustedApproval p) = Some r" "decision_source R th u content decision r"
      using a calls by (simp_all add: decision_source_def ap_decision_def)
    from that [OF p(4) this calls m d(1)] show ?thesis .
  next
    case False
    with d(2) calls id obtain k where
      "record_decision K W H s tid turn th (item_id i)
        (decided content (decision_record decision fp (h_utc_now H k))) (h_utc_now H k) = Inr (t, s')"
      by (cases content) (auto simp: decide_approval_def Let_def)
    moreover have "decision_source R th u content decision (decision_record decision fp (h_utc_now H k))"
      using False by (cases content) (simp_all add: decision_source_def)
    ultimately show ?thesis using that [OF _ decided_fields(3) _ calls m d(1)] by blast
  qed
qed

lemma decision_again:
  assumes h: "represents K W s' hist'" "replay W (hist' tid) = Inr th'" "get_turn th' turn = Inr t"
    and j: "done_item iid (Approval c) \<in> set (t_items t)" "ap_id c = approval" "ap_fingerprint c = fp"
      "ap_decision c = Some d"
    and later: "later = foldl (perform K W) s' cs"
  shows "case reply_approval K W H' R' tools' later tid turn approval fp' decision' of
      Inl e \<Rightarrow> e = projection_corrupt \<or> (e = ValueError \<and> \<not> approval_decision_ok decision')
        \<or> (e = KernelError ''approval_mismatch'' \<and> fp' \<noteq> fp)
        \<or> (e = KernelError ''approval_conflict'' \<and> decision' \<noteq> answer_of d)
    | Inr (t', s'') \<Rightarrow> fp' = fp \<and> decision' = answer_of d \<and> s'' = later \<and> turn_extends t t'"
proof (cases "get_thread K later tid")
  case (Inl e)
  with read_later_refused [OF h(1,2)] have "e = projection_corrupt" by (simp add: later)
  with Inl show ?thesis by (simp add: reply_approval_def check_def)
next
  case (Inr v)
  with later have v: "get_thread K (foldl (perform K W) s' cs) tid = Inr v" by simp
  let ?j = "done_item iid (Approval c)"
  have ended: "i_status ?j \<noteq> Is_STARTED" by simp
  obtain t' where t': "get_turn v turn = Inr t'" "turn_extends t t'" "?j \<in> set (t_items t')" "reachable W v"
      "t' \<in> set (th_turns v)"
    by (rule turn_later [OF h j(1) ended v])
  have "has_approval_id approval ?j" using j(2) by (simp add: has_approval_id_def)
  from find_approval [OF t'(4,5,3) this] have found: "find (has_approval_id approval) (t_items t') = Some ?j" .
  show ?thesis using Inr t'(1,2) found j(3)
    by (auto simp: reply_approval_def check_def was_decided_again [OF j(4)])
qed

end
