(* ===== verification/Known_Identities.thy ===== *)
theory Known_Identities
  imports Py_Stdlib
begin

text \<open>
  Two UUIDv5 values computed by the simplifier, block by block, from the definition of SHA-1: the items
  of the answer to question 70. They agree with \<^verbatim>\<open>uuid.uuid5\<close> of Python. The other rules
  unfold the recursions of the hash on numerals.
\<close>

section \<open>Unfolding on numerals\<close>

lemma grow_numeral: "grow f (numeral k) w = grow f (pred_numeral k) (f w # w)"
  by (simp only: numeral_eq_Suc [of k] grow.simps)

lemma be_bytes_numeral: "be_bytes (numeral k) n = be_bytes (pred_numeral k) (n div 256) @ [n mod 256]"
  by (simp only: numeral_eq_Suc [of k] be_bytes.simps)

lemma upt_from_zero: "[0..<8] = [0, 1, 2, 3, 4, 5, 6, 7::nat]"
  by (simp add: upt_rec)

lemma replicate_numeral: "replicate (numeral k) x = x # replicate (pred_numeral k) x"
  by (simp only: numeral_eq_Suc [of k] replicate.simps)

lemma upt80: "[0..<80] = [0, 1, 2, 3, 4, 5, 6, 7, 8, 9, 10, 11, 12, 13, 14, 15, 16, 17, 18, 19, 20, 21, 22,
    23, 24, 25, 26, 27, 28, 29, 30, 31, 32, 33, 34, 35, 36, 37, 38, 39, 40, 41, 42, 43, 44, 45, 46, 47, 48,
    49, 50, 51, 52, 53, 54, 55, 56, 57, 58, 59, 60, 61, 62, 63, 64, 65, 66, 67, 68, 69, 70, 71, 72, 73, 74,
    75, 76, 77, 78, 79::nat]"
  by (simp add: upt_rec)

lemmas sha_words_simps = sha_pad_def Let_def byte_of_def be_bytes_numeral upt_from_zero replicate_numeral

section \<open>The item of the answer\<close>

lemma pad0: "sha_pad (map char_of (be_bytes 16 70) @ ''harnessix.question-answer/v1'') = [0, 0, 0, 0, 0, 0,
    0, 0, 0, 0, 0, 0, 0, 0, 0, 70, 104, 97, 114, 110, 101, 115, 115, 105, 120, 46, 113, 117, 101, 115, 116,
    105, 111, 110, 45, 97, 110, 115, 119, 101, 114, 47, 118, 49, 128, 0, 0, 0, 0, 0, 0, 0, 0, 0, 0, 0, 0, 0,
    0, 0, 0, 0, 1, 96]"
  by (simp add: sha_words_simps)

lemma blocks0: "message_blocks (map char_of (be_bytes 16 70) @ ''harnessix.question-answer/v1'') = [[0, 0,
    0, 70, 1751216750, 1702065001, 2016309621, 1702065257, 1869491553, 1853060965, 1915713073, 2147483648,
    0, 0, 0, 352]]"
  by (simp add: message_blocks_def pad0)

lemma schedule0: "rev (grow sha1_next 64 [352, 0, 0, 0, 2147483648, 1915713073, 1853060965, 1869491553,
    1702065257, 2016309621, 1702065001, 1751216750, 70, 0, 0, 0]) = [0, 0, 0, 70, 1751216750, 1702065001,
    2016309621, 1702065257, 1869491553, 1853060965, 1915713073, 2147483648, 0, 0, 0, 352, 3738983106,
    3706121798, 882641534, 2002670554, 2572409531, 1765284604, 3225165724, 614969775, 1430927069,
    3847425407, 3291061184, 1143523855, 4160860040, 1512243385, 3046186658, 8512002, 3394424241, 4143275139,
    3536802318, 540581169, 2939579480, 2330457033, 29316516, 3699795220, 2746033867, 2892209326, 1690437284,
    993845913, 2643100600, 1762537389, 2323695708, 1861267547, 2759667123, 3764202113, 4019654994,
    1799177124, 2797412747, 2716946501, 2271211822, 1901121749, 2244393779, 3770370865, 3474884918,
    2039638855, 2719498940, 3525479690, 2690711309, 3150582118, 941364656, 2541206067, 2080198930,
    377805357, 689590356, 4076648720, 1761271419, 108508588, 7421259, 3444082812, 555245160, 2055864919,
    3428109107, 1947792937, 337145123, 3443370901]"
  by (simp add: grow_numeral sha1_next_def rotl_def)

lemma rev0: "rev [0, 0, 0, 70, 1751216750, 1702065001, 2016309621, 1702065257, 1869491553, 1853060965,
    1915713073, 2147483648, 0, 0, 0, 352] = [352, 0, 0, 0, 2147483648, 1915713073, 1853060965, 1869491553,
    1702065257, 2016309621, 1702065001, 1751216750, 70, 0, 0, 0]"
  by simp

lemma rounds0_0: "foldl sha1_round [1732584193, 4023233417, 2562383102, 271733878, 3285377520] [(0, 0), (1,
    0), (2, 0), (3, 70), (4, 1751216750), (5, 1702065001), (6, 2016309621), (7, 1702065257), (8,
    1869491553), (9, 1853060965)] = [2769672210, 4081166057, 1777423545, 660199923, 498848874]"
  by (simp add: sha1_f_def sha1_k_def rotl_def)

lemma rounds0_10: "foldl sha1_round [2769672210, 4081166057, 1777423545, 660199923, 498848874] [(10,
    1915713073), (11, 2147483648), (12, 0), (13, 0), (14, 0), (15, 352), (16, 3738983106), (17, 3706121798),
    (18, 882641534), (19, 2002670554)] = [3669423131, 4200229143, 3470157098, 2054818506, 2210994478]"
  by (simp add: sha1_f_def sha1_k_def rotl_def)

lemma rounds0_20: "foldl sha1_round [3669423131, 4200229143, 3470157098, 2054818506, 2210994478] [(20,
    2572409531), (21, 1765284604), (22, 3225165724), (23, 614969775), (24, 1430927069), (25, 3847425407),
    (26, 3291061184), (27, 1143523855), (28, 4160860040), (29, 1512243385)] = [449798116, 2147696666,
    4196532030, 3139770650, 2223265967]"
  by (simp add: sha1_f_def sha1_k_def rotl_def)

lemma rounds0_30: "foldl sha1_round [449798116, 2147696666, 4196532030, 3139770650, 2223265967] [(30,
    3046186658), (31, 8512002), (32, 3394424241), (33, 4143275139), (34, 3536802318), (35, 540581169), (36,
    2939579480), (37, 2330457033), (38, 29316516), (39, 3699795220)] = [2834247661, 1429163223, 3209797867,
    925122613, 2293166974]"
  by (simp add: sha1_f_def sha1_k_def rotl_def)

lemma rounds0_40: "foldl sha1_round [2834247661, 1429163223, 3209797867, 925122613, 2293166974] [(40,
    2746033867), (41, 2892209326), (42, 1690437284), (43, 993845913), (44, 2643100600), (45, 1762537389),
    (46, 2323695708), (47, 1861267547), (48, 2759667123), (49, 3764202113)] = [106775116, 680684504,
    1695715727, 1627289177, 1693255053]"
  by (simp add: sha1_f_def sha1_k_def rotl_def)

lemma rounds0_50: "foldl sha1_round [106775116, 680684504, 1695715727, 1627289177, 1693255053] [(50,
    4019654994), (51, 1799177124), (52, 2797412747), (53, 2716946501), (54, 2271211822), (55, 1901121749),
    (56, 2244393779), (57, 3770370865), (58, 3474884918), (59, 2039638855)] = [2287434700, 1150268040,
    1826888274, 1748339138, 2538759040]"
  by (simp add: sha1_f_def sha1_k_def rotl_def)

lemma rounds0_60: "foldl sha1_round [2287434700, 1150268040, 1826888274, 1748339138, 2538759040] [(60,
    2719498940), (61, 3525479690), (62, 2690711309), (63, 3150582118), (64, 941364656), (65, 2541206067),
    (66, 2080198930), (67, 377805357), (68, 689590356), (69, 4076648720)] = [1461694780, 375780827,
    121876548, 4148342983, 657425689]"
  by (simp add: sha1_f_def sha1_k_def rotl_def)

lemma rounds0_70: "foldl sha1_round [1461694780, 375780827, 121876548, 4148342983, 657425689] [(70,
    1761271419), (71, 108508588), (72, 7421259), (73, 3444082812), (74, 555245160), (75, 2055864919), (76,
    3428109107), (77, 1947792937), (78, 337145123), (79, 3443370901)] = [3285275106, 1020273140, 1260232277,
    2279253401, 2122268940]"
  by (simp add: sha1_f_def sha1_k_def rotl_def)

lemma rounds0: "foldl sha1_round [1732584193, 4023233417, 2562383102, 271733878, 3285377520] (zip [0..<80]
    [0, 0, 0, 70, 1751216750, 1702065001, 2016309621, 1702065257, 1869491553, 1853060965, 1915713073,
    2147483648, 0, 0, 0, 352, 3738983106, 3706121798, 882641534, 2002670554, 2572409531, 1765284604,
    3225165724, 614969775, 1430927069, 3847425407, 3291061184, 1143523855, 4160860040, 1512243385,
    3046186658, 8512002, 3394424241, 4143275139, 3536802318, 540581169, 2939579480, 2330457033, 29316516,
    3699795220, 2746033867, 2892209326, 1690437284, 993845913, 2643100600, 1762537389, 2323695708,
    1861267547, 2759667123, 3764202113, 4019654994, 1799177124, 2797412747, 2716946501, 2271211822,
    1901121749, 2244393779, 3770370865, 3474884918, 2039638855, 2719498940, 3525479690, 2690711309,
    3150582118, 941364656, 2541206067, 2080198930, 377805357, 689590356, 4076648720, 1761271419, 108508588,
    7421259, 3444082812, 555245160, 2055864919, 3428109107, 1947792937, 337145123, 3443370901]) =
    [3285275106, 1020273140, 1260232277, 2279253401, 2122268940]"
proof -
  have split: "zip [0..<80] ([0, 0, 0, 70, 1751216750, 1702065001, 2016309621, 1702065257, 1869491553,
      1853060965, 1915713073, 2147483648, 0, 0, 0, 352, 3738983106, 3706121798, 882641534, 2002670554,
      2572409531, 1765284604, 3225165724, 614969775, 1430927069, 3847425407, 3291061184, 1143523855,
      4160860040, 1512243385, 3046186658, 8512002, 3394424241, 4143275139, 3536802318, 540581169,
      2939579480, 2330457033, 29316516, 3699795220, 2746033867, 2892209326, 1690437284, 993845913,
      2643100600, 1762537389, 2323695708, 1861267547, 2759667123, 3764202113, 4019654994, 1799177124,
      2797412747, 2716946501, 2271211822, 1901121749, 2244393779, 3770370865, 3474884918, 2039638855,
      2719498940, 3525479690, 2690711309, 3150582118, 941364656, 2541206067, 2080198930, 377805357,
      689590356, 4076648720, 1761271419, 108508588, 7421259, 3444082812, 555245160, 2055864919, 3428109107,
      1947792937, 337145123, 3443370901] :: u32 list) = [(0, 0), (1, 0), (2, 0), (3, 70), (4, 1751216750),
      (5, 1702065001), (6, 2016309621), (7, 1702065257), (8, 1869491553), (9, 1853060965)]@ [(10,
      1915713073), (11, 2147483648), (12, 0), (13, 0), (14, 0), (15, 352), (16, 3738983106), (17,
      3706121798), (18, 882641534), (19, 2002670554)]@ [(20, 2572409531), (21, 1765284604), (22,
      3225165724), (23, 614969775), (24, 1430927069), (25, 3847425407), (26, 3291061184), (27, 1143523855),
      (28, 4160860040), (29, 1512243385)]@ [(30, 3046186658), (31, 8512002), (32, 3394424241), (33,
      4143275139), (34, 3536802318), (35, 540581169), (36, 2939579480), (37, 2330457033), (38, 29316516),
      (39, 3699795220)]@ [(40, 2746033867), (41, 2892209326), (42, 1690437284), (43, 993845913), (44,
      2643100600), (45, 1762537389), (46, 2323695708), (47, 1861267547), (48, 2759667123), (49,
      3764202113)]@ [(50, 4019654994), (51, 1799177124), (52, 2797412747), (53, 2716946501), (54,
      2271211822), (55, 1901121749), (56, 2244393779), (57, 3770370865), (58, 3474884918), (59,
      2039638855)]@ [(60, 2719498940), (61, 3525479690), (62, 2690711309), (63, 3150582118), (64,
      941364656), (65, 2541206067), (66, 2080198930), (67, 377805357), (68, 689590356), (69, 4076648720)]@
      [(70, 1761271419), (71, 108508588), (72, 7421259), (73, 3444082812), (74, 555245160), (75,
      2055864919), (76, 3428109107), (77, 1947792937), (78, 337145123), (79, 3443370901)]"
    unfolding upt80 by simp
  show ?thesis
    unfolding split foldl_append rounds0_0 rounds0_10 rounds0_20 rounds0_30 rounds0_40 rounds0_50 rounds0_60
        rounds0_70 ..
qed


lemma hash0: "sha1_words (map char_of (be_bytes 16 70) @ ''harnessix.question-answer/v1'') = [722892003,
    748539261, 3822615379, 2550987279, 1112679164]"
  unfolding sha1_words_def blocks0 foldl.simps sha1_block_def rev0 schedule0 rounds0
  by simp

lemma uuid0: "uuid5 70 ''harnessix.question-answer/v1'' = 57273405107753646358016104044056869391"
  by (simp add: uuid5_def hash0 Let_def)

section \<open>The item of the result\<close>

lemma pad1: "sha_pad (map char_of (be_bytes 16 70) @ ''harnessix.question-result/v1'') = [0, 0, 0, 0, 0, 0,
    0, 0, 0, 0, 0, 0, 0, 0, 0, 70, 104, 97, 114, 110, 101, 115, 115, 105, 120, 46, 113, 117, 101, 115, 116,
    105, 111, 110, 45, 114, 101, 115, 117, 108, 116, 47, 118, 49, 128, 0, 0, 0, 0, 0, 0, 0, 0, 0, 0, 0, 0,
    0, 0, 0, 0, 0, 1, 96]"
  by (simp add: sha_words_simps)

lemma blocks1: "message_blocks (map char_of (be_bytes 16 70) @ ''harnessix.question-result/v1'') = [[0, 0,
    0, 70, 1751216750, 1702065001, 2016309621, 1702065257, 1869491570, 1702065516, 1949267505, 2147483648,
    0, 0, 0, 352]]"
  by (simp add: message_blocks_def pad1)

lemma schedule1: "rev (grow sha1_next 64 [352, 0, 0, 0, 2147483648, 1949267505, 1702065516, 1869491570,
    1702065257, 2016309621, 1702065001, 1751216750, 70, 0, 0, 0]) = [0, 0, 0, 70, 1751216750, 1702065001,
    2016309621, 1702065257, 1869491570, 1702065516, 1949267505, 2147483648, 0, 0, 0, 352, 3738983140,
    3404130900, 949750398, 2002670486, 3042169503, 1899502332, 3225165602, 1789371893, 1766471351,
    3746758709, 1277801332, 1009306179, 3556877652, 2049135056, 1167138570, 3900823338, 3931271163,
    1324699130, 1389328766, 2688145829, 3744877095, 1726426958, 2579357300, 75919771, 1403882221,
    1751561200, 2629975435, 1799328183, 1300268818, 3507431550, 3129114212, 3739539635, 1954506796,
    2018554774, 2680138947, 3007061729, 3870769582, 1503900880, 2270980153, 2842081004, 3311851317,
    4172018641, 3476504941, 2564087867, 3527185939, 855509729, 2733325461, 3151796149, 951071350, 576242791,
    465991530, 2515988728, 589232071, 3019571055, 3931039426, 2451458719, 37140099, 1355965087, 698864919,
    2077579586, 104234940, 654274136, 394355398, 458804706]"
  by (simp add: grow_numeral sha1_next_def rotl_def)

lemma rev1: "rev [0, 0, 0, 70, 1751216750, 1702065001, 2016309621, 1702065257, 1869491570, 1702065516,
    1949267505, 2147483648, 0, 0, 0, 352] = [352, 0, 0, 0, 2147483648, 1949267505, 1702065516, 1869491570,
    1702065257, 2016309621, 1702065001, 1751216750, 70, 0, 0, 0]"
  by simp

lemma rounds1_0: "foldl sha1_round [1732584193, 4023233417, 2562383102, 271733878, 3285377520] [(0, 0), (1,
    0), (2, 0), (3, 70), (4, 1751216750), (5, 1702065001), (6, 2016309621), (7, 1702065257), (8,
    1869491570), (9, 1702065516)] = [2618677305, 4081166074, 1777423545, 660199923, 498848874]"
  by (simp add: sha1_f_def sha1_k_def rotl_def)

lemma rounds1_10: "foldl sha1_round [2618677305, 4081166074, 1777423545, 660199923, 498848874] [(10,
    1949267505), (11, 2147483648), (12, 0), (13, 0), (14, 0), (15, 352), (16, 3738983140), (17, 3404130900),
    (18, 949750398), (19, 2002670486)] = [4141178551, 1633924864, 2874199679, 1308573280, 3932369905]"
  by (simp add: sha1_f_def sha1_k_def rotl_def)

lemma rounds1_20: "foldl sha1_round [4141178551, 1633924864, 2874199679, 1308573280, 3932369905] [(20,
    3042169503), (21, 1899502332), (22, 3225165602), (23, 1789371893), (24, 1766471351), (25, 3746758709),
    (26, 1277801332), (27, 1009306179), (28, 3556877652), (29, 2049135056)] = [1785884218, 3399508642,
    3764274840, 1486765336, 2603508352]"
  by (simp add: sha1_f_def sha1_k_def rotl_def)

lemma rounds1_30: "foldl sha1_round [1785884218, 3399508642, 3764274840, 1486765336, 2603508352] [(30,
    1167138570), (31, 3900823338), (32, 3931271163), (33, 1324699130), (34, 1389328766), (35, 2688145829),
    (36, 3744877095), (37, 1726426958), (38, 2579357300), (39, 75919771)] = [1289844968, 3903702388,
    3424260761, 3620674653, 310646928]"
  by (simp add: sha1_f_def sha1_k_def rotl_def)

lemma rounds1_40: "foldl sha1_round [1289844968, 3903702388, 3424260761, 3620674653, 310646928] [(40,
    1403882221), (41, 1751561200), (42, 2629975435), (43, 1799328183), (44, 1300268818), (45, 3507431550),
    (46, 3129114212), (47, 3739539635), (48, 1954506796), (49, 2018554774)] = [210085565, 3838189616,
    1441787047, 1853144762, 2229749398]"
  by (simp add: sha1_f_def sha1_k_def rotl_def)

lemma rounds1_50: "foldl sha1_round [210085565, 3838189616, 1441787047, 1853144762, 2229749398] [(50,
    2680138947), (51, 3007061729), (52, 3870769582), (53, 1503900880), (54, 2270980153), (55, 2842081004),
    (56, 3311851317), (57, 4172018641), (58, 3476504941), (59, 2564087867)] = [684500752, 1574538128,
    3409695562, 1803555154, 3751795552]"
  by (simp add: sha1_f_def sha1_k_def rotl_def)

lemma rounds1_60: "foldl sha1_round [684500752, 1574538128, 3409695562, 1803555154, 3751795552] [(60,
    3527185939), (61, 855509729), (62, 2733325461), (63, 3151796149), (64, 951071350), (65, 576242791), (66,
    465991530), (67, 2515988728), (68, 589232071), (69, 3019571055)] = [3975723584, 2699279873, 2203778688,
    3989451665, 2381349376]"
  by (simp add: sha1_f_def sha1_k_def rotl_def)

lemma rounds1_70: "foldl sha1_round [3975723584, 2699279873, 2203778688, 3989451665, 2381349376] [(70,
    3931039426), (71, 2451458719), (72, 37140099), (73, 1355965087), (74, 698864919), (75, 2077579586), (76,
    104234940), (77, 654274136), (78, 394355398), (79, 458804706)] = [941490250, 1347449653, 1062488663,
    3967068546, 3233267194]"
  by (simp add: sha1_f_def sha1_k_def rotl_def)

lemma rounds1: "foldl sha1_round [1732584193, 4023233417, 2562383102, 271733878, 3285377520] (zip [0..<80]
    [0, 0, 0, 70, 1751216750, 1702065001, 2016309621, 1702065257, 1869491570, 1702065516, 1949267505,
    2147483648, 0, 0, 0, 352, 3738983140, 3404130900, 949750398, 2002670486, 3042169503, 1899502332,
    3225165602, 1789371893, 1766471351, 3746758709, 1277801332, 1009306179, 3556877652, 2049135056,
    1167138570, 3900823338, 3931271163, 1324699130, 1389328766, 2688145829, 3744877095, 1726426958,
    2579357300, 75919771, 1403882221, 1751561200, 2629975435, 1799328183, 1300268818, 3507431550,
    3129114212, 3739539635, 1954506796, 2018554774, 2680138947, 3007061729, 3870769582, 1503900880,
    2270980153, 2842081004, 3311851317, 4172018641, 3476504941, 2564087867, 3527185939, 855509729,
    2733325461, 3151796149, 951071350, 576242791, 465991530, 2515988728, 589232071, 3019571055, 3931039426,
    2451458719, 37140099, 1355965087, 698864919, 2077579586, 104234940, 654274136, 394355398, 458804706]) =
    [941490250, 1347449653, 1062488663, 3967068546, 3233267194]"
proof -
  have split: "zip [0..<80] ([0, 0, 0, 70, 1751216750, 1702065001, 2016309621, 1702065257, 1869491570,
      1702065516, 1949267505, 2147483648, 0, 0, 0, 352, 3738983140, 3404130900, 949750398, 2002670486,
      3042169503, 1899502332, 3225165602, 1789371893, 1766471351, 3746758709, 1277801332, 1009306179,
      3556877652, 2049135056, 1167138570, 3900823338, 3931271163, 1324699130, 1389328766, 2688145829,
      3744877095, 1726426958, 2579357300, 75919771, 1403882221, 1751561200, 2629975435, 1799328183,
      1300268818, 3507431550, 3129114212, 3739539635, 1954506796, 2018554774, 2680138947, 3007061729,
      3870769582, 1503900880, 2270980153, 2842081004, 3311851317, 4172018641, 3476504941, 2564087867,
      3527185939, 855509729, 2733325461, 3151796149, 951071350, 576242791, 465991530, 2515988728, 589232071,
      3019571055, 3931039426, 2451458719, 37140099, 1355965087, 698864919, 2077579586, 104234940, 654274136,
      394355398, 458804706] :: u32 list) = [(0, 0), (1, 0), (2, 0), (3, 70), (4, 1751216750), (5,
      1702065001), (6, 2016309621), (7, 1702065257), (8, 1869491570), (9, 1702065516)]@ [(10, 1949267505),
      (11, 2147483648), (12, 0), (13, 0), (14, 0), (15, 352), (16, 3738983140), (17, 3404130900), (18,
      949750398), (19, 2002670486)]@ [(20, 3042169503), (21, 1899502332), (22, 3225165602), (23,
      1789371893), (24, 1766471351), (25, 3746758709), (26, 1277801332), (27, 1009306179), (28, 3556877652),
      (29, 2049135056)]@ [(30, 1167138570), (31, 3900823338), (32, 3931271163), (33, 1324699130), (34,
      1389328766), (35, 2688145829), (36, 3744877095), (37, 1726426958), (38, 2579357300), (39, 75919771)]@
      [(40, 1403882221), (41, 1751561200), (42, 2629975435), (43, 1799328183), (44, 1300268818), (45,
      3507431550), (46, 3129114212), (47, 3739539635), (48, 1954506796), (49, 2018554774)]@ [(50,
      2680138947), (51, 3007061729), (52, 3870769582), (53, 1503900880), (54, 2270980153), (55, 2842081004),
      (56, 3311851317), (57, 4172018641), (58, 3476504941), (59, 2564087867)]@ [(60, 3527185939), (61,
      855509729), (62, 2733325461), (63, 3151796149), (64, 951071350), (65, 576242791), (66, 465991530),
      (67, 2515988728), (68, 589232071), (69, 3019571055)]@ [(70, 3931039426), (71, 2451458719), (72,
      37140099), (73, 1355965087), (74, 698864919), (75, 2077579586), (76, 104234940), (77, 654274136), (78,
      394355398), (79, 458804706)]"
    unfolding upt80 by simp
  show ?thesis
    unfolding split foldl_append rounds1_0 rounds1_10 rounds1_20 rounds1_30 rounds1_40 rounds1_50 rounds1_60
        rounds1_70 ..
qed


lemma hash1: "sha1_words (map char_of (be_bytes 16 70) @ ''harnessix.question-result/v1'') = [2674074443,
    1075715774, 3624871765, 4238802424, 2223677418]"
  unfolding sha1_words_def blocks1 foldl.simps sha1_block_def rev1 schedule1 rounds1
  by simp

lemma uuid1: "uuid5 70 ''harnessix.question-result/v1'' = 211862004565088643926662306084531142136"
  by (simp add: uuid5_def hash1 Let_def)

text \<open>Every UUIDv5 carries its version, so it is no small number.\<close>

lemma uuid5_large: "5 * 2 ^ 76 \<le> uuid5 ns name"
  by (simp add: uuid5_def Let_def)

end
