(* ===== verification/Asking_Run.thy ===== *)
theory Asking_Run
  imports Transcripts
begin

text \<open>
  A transcript that ends in a Turn waiting for the answer to a question.
\<close>

section \<open>A Turn that asks\<close>

definition ask_call :: tool_call_content where
  "ask_call = \<lparr>tc_call_id = 50, tc_provider_call_id = ''p'', tc_tool = ''ask_user'', tc_tool_version = ''1'',
     tc_effect_class = READ_ONLY, tc_arguments = JObj [], tc_requires_approval = False,
     tc_tool_fingerprint = Some some_digest\<rparr>"

definition asking_turn :: "event_payload list" where
  "asking_turn =
     [TurnStarted (turn_request ''a'')] @ published 10 (said User_message ''hi'')
     @ [moved Ts_PREPARING_CONTEXT, moved Ts_CALLING_MODEL] @ sampled 20 1
     @ published 11 (ToolCall ask_call) @ [recorded 1, moved Ts_EXECUTING_TOOLS]
     @ published 12 (QuestionRequest \<lparr>qr_question_id = 70, qr_call_id = 50, qr_question = ''which'', qr_options = []\<rparr>)
     @ [moved Ts_WAITING_INPUT]"

definition asking_run :: "agent_event list" where
  "asking_run = creation # events_from 2 (Some 7) asking_turn"

lemmas asking_defs = asking_run_def asking_turn_def ask_call_def

lemma asking_run_ok: "list_all event_ok asking_run"
  by (simp add: asking_defs run_defs valid_defs question_ok_def Let_def)

lemmas asking_simps = run_simps asking_defs waiting_input_guard_def start_question_def questions_for_def

definition settled_item :: "uuid \<Rightarrow> item_content \<Rightarrow> item" where
  "settled_item i c = \<lparr>item_id = i, i_status = Is_COMPLETED, i_content = c, i_error = None\<rparr>"

definition asking_turn_ok :: "turn \<Rightarrow> bool" where
  "asking_turn_ok t \<longleftrightarrow> turn_id t = 7 \<and> t_status t = Ts_WAITING_INPUT \<and> t_created_at t = 2000000
     \<and> t_budget t = small_budget
     \<and> t_items t = [settled_item 10 (said User_message ''hi''), settled_item 11 (ToolCall ask_call),
         settled_item 12 (QuestionRequest \<lparr>qr_question_id = 70, qr_call_id = 50, qr_question = ''which'', qr_options = []\<rparr>)]"

lemma asking_yields:
  "yields (\<lambda>th. thread_id th = 1 \<and> th_compaction_windows th = [] \<and> th_archive th = None \<and> th_sequence th = 16
      \<and> list_all asking_turn_ok (th_turns th) \<and> length (th_turns th) = 1) (replay no_wire asking_run)"
  by (simp add: replay_def asking_simps asking_turn_ok_def settled_item_def del: bindE_Inr
      cong: bindE_weak require_weak check_weak yields_weak)

lemma asking_facts:
  obtains t where "replay no_wire asking_run = Inr (thread_of asking_run)"
    "thread_id (thread_of asking_run) = 1" "th_compaction_windows (thread_of asking_run) = []"
    "th_archive (thread_of asking_run) = None" "th_sequence (thread_of asking_run) = 16"
    "th_turns (thread_of asking_run) = [t]" "asking_turn_ok t"
proof -
  note run = yields_thread_of [OF asking_yields]
  from run obtain t where "th_turns (thread_of asking_run) = [t]" "asking_turn_ok t"
    by (auto simp: length_Suc_conv)
  with run show ?thesis by (intro that) auto
qed

text \<open>Nothing but the question is open in the Turn.\<close>

lemma asking_idle_yields:
  "yields (\<lambda>th. th_active_turn_id th = Some 7
      \<and> list_all (\<lambda>t. t_compactions t = [] \<and> list_all (\<lambda>a. a_status a \<noteq> At_running) (t_model_attempts t)) (th_turns th))
    (replay no_wire asking_run)"
  by (simp add: replay_def asking_simps del: bindE_Inr cong: bindE_weak require_weak check_weak yields_weak)

lemmas asking_idle = yields_thread_of [OF asking_idle_yields, THEN conjunct2]

text \<open>The batch of an answer, with two fresh item identities.\<close>

definition answer_event :: "nat \<Rightarrow> event_payload \<Rightarrow> agent_event" where
  "answer_event k p = \<lparr>schema_version = 22, event_id = 5000 + k, e_turn_id = Some 7, occurred_at = 30000000,
     payload = p, e_thread_id = 1, e_sequence = 17 + k\<rparr>"

definition answer_content :: item_content where
  "answer_content = QuestionAnswer \<lparr>qa_question_id = 70, qa_call_id = 50, qa_answer = ''this''\<rparr>"

definition answer_outcome :: item_content where
  "answer_outcome = ToolResult \<lparr>tr_call_id = 50, tr_outcome = Oc_succeeded,
     tr_output = JObj [(''answer'', JStr ''this'')], tr_error = None, tr_action_id = None, tr_patch = None,
     tr_patch_batch = None, tr_process = None, tr_trusted_action = None, tr_diff_artifact = None\<rparr>"

definition answering :: "uuid \<Rightarrow> uuid \<Rightarrow> agent_event list" where
  "answering a b =
     [answer_event 0 (ItemStarted a answer_content),
      answer_event 1 (ItemFinished \<lparr>fi_item_id = a, fi_status = Is_COMPLETED, fi_content = answer_content, fi_error = None\<rparr>),
      answer_event 2 (moved Ts_EXECUTING_TOOLS),
      answer_event 3 (ItemStarted b answer_outcome),
      answer_event 4 (ItemFinished \<lparr>fi_item_id = b, fi_status = Is_COMPLETED, fi_content = answer_outcome, fi_error = None\<rparr>)]"

lemmas answering_simps = asking_simps answering_def answer_event_def answer_content_def answer_outcome_def
  start_answer_def answers_for_def

lemma answered_replays:
  assumes "a \<noteq> b" "a \<noteq> 10" "a \<noteq> 11" "a \<noteq> 12" "b \<noteq> 10" "b \<noteq> 11" "b \<noteq> 12"
  shows "\<not> isl (replay no_wire (asking_run @ answering a b))"
  using assms by (simp add: replay_def answering_simps del: bindE_Inr cong: bindE_weak require_weak check_weak)

text \<open>A message that arrives while the Turn waits, and a Thread that is archived unused.\<close>

definition steering :: "uuid \<Rightarrow> agent_event list" where
  "steering a =
     [answer_event 0 (ItemStarted a (said User_message ''more'')),
      answer_event 1 (ItemFinished \<lparr>fi_item_id = a, fi_status = Is_COMPLETED,
        fi_content = said User_message ''more'', fi_error = None\<rparr>)]"

lemma steering_replays:
  assumes "a \<noteq> 10" "a \<noteq> 11" "a \<noteq> 12"
  shows "\<not> isl (replay no_wire (asking_run @ steering a))"
  using assms
  by (simp add: replay_def answering_simps steering_def del: bindE_Inr cong: bindE_weak require_weak check_weak)

definition unused_run :: "agent_event list" where
  "unused_run = [creation]"

lemma unused_yields:
  "yields (\<lambda>th. thread_id th = 1 \<and> th_compaction_windows th = [] \<and> th_archive th = None \<and> th_sequence th = 1
     \<and> th_active_turn_id th = None) (replay no_wire unused_run)"
  by (simp add: replay_def unused_run_def run_simps del: bindE_Inr cong: bindE_weak require_weak check_weak yields_weak)

lemma unused_facts:
  "replay no_wire unused_run = Inr (thread_of unused_run)" "thread_id (thread_of unused_run) = 1"
  "th_compaction_windows (thread_of unused_run) = []" "th_archive (thread_of unused_run) = None"
  "th_sequence (thread_of unused_run) = 1" "th_active_turn_id (thread_of unused_run) = None"
  using yields_thread_of [OF unused_yields] by auto

lemma unused_archived: "\<not> isl (replay no_wire (unused_run @ [event 2 None (ThreadArchived None)]))"
  by (simp add: replay_def unused_run_def run_simps del: bindE_Inr cong: bindE_weak require_weak check_weak)

lemma unused_run_ok: "list_all event_ok unused_run"
  by (simp add: unused_run_def run_defs valid_defs Let_def)

end
