(* ===== verification/Stored_Runs.thy ===== *)
theory Stored_Runs
  imports Running_Requests Known_Identities Asking_Run
begin

text \<open>
  Concrete stores for the requests: any replayed transcript, written with the plain encoding, is a store
  that represents it. The run below ends in a Turn that waits for the answer to a question.
\<close>

section \<open>Writing a transcript\<close>

definition plain_store :: "agent_event list \<Rightarrow> (agent_event + thread) session_store" where
  "plain_store es = \<lparr>s_events = map (event_row_of plain_codec) es,
     s_threads = [projection_row plain_codec (thread_of es)]\<rparr>"

lemma replay_distinct:
  assumes "foldE (replay_step W) (t, seen) es = Inr (t', seen')" "distinct seen"
  shows "distinct seen'"
  using assms by (induction es arbitrary: t seen) (auto simp: replay_step_Inr)

lemma plain_store_represents:
  assumes run: "replay no_wire es = Inr (thread_of es)" and ok: "list_all event_ok es"
    and current: "list_all (\<lambda>e. schema_version e = 22) es" and no_fork: "forked_from es = None"
    and id: "thread_id (thread_of es) = tid"
  shows "represents plain_codec no_wire (plain_store es) ((\<lambda>_. [])(tid := es))"
proof -
  from run have "distinct (rev (map event_id es))"
    unfolding replay_run using replay_distinct by (metis distinct.simps(1))
  then have dist: "distinct (map er_event (s_events (plain_store es)))" by (simp add: plain_store_def comp_def)
  from replay_positions(3) [OF run] id have ids: "list_all (\<lambda>e. e_thread_id e = tid) es" by simp
  have rows: "rows_of (plain_store es) i = (if i = tid then map (event_row_of plain_codec) es else [])" for i
    using ids by (auto simp: rows_of_def plain_store_def filter_map comp_def list_all_iff filter_empty_conv filter_id_conv)
  have form: "list_all (stored_form plain_codec) es"
    using ok current by (auto simp: list_all_iff stored_form_def plain_codec_def legacy_event_def)
  have "th_fork_snapshot (thread_of es) = None" using replay_fork [OF run] no_fork by simp
  then have "provenance plain_codec no_wire ((\<lambda>_. [])(tid := es)) (\<lambda>_. 0)"
    using run by (auto simp: provenance_def replay_Nil)
  then show ?thesis
    using plain_codec_ok dist rows form run id replay_positions(4) [OF run]
    by (auto simp: represents_def events_represent_def projections_represent_def plain_store_def thread_row_of_def)
qed

lemma plain_readable:
  assumes "replay no_wire es = Inr th" "list_all event_ok es" "th_compaction_windows th = []"
  shows "readable plain_codec th"
proof -
  from reachable_chain [OF replay_reachable [OF assms(1,2)]] assms have "thread_ok th"
    by (simp add: thread_ok_def chain_inv_def replay_run)
  then show ?thesis by (simp add: readable_def load_thread_def plain_codec_def)
qed

lemma plain_freeze:
  assumes "list_all draft_ok ds" "list_all (\<lambda>d. legacy_draft d = d) ds" "ds \<noteq> []" "distinct (map d_event_id ds)"
  shows "freeze_batch plain_codec ds = Inr ds"
proof -
  have "freeze_draft plain_codec d = Some d" if "d \<in> set ds" for d
    using assms(1,2) that by (auto simp: freeze_draft_def plain_codec_def list_all_iff)
  then have "map (freeze_draft plain_codec) ds = map Some ds" by (intro map_cong refl) simp
  then have "those (map (freeze_draft plain_codec) ds) = Some ds" by (simp add: those_Some)
  with assms(3,4) show ?thesis by (simp add: freeze_batch_def)
qed

lemma stamped_all_current: "list_all (\<lambda>d. legacy_draft d = d) (stamped H turn i k ps)"
  using stamped_current by (auto simp: list_all_iff)

text \<open>A batch the reducer accepts after a transcript is committed to the store of that transcript.\<close>

lemma plain_commits:
  assumes run: "replay no_wire es = Inr (thread_of es)" and ok: "list_all event_ok es"
    and current: "list_all (\<lambda>e. schema_version e = 22) es" and no_fork: "forked_from es = None"
    and id: "thread_id (thread_of es) = tid" and windows: "th_compaction_windows (thread_of es) = []"
    and clean: "clean_drafts plain_codec (plain_store es) ds" and batch: "\<not> list_ex is_fork ds"
    and more: "replay no_wire (es @ positioned tid (th_sequence (thread_of es)) ds) = Inr th'"
  obtains s' where "commit plain_codec no_wire (plain_store es) tid ds (th_sequence (thread_of es)) = Inr (th', s')"
    "get_thread plain_codec (plain_store es) tid = Inr (thread_of es)"
proof -
  note rep = plain_store_represents [OF run ok current no_fork id]
  from plain_readable [OF run ok windows] have readable: "readable plain_codec (thread_of es)" .
  from clean have fb: "freeze_batch plain_codec ds = Inr ds"
      "list_all (\<lambda>d. event_row_with (plain_store es) (d_event_id d) = None) ds"
    by (simp_all add: clean_drafts_def)
  have hist: "((\<lambda>_. [])(tid := es)) tid = es" by simp
  have "list_all event_ok (positioned tid n ds)" if "list_all (frozen_draft plain_codec) ds" for n
    using that
  proof (induction ds arbitrary: n)
    case (Cons d ds)
    from Cons.prems have d: "frozen_draft plain_codec d" "list_all (frozen_draft plain_codec) ds" by simp_all
    from d(1) have "draft_ok d" by (auto simp: frozen_draft_def)
    with frozen_legacy [OF d(1)] Cons.IH [OF d(2)] show ?case by (simp add: event_ok_at_position)
  qed simp
  with ok freeze_batch_Inr(1) [OF fb(1)]
  have ok': "list_all event_ok (es @ positioned tid (th_sequence (thread_of es)) ds)" by simp
  from replay_continues(2) [OF run more ok'] have "foldE (apply_to_thread no_wire) (thread_of es)
      (positioned tid (th_sequence (thread_of es)) ds) = Inr th'" by (rule accept_run)
  moreover have "require_closed_rejections th' = Inr ()" using more by (simp add: replay_run)
  ultimately obtain s' where "append_events plain_codec no_wire (plain_store es) tid ds (th_sequence (thread_of es)) = Inr (th', True, s')"
    using append_commits [OF rep _ readable fb(1) batch fb(2)] run hist by metis
  moreover have "get_thread plain_codec (plain_store es) tid = Inr (thread_of es)"
    using read_snapshot_present [OF rep] run readable by (simp add: get_thread_def)
  ultimately show ?thesis by (intro that) (simp_all add: commit_def)
qed

end
