(* ===== verification/Settled_Requests.thy ===== *)
theory Settled_Requests
  imports Stored_Runs
begin

text \<open>
  What a client of a running Turn may rely on: a steering message and an answer are recorded once, and an
  archived Thread is final. The examples run on the transcripts of Asking_Run, written to a store.
\<close>

section \<open>Concrete requests\<close>

definition answering_host :: host where
  "answering_host = \<lparr>h_new_id = (\<lambda>n. 5000 + n), h_utc_now = (\<lambda>n. 30000000)\<rparr>"

lemma asking_events:
  "list_all (\<lambda>e. schema_version e = 22) asking_run" "forked_from asking_run = None"
  by (simp_all add: asking_defs run_defs forked_from_def)

lemma stored_drafts_clean:
  assumes "list_all draft_ok (stamped H turn i k ps)" "distinct (map d_event_id (stamped H turn i k ps))" "ps \<noteq> []"
    and "list_all (\<lambda>d. d_event_id d \<notin> event_id ` set es) (stamped H turn i k ps)"
  shows "clean_drafts plain_codec (plain_store es) (stamped H turn i k ps)"
proof -
  have "stamped H turn i k ps \<noteq> []" using assms(3) by (cases ps) simp_all
  moreover have "event_row_with (plain_store es) j = None" if "j \<notin> event_id ` set es" for j
    using that by (auto simp: event_row_with_def plain_store_def find_None_iff event_row_of_def)
  ultimately show ?thesis
    using plain_freeze [OF assms(1) stamped_all_current _ assms(2)] assms(4)
    by (simp add: clean_drafts_def list_all_iff)
qed

lemma positioned_stamped:
  "positioned tid n (stamped H turn i k (p # ps)) =
     \<lparr>schema_version = 22, event_id = h_new_id H i, e_turn_id = turn, occurred_at = h_utc_now H k, payload = p,
      e_thread_id = tid, e_sequence = n + 1\<rparr> # positioned tid (n + 1) (stamped H turn (i + 1) (k + 1) ps)"
  by (simp add: at_position_def legacy_draft_def)

definition asking_store :: "(agent_event + thread) session_store" where
  "asking_store = plain_store asking_run"

lemma asking_represents: "represents plain_codec no_wire asking_store ((\<lambda>_. [])(1 := asking_run))"
  unfolding asking_store_def
  by (rule asking_facts) (intro plain_store_represents asking_run_ok asking_events, auto)

lemma asking_commits:
  assumes clean: "clean_drafts plain_codec asking_store ds" and batch: "\<not> list_ex is_fork ds"
    and more: "\<not> isl (replay no_wire (asking_run @ positioned 1 16 ds))"
  obtains th' s' t where "commit plain_codec no_wire asking_store 1 ds 16 = Inr (th', s')"
    "get_thread plain_codec asking_store 1 = Inr (thread_of asking_run)"
    "get_turn (thread_of asking_run) 7 = Inr t" "asking_turn_ok t" "th_sequence (thread_of asking_run) = 16"
    "\<exists>t'. get_turn th' 7 = Inr t'"
proof -
  obtain t where f: "replay no_wire asking_run = Inr (thread_of asking_run)"
    "thread_id (thread_of asking_run) = 1" "th_compaction_windows (thread_of asking_run) = []"
    "th_archive (thread_of asking_run) = None" "th_sequence (thread_of asking_run) = 16"
    "th_turns (thread_of asking_run) = [t]" "asking_turn_ok t" by (rule asking_facts)
  from more obtain th' where "replay no_wire (asking_run @ positioned 1 16 ds) = Inr th'"
    by (cases "replay no_wire (asking_run @ positioned 1 16 ds)") simp_all
  then have more': "replay no_wire (asking_run @ positioned 1 (th_sequence (thread_of asking_run)) ds) = Inr th'"
    using f(5) by simp
  obtain s' where "commit plain_codec no_wire asking_store 1 ds 16 = Inr (th', s')"
      "get_thread plain_codec asking_store 1 = Inr (thread_of asking_run)"
    using plain_commits [OF f(1) asking_run_ok asking_events f(2,3) clean [unfolded asking_store_def] batch more'] f(5)
    unfolding asking_store_def by metis
  moreover from f(6,7) have get: "get_turn (thread_of asking_run) 7 = Inr t"
    by (simp add: get_turn_def asking_turn_ok_def)
  moreover obtain hist' where "reachable no_wire (thread_of asking_run)"
      "foldE (accept_event no_wire) (Some (thread_of asking_run))
        (positioned 1 (th_sequence (thread_of asking_run)) ds) = Inr (Some th')"
    by (rule committed_run [OF asking_represents clean _ calculation(1)]) (use f(1) in simp_all)
  then have "thread_extends (thread_of asking_run) th'" by (rule extends_from_step)
  ultimately show ?thesis using f(5,7) get_turn_extended [OF _ get] that by blast
qed

lemma steering_clean: "clean_drafts plain_codec asking_store (steering_drafts answering_host 7 ''more'' ''s'')"
  unfolding asking_store_def steering_drafts_def
  by (rule stored_drafts_clean)
    (auto simp: published_item_def answering_host_def asking_defs run_defs draft_ok_def payload_ok_def user_text_def item_content_ok_def
        py_len_def is_continuation_def byte_of_def boundary_defs)

lemma asking_steered:
  obtains t s' where "steer_turn plain_codec no_wire answering_host asking_store 1 7 ''more'' ''s'' = Inr (t, s')"
proof -
  let ?ds = "steering_drafts answering_host 7 ''more'' ''s''" and ?iid = "steering_item_id 7 ''s''"
  have big: "?iid \<noteq> 10" "?iid \<noteq> 11" "?iid \<noteq> 12"
    using uuid5_large [of 7 "''harnessix.turn-steering/v1:'' @ ''s''"] by (auto simp: steering_item_id_def)
  have pos: "positioned 1 16 ?ds = steering ?iid"
    by (simp add: steering_drafts_def published_item_def steering_def answer_event_def answering_host_def at_position_def
        user_text_def said_def positioned_stamped del: positioned.simps stamped.simps) (simp add: numeral_eq_Suc)
  have nf: "\<not> list_ex is_fork ?ds" by (simp add: steering_drafts_def published_item_def is_fork_def)
  obtain th' s' t where c: "commit plain_codec no_wire asking_store 1 ?ds 16 = Inr (th', s')"
    "get_thread plain_codec asking_store 1 = Inr (thread_of asking_run)"
    "get_turn (thread_of asking_run) 7 = Inr t" "asking_turn_ok t" "th_sequence (thread_of asking_run) = 16"
    "\<exists>t'. get_turn th' 7 = Inr t'"
    by (rule asking_commits [OF steering_clean nf]) (use steering_replays [OF big] pos in metis)
  have ok: "list_all draft_ok ?ds"
    by (simp add: steering_drafts_def published_item_def draft_ok_def payload_ok_def user_text_def item_content_ok_def
        py_len_def is_continuation_def byte_of_def boundary_defs)
  from c(6) obtain t' where t': "get_turn th' 7 = Inr t'" by blast
  have "find (\<lambda>i. item_id i = ?iid) (t_items t) = None"
    using c(4) big by (simp add: asking_turn_ok_def settled_item_def)
  with c ok t' have "steer_turn plain_codec no_wire answering_host asking_store 1 7 ''more'' ''s'' = Inr (t', s')"
    by (simp add: steer_turn_def Let_def new_drafts_def steering_drafts_def STEERABLE_def asking_turn_ok_def py_len_def
        is_continuation_def byte_of_def)
  then show ?thesis by (rule that)
qed

definition ask_tools :: tool_table where
  "ask_tools name = (if name = ''ask_user'' then Some \<lparr>td_version = ''1'', td_effect_class = READ_ONLY,
     td_requires_approval = False, td_fingerprint = some_digest\<rparr> else None)"

lemma answer_batch_ok: "list_all draft_ok (answer_drafts answering_host 7 70 50 ''this'')"
  by (simp add: answer_drafts_def question_answer_events_def published_item_def answered_result_def draft_ok_def
      payload_ok_def item_content_ok_def tool_result_ok_def independent_effects_def count_some_def question_ok_def
      py_len_def is_continuation_def byte_of_def boundary_defs)

lemma answer_batch_clean: "clean_drafts plain_codec asking_store (answer_drafts answering_host 7 70 50 ''this'')"
  unfolding asking_store_def answer_drafts_def
  by (rule stored_drafts_clean [OF answer_batch_ok [unfolded answer_drafts_def]])
    (auto simp: question_answer_events_def published_item_def answering_host_def asking_defs run_defs)

lemma asking_state:
  assumes "asking_turn_ok t"
  shows "t_status t = Ts_WAITING_INPUT" "pending_calls t = [ask_call]" "answers t 70 = []"
    "find (\<lambda>i. asked_by 70 i \<noteq> None) (t_items t) = Some (settled_item 12
       (QuestionRequest \<lparr>qr_question_id = 70, qr_call_id = 50, qr_question = ''which'', qr_options = []\<rparr>))"
    "remaining_us t 30000000 = 32000000"
  using assms
  by (simp_all add: asking_turn_ok_def settled_item_def said_def pending_calls_def completed_calls_def settled_calls_def
      answers_def answered_by_def asked_by_def List.map_filter_simps small_budget_def remaining_us_def deadline_def
      timedelta_us_def float_rat_def)

lemma asking_answered:
  obtains t s' u where "reply_question plain_codec no_wire answering_host ask_tools True asking_store 1 7 70 ''this'' = Inr (t, s')"
    "get_thread plain_codec asking_store 1 = Inr (thread_of asking_run)" "get_turn (thread_of asking_run) 7 = Inr u"
    "asking_turn_ok u"
proof -
  let ?ds = "answer_drafts answering_host 7 70 50 ''this''"
    and ?a = "uuid5 70 ''harnessix.question-answer/v1''" and ?b = "uuid5 70 ''harnessix.question-result/v1''"
  have pos: "positioned 1 16 ?ds = answering ?a ?b"
    by (simp add: answer_drafts_def question_answer_events_def published_item_def answering_def answer_event_def
        answer_content_def answer_outcome_def answered_result_def answering_host_def moved_def positioned_stamped
        del: positioned.simps stamped.simps) (simp add: numeral_eq_Suc)
  have nf: "\<not> list_ex is_fork ?ds"
    by (simp add: answer_drafts_def question_answer_events_def published_item_def is_fork_def)
  have more: "\<not> isl (replay no_wire (asking_run @ positioned 1 16 ?ds))"
    unfolding pos by (rule answered_replays) (simp_all add: uuid0 uuid1)
  obtain th' s' t where c: "commit plain_codec no_wire asking_store 1 ?ds 16 = Inr (th', s')"
    "get_thread plain_codec asking_store 1 = Inr (thread_of asking_run)"
    "get_turn (thread_of asking_run) 7 = Inr t" "asking_turn_ok t" "th_sequence (thread_of asking_run) = 16"
    "\<exists>t'. get_turn th' 7 = Inr t'"
    by (rule asking_commits [OF answer_batch_clean nf more])
  from c(6) obtain t' where t': "get_turn th' 7 = Inr t'" by blast
  note st = asking_state [OF c(4)]
  have len: "py_len ''this'' = 4" by (simp add: py_len_def is_continuation_def byte_of_def)
  have now: "h_utc_now answering_host 0 = 30000000" by (simp add: answering_host_def)
  have tool: "validate_tool_contract ask_tools ask_call = Inr ()" "tc_call_id ask_call = 50"
    by (simp_all add: validate_tool_contract_def ask_tools_def ask_call_def)
  have ask: "asked_by 70 (settled_item 12
      (QuestionRequest \<lparr>qr_question_id = 70, qr_call_id = 50, qr_question = ''which'', qr_options = []\<rparr>))
    = Some \<lparr>qr_question_id = 70, qr_call_id = 50, qr_question = ''which'', qr_options = []\<rparr>"
    by (simp add: asked_by_def settled_item_def)
  have none: "List.map_filter (answered_by 70) (t_items t) = []" using st(3) by (simp add: answers_def)
  have "reply_question plain_codec no_wire answering_host ask_tools True asking_store 1 7 70 ''this'' = Inr (t', s')"
    using c(1-3,5) t' st len now tool none ask answer_batch_ok
    by (simp add: reply_question_def settled_item_def new_drafts_answer)
  with c(2-4) show ?thesis by (intro that)
qed

section \<open>Archiving\<close>

definition archiving_host :: host where
  "archiving_host = \<lparr>h_new_id = (\<lambda>n. 1002), h_utc_now = (\<lambda>n. 2000000)\<rparr>"

definition unused_store :: "(agent_event + thread) session_store" where
  "unused_store = plain_store unused_run"

lemma unused_events:
  "list_all (\<lambda>e. schema_version e = 22) unused_run" "forked_from unused_run = None"
  by (simp_all add: unused_run_def run_defs forked_from_def)

lemma unused_represents: "represents plain_codec no_wire unused_store ((\<lambda>_. [])(1 := unused_run))"
  unfolding unused_store_def by (intro plain_store_represents unused_facts unused_run_ok unused_events)

lemma archive_clean: "clean_drafts plain_codec unused_store (stamped archiving_host None 0 0 [ThreadArchived None])"
  unfolding unused_store_def
  by (rule stored_drafts_clean)
    (auto simp: archiving_host_def unused_run_def run_defs draft_ok_def payload_ok_def reason_ok_def boundary_defs)

lemma unused_thread_archived:
  obtains th' s' where "archive_request plain_codec no_wire archiving_host unused_store 1 None = Inr (th', s')"
proof -
  let ?ds = "stamped archiving_host None 0 0 [ThreadArchived None]"
  have pos: "positioned 1 (th_sequence (thread_of unused_run)) ?ds = [event 2 None (ThreadArchived None)]"
    by (simp add: positioned_stamped archiving_host_def event_def unused_facts del: stamped.simps) simp
  have nf: "\<not> list_ex is_fork ?ds" by (simp add: is_fork_def)
  from unused_archived obtain th' where "replay no_wire (unused_run @ [event 2 None (ThreadArchived None)]) = Inr th'"
    by (cases "replay no_wire (unused_run @ [event 2 None (ThreadArchived None)])") simp_all
  then have more: "replay no_wire (unused_run @ positioned 1 (th_sequence (thread_of unused_run)) ?ds) = Inr th'"
    by (simp only: pos)
  obtain s' where "commit plain_codec no_wire unused_store 1 ?ds (th_sequence (thread_of unused_run)) = Inr (th', s')"
    "get_thread plain_codec unused_store 1 = Inr (thread_of unused_run)"
    using plain_commits [OF unused_facts(1) unused_run_ok unused_events unused_facts(2,3)
        archive_clean [unfolded unused_store_def] nf more] unfolding unused_store_def by metis
  moreover have "list_all draft_ok ?ds" by (simp add: draft_ok_def payload_ok_def reason_ok_def boundary_defs)
  ultimately have "archive_request plain_codec no_wire archiving_host unused_store 1 None = Inr (th', s')"
    by (simp add: archive_request_def unused_facts new_drafts_def)
  then show ?thesis by (rule that)
qed

section \<open>Properties\<close>

text \<open>C31. A steering message is recorded exactly once. When the request returns, the Turn holds the message as a
  completed item. A later request under the same identity, after any operations on the store, adds
  nothing: it returns a later state of the same Turn if the text is the same, is refused with
  \<^verbatim>\<open>steering_conflict\<close> only if the text differs, and otherwise only because the Turn is closed, the new
  text has an invalid length or the snapshot is refused.\<close>

theorem steering_recorded_once:
  assumes "represents K W s hist" and "steer_turn K W H s tid turn text request = Inr (t, s')"
    and "clean_drafts K s (steering_drafts H turn text request)"
  shows "list_ex (\<lambda>i. item_id i = steering_item_id turn request \<and> i_status i = Is_COMPLETED
        \<and> i_content i = user_text text) (t_items t)
    \<and> (case steer_turn K W H' (foldl (perform K W) s' cs) tid turn text' request of
        Inl e \<Rightarrow> e \<in> KernelError ` {''projection_corrupt'', ''steering_closed'', ''steering_invalid''}
          \<or> (e = KernelError ''steering_conflict'' \<and> text' \<noteq> text)
      | Inr (t', s'') \<Rightarrow> text' = text \<and> s'' = foldl (perform K W) s' cs \<and> turn_extends t t')"
proof -
  obtain i where "i \<in> set (t_items t)" "item_id i = steering_item_id turn request" "i_status i = Is_COMPLETED"
      "i_content i = user_text text"
    by (rule steered [OF assms])
  then have "list_ex (\<lambda>i. item_id i = steering_item_id turn request \<and> i_status i = Is_COMPLETED
        \<and> i_content i = user_text text) (t_items t)" by (auto simp: list_ex_iff)
  with steer_again [OF assms refl] show ?thesis by blast
qed

theorem steering_recorded_once_witness:
  "\<exists>t s'. steer_turn plain_codec no_wire answering_host asking_store 1 7 ''more'' ''s'' = Inr (t, s')
    \<and> list_ex (\<lambda>i. i_content i = user_text ''more'') (t_items t)
    \<and> \<not> (\<exists>t' s''. steer_turn plain_codec no_wire answering_host s' 1 7 ''other'' ''s'' = Inr (t', s''))"
proof -
  obtain t s' where run: "steer_turn plain_codec no_wire answering_host asking_store 1 7 ''more'' ''s'' = Inr (t, s')"
    by (rule asking_steered)
  from steering_recorded_once [OF asking_represents run steering_clean, where H' = answering_host and cs = "[]"
      and text' = "''other''"] run
  show ?thesis by (auto simp: list_ex_iff split: sum.splits)
qed

text \<open>C30. A question is answered exactly once. The first reply leaves the Turn executing tools with two completed
  items, the answer and the successful result of the call that asked. Every later reply to the
  question, after any operations on the store, adds nothing: it returns a later state of the Turn if
  the answer is the same, and is refused otherwise.\<close>

theorem question_answered_once:
  assumes "represents K W s hist" and "get_thread K s tid = Inr th" "get_turn th turn = Inr u"
    and "answers u question = []"
    and "reply_question K W H tools enabled s tid turn question answer = Inr (t, s')"
    and "clean_drafts K s (answer_drafts H turn question (tc_call_id (hd (pending_calls u))) answer)"
  shows "t_status t = Ts_EXECUTING_TOOLS
    \<and> done_item (uuid5 question ''harnessix.question-answer/v1'') (QuestionAnswer \<lparr>qa_question_id = question,
        qa_call_id = tc_call_id (hd (pending_calls u)), qa_answer = answer\<rparr>) \<in> set (t_items t)
    \<and> done_item (uuid5 question ''harnessix.question-result/v1'')
        (ToolResult (answered_result (tc_call_id (hd (pending_calls u))) answer)) \<in> set (t_items t)
    \<and> (case reply_question K W H' tools' enabled' (foldl (perform K W) s' cs) tid turn question answer' of
        Inl e \<Rightarrow> e \<in> KernelError ` {''projection_corrupt'', ''question_not_enabled'', ''question_answer_invalid''}
          \<or> (e = KernelError ''question_conflict'' \<and> answer' \<noteq> answer)
      | Inr (t', s'') \<Rightarrow> answer' = answer \<and> s'' = foldl (perform K W) s' cs \<and> turn_extends t t')"
proof -
  obtain hist' th' i q where h: "represents K W s' hist'" "replay W (hist' tid) = Inr th'" "get_turn th' turn = Inr t"
    and i: "i \<in> set (t_items t)" "i_status i = Is_COMPLETED" "asked_by question i = Some q"
    and t: "t_status t = Ts_EXECUTING_TOOLS"
      "done_item (uuid5 question ''harnessix.question-answer/v1'') (QuestionAnswer \<lparr>qa_question_id = question,
         qa_call_id = tc_call_id (hd (pending_calls u)), qa_answer = answer\<rparr>) \<in> set (t_items t)"
      "done_item (uuid5 question ''harnessix.question-result/v1'')
         (ToolResult (answered_result (tc_call_id (hd (pending_calls u))) answer)) \<in> set (t_items t)"
    by (rule first_answer [OF assms])
  let ?a = "\<lparr>qa_question_id = question, qa_call_id = tc_call_id (hd (pending_calls u)), qa_answer = answer\<rparr>"
  have "i_status (done_item j c) = Is_COMPLETED" "i_content (done_item j c) = c" for j c by simp_all
  from answer_again [OF h i t(2) this(1), where a = ?a and later = "foldl (perform K W) s' cs" and cs = cs
      and H' = H' and tools = tools' and enabled = enabled' and answer = answer'] t
  show ?thesis by (auto split: sum.splits)
qed

theorem question_answered_once_witness:
  "\<exists>t s'. reply_question plain_codec no_wire answering_host ask_tools True asking_store 1 7 70 ''this'' = Inr (t, s')
    \<and> t_status t = Ts_EXECUTING_TOOLS
    \<and> \<not> (\<exists>t' s''. reply_question plain_codec no_wire answering_host ask_tools True s' 1 7 70 ''that'' = Inr (t', s''))"
proof -
  obtain t s' u where run: "reply_question plain_codec no_wire answering_host ask_tools True asking_store 1 7 70 ''this'' = Inr (t, s')"
    "get_thread plain_codec asking_store 1 = Inr (thread_of asking_run)" "get_turn (thread_of asking_run) 7 = Inr u"
    "asking_turn_ok u"
    by (rule asking_answered)
  have call: "tc_call_id (hd (pending_calls u)) = 50" using asking_state(2) [OF run(4)] by (simp add: ask_call_def)
  from question_answered_once [OF asking_represents run(2,3) asking_state(3) [OF run(4)] run(1), unfolded call,
      OF answer_batch_clean, where H' = answering_host and tools' = ask_tools and enabled' = True and cs = "[]"
      and answer' = "''that''"] run(1)
  show ?thesis by (auto split: sum.splits)
qed

text \<open>C32. Archiving is final. An archived Thread has no active Turn, and after any operations on the store it reads
  back as exactly the Thread the request returned, or not at all; archiving it again for the same
  reason returns it and changes nothing, and no request is ever accepted as a new Turn.\<close>

theorem archive_is_final:
  assumes "represents K W s hist" and "archive_request K W H s tid reason = Inr (th, s')"
    and "clean_drafts K s (stamped H None 0 0 [ThreadArchived reason])"
  shows "th_archive th \<noteq> None \<and> th_active_turn_id th = None
    \<and> get_thread K (foldl (perform K W) s' cs) tid \<in> {Inr th, Inl projection_corrupt}
    \<and> archive_request K W H' (foldl (perform K W) s' cs) tid reason
        \<in> {Inr (th, foldl (perform K W) s' cs), Inl projection_corrupt}
    \<and> accept_request K W H' (foldl (perform K W) s' cs) tid turn rq
        \<in> Inl ` {ValueError, thread_archived, projection_corrupt}"
proof -
  obtain hist' where h: "represents K W s' hist'" "replay W (hist' tid) = Inr th"
    and th: "th_archive th \<noteq> None" "map_option av_reason (th_archive th) = Some reason" "th_active_turn_id th = None"
    by (rule archived_stays [OF assms])
  have read: "get_thread K (foldl (perform K W) s' cs) tid \<in> {Inr th, Inl projection_corrupt}"
  proof (cases "get_thread K (foldl (perform K W) s' cs) tid")
    case (Inr v)
    with read_later [OF h Inr] th(1) show ?thesis by (auto simp: thread_extends_def)
  qed (use read_later_refused [OF h] in simp)
  then have "archive_request K W H' (foldl (perform K W) s' cs) tid reason
      \<in> {Inr (th, foldl (perform K W) s' cs), Inl projection_corrupt}"
    using th(2) by (auto simp: archive_request_def check_def)
  moreover have "accept_request K W H' (foldl (perform K W) s' cs) tid turn rq
      \<in> Inl ` {ValueError, thread_archived, projection_corrupt}"
    using read th(1) by (auto simp: accept_request_def Let_def check_def)
  ultimately show ?thesis using read th(1,3) by blast
qed

theorem archive_is_final_witness:
  "\<exists>th s'. archive_request plain_codec no_wire archiving_host unused_store 1 None = Inr (th, s')
    \<and> th_archive th \<noteq> None \<and> isl (accept_request plain_codec no_wire some_host s' 1 7 hello)"
proof -
  obtain th s' where run: "archive_request plain_codec no_wire archiving_host unused_store 1 None = Inr (th, s')"
    by (rule unused_thread_archived)
  from archive_is_final [OF unused_represents run archive_clean, of "[]" some_host 7 hello] run
  show ?thesis by auto
qed

end
