(* ===== verification/Waiting_Run.thy ===== *)
theory Waiting_Run
  imports Transcripts
begin

text \<open>
  The transcript of a Turn that waits for the approval of its call, and the decision that may follow.
\<close>

definition waiting_turn :: "event_payload list" where
  "waiting_turn =
     [TurnStarted (turn_request ''a'')] @ published 10 (said User_message ''hi'')
     @ [moved Ts_PREPARING_CONTEXT, moved Ts_CALLING_MODEL] @ sampled 20 1
     @ published 11 (ToolCall guarded_call) @ [recorded 1, moved Ts_EXECUTING_TOOLS,
        ItemStarted 30 (asked None), moved Ts_WAITING_APPROVAL]"

definition waiting_run :: "agent_event list" where
  "waiting_run = creation # events_from 2 (Some 7) waiting_turn"

lemmas waiting_defs = waiting_run_def waiting_turn_def

lemma waiting_run_ok: "list_all event_ok waiting_run"
  using call_fingerprint_digest by (simp add: waiting_defs run_defs valid_defs Let_def)

definition waiting_turn_ok :: "turn \<Rightarrow> bool" where
  "waiting_turn_ok t \<longleftrightarrow> turn_id t = 7 \<and> t_status t = Ts_WAITING_APPROVAL \<and> t_created_at t = 2000000
     \<and> t_budget t = small_budget
     \<and> t_items t = [\<lparr>item_id = 10, i_status = Is_COMPLETED, i_content = said User_message ''hi'', i_error = None\<rparr>,
         \<lparr>item_id = 11, i_status = Is_COMPLETED, i_content = ToolCall guarded_call, i_error = None\<rparr>,
         \<lparr>item_id = 30, i_status = Is_STARTED, i_content = asked None, i_error = None\<rparr>]"

lemma waiting_yields:
  "yields (\<lambda>th. thread_id th = 1 \<and> th_workspace th = ''/w'' \<and> th_compaction_windows th = [] \<and> th_sequence th = 15
      \<and> list_all waiting_turn_ok (th_turns th) \<and> length (th_turns th) = 1) (replay no_wire waiting_run)"
  by (simp add: replay_def waiting_defs run_simps waiting_turn_ok_def call_fingerprint_def del: bindE_Inr
      cong: bindE_weak require_weak check_weak yields_weak)

lemma waiting_facts:
  obtains t where "replay no_wire waiting_run = Inr (thread_of waiting_run)"
    "thread_id (thread_of waiting_run) = 1" "th_workspace (thread_of waiting_run) = ''/w''"
    "th_compaction_windows (thread_of waiting_run) = []" "th_sequence (thread_of waiting_run) = 15"
    "th_turns (thread_of waiting_run) = [t]" "waiting_turn_ok t"
proof -
  note run = yields_thread_of [OF waiting_yields]
  from run obtain t where "th_turns (thread_of waiting_run) = [t]" "waiting_turn_ok t"
    by (auto simp: length_Suc_conv)
  with run show ?thesis by (intro that) auto
qed

text \<open>The decision, thirty seconds after the start.\<close>

definition deciding :: "agent_event list" where
  "deciding = [\<lparr>schema_version = 22, event_id = 5000, e_turn_id = Some 7, occurred_at = 30000000,
     payload = ItemFinished \<lparr>fi_item_id = 30, fi_status = Is_COMPLETED, fi_content = asked (Some (granted 30000000)),
       fi_error = None\<rparr>, e_thread_id = 1, e_sequence = 16\<rparr>]"

lemma decided_replays: "\<not> isl (replay no_wire (waiting_run @ deciding))"
  by (simp add: replay_def waiting_defs run_simps deciding_def call_fingerprint_def del: bindE_Inr
      cong: bindE_weak require_weak check_weak)

end
