(* ===== verification/Approval_Replies.thy ===== *)
theory Approval_Replies
  imports Decided_Approvals Settled_Requests Waiting_Run
begin

text \<open>
  What a client may rely on when it decides an approval, with the Turn of Waiting_Run as example.
\<close>

section \<open>A decision on the waiting Turn\<close>

definition fetch_tools :: tool_table where
  "fetch_tools name = (if name = ''fetch'' then Some \<lparr>td_version = ''1'', td_effect_class = READ_ONLY,
     td_requires_approval = True, td_fingerprint = some_digest\<rparr> else None)"

definition no_reviews :: review_ports where
  "no_reviews = \<lparr>rv_patch = None, rv_batch = None, rv_decide = None\<rparr>"

definition yes :: approval_decision where
  "yes = \<lparr>d_outcome = APPROVED, d_actor = ''u'', d_reason = None\<rparr>"

definition no :: approval_decision where
  "no = \<lparr>d_outcome = REJECTED, d_actor = ''u'', d_reason = None\<rparr>"

definition waiting_store :: "(agent_event + thread) session_store" where
  "waiting_store = plain_store waiting_run"

definition the_request :: approval_content where
  "the_request = ApprovalRequest \<lparr>aq_approval_id = 60, aq_call_id = 50, aq_request_fingerprint = call_fingerprint,
     aq_decision = None\<rparr>"

definition waiting_item :: item where
  "waiting_item = \<lparr>item_id = 30, i_status = Is_STARTED, i_content = Approval the_request, i_error = None\<rparr>"

lemma waiting_events:
  "list_all (\<lambda>e. schema_version e = 22) waiting_run" "forked_from waiting_run = None"
  by (simp_all add: waiting_defs run_defs forked_from_def)

lemma waiting_represents: "represents plain_codec no_wire waiting_store ((\<lambda>_. [])(1 := waiting_run))"
  unfolding waiting_store_def
  by (rule waiting_facts) (intro plain_store_represents waiting_run_ok waiting_events, auto)

lemma granted_record: "decision_record yes call_fingerprint 30000000 = granted 30000000"
  by (simp add: decision_record_def yes_def granted_def)

lemma decided_request: "Approval (decided the_request d) = asked (Some d)"
  by (simp add: decided_def the_request_def asked_def)

definition yes_draft :: event_draft where
  "yes_draft = decision_draft answering_host 7 30 (decided the_request (decision_record yes call_fingerprint 30000000)) 30000000"

lemma yes_stamped: "[yes_draft] = stamped answering_host (Some 7) 0 0 [ItemFinished \<lparr>fi_item_id = 30,
    fi_status = Is_COMPLETED, fi_content = asked (Some (granted 30000000)), fi_error = None\<rparr>]"
  by (simp add: yes_draft_def decision_draft_def granted_record decided_request answering_host_def)

lemma yes_ok: "list_all draft_ok [yes_draft]"
  using call_fingerprint_digest
  by (simp add: yes_stamped draft_ok_def payload_ok_def asked_def granted_def item_content_ok_def approval_content_ok_def
      boundary_defs)

lemma yes_clean: "clean_drafts plain_codec waiting_store [yes_draft]"
  unfolding waiting_store_def yes_stamped
  by (rule stored_drafts_clean [OF yes_ok [unfolded yes_stamped]])
    (auto simp: answering_host_def waiting_defs run_defs)

lemma waiting_state:
  assumes "waiting_turn_ok t"
  shows "t_status t = Ts_WAITING_APPROVAL" "pending_calls t = [guarded_call]" "turn_id t = 7"
    "find (has_approval_id 60) (t_items t) = Some waiting_item" "remaining_us t 30000000 = 32000000"
  using assms
  by (simp_all add: waiting_turn_ok_def said_def asked_def waiting_item_def the_request_def pending_calls_def
      completed_calls_def settled_calls_def has_approval_id_def ap_id_def List.map_filter_simps small_budget_def
      remaining_us_def deadline_def timedelta_us_def float_rat_def)

lemma waiting_decided:
  obtains t s' u where "reply_approval plain_codec no_wire answering_host no_reviews fetch_tools waiting_store 1 7 60
      call_fingerprint yes = Inr (t, s')"
    "get_thread plain_codec waiting_store 1 = Inr (thread_of waiting_run)" "get_turn (thread_of waiting_run) 7 = Inr u"
    "waiting_turn_ok u"
proof -
  obtain u where f: "replay no_wire waiting_run = Inr (thread_of waiting_run)"
    "thread_id (thread_of waiting_run) = 1" "th_workspace (thread_of waiting_run) = ''/w''"
    "th_compaction_windows (thread_of waiting_run) = []" "th_sequence (thread_of waiting_run) = 15"
    "th_turns (thread_of waiting_run) = [u]" "waiting_turn_ok u" by (rule waiting_facts)
  note st = waiting_state [OF f(7)]
  have get: "get_turn (thread_of waiting_run) 7 = Inr u" using f(6) st(3) by (simp add: get_turn_def)
  have pos: "positioned 1 15 [yes_draft] = deciding"
    unfolding yes_stamped positioned_stamped by (simp add: deciding_def answering_host_def)
  from decided_replays obtain th' where run: "replay no_wire (waiting_run @ deciding) = Inr th'"
    by (cases "replay no_wire (waiting_run @ deciding)") simp_all
  then have more: "replay no_wire (waiting_run @ positioned 1 (th_sequence (thread_of waiting_run)) [yes_draft]) = Inr th'"
    using f(5) pos by simp
  have nf: "\<not> list_ex is_fork [yes_draft]" by (simp add: yes_draft_def decision_draft_def is_fork_def)
  obtain s' where c: "commit plain_codec no_wire waiting_store 1 [yes_draft] 15 = Inr (th', s')"
      "get_thread plain_codec waiting_store 1 = Inr (thread_of waiting_run)"
    using plain_commits [OF f(1) waiting_run_ok waiting_events f(2,4) yes_clean [unfolded waiting_store_def] nf more] f(5)
    unfolding waiting_store_def by metis
  obtain hist' where "reachable no_wire (thread_of waiting_run)"
      "foldE (accept_event no_wire) (Some (thread_of waiting_run))
        (positioned 1 (th_sequence (thread_of waiting_run)) [yes_draft]) = Inr (Some th')"
    by (rule committed_run [OF waiting_represents yes_clean _ c(1)]) (use f(1) in simp_all)
  then have "thread_extends (thread_of waiting_run) th'" by (rule extends_from_step)
  with get_turn_extended [OF _ get] obtain t where t: "get_turn th' 7 = Inr t" by blast
  have rec: "record_decision plain_codec no_wire answering_host waiting_store 1 7 (thread_of waiting_run) 30
      (decided the_request (decision_record yes call_fingerprint 30000000)) 30000000 = Inr (t, s')"
    using c(1) t f(5) yes_ok by (simp add: record_decision_def yes_draft_def [symmetric])
  have match: "approval_matches no_wire (thread_of waiting_run) u guarded_call the_request"
    using f(2,3) st(3) by (simp add: approval_matches_def the_request_def call_fingerprint_def request_fingerprint_def)
  have tool: "validate_tool_contract fetch_tools guarded_call = Inr ()"
    by (simp add: validate_tool_contract_def fetch_tools_def guarded_call_def)
  have ids: "tc_call_id guarded_call = 50" "ap_call the_request = 50" "ap_fingerprint the_request = call_fingerprint"
      "\<not> is_process_approval the_request" "ap_decision the_request = None"
    by (simp_all add: guarded_call_def the_request_def ap_call_def ap_fingerprint_def is_process_approval_def ap_decision_def)
  have rev: "review answering_host no_reviews (thread_of waiting_run) u guarded_call the_request b = Inr 1" for b
    by (simp add: review_def the_request_def)
  have now: "h_utc_now answering_host k = 30000000" for k by (simp add: answering_host_def)
  have sel: "(case the_request of TrustedApproval a \<Rightarrow> x a | _ \<Rightarrow> y) = y" for x y by (simp add: the_request_def)
  have item: "i_content waiting_item = Approval the_request" "i_status waiting_item = Is_STARTED" "item_id waiting_item = 30"
    by (simp_all add: waiting_item_def)
  have dec: "approval_decision_ok yes"
    by (simp add: approval_decision_ok_def yes_def py_len_def is_continuation_def byte_of_def)
  have "decide_approval plain_codec no_wire answering_host no_reviews fetch_tools waiting_store 1 (thread_of waiting_run) u
      waiting_item the_request call_fingerprint yes = Inr (t, s')"
    unfolding decide_approval_def sel
    using st match tool ids rev now item rec by (simp add: Let_def)
  then have "reply_approval plain_codec no_wire answering_host no_reviews fetch_tools waiting_store 1 7 60
      call_fingerprint yes = Inr (t, s')"
    using dec c(2) get st(4) item ids by (simp add: reply_approval_def approval_was_decided_def)
  then show ?thesis using that c(2) get f(7) by blast
qed

section \<open>Property\<close>

lemma decision_stamped:
  "[decision_draft H turn iid c now] = stamped (H\<lparr>h_utc_now := \<lambda>_. now\<rparr>) (Some turn) 0 0
     [ItemFinished \<lparr>fi_item_id = iid, fi_status = Is_COMPLETED, fi_content = Approval c, fi_error = None\<rparr>]"
  by (simp add: decision_draft_def)

lemma any_decision_clean:
  assumes "draft_ok (decision_draft answering_host 7 iid c now)"
  shows "clean_drafts plain_codec waiting_store [decision_draft answering_host 7 iid c now]"
proof -
  have "list_all draft_ok [decision_draft answering_host 7 iid c now]" using assms by simp
  then show ?thesis
    unfolding waiting_store_def decision_stamped
    by (rule stored_drafts_clean) (auto simp: answering_host_def waiting_defs run_defs)
qed

text \<open>C35. An approval of any kind is decided exactly once and only for the call it was asked for. If the first
  reply to an undecided request succeeds, then its fingerprint is the one of the request, the call is the
  first one that is pending and still matches the request, and the Turn that is returned holds the request
  with a decision bound to its subject; nothing else of the request changed but the state its route
  reports. The decision is the one of the reply, or for a trusted action the one its gateway returned.
  Every later reply, after any operations on the store, adds nothing: a reply with another fingerprint is
  refused with \<open>approval_mismatch\<close>, one with another decision with \<open>approval_conflict\<close>, an invalid decision
  with a \<open>ValueError\<close>, every reply with \<open>projection_corrupt\<close> where the stored Thread does not read back, and
  otherwise the reply names the recorded decision and returns a later state of the Turn. (The store is
  taken to keep a valid draft as it is, and the host's event identity to be new.)\<close>

theorem approval_decided_once:
  assumes "represents K W s hist" and "get_thread K s tid = Inr th" "get_turn th turn = Inr u"
    and "find (has_approval_id approval) (t_items u) = Some i" "i_content i = Approval content"
    and "ap_decision content = None"
    and "reply_approval K W H R tools s tid turn approval fp decision = Inr (t, s')"
    and "\<forall>c now. draft_ok (decision_draft H turn (item_id i) c now) \<longrightarrow>
      clean_drafts K s [decision_draft H turn (item_id i) c now]"
  shows "fp = ap_fingerprint content \<and> pending_calls u \<noteq> [] \<and> tc_call_id (hd (pending_calls u)) = ap_call content
    \<and> approval_matches W th u (hd (pending_calls u)) content
    \<and> (\<exists>c d. done_item (item_id i) (Approval c) \<in> set (t_items t) \<and> cleared content c = content
        \<and> ap_decision c = Some d \<and> ar_request_fingerprint d = decision_subject content
        \<and> decision_source R th u content decision d
        \<and> (case reply_approval K W H' R' tools' (foldl (perform K W) s' cs) tid turn approval fp' decision' of
            Inl e \<Rightarrow> e = projection_corrupt \<or> (e = ValueError \<and> \<not> approval_decision_ok decision')
              \<or> (e = KernelError ''approval_mismatch'' \<and> fp' \<noteq> fp)
              \<or> (e = KernelError ''approval_conflict'' \<and> decision' \<noteq> answer_of d)
          | Inr (t', s'') \<Rightarrow> fp' = fp \<and> decision' = answer_of d \<and> s'' = foldl (perform K W) s' cs
              \<and> turn_extends t t'))"
proof -
  obtain c now d call calls where run: "record_decision K W H s tid turn th (item_id i) c now = Inr (t, s')"
    and d: "ap_decision c = Some d" "decision_source R th u content decision d"
    and call: "pending_calls u = call # calls" "tc_call_id call = ap_call content" "approval_matches W th u call content"
    and fp: "fp = ap_fingerprint content"
    by (rule first_decision [OF assms(2-7)])
  from run have "draft_ok (decision_draft H turn (item_id i) c now)" by (simp add: record_decision_def Let_def)
  note clean = assms(8) [rule_format, OF this]
  obtain hist' th' where h: "represents K W s' hist'" "replay W (hist' tid) = Inr th'" "get_turn th' turn = Inr t"
    and rec: "done_item (item_id i) (Approval c) \<in> set (t_items t)"
    and bound: "\<exists>j a r. find (\<lambda>j. item_id j = item_id i) (t_items u) = Some j \<and> i_content j = Approval a
      \<and> cleared a c = a \<and> ap_decision c = Some r \<and> ar_request_fingerprint r = decision_subject a"
    by (rule decision_recorded [OF assms(1-3) run clean])
  from bound obtain j a r where j: "find (\<lambda>j. item_id j = item_id i) (t_items u) = Some j" "i_content j = Approval a"
      "cleared a c = a" "ap_decision c = Some r" "ar_request_fingerprint r = decision_subject a"
    by blast
  from get_thread_replay [OF assms(1,2)] represented_ok [OF assms(1)] have reach: "reachable W th"
    by (blast intro: replay_reachable)
  have mem: "u \<in> set (th_turns th)" using get_turn_mem [OF assms(3)] by simp
  have "find (\<lambda>j. item_id j = item_id i) (t_items u) = Some i"
    using find_by_key [OF reachable_distinct_items [OF reach mem]] find_SomeD [OF assms(4)] by simp
  with j assms(5) have a: "a = content" "r = d" using d(1) by simp_all
  from find_SomeD [OF assms(4)] assms(5) have id: "ap_id content = approval" by (simp add: has_approval_id_def)
  note keeps = cleared_keeps [OF j(3) [unfolded a]]
  from decision_again [OF h rec _ _ d(1) refl, where approval = approval and fp = fp and H' = H' and R' = R'
      and tools' = tools' and cs = cs and fp' = fp' and decision' = decision'] keeps id fp
  have later: "case reply_approval K W H' R' tools' (foldl (perform K W) s' cs) tid turn approval fp' decision' of
      Inl e \<Rightarrow> e = projection_corrupt \<or> (e = ValueError \<and> \<not> approval_decision_ok decision')
        \<or> (e = KernelError ''approval_mismatch'' \<and> fp' \<noteq> fp)
        \<or> (e = KernelError ''approval_conflict'' \<and> decision' \<noteq> answer_of d)
    | Inr (t', s'') \<Rightarrow> fp' = fp \<and> decision' = answer_of d \<and> s'' = foldl (perform K W) s' cs \<and> turn_extends t t'"
    by simp
  have "cleared content c = content" "ar_request_fingerprint d = decision_subject content" using j(3,5) a by simp_all
  with later rec d call fp show ?thesis by auto
qed

theorem approval_decided_once_witness:
  "\<exists>t s'. reply_approval plain_codec no_wire answering_host no_reviews fetch_tools waiting_store 1 7 60 call_fingerprint yes
      = Inr (t, s')
    \<and> (\<exists>c d. done_item 30 (Approval c) \<in> set (t_items t) \<and> ap_decision c = Some d \<and> answer_of d = yes)
    \<and> \<not> (\<exists>t' s''. reply_approval plain_codec no_wire answering_host no_reviews fetch_tools s' 1 7 60 call_fingerprint no
          = Inr (t', s''))"
proof -
  obtain t s' u where run: "reply_approval plain_codec no_wire answering_host no_reviews fetch_tools waiting_store 1 7 60
      call_fingerprint yes = Inr (t, s')"
    "get_thread plain_codec waiting_store 1 = Inr (thread_of waiting_run)" "get_turn (thread_of waiting_run) 7 = Inr u"
    "waiting_turn_ok u"
    by (rule waiting_decided)
  have item: "i_content waiting_item = Approval the_request" "ap_decision the_request = None"
    by (simp_all add: waiting_item_def the_request_def ap_decision_def)
  have clean: "\<forall>c now. draft_ok (decision_draft answering_host 7 (item_id waiting_item) c now) \<longrightarrow>
      clean_drafts plain_codec waiting_store [decision_draft answering_host 7 (item_id waiting_item) c now]"
    using any_decision_clean by blast
  from approval_decided_once [OF waiting_represents run(2,3) waiting_state(4) [OF run(4)] item run(1) clean,
      where H' = answering_host and R' = no_reviews and tools' = fetch_tools and cs = "[]" and fp' = call_fingerprint
      and decision' = no]
  have "\<exists>c d. done_item 30 (Approval c) \<in> set (t_items t) \<and> ap_decision c = Some d
      \<and> decision_source no_reviews (thread_of waiting_run) u the_request yes d
      \<and> (case reply_approval plain_codec no_wire answering_host no_reviews fetch_tools s' 1 7 60 call_fingerprint no of
          Inl e \<Rightarrow> True | Inr (t', s'') \<Rightarrow> no = answer_of d)"
    by (elim conjE exE) (intro exI conjI, auto simp: waiting_item_def split: sum.splits)
  then obtain c d where cd: "done_item 30 (Approval c) \<in> set (t_items t)" "ap_decision c = Some d"
      "decision_source no_reviews (thread_of waiting_run) u the_request yes d"
      "case reply_approval plain_codec no_wire answering_host no_reviews fetch_tools s' 1 7 60 call_fingerprint no of
         Inl e \<Rightarrow> True | Inr (t', s'') \<Rightarrow> no = answer_of d"
    by blast
  from cd(3) have yes: "answer_of d = yes" by (simp add: decision_source_def the_request_def)
  then have "answer_of d \<noteq> no" by (simp add: yes_def no_def)
  with cd(4) have "\<not> (\<exists>t' s''. reply_approval plain_codec no_wire answering_host no_reviews fetch_tools s' 1 7 60
      call_fingerprint no = Inr (t', s''))" by auto
  with run(1) cd(1,2) yes show ?thesis by blast
qed

end
