(* ===== verification/Turn_Settlement.thy ===== *)
theory Turn_Settlement
  imports Patch_Recovery
begin

text \<open>
  How a Turn ends (\<^verbatim>\<open>_finish\<close> in src/src/harnessix/agent/runtime.py, with agent/runtime_recovery.py and
  agent/trusted_action_session.py). Whatever stopped the Turn, one batch closes everything it left
  open: compactions, model attempts, items, tool calls; then it records the error and the final state.
  The back ends that inspect the effect of an unfinished call are a parameter.
\<close>

section \<open>Effects of unfinished calls\<close>

text \<open>
  The host's back ends: the names of the trusted actions with the gateway that recovers them, the patch
  ports (absent where the product does not enable them), the tools of the session and the error texts.
\<close>

record recovery_ports =
  rp_owned :: "string \<Rightarrow> bool"
  rp_gateway :: "thread \<Rightarrow> turn \<Rightarrow> tool_call_content \<Rightarrow> trusted_approval_request option
    \<Rightarrow> tool_result_content option result"
  rp_patches :: "patch_port option"
  rp_batches :: "batch_port option"
  rp_tools :: tool_table
  rp_texts :: error_texts

text \<open>\<^verbatim>\<open>_unknown_recovery_result\<close> of agent/trusted_action_session.py.\<close>

definition unknown_recovery_result ::
  "tool_call_content \<Rightarrow> trusted_approval_request option \<Rightarrow> agent_failure \<Rightarrow> tool_result_content" where
  "unknown_recovery_result call approval f =
     (case approval of
        None \<Rightarrow> recovery_failure call f
      | Some a \<Rightarrow> (recovery_failure call f)
          \<lparr>tr_action_id := Some (tq_plan_id a),
           tr_trusted_action := Some \<lparr>ta_plan_id = tq_plan_id a, ta_plan_fingerprint = tq_plan_fingerprint a,
             ta_state = Ta_unknown, ta_origin = Recovery, ta_artifact_sha256 = None\<rparr>,
           tr_diff_artifact := tq_diff_artifact a\<rparr>)"

definition trusted_approval_of :: "turn \<Rightarrow> tool_call_content \<Rightarrow> trusted_approval_request option" where
  "trusted_approval_of t call =
     (case approval_for t call of None \<Rightarrow> None
      | Some i \<Rightarrow> (case i_content i of Approval (TrustedApproval a) \<Rightarrow> Some a | _ \<Rightarrow> None))"

definition recover_action :: "recovery_ports \<Rightarrow> thread \<Rightarrow> turn \<Rightarrow> tool_call_content \<Rightarrow> tool_result_content option" where
  "recover_action P th t call =
    (let approval = trusted_approval_of t call
     in case bindE (validate_tool_contract (rp_tools P) call) (\<lambda>_. rp_gateway P th t call approval) of
          Inl e \<Rightarrow> Some (unknown_recovery_result call approval
            (failure_of (rp_texts P) (failure ''trusted_action_recovery_failed'' ACTION_RECOVERY) e))
        | Inr r \<Rightarrow> r)"

definition recover_effect ::
  "wire \<Rightarrow> recovery_ports \<Rightarrow> thread \<Rightarrow> turn \<Rightarrow> tool_call_content \<Rightarrow> tool_result_content option" where
  "recover_effect W P th t call =
    (if rp_owned P (tc_tool call) then recover_action P th t call
     else if tc_effect_class call \<noteq> NON_IDEMPOTENT_WRITE then None
     else if tc_tool call = ''apply_patch''
     then Some (recover_patch W (rp_texts P) (rp_tools P) (rp_patches P) th t call)
     else if tc_tool call = ''apply_patch_batch''
     then Some (recover_patch_batch W (rp_texts P) (rp_tools P) (rp_batches P) th t call)
     else None)"

text \<open>The calls of results in any state, and the pending calls without one.\<close>

definition recorded_results :: "turn \<Rightarrow> uuid list" where
  "recorded_results t =
     List.map_filter (\<lambda>i. case i_content i of ToolResult r \<Rightarrow> Some (tr_call_id r) | _ \<Rightarrow> None) (t_items t)"

definition open_calls :: "turn \<Rightarrow> tool_call_content list" where
  "open_calls t = filter (\<lambda>c. tc_call_id c \<notin> set (recorded_results t)) (pending_calls t)"

definition recover_pending_effects :: "wire \<Rightarrow> recovery_ports \<Rightarrow> thread \<Rightarrow> turn \<Rightarrow> uuid \<Rightarrow> tool_result_content option" where
  "recover_pending_effects W P th t =
     map_of (rev (List.map_filter (\<lambda>c. map_option (Pair (tc_call_id c)) (recover_effect W P th t c)) (open_calls t)))"

section \<open>The state and error of the end\<close>

text \<open>The messages as UTF-8 bytes.\<close>

definition CANCELLED_MESSAGE :: string where
  "CANCELLED_MESSAGE = of_bytes
     [229, 143, 150, 230, 182, 136, 229, 183, 178, 231, 148, 159, 230, 149, 136]"

definition UNCERTAIN_MESSAGE :: string where
  "UNCERTAIN_MESSAGE = of_bytes
     [229, 173, 152, 229, 156, 168, 230, 156, 170, 231, 159, 165, 230, 149, 136, 230, 158, 156,
      239, 188, 140, 231, 166, 129, 230, 173, 162, 232, 135, 170, 229, 138, 168, 233, 135, 141,
      230, 148, 190]"

definition TRIGGER_MESSAGE :: string where
  "TRIGGER_MESSAGE = of_bytes
     [239, 188, 155, 232, 167, 166, 229, 143, 145, 229, 142, 159, 229, 155, 160, 239, 188, 154]"

definition UNSETTLED_SUMMARY :: string where
  "UNSETTLED_SUMMARY = of_bytes
     [230, 145, 152, 232, 166, 129, 232, 191, 144, 232, 161, 140, 230, 156, 170, 231, 187, 147,
      231, 174, 151]"

definition UNFINISHED_ATTEMPT :: string where
  "UNFINISHED_ATTEMPT = of_bytes
     [230, 168, 161, 229, 158, 139, 229, 176, 157, 232, 175, 149, 230, 156, 170, 231, 187, 147,
      230, 157, 159]"

definition PAUSED_MESSAGE :: string where
  "PAUSED_MESSAGE = of_bytes
     [231, 148, 168, 230, 136, 183, 229, 143, 150, 230, 182, 136, 228, 186, 134, 230, 154, 130,
      229, 129, 156, 231, 154, 132, 32, 84, 117, 114, 110]"

definition uncertain :: "turn \<Rightarrow> (uuid \<Rightarrow> tool_result_content option) \<Rightarrow> bool" where
  "uncertain t recovered \<longleftrightarrow> has_unknown_result (t_items t)
     \<or> list_ex (\<lambda>c. tc_effect_class c \<noteq> READ_ONLY
         \<and> (case recovered (tc_call_id c) of None \<Rightarrow> True | Some r \<Rightarrow> tr_outcome r = Oc_unknown)) (pending_calls t)"

type_synonym finish = "turn_status \<times> agent_failure option"

definition cancelled_finish :: "turn \<Rightarrow> finish \<Rightarrow> finish" where
  "cancelled_finish t fin =
     (if t_status t = Ts_CANCELLING \<and> fst fin \<noteq> Ts_INTERRUPTED
      then (Ts_CANCELLED, Some (failure ''cancelled'' CANCELLED_MESSAGE)) else fin)"

definition trigger :: "agent_failure option \<Rightarrow> string" where
  "trigger error =
     (case error of None \<Rightarrow> [] | Some f \<Rightarrow> if f_code f = ''uncertain_effect'' then [] else TRIGGER_MESSAGE @ f_code f)"

definition final_finish :: "turn \<Rightarrow> (uuid \<Rightarrow> tool_result_content option) \<Rightarrow> finish \<Rightarrow> finish" where
  "final_finish t recovered fin =
    (let fin' = cancelled_finish t fin
     in if uncertain t recovered
        then (Ts_INTERRUPTED, Some (failure ''uncertain_effect'' (UNCERTAIN_MESSAGE @ trigger (snd fin'))))
        else fin')"

section \<open>The batch\<close>

text \<open>Outcome of a compaction and of a model attempt that the end of the Turn closes.\<close>

definition summary_outcome :: "turn_status \<Rightarrow> compaction_status" where
  "summary_outcome s = (if s = Ts_CANCELLED then Cs_cancelled else if s = Ts_INTERRUPTED then Cs_interrupted else Cs_failed)"

definition attempt_outcome :: "turn_status \<Rightarrow> attempt_status" where
  "attempt_outcome s = (if s = Ts_CANCELLED then At_cancelled else if s = Ts_INTERRUPTED then At_interrupted else At_failed)"

definition or_failure :: "agent_failure option \<Rightarrow> agent_failure \<Rightarrow> agent_failure" where
  "or_failure error f = (case error of None \<Rightarrow> f | Some g \<Rightarrow> g)"

definition unsettled_summary :: agent_failure where
  "unsettled_summary = failure ''compaction_incomplete'' UNSETTLED_SUMMARY"

definition close_compaction :: "compaction_record \<Rightarrow> finish \<Rightarrow> event_payload list" where
  "close_compaction c fin =
    (let error = or_failure (snd fin) unsettled_summary; cid = compaction_id (cr_plan c)
     in (case cr_attempt c of
           None \<Rightarrow> []
         | Some a \<Rightarrow> if a_status a = At_running
             then [CompactionEvent (CompactionAttemptFinished cid \<lparr>mf_attempt_id = attempt_id a,
                     mf_outcome = attempt_outcome (fst fin), mf_error = Some error\<rparr>)] else [])
        @ [CompactionEvent (CompactionRejected cid (summary_outcome (fst fin)) error False)])"

text \<open>The loop over the compactions, which turns a completion into an interruption.\<close>

fun close_compactions :: "compaction_record list \<Rightarrow> finish \<Rightarrow> event_payload list \<times> finish" where
  "close_compactions [] fin = ([], fin)"
| "close_compactions (c # cs) fin =
     (if \<not> is_open c then close_compactions cs fin
      else let fin' = (if fst fin = Ts_COMPLETED then (Ts_INTERRUPTED, Some unsettled_summary) else fin);
               (ps, last) = close_compactions cs fin'
           in (close_compaction c fin' @ ps, last))"

definition close_attempts :: "finish \<Rightarrow> model_attempt list \<Rightarrow> event_payload list" where
  "close_attempts fin as =
     map (\<lambda>a. ModelAttemptFinished \<lparr>mf_attempt_id = attempt_id a, mf_outcome = attempt_outcome (fst fin),
         mf_error = Some (or_failure (snd fin) (failure ''provider_stream_incomplete'' UNFINISHED_ATTEMPT))\<rparr>)
       (filter (\<lambda>a. a_status a = At_running) as)"

definition close_items :: "finish \<Rightarrow> item list \<Rightarrow> event_payload list" where
  "close_items fin is =
     map (\<lambda>i. ItemFinished \<lparr>fi_item_id = item_id i,
         fi_status = (if fst fin = Ts_CANCELLED then Is_CANCELLED else Is_FAILED),
         fi_content = i_content i, fi_error = snd fin\<rparr>)
       (filter (\<lambda>i. i_status i = Is_STARTED) is)"

definition unrun_result :: "turn \<Rightarrow> finish \<Rightarrow> tool_call_content \<Rightarrow> tool_result_content" where
  "unrun_result t fin call = \<lparr>tr_call_id = tc_call_id call,
     tr_outcome = (if tc_effect_class call \<noteq> READ_ONLY then Oc_unknown
       else if fst fin = Ts_CANCELLED then Oc_cancelled else Oc_failed),
     tr_output = JNull, tr_error = snd fin, tr_action_id = approval_action_id t call, tr_patch = None,
     tr_patch_batch = None, tr_process = None, tr_trusted_action = None, tr_diff_artifact = None\<rparr>"

definition closing_result ::
  "turn \<Rightarrow> (uuid \<Rightarrow> tool_result_content option) \<Rightarrow> finish \<Rightarrow> tool_call_content \<Rightarrow> tool_result_content" where
  "closing_result t recovered fin call =
     (case recovered (tc_call_id call) of None \<Rightarrow> unrun_result t fin call | Some r \<Rightarrow> r)"

text \<open>Each published item draws the next identity of the host.\<close>

fun publish_all :: "host \<Rightarrow> nat \<Rightarrow> item_content list \<Rightarrow> event_payload list" where
  "publish_all H i [] = []"
| "publish_all H i (c # cs) = published_item (h_new_id H i) c @ publish_all H (i + 1) cs"

definition closing_contents :: "turn \<Rightarrow> (uuid \<Rightarrow> tool_result_content option) \<Rightarrow> finish \<Rightarrow> item_content list" where
  "closing_contents t recovered fin =
     map (\<lambda>c. ToolResult (closing_result t recovered fin c)) (open_calls t)
     @ (case snd fin of None \<Rightarrow> [] | Some f \<Rightarrow> [Error f])"

definition finish_payloads :: "host \<Rightarrow> turn \<Rightarrow> (uuid \<Rightarrow> tool_result_content option) \<Rightarrow> finish \<Rightarrow> event_payload list" where
  "finish_payloads H t recovered fin =
    (let (summaries, fin') = close_compactions (t_compactions t) fin
     in summaries @ close_attempts fin' (t_model_attempts t) @ close_items fin' (t_items t)
        @ publish_all H 0 (closing_contents t recovered fin')
        @ [TurnStateChanged \<lparr>tsc_status = fst fin', tsc_error = snd fin', tsc_reason = Normal\<rparr>])"

text \<open>The number of identities the batch draws before its events.\<close>

definition drawn :: "turn \<Rightarrow> (uuid \<Rightarrow> tool_result_content option) \<Rightarrow> finish \<Rightarrow> nat" where
  "drawn t recovered fin = length (closing_contents t recovered (snd (close_compactions (t_compactions t) fin)))"

definition finish_drafts :: "host \<Rightarrow> uuid \<Rightarrow> turn \<Rightarrow> (uuid \<Rightarrow> tool_result_content option) \<Rightarrow> finish \<Rightarrow> event_draft list" where
  "finish_drafts H turn t recovered fin =
     stamped H (Some turn) (drawn t recovered fin) 0 (finish_payloads H t recovered fin)"

definition finish_turn :: "'d codec \<Rightarrow> wire \<Rightarrow> host \<Rightarrow> recovery_ports \<Rightarrow> 'd session_store \<Rightarrow> uuid \<Rightarrow> uuid
    \<Rightarrow> finish \<Rightarrow> (turn \<times> 'd session_store) result" where
  "finish_turn K W H P s tid turn fin =
     bindE (get_thread K s tid) (\<lambda>th.
     bindE (get_turn th turn) (\<lambda>t.
     if t_status t \<in> set TERMINAL_TURNS then Inr (t, s)
     else
      (let recovered = recover_pending_effects W P th t; fin' = final_finish t recovered fin;
           ds = finish_drafts H turn t recovered fin'
       in check (list_all draft_ok ds) ValueError
          (bindE (commit K W s tid ds (th_sequence th)) (\<lambda>(th', s').
           bindE (get_turn th' turn) (\<lambda>t'. Inr (t', s')))))))"

section \<open>Cancelling and failing\<close>

text \<open>\<^verbatim>\<open>_cancel\<close> when no task drives the Turn.\<close>

definition cancel_paused :: "'d codec \<Rightarrow> wire \<Rightarrow> host \<Rightarrow> host \<Rightarrow> recovery_ports \<Rightarrow> 'd session_store \<Rightarrow> uuid \<Rightarrow> uuid
    \<Rightarrow> (turn \<times> 'd session_store) result" where
  "cancel_paused K W H H' P s tid turn =
     bindE (record_cancel K W H s tid turn) (\<lambda>(t, s').
     if t_status t \<in> set TERMINAL_TURNS then Inr (t, s')
     else finish_turn K W H' P s' tid turn (Ts_CANCELLED, Some (failure ''cancelled'' PAUSED_MESSAGE)))"

end
