(* ===== verification/Settling_Steps.thy ===== *)
theory Settling_Steps
  imports Turn_Settlement Cost_Reports
begin

text \<open>
  The end of a Turn step by step: the events of one batch as a list of payloads at consecutive positions,
  and what each group of them does to the running Turn.
\<close>

section \<open>Batches\<close>

fun carries :: "uuid \<Rightarrow> uuid \<Rightarrow> nat \<Rightarrow> event_payload list \<Rightarrow> agent_event list \<Rightarrow> bool" where
  "carries tid turn n [] es \<longleftrightarrow> es = []"
| "carries tid turn n (p # ps) es \<longleftrightarrow> (case es of [] \<Rightarrow> False | e # es' \<Rightarrow>
     e_thread_id e = tid \<and> e_sequence e = n + 1 \<and> e_turn_id e = Some turn \<and> schema_version e = 22 \<and> payload e = p
     \<and> carries tid turn (n + 1) ps es')"

lemma carries_stamped: "carries tid turn n ps (positioned tid n (stamped H (Some turn) i k ps))"
proof -
  have "legacy_payload 22 p = p" for p
    by (cases p) (simp_all add: legacy_payload_def legacy_content_def legacy_error_def split: item_content.splits)
  then show ?thesis by (induction ps arbitrary: n i k) (simp_all add: legacy_draft_def at_position_def)
qed

lemma carries_append:
  assumes "carries tid turn n (ps @ qs) es"
  obtains xs ys where "es = xs @ ys" "carries tid turn n ps xs" "carries tid turn (n + length xs) qs ys"
    "length xs = length ps"
proof -
  have "\<exists>xs ys. es = xs @ ys \<and> carries tid turn n ps xs \<and> carries tid turn (n + length xs) qs ys \<and> length xs = length ps"
    using assms
  proof (induction ps arbitrary: n es)
    case (Cons p ps)
    then obtain e es' where e: "es = e # es'" "carries tid turn (n + 1) (ps @ qs) es'"
      "e_thread_id e = tid" "e_sequence e = n + 1" "e_turn_id e = Some turn" "schema_version e = 22" "payload e = p"
      by (auto split: list.splits)
    from Cons.IH [OF e(2)] obtain xs ys where "es' = xs @ ys" "carries tid turn (n + 1) ps xs"
        "carries tid turn (n + 1 + length xs) qs ys" "length xs = length ps" by blast
    with e show ?case by (intro exI [of _ "e # xs"] exI [of _ ys]) simp
  qed simp
  with that show ?thesis by blast
qed

section \<open>Runs of the active Turn\<close>

definition turn_run :: "wire \<Rightarrow> thread \<Rightarrow> turn list \<Rightarrow> turn \<Rightarrow> agent_event list \<Rightarrow> thread \<Rightarrow> turn \<Rightarrow> bool" where
  "turn_run W th us t es th' t' \<longleftrightarrow> live th us t \<and> live th' us t' \<and> foldE (apply_to_thread W) th es = Inr th'
     \<and> (th' = th \<and> t' = t \<or> (\<exists>e. th' = update_thread th e t' (us @ [t'])))
     \<and> thread_id th' = thread_id th \<and> th_sequence th' = th_sequence th + length es \<and> turn_id t' = turn_id t"

lemma turn_run_refl: "live th us t \<Longrightarrow> turn_run W th us t [] th t"
  by (simp add: turn_run_def)

lemma turn_run_append:
  assumes a: "turn_run W th us t es u v" and b: "turn_run W u us v fs th' t'"
  shows "turn_run W th us t (es @ fs) th' t'"
proof -
  from a have "u = th \<and> v = t \<or> (\<exists>e. u = update_thread th e v (us @ [v]))" by (simp add: turn_run_def)
  moreover from b have "th' = u \<and> t' = v \<or> (\<exists>e. th' = update_thread u e t' (us @ [t']))" by (simp add: turn_run_def)
  ultimately have "th' = th \<and> t' = t \<or> (\<exists>e. th' = update_thread th e t' (us @ [t']))"
    by (auto simp: update_twice)
  with a b show ?thesis by (auto simp: turn_run_def foldE_append)
qed

lemma turn_run_live: "turn_run W th us t es th' t' \<Longrightarrow> live th us t \<and> live th' us t'"
  by (simp add: turn_run_def)

text \<open>One event that keeps the identity of a Turn that stays open.\<close>

lemma turn_run_step:
  assumes live: "live th us t" and e: "carries (thread_id th) (turn_id t) (th_sequence th) [p] es"
    and p: "turn_payload p" "open_compaction_guard t p" "\<And>e. payload e = p \<Longrightarrow> e_turn_id e = Some (turn_id t) \<Longrightarrow>
      schema_version e = 22 \<Longrightarrow> apply_turn_event W th t e = Inr (f e, None)"
    and same: "\<And>e. same_turn t (f e)" "\<And>e. \<not> terminal (f e)"
  obtains e u where "es = [e]" "turn_run W th us t es u (f e)"
proof -
  from e obtain e where e: "es = [e]" "e_thread_id e = thread_id th" "e_sequence e = th_sequence th + 1"
      "e_turn_id e = Some (turn_id t)" "payload e = p" "schema_version e = 22"
    by (auto split: list.splits)
  have addr: "addressed th t e" using e by (simp add: addressed_def)
  have ev: "apply_turn_event W th t e = Inr (f e, None)" using p(3) [OF e(5,4,6)] .
  have pay: "turn_payload (payload e)" "open_compaction_guard t (payload e)" using p e(5) by simp_all
  let ?u = "update_thread th e (f e) (us @ [f e])"
  from active_step [OF live addr pay ev] have run: "apply_to_thread W th e = Inr ?u" by (simp add: add_window_def)
  from live_update [OF live same(1,2)] have live': "live ?u us (f e)" .
  have "turn_run W th us t es ?u (f e)"
    using live live' run e same(1) [of e] by (auto simp: turn_run_def same_turn_def)
  with e(1) show ?thesis by (rule that)
qed

section \<open>Model attempts\<close>

definition attempts_closable :: "turn \<Rightarrow> bool" where
  "attempts_closable t \<longleftrightarrow> list_all (\<lambda>a. a_status a = At_running \<longrightarrow>
     t_status t \<in> {Ts_CALLING_MODEL, Ts_CANCELLING} \<and> a_step a = t_model_steps t) (t_model_attempts t)"

lemma running_split:
  assumes "filter P xs = a # rest" "distinct (map k xs)" "\<not> P b" "k b = k a"
  shows "filter P (replace_by k b xs) = rest" "a \<in> set xs"
    "set (replace_by k b xs) \<subseteq> insert b (set xs)" "map k (replace_by k b xs) = map k xs"
proof -
  from assms(1) obtain us vs where xs: "xs = us @ a # vs" "\<forall>u \<in> set us. \<not> P u" "rest = filter P vs"
    by (auto simp: filter_eq_Cons_iff)
  from assms(2,4) xs(1) have "k b \<notin> k ` set us" "k b \<notin> k ` set vs" by auto
  then have r: "replace_by k b xs = us @ b # vs" using xs(1) assms(4) by (simp add: replace_by_absent)
  show "filter P (replace_by k b xs) = rest" unfolding r using xs(2,3) assms(3) by simp
  show "a \<in> set xs" "set (replace_by k b xs) \<subseteq> insert b (set xs)" "map k (replace_by k b xs) = map k xs"
    unfolding r using xs(1) assms(4) by auto
qed

definition finished_attempt :: "model_attempt_finished \<Rightarrow> datetime \<Rightarrow> model_attempt \<Rightarrow> model_attempt" where
  "finished_attempt p now a = a\<lparr>a_status := mf_outcome p, a_error := mf_error p, a_finished_at := Some now\<rparr>"

lemma settle_finished:
  assumes "find (\<lambda>a. attempt_id a = mf_attempt_id p) (t_model_attempts t) = Some a" "a_status a = At_running"
    and "t_status t \<in> {Ts_CALLING_MODEL, Ts_CANCELLING}" "a_step a = t_model_steps t" "mf_outcome p \<noteq> At_completed"
    and "0 \<le> u_input_tokens (t_usage t)" "0 \<le> u_output_tokens (t_usage t)"
  shows "settle_attempt t e (Finished p) = Inr (t\<lparr>t_model_attempts :=
    replace_by attempt_id (finished_attempt p (occurred_at e) a) (t_model_attempts t)\<rparr>)"
proof -
  from find_SomeD [OF assms(1)] have "attempt_id a = mf_attempt_id p" by simp
  moreover have "\<lparr>u_input_tokens = u_input_tokens (t_usage t), u_output_tokens = u_output_tokens (t_usage t)\<rparr> = t_usage t"
    by simp
  ultimately show ?thesis
    using assms by (simp add: settle_attempt_def settle_observation_def obs_attempt_id_def add_usage_def make_usage_def
        finished_attempt_def)
qed

lemma attempts_close:
  assumes "live th us t" "no_open_compactions t" "distinct (map attempt_id (t_model_attempts t))"
    and "attempts_closable t" "0 \<le> u_input_tokens (t_usage t)" "0 \<le> u_output_tokens (t_usage t)"
    and "carries (thread_id th) (turn_id t) (th_sequence th) (close_attempts fin (t_model_attempts t)) es"
  shows "\<exists>th' as. turn_run W th us t es th' (t\<lparr>t_model_attempts := as\<rparr>) \<and> list_all (\<lambda>a. a_status a \<noteq> At_running) as"
  using assms
proof (induction "filter (\<lambda>a. a_status a = At_running) (t_model_attempts t)" arbitrary: th t es)
  case Nil
  then have "es = []" by (simp add: close_attempts_def)
  moreover from Nil(1) [symmetric] have "list_all (\<lambda>a. a_status a \<noteq> At_running) (t_model_attempts t)"
    by (auto simp: list_all_iff filter_empty_conv)
  ultimately show ?case using turn_run_refl [OF Nil(2)]
    by (intro exI [of _ th] exI [of _ "t_model_attempts t"]) simp
next
  case (Cons a rest)
  let ?as = "t_model_attempts t"
  let ?p = "\<lparr>mf_attempt_id = attempt_id a, mf_outcome = attempt_outcome (fst fin),
     mf_error = Some (or_failure (snd fin) (failure ''provider_stream_incomplete'' UNFINISHED_ATTEMPT))\<rparr>"
  define f where "f e = t\<lparr>t_model_attempts := replace_by attempt_id (finished_attempt ?p (occurred_at e) a) ?as\<rparr>" for e :: agent_event
  define g where "g a = ModelAttemptFinished \<lparr>mf_attempt_id = attempt_id a, mf_outcome = attempt_outcome (fst fin),
     mf_error = Some (or_failure (snd fin) (failure ''provider_stream_incomplete'' UNFINISHED_ATTEMPT))\<rparr>" for a :: model_attempt
  have close: "close_attempts fin as = map g (filter (\<lambda>a. a_status a = At_running) as)" for as
    by (simp add: close_attempts_def g_def)
  have out: "close_attempts fin ?as = [ModelAttemptFinished ?p] @ map g rest"
    unfolding close Cons(2) [symmetric] by (simp add: g_def)
  obtain xs ys where es: "es = xs @ ys" "carries (thread_id th) (turn_id t) (th_sequence th) [ModelAttemptFinished ?p] xs"
      "carries (thread_id th) (turn_id t) (th_sequence th + length xs) (map g rest) ys"
    by (rule carries_append [OF Cons.prems(7) [unfolded out]])
  have settled: "mf_outcome ?p \<noteq> At_completed" "mf_outcome ?p \<noteq> At_running" by (simp_all add: attempt_outcome_def)
  have ended: "a_status (finished_attempt ?p now a) \<noteq> At_running" "attempt_id (finished_attempt ?p now a) = attempt_id a" for now
    using settled by (simp_all add: finished_attempt_def)
  note split = running_split [OF Cons(2) [symmetric] Cons.prems(3) ended]
  have "a \<in> set (filter (\<lambda>a. a_status a = At_running) ?as)" unfolding Cons(2) [symmetric] by simp
  then have run: "a_status a = At_running" by simp
  from find_by_key [OF Cons.prems(3) split(2)]
  have found: "find (\<lambda>x. attempt_id x = mf_attempt_id ?p) ?as = Some a" by simp
  from Cons.prems(4) split(2) run have here: "t_status t \<in> {Ts_CALLING_MODEL, Ts_CANCELLING}" "a_step a = t_model_steps t"
    by (auto simp: attempts_closable_def list_all_iff)
  from Cons.prems(1) have open_t: "\<not> terminal t" by (simp add: live_def)
  obtain e u where e: "xs = [e]" "turn_run W th us t xs u (f e)"
  proof (rule turn_run_step [OF Cons.prems(1) es(2), of W f])
    show "turn_payload (ModelAttemptFinished ?p)" "open_compaction_guard t (ModelAttemptFinished ?p)"
      using Cons.prems(2) by (simp_all add: turn_payload_def open_compaction_guard_def)
    show "apply_turn_event W th t e = Inr (f e, None)" if "payload e = ModelAttemptFinished ?p" for e
      using settle_finished [OF found run here settled(1) Cons.prems(5,6)] that by (simp add: apply_turn_event_def f_def)
    show "same_turn t (f e)" "\<not> terminal (f e)" for e
      using open_t by (simp_all add: f_def same_turn_def)
  qed
  have rest: "rest = filter (\<lambda>a. a_status a = At_running) (t_model_attempts (f e))" using split(1) by (simp add: f_def)
  have closable: "attempts_closable (f e)"
    using Cons.prems(4) split(3) ended by (fastforce simp: attempts_closable_def f_def list_all_iff)
  have ids: "distinct (map attempt_id (t_model_attempts (f e)))" using Cons.prems(3) split(4) by (simp add: f_def)
  have seq: "thread_id u = thread_id th" "th_sequence u = th_sequence th + length xs"
    using e(2) by (simp_all add: turn_run_def)
  have tail: "carries (thread_id u) (turn_id (f e)) (th_sequence u) (close_attempts fin (t_model_attempts (f e))) ys"
    unfolding close rest [symmetric] using es(3) seq by (simp add: f_def)
  have "\<exists>th' as. turn_run W u us (f e) ys th' ((f e)\<lparr>t_model_attempts := as\<rparr>) \<and> list_all (\<lambda>a. a_status a \<noteq> At_running) as"
    using Cons.hyps(1) [OF rest turn_run_live [OF e(2), THEN conjunct2] _ ids closable _ _ tail] Cons.prems(2,5,6)
    by (simp add: f_def no_open_compactions_def)
  then obtain th' as where r: "turn_run W u us (f e) ys th' ((f e)\<lparr>t_model_attempts := as\<rparr>)"
      "list_all (\<lambda>a. a_status a \<noteq> At_running) as" by blast
  have "(f e)\<lparr>t_model_attempts := as\<rparr> = t\<lparr>t_model_attempts := as\<rparr>" by (simp add: f_def)
  with turn_run_append [OF e(2) r(1)] r(2) show ?case unfolding es(1) by metis
qed

section \<open>Items\<close>

definition closed_item :: "finish \<Rightarrow> item \<Rightarrow> item" where
  "closed_item fin i = (if i_status i = Is_STARTED
     then i\<lparr>i_status := (if fst fin = Ts_CANCELLED then Is_CANCELLED else Is_FAILED), i_error := snd fin\<rparr> else i)"

lemma closed_item_fields [simp]:
  "item_id (closed_item fin i) = item_id i" "i_content (closed_item fin i) = i_content i"
  "i_status (closed_item fin i) \<noteq> Is_STARTED" "closed_item fin (closed_item fin i) = closed_item fin i"
  "i_status (closed_item fin i) = Is_COMPLETED \<longleftrightarrow> i_status i = Is_COMPLETED"
  by (simp_all add: closed_item_def)

definition items_closable :: "turn \<Rightarrow> bool" where
  "items_closable t \<longleftrightarrow> list_all (\<lambda>i. i_status i = Is_STARTED \<longrightarrow> \<not> rejection_pair t (i_content i)
     \<and> (case i_content i of Approval a \<Rightarrow> ap_decision a = None | _ \<Rightarrow> True)) (t_items t)"

lemma list_ex_contents: "list_ex (\<lambda>i. F (i_content i)) xs \<longleftrightarrow> list_ex F (map i_content xs)"
  by (induction xs) simp_all

lemma rejection_pair_contents:
  assumes "map i_content (t_items t') = map i_content (t_items t)"
  shows "rejection_pair t' c = rejection_pair t c"
proof (cases c)
  case (ToolResult r)
  note contents = list_ex_contents [of "\<lambda>c. case c of Rejection q \<Rightarrow> rj_call_id q = tr_call_id r | _ \<Rightarrow> False"]
  show ?thesis unfolding ToolResult rejection_pair_def item_content.case contents assms ..
qed (simp_all add: rejection_pair_def)

lemma cleared_undecided: "ap_decision a = None \<Longrightarrow> cleared a a = a"
  by (cases a) (simp_all add: cleared_def ap_decision_def)

lemma finish_closes:
  assumes "find (\<lambda>j. item_id j = item_id i) (t_items t) = Some i" "i_status i = Is_STARTED"
    and "\<not> rejection_pair t (i_content i)" "case i_content i of Approval a \<Rightarrow> ap_decision a = None | _ \<Rightarrow> True"
  shows "finish_item t e \<lparr>fi_item_id = item_id i, fi_status = (if fst fin = Ts_CANCELLED then Is_CANCELLED else Is_FAILED),
      fi_content = i_content i, fi_error = snd fin\<rparr>
    = Inr (t\<lparr>t_items := replace_by item_id (closed_item fin i) (t_items t)\<rparr>)"
proof -
  have "closed_item fin i = \<lparr>item_id = item_id i, i_status = (if fst fin = Ts_CANCELLED then Is_CANCELLED else Is_FAILED),
      i_content = i_content i, i_error = snd fin\<rparr>"
    using assms(2) by (simp add: closed_item_def)
  with assms show ?thesis
    by (auto simp: finish_item_def finish_approval_def cleared_undecided split: item_content.splits)
qed

lemma items_close:
  assumes "live th us t" "no_open_compactions t" "distinct (map item_id (t_items t))" "items_closable t"
    and "carries (thread_id th) (turn_id t) (th_sequence th) (close_items fin (t_items t)) es"
  shows "\<exists>th'. turn_run W th us t es th' (t\<lparr>t_items := map (closed_item fin) (t_items t)\<rparr>)"
  using assms
proof (induction "filter (\<lambda>i. i_status i = Is_STARTED) (t_items t)" arbitrary: th t es)
  case Nil
  then have "es = []" by (simp add: close_items_def)
  moreover have "map (closed_item fin) (t_items t) = t_items t"
    using Nil(1) [symmetric] by (intro map_idI) (auto simp: filter_empty_conv closed_item_def)
  ultimately show ?case using turn_run_refl [OF Nil(2)] by (intro exI [of _ th]) simp
next
  case (Cons i rest)
  let ?is = "t_items t"
  define g where "g i = ItemFinished \<lparr>fi_item_id = item_id i,
     fi_status = (if fst fin = Ts_CANCELLED then Is_CANCELLED else Is_FAILED),
     fi_content = i_content i, fi_error = snd fin\<rparr>" for i :: item
  define t1 where "t1 = t\<lparr>t_items := replace_by item_id (closed_item fin i) ?is\<rparr>"
  have close: "close_items fin is = map g (filter (\<lambda>i. i_status i = Is_STARTED) is)" for "is"
    by (simp add: close_items_def g_def)
  have out: "close_items fin ?is = [g i] @ map g rest"
    unfolding close Cons(2) [symmetric] by simp
  obtain xs ys where es: "es = xs @ ys" "carries (thread_id th) (turn_id t) (th_sequence th) [g i] xs"
      "carries (thread_id th) (turn_id t) (th_sequence th + length xs) (map g rest) ys"
    by (rule carries_append [OF Cons.prems(5) [unfolded out]])
  note split = running_split [OF Cons(2) [symmetric] Cons.prems(3) closed_item_fields(3) closed_item_fields(1)]
  have "i \<in> set (filter (\<lambda>i. i_status i = Is_STARTED) ?is)" unfolding Cons(2) [symmetric] by simp
  then have run: "i_status i = Is_STARTED" by simp
  from Cons.prems(4) split(2) run have ok: "\<not> rejection_pair t (i_content i)"
      "case i_content i of Approval a \<Rightarrow> ap_decision a = None | _ \<Rightarrow> True"
    by (auto simp: items_closable_def list_all_iff)
  from Cons.prems(1) have open_t: "\<not> terminal t" by (simp add: live_def)
  obtain e u where e: "xs = [e]" "turn_run W th us t xs u t1"
  proof (rule turn_run_step [OF Cons.prems(1) es(2), of W "\<lambda>_. t1"])
    show "turn_payload (g i)" "open_compaction_guard t (g i)"
      using Cons.prems(2) by (simp_all add: turn_payload_def open_compaction_guard_def g_def)
    show "apply_turn_event W th t e = Inr (t1, None)" if "payload e = g i" for e
      using finish_closes [OF find_by_key [OF Cons.prems(3) split(2)] run ok] that
      by (simp add: apply_turn_event_def g_def t1_def)
    show "same_turn t t1" "\<not> terminal t1" for e :: agent_event
      using open_t by (simp_all add: t1_def same_turn_def)
  qed
  obtain us' vs where parts: "?is = us' @ i # vs" "t_items t1 = us' @ closed_item fin i # vs"
    by (rule replace_by_split [OF Cons.prems(3) split(2), of "closed_item fin i"]) (simp_all add: t1_def)
  have rest: "rest = filter (\<lambda>i. i_status i = Is_STARTED) (t_items t1)" using split(1) by (simp add: t1_def)
  have contents: "map i_content (t_items t1) = map i_content ?is" by (simp add: parts)
  have closable: "items_closable t1"
    using Cons.prems(4) rejection_pair_contents [OF contents] by (auto simp: items_closable_def list_all_iff parts)
  have ids: "distinct (map item_id (t_items t1))" using Cons.prems(3) by (simp add: parts)
  have seq: "thread_id u = thread_id th" "th_sequence u = th_sequence th + length xs"
    using e(2) by (simp_all add: turn_run_def)
  have tail: "carries (thread_id u) (turn_id t1) (th_sequence u) (close_items fin (t_items t1)) ys"
    unfolding close rest [symmetric] using es(3) seq by (simp add: t1_def)
  obtain th' where r: "turn_run W u us t1 ys th' (t1\<lparr>t_items := map (closed_item fin) (t_items t1)\<rparr>)"
    using Cons.hyps(1) [OF rest turn_run_live [OF e(2), THEN conjunct2] _ ids closable tail] Cons.prems(2)
    by (auto simp: t1_def no_open_compactions_def)
  have "map (closed_item fin) (t_items t1) = map (closed_item fin) ?is" by (simp add: parts)
  then have "t1\<lparr>t_items := map (closed_item fin) (t_items t1)\<rparr> = t\<lparr>t_items := map (closed_item fin) ?is\<rparr>"
    unfolding t1_def by simp
  with turn_run_append [OF e(2) r] show ?case unfolding es(1) by metis
qed

section \<open>Results of open calls\<close>

definition known_ids :: "thread \<Rightarrow> uuid set" where
  "known_ids th = item_id ` (set (history_items th) \<union> set (thread_items th))"

lemma run_known:
  assumes "turn_run W th us t es th' t'"
  shows "known_ids th' \<subseteq> known_ids th \<union> item_id ` set (t_items t')"
proof -
  from assms have turns: "th_turns th = us @ [t]" by (simp add: turn_run_def live_def)
  from assms consider "th' = th" | e where "th' = update_thread th e t' (us @ [t'])" by (auto simp: turn_run_def)
  then show ?thesis
  proof cases
    case 2
    with turns show ?thesis
      by (auto simp: known_ids_def history_items_def inherited_items_def thread_items_def)
  qed simp
qed

lemma fresh_known: "live th us t \<Longrightarrow> iid \<notin> known_ids th \<Longrightarrow> fresh_item th t iid"
  using live_items [of th us t] by (auto simp: fresh_item_def known_ids_def)

text \<open>A result without any evidence, as recovery failures and calls that never ran have it.\<close>

definition bare :: "tool_call_content \<Rightarrow> tool_result_content \<Rightarrow> bool" where
  "bare c r \<longleftrightarrow> tr_call_id r = tc_call_id c \<and> tr_outcome r \<noteq> Oc_succeeded \<and> tr_patch r = None \<and> tr_patch_batch r = None
     \<and> tr_process r = None \<and> tr_trusted_action r = None"

lemma rejection_mem: "i \<in> set is \<Longrightarrow> i_content i = Rejection r \<Longrightarrow> r \<in> set (rejections_of is)"
  by (induction "is") (auto simp: rejections_Cons)

lemma result_mem: "i \<in> set is \<Longrightarrow> i_content i = ToolResult r \<Longrightarrow> i_status i \<noteq> Is_STARTED \<Longrightarrow>
    tr_call_id r \<in> set (settled_calls is)"
  by (induction "is") (auto simp: settled_calls_def List.map_filter_simps split: option.splits)

lemma call_not_rejected:
  assumes "require_closed_rejection_items is = Inr ()" "i \<in> set is" "i_content i = ToolCall c"
  shows "tc_call_id c \<notin> rj_call_id ` set (rejections_of is)"
proof
  assume "tc_call_id c \<in> rj_call_id ` set (rejections_of is)"
  then obtain r j where r: "j \<in> set is" "i_content j = Rejection r" "rj_call_id r = tc_call_id c"
    by (auto simp: rejections_of_def List.map_filter_def split: item_content.splits)
  then obtain pre post where split: "is = pre @ j # post" by (auto dest: split_list)
  from assms(1) have "closed_rejections is" by (simp add: require_closed_rejection_items_iff)
  with split have "rejection_settled (\<lambda>rs. length rs = 1) pre j post" unfolding closed_rejections_def by blast
  with r(2,3) have "tc_call_id c \<notin> set (called_ids (pre @ post))" by (simp add: rejection_settled_def)
  moreover have "i \<in> set (pre @ post)" using assms(2,3) split r(2) by auto
  with assms(3) have "tc_call_id c \<in> set (called_ids (pre @ post))"
    by (force simp: called_ids_def List.map_filter_def)
  ultimately show False by simp
qed

lemma pending_item:
  assumes "c \<in> set (pending_calls t)"
  obtains i where "i \<in> set (t_items t)" "i_content i = ToolCall c" "tc_call_id c \<notin> set (settled_calls (t_items t))"
  using assms that
  by (auto simp: pending_calls_def completed_calls_def List.map_filter_def split: item_content.splits if_splits)

lemma bare_result_starts:
  assumes "pending_calls t = c # calls" "no_open_items t" "require_closed_rejection_items (t_items t) = Inr ()"
    and "process_approval t c = None" "bare c r"
  shows "start_guard W th t e (ToolResult r) = Inr ()" "unpaired (t_items t) (ToolResult r)"
proof -
  from assms(1) have c: "c \<in> set (pending_calls t)" by simp
  obtain i where i: "i \<in> set (t_items t)" "i_content i = ToolCall c" "tc_call_id c \<notin> set (settled_calls (t_items t))"
    by (rule pending_item [OF c])
  from call_not_rejected [OF assms(3) i(1,2)] have rej: "tc_call_id c \<notin> rj_call_id ` set (rejections_of (t_items t))" .
  with assms(5) show "unpaired (t_items t) (ToolResult r)" by (simp add: unpaired_def bare_def)
  have "\<not> result_of_rejection t (tc_call_id c)"
  proof
    assume "result_of_rejection t (tc_call_id c)"
    then obtain j where j: "j \<in> set (t_items t)" "case i_content j of Rejection r \<Rightarrow> i_status j = Is_COMPLETED
        \<and> rj_call_id r = tc_call_id c | _ \<Rightarrow> False"
      unfolding result_of_rejection_def list_ex_iff by blast
    from j(2) obtain q where "i_content j = Rejection q" "rj_call_id q = tc_call_id c"
      by (cases "i_content j") simp_all
    with j(1) rejection_mem rej show False by force
  qed
  moreover have "results_for (tc_call_id c) (t_items t) = []"
  proof (rule ccontr)
    assume "results_for (tc_call_id c) (t_items t) \<noteq> []"
    then obtain j where j: "j \<in> set (t_items t)" "case i_content j of ToolResult r \<Rightarrow> tr_call_id r = tc_call_id c | _ \<Rightarrow> False"
      unfolding results_for_def filter_empty_conv by blast
    from j(2) obtain q where "i_content j = ToolResult q" "tr_call_id q = tc_call_id c"
      by (cases "i_content j") simp_all
    with j(1) result_mem [of j] i(3) assms(2) show False by (force simp: no_open_items_def list_all_iff)
  qed
  ultimately show "start_guard W th t e (ToolResult r) = Inr ()"
    using assms(1,4,5)
    by (simp add: start_guard_def start_result_def first_pending_def bare_def validate_process_result_def
        validate_trusted_action_effect_def patch_evidence_ok_def)
qed

text \<open>A completed result among the items settles exactly its call.\<close>

lemma map_filter_insert: "List.map_filter f (xs @ i # ys) = List.map_filter f xs @ (case f i of None \<Rightarrow> [] | Some y \<Rightarrow> [y]) @ List.map_filter f ys"
  by (simp add: List.map_filter_simps split: option.splits)

lemma result_settles:
  assumes "t_items t = xs @ ys" "pending_calls t = c # calls" "distinct (map tc_call_id (c # calls))"
    and "tr_call_id r = tc_call_id c" "t_items t' = xs @ done_item iid (ToolResult r) # ys"
  shows "pending_calls t' = calls"
proof -
  have completed: "completed_calls (t_items t') = completed_calls (t_items t)"
    using assms(1,5) by (simp add: completed_calls_def map_filter_insert)
  have settled: "set (settled_calls (t_items t')) = insert (tc_call_id c) (set (settled_calls (t_items t)))"
    using assms(1,4,5) by (auto simp: settled_calls_def map_filter_insert)
  have "pending_calls t' = filter (\<lambda>d. tc_call_id d \<noteq> tc_call_id c) (pending_calls t)"
    unfolding pending_calls_def completed settled by (simp add: conj_commute cong: filter_cong)
  also have "\<dots> = calls"
    using assms(2,3) by (auto simp: filter_id_conv image_iff)
  finally show ?thesis .
qed

lemma find_insert: "\<not> P i \<Longrightarrow> find P (xs @ i # ys) = find P (xs @ ys)"
  by (induction xs) simp_all

lemma approval_kept:
  assumes "t_items t = xs @ ys" "t_items t' = xs @ i # ys" "case i_content i of Approval _ \<Rightarrow> False | _ \<Rightarrow> True"
  shows "process_approval t' c = process_approval t c"
proof -
  have "approval_for t' c = approval_for t c"
    unfolding approval_for_def assms(1,2) using assms(3) by (intro find_insert) (auto split: item_content.splits)
  then show ?thesis by (simp add: process_approval_def)
qed

lemma publish_runs:
  assumes live: "live th us t" and e: "carries (thread_id th) (turn_id t) (th_sequence th) (published_item iid c) es"
    and fresh: "iid \<notin> known_ids th" and guard: "\<And>e. schema_version e = 22 \<Longrightarrow> start_guard W th t e c = Inr ()"
    and no_approval: "case c of Approval _ \<Rightarrow> False | _ \<Rightarrow> True" and closed: "no_open_compactions t"
  obtains u where "turn_run W th us t es u (t\<lparr>t_items := place th t (done_item iid c)\<rparr>)"
proof -
  from e obtain x y where es: "es = [x, y]" "payload x = ItemStarted iid c" "payload y = ItemFinished (completion iid c)"
      "e_thread_id x = thread_id th" "e_sequence x = th_sequence th + 1" "e_turn_id x = Some (turn_id t)"
      "e_thread_id y = thread_id th" "e_sequence y = th_sequence th + 2" "e_turn_id y = Some (turn_id t)"
      "schema_version x = 22"
    by (auto simp: published_item_def completion_def split: list.splits)
  let ?t = "t\<lparr>t_items := place th t (done_item iid c)\<rparr>"
  let ?u = "update_thread th y ?t (us @ [?t])"
  have addr: "addressed th t x" using es by (simp add: addressed_def)
  from publish_steps [OF live addr es(2,7,8,9,3) fresh_known [OF live fresh] guard [OF es(10)] no_approval closed]
  have run: "foldE (apply_to_thread W) th es = Inr ?u" unfolding es(1) .
  have "live ?u us ?t" using live by (intro live_update [of th us t]) (auto simp: same_turn_def live_def)
  with live run es show ?thesis by (intro that [of ?u]) (auto simp: turn_run_def)
qed

end
