(* ===== verification/Closing_Compactions.thy ===== *)
theory Closing_Compactions
  imports Settling_Steps
begin

text \<open>
  The compactions a Turn leaves open when it ends: what every replayed Thread guarantees of them, and that
  the events which close them are accepted. The ledger compares the times of its events, so the clock must
  not have stepped back behind what it recorded.
\<close>

section \<open>What is known of an open compaction\<close>

definition ledger_inv :: "thread \<Rightarrow> turn \<Rightarrow> bool" where
  "ledger_inv th t \<longleftrightarrow> (\<forall>r \<in> set (t_compactions t). cr_created_event_sequence r \<le> th_sequence th)
     \<and> (no_open_compactions t \<or> t_status t \<in> {Ts_PREPARING_CONTEXT, Ts_CANCELLING})"

text \<open>An event of the ledger opens nothing but the compaction it plans, and keeps the state.\<close>

lemma advance_record_created:
  "advance_record W th t e r p = Inr (r', u) \<Longrightarrow> cr_created_event_sequence r' = cr_created_event_sequence r"
  by (cases p)
    (auto simp: advance_record_def start_summary_def settle_summary_def summarize_def reject_compaction_def
      split: option.splits)

lemma compaction_event_ledger:
  assumes "apply_compaction W th t e p = Inr t'"
  shows "t_status t' = t_status t" "t_status t \<in> {Ts_PREPARING_CONTEXT, Ts_CANCELLING}"
    "\<forall>r \<in> set (t_compactions t'). cr_created_event_sequence r = e_sequence e
       \<or> (\<exists>q \<in> set (t_compactions t). cr_created_event_sequence r = cr_created_event_sequence q)"
proof -
  have "t_status t' = t_status t \<and> t_status t \<in> {Ts_PREPARING_CONTEXT, Ts_CANCELLING}
    \<and> (\<forall>r \<in> set (t_compactions t'). cr_created_event_sequence r = e_sequence e
       \<or> (\<exists>q \<in> set (t_compactions t). cr_created_event_sequence r = cr_created_event_sequence q))"
  proof (cases "\<exists>plan ds. p = CompactionPlanned plan ds")
    case True
    with assms obtain plan where "t_compactions t' = t_compactions t @ [new_record t e plan]" "t_status t' = t_status t"
        "t_status t = Ts_PREPARING_CONTEXT"
      by (auto simp: apply_compaction_def planned_def)
    then show ?thesis by (auto simp: new_record_def)
  next
    case False
    with assms obtain r r' u where r: "find (\<lambda>c. record_key c = event_compaction_id p) (t_compactions t) = Some r"
      and adv: "advance_record W th t e r p = Inr (r', u)" and st: "t_status t \<in> {Ts_PREPARING_CONTEXT, Ts_CANCELLING}"
      and t': "t' = t\<lparr>t_usage := u, t_compactions := replace_by record_key r' (t_compactions t)\<rparr>"
      by (cases p) (auto simp: apply_compaction_def split: option.splits)
    have "set (t_compactions t') \<subseteq> insert r' (set (t_compactions t))"
      using set_replace_by_subset [of record_key r' "t_compactions t"] by (simp add: t')
    with advance_record_created [OF adv] find_SomeD [OF r] st show ?thesis by (fastforce simp: t')
  qed
  then show "t_status t' = t_status t" "t_status t \<in> {Ts_PREPARING_CONTEXT, Ts_CANCELLING}"
    "\<forall>r \<in> set (t_compactions t'). cr_created_event_sequence r = e_sequence e
       \<or> (\<exists>q \<in> set (t_compactions t). cr_created_event_sequence r = cr_created_event_sequence q)"
    by blast+
qed

lemma other_event_ledger:
  assumes "apply_turn_event W th t e = Inr (t', w)" "\<nexists>p. payload e = CompactionEvent p"
  shows "t_compactions t' = t_compactions t"
  using assms
  by (cases "payload e")
    (auto simp: apply_turn_event_def change_state_def start_item_def finish_item_def start_attempt_def settle_attempt_def
      prepare_context_def prepare_model_history_event_def record_usage_def Let_def split: option.splits if_splits)

lemma active_ledger:
  assumes inv: "ledger_inv th t" and guard: "open_compaction_guard t (payload e)"
    and run: "apply_turn_event W th t e = Inr (t', w)" and seq: "th_sequence th \<le> e_sequence e" "th_sequence th' = e_sequence e"
  shows "ledger_inv th' t'"
proof (cases "\<exists>p. payload e = CompactionEvent p")
  case True
  then obtain p where "payload e = CompactionEvent p" "apply_compaction W th t e p = Inr t'"
    using run by (auto simp: apply_turn_event_def)
  with compaction_event_ledger [OF this(2)] inv seq show ?thesis by (fastforce simp: ledger_inv_def)
next
  case False
  have same: "t_compactions t' = t_compactions t" using other_event_ledger [OF run] False by blast
  have "no_open_compactions t' \<or> t_status t' \<in> {Ts_PREPARING_CONTEXT, Ts_CANCELLING}"
  proof (cases "no_open_compactions t")
    case False
    with guard \<open>\<nexists>p. payload e = CompactionEvent p\<close> obtain s where s: "payload e = TurnStateChanged s" "tsc_status s = Ts_CANCELLING"
      by (auto simp: open_compaction_guard_def split: event_payload.splits)
    with run have "change_state th t e s = Inr t'" by (auto simp: apply_turn_event_def)
    with s(2) show ?thesis by (auto elim: change_state_cases)
  qed (simp add: same no_open_compactions_def)
  with inv seq show ?thesis by (fastforce simp: ledger_inv_def same)
qed

lemma ledger_inv_later: "ledger_inv th t \<Longrightarrow> th_sequence th \<le> th_sequence th' \<Longrightarrow> ledger_inv th' t"
  by (fastforce simp: ledger_inv_def)

lemma reachable_ledger: "reachable W th \<Longrightarrow> t \<in> set (th_turns th) \<Longrightarrow> ledger_inv th t"
proof (induction arbitrary: t rule: reachable_induct)
  case (create e th)
  then show ?case by (simp add: create_thread_fields)
next
  case (step th e th')
  from step.hyps(6) have "th_sequence th' = e_sequence e"
    by (cases rule: step_shape.cases) (simp_all add: update_thread_def add_window_def split: option.splits)
  with step.hyps(4) have seq: "th_sequence th \<le> th_sequence th'" "th_sequence th' = e_sequence e" by simp_all
  from step.hyps(6) show ?case
  proof (cases rule: step_shape.cases)
    case (start p tid)
    with step have "t \<in> set (th_turns th) \<or> t = new_turn e tid p" by auto
    moreover have "ledger_inv th' (new_turn e tid p)"
      by (simp add: ledger_inv_def new_turn_def no_open_compactions_def)
    ultimately show ?thesis using ledger_inv_later [OF step.IH seq(1)] by blast
  next
    case (active u us u' w)
    have "ledger_inv th u" using step.IH active(5) by simp
    have "th_sequence th \<le> e_sequence e" using seq by simp
    from active_ledger [OF \<open>ledger_inv th u\<close> active(9,10) this seq(2)] have "ledger_inv th' u'" .
    moreover from active step.prems have "t \<in> set (th_turns th) \<or> t = u'" by auto
    ultimately show ?thesis using ledger_inv_later [OF step.IH seq(1)] by blast
  next
    case (archive r)
    with step.prems have "t \<in> set (th_turns th)" by simp
    then show ?thesis using ledger_inv_later [OF step.IH seq(1)] by blast
  qed
qed

section \<open>One event of the ledger\<close>

lemma compaction_event_runs:
  assumes live: "live th us t" and e: "carries (thread_id th) (turn_id t) (th_sequence th) [CompactionEvent p] es"
    and run: "\<And>e. es = [e] \<Longrightarrow> e_sequence e = th_sequence th + 1 \<Longrightarrow> apply_compaction W th t e p = Inr (f e)"
  obtains e u where "es = [e]" "turn_run W th us t es u (f e)" "th_updated_at u = occurred_at e"
proof -
  from e obtain e where e: "es = [e]" "e_thread_id e = thread_id th" "e_sequence e = th_sequence th + 1"
      "e_turn_id e = Some (turn_id t)" "payload e = CompactionEvent p"
    by (auto split: list.splits)
  have addr: "addressed th t e" using e by (simp add: addressed_def)
  have pay: "turn_payload (payload e)" "open_compaction_guard t (payload e)"
    using e(5) by (simp_all add: turn_payload_def open_compaction_guard_def)
  note app = run [OF e(1,3)]
  then have ev: "apply_turn_event W th t e = Inr (f e, None)" using e(5) by (simp add: apply_turn_event_def)
  from compaction_event_ledger(1) [OF app] live have open_t: "\<not> terminal (f e)" by (simp add: live_def)
  note same = apply_turn_event_same [OF ev]
  let ?u = "update_thread th e (f e) (us @ [f e])"
  from active_step [OF live addr pay ev] have step: "apply_to_thread W th e = Inr ?u" by (simp add: add_window_def)
  from live_update [OF live same open_t] have live': "live ?u us (f e)" .
  have "turn_run W th us t es ?u (f e)"
    using live live' step e same by (auto simp: turn_run_def same_turn_def)
  moreover have "th_updated_at ?u = occurred_at e" by (simp add: update_thread_def)
  ultimately show ?thesis using that e(1) by blast
qed

section \<open>Closing one compaction\<close>

text \<open>The times a compaction and its request have recorded.\<close>

definition recorded_times :: "compaction_record \<Rightarrow> datetime list" where
  "recorded_times c = cr_created_at c
     # (case cr_attempt c of None \<Rightarrow> []
        | Some a \<Rightarrow> a_started_at a # (case a_finished_at a of None \<Rightarrow> [] | Some f \<Rightarrow> [f]))"

definition abandoned :: "model_attempt_finished \<Rightarrow> datetime \<Rightarrow> compaction_record \<Rightarrow> compaction_record" where
  "abandoned p now c = c\<lparr>cr_attempt := map_option (finished_attempt p now) (cr_attempt c)\<rparr>"

definition rejected :: "compaction_status \<Rightarrow> agent_failure \<Rightarrow> agent_event \<Rightarrow> compaction_record \<Rightarrow> compaction_record" where
  "rejected out f e c = c\<lparr>cr_status := out, cr_failure := Some f, cr_unaccounted_request_possible := False,
     cr_finished_event_sequence := Some (e_sequence e), cr_finished_at := Some (occurred_at e)\<rparr>"

lemma abandoned_ok:
  assumes "compaction_record_ok c" "is_open c" "cr_attempt c = Some a" "a_status a = At_running"
    and "mf_outcome p \<notin> {At_running, At_completed}" "mf_error p \<noteq> None" "a_started_at a \<le> now"
  shows "compaction_record_ok (abandoned p now c)" "is_open (abandoned p now c)"
    "record_key (abandoned p now c) = record_key c"
  using assms
  by (auto simp: abandoned_def compaction_record_ok_def coherent_state_def attempt_times_ok_def finished_attempt_def
      model_attempt_ok_def record_key_def COMPACTION_OPEN_def split: option.splits)

lemma rejected_ok:
  assumes "compaction_record_ok c" "is_open c" "case cr_attempt c of None \<Rightarrow> True | Some a \<Rightarrow> a_status a \<noteq> At_running"
    and "out \<in> {Cs_failed, Cs_cancelled, Cs_interrupted}" "cr_created_event_sequence c < e_sequence e"
    and "\<forall>x \<in> set (recorded_times c). x \<le> occurred_at e"
  shows "compaction_record_ok (rejected out f e c)" "\<not> is_open (rejected out f e c)"
    "record_key (rejected out f e c) = record_key c"
  using assms
  by (auto simp: rejected_def compaction_record_ok_def coherent_state_def attempt_times_ok_def recorded_times_def
      record_key_def COMPACTION_OPEN_def split: option.splits)

lemma abandon_applies:
  assumes "t_compactions t = as @ c # bs" "distinct (map record_key (t_compactions t))" "is_open c" "compaction_record_ok c"
    and "t_status t \<in> {Ts_PREPARING_CONTEXT, Ts_CANCELLING}" "cr_attempt c = Some a" "a_status a = At_running"
    and "mf_attempt_id p = attempt_id a" "mf_outcome p \<notin> {At_running, At_completed}" "mf_error p \<noteq> None"
    and "th_updated_at th \<le> occurred_at e" "\<forall>x \<in> set (recorded_times c). x \<le> occurred_at e"
    and "0 \<le> u_input_tokens (t_usage t)" "0 \<le> u_output_tokens (t_usage t)"
  shows "apply_compaction W th t e (CompactionAttemptFinished (record_key c) p)
    = Inr (t\<lparr>t_compactions := as @ abandoned p (occurred_at e) c # bs\<rparr>)"
proof -
  let ?c = "abandoned p (occurred_at e) c"
  have times: "cr_created_at c \<le> occurred_at e" "a_started_at a \<le> occurred_at e"
    using assms(6,12) by (simp_all add: recorded_times_def)
  note ok = abandoned_ok [OF assms(4,3,6,7,9,10) times(2)]
  have found: "find (\<lambda>x. record_key x = record_key c) (t_compactions t) = Some c"
    using find_by_key [OF assms(2), of c] assms(1) by simp
  have split: "replace_by record_key ?c (t_compactions t) = as @ ?c # bs"
    using assms(1,2) ok(3) by (simp add: replace_by_absent image_iff)
  have same: "\<lparr>u_input_tokens = u_input_tokens (t_usage t), u_output_tokens = u_output_tokens (t_usage t)\<rparr> = t_usage t"
    by simp
  have "settle_summary t e c (Finished p) = Inr (?c, t_usage t)"
    using assms(6-9,13,14) times same
    by (simp add: settle_summary_def settle_observation_def obs_attempt_id_def add_usage_def make_usage_def abandoned_def
        finished_attempt_def)
  then have "advance_record W th t e c (CompactionAttemptFinished (record_key c) p) = Inr (?c, t_usage t)"
    by (simp add: advance_record_def)
  with found split assms(3,5,11) ok(1) times(1) show ?thesis
    by (simp add: apply_compaction_def event_compaction_id_def)
qed

lemma reject_applies:
  assumes "t_compactions t = as @ c # bs" "distinct (map record_key (t_compactions t))" "is_open c" "compaction_record_ok c"
    and "t_status t \<in> {Ts_PREPARING_CONTEXT, Ts_CANCELLING}"
    and "case cr_attempt c of None \<Rightarrow> True | Some a \<Rightarrow> a_status a \<noteq> At_running"
    and "out \<in> {Cs_failed, Cs_cancelled, Cs_interrupted}" "cr_created_event_sequence c < e_sequence e"
    and "th_updated_at th \<le> occurred_at e" "\<forall>x \<in> set (recorded_times c). x \<le> occurred_at e"
  shows "apply_compaction W th t e (CompactionRejected (record_key c) out f False)
    = Inr (t\<lparr>t_compactions := as @ rejected out f e c # bs\<rparr>)"
proof -
  let ?c = "rejected out f e c"
  note ok = rejected_ok [OF assms(4,3,6,7,8,10), of f]
  have found: "find (\<lambda>x. record_key x = record_key c) (t_compactions t) = Some c"
    using find_by_key [OF assms(2), of c] assms(1) by simp
  have split: "replace_by record_key ?c (t_compactions t) = as @ ?c # bs"
    using assms(1,2) ok(3) by (simp add: replace_by_absent image_iff)
  have "advance_record W th t e c (CompactionRejected (record_key c) out f False) = Inr (?c, t_usage t)"
    using assms(6) by (simp add: advance_record_def reject_compaction_def rejected_def)
  moreover have "cr_created_at c \<le> occurred_at e" using assms(10) by (simp add: recorded_times_def)
  ultimately show ?thesis
    using found split assms(3,5,9) ok(1) by (simp add: apply_compaction_def event_compaction_id_def)
qed

section \<open>Closing all of them\<close>

text \<open>Events that happen in order, and after everything the Thread and its compactions recorded.\<close>

definition timely :: "thread \<Rightarrow> compaction_record list \<Rightarrow> agent_event list \<Rightarrow> bool" where
  "timely th cs es \<longleftrightarrow> sorted (map occurred_at es)
     \<and> (\<forall>e \<in> set es. th_updated_at th \<le> occurred_at e
          \<and> (\<forall>c \<in> set cs. \<forall>x \<in> set (recorded_times c). x \<le> occurred_at e))"

lemma compaction_rejects:
  assumes live: "live th us t" and cs: "t_compactions t = as @ c # bs" "distinct (map record_key (t_compactions t))"
    and c: "is_open c" "compaction_record_ok c" "case cr_attempt c of None \<Rightarrow> True | Some a \<Rightarrow> a_status a \<noteq> At_running"
    and st: "t_status t \<in> {Ts_PREPARING_CONTEXT, Ts_CANCELLING}" and seq: "cr_created_event_sequence c \<le> th_sequence th"
    and es: "carries (thread_id th) (turn_id t) (th_sequence th)
      [CompactionEvent (CompactionRejected (record_key c) (summary_outcome s) f False)] es"
    and times: "timely th [c] es"
  obtains e u where "es = [e]" "th_updated_at u = occurred_at e"
    "turn_run W th us t es u (t\<lparr>t_compactions := as @ rejected (summary_outcome s) f e c # bs\<rparr>)"
    "compaction_record_ok (rejected (summary_outcome s) f e c)" "\<not> is_open (rejected (summary_outcome s) f e c)"
proof -
  have out: "summary_outcome s \<in> {Cs_failed, Cs_cancelled, Cs_interrupted}" by (simp add: summary_outcome_def)
  have run: "apply_compaction W th t e (CompactionRejected (record_key c) (summary_outcome s) f False)
      = Inr (t\<lparr>t_compactions := as @ rejected (summary_outcome s) f e c # bs\<rparr>)"
    if "es = [e]" "e_sequence e = th_sequence th + 1" for e
    using times that seq by (intro reject_applies [OF cs c(1,2) st c(3) out]) (simp_all add: timely_def)
  obtain e u where e: "es = [e]" "turn_run W th us t es u (t\<lparr>t_compactions := as @ rejected (summary_outcome s) f e c # bs\<rparr>)"
      "th_updated_at u = occurred_at e"
    by (rule compaction_event_runs [OF live es run])
  have "e_sequence e = th_sequence th + 1" using es e(1) by simp
  then have "cr_created_event_sequence c < e_sequence e" using seq by simp
  from rejected_ok [OF c(2,1,3) out this, of f] times e(1)
  have "compaction_record_ok (rejected (summary_outcome s) f e c)" "\<not> is_open (rejected (summary_outcome s) f e c)"
    by (simp_all add: timely_def)
  from that [OF e(1,3,2) this] show ?thesis .
qed

lemma compaction_closes:
  assumes live: "live th us t" and cs: "t_compactions t = as @ c # bs" "distinct (map record_key (t_compactions t))"
    and c: "is_open c" "compaction_record_ok c" and seq: "cr_created_event_sequence c \<le> th_sequence th"
    and st: "t_status t \<in> {Ts_PREPARING_CONTEXT, Ts_CANCELLING}"
    and usage: "0 \<le> u_input_tokens (t_usage t)" "0 \<le> u_output_tokens (t_usage t)"
    and es: "carries (thread_id th) (turn_id t) (th_sequence th) (close_compaction c fin) es"
    and times: "timely th [c] es"
  shows "\<exists>u c'. turn_run W th us t es u (t\<lparr>t_compactions := as @ c' # bs\<rparr>) \<and> compaction_record_ok c' \<and> \<not> is_open c'
    \<and> record_key c' = record_key c \<and> (\<exists>e \<in> set es. th_updated_at u = occurred_at e)"
proof (cases "\<exists>a. cr_attempt c = Some a \<and> a_status a = At_running")
  case False
  then have idle: "case cr_attempt c of None \<Rightarrow> True | Some a \<Rightarrow> a_status a \<noteq> At_running" by (auto split: option.splits)
  have out: "close_compaction c fin = [CompactionEvent (CompactionRejected (record_key c) (summary_outcome (fst fin))
      (or_failure (snd fin) unsettled_summary) False)]"
    using False by (auto simp: close_compaction_def record_key_def Let_def split: option.splits)
  obtain e u where "es = [e]" "th_updated_at u = occurred_at e"
    "turn_run W th us t es u (t\<lparr>t_compactions := as @ rejected (summary_outcome (fst fin)) (or_failure (snd fin) unsettled_summary) e c # bs\<rparr>)"
    "compaction_record_ok (rejected (summary_outcome (fst fin)) (or_failure (snd fin) unsettled_summary) e c)"
    "\<not> is_open (rejected (summary_outcome (fst fin)) (or_failure (snd fin) unsettled_summary) e c)"
    by (rule compaction_rejects [OF live cs c idle st seq es [unfolded out] times])
  moreover have "record_key (rejected x y e c) = record_key c" for x y e by (simp add: rejected_def record_key_def)
  ultimately show ?thesis by (metis list.set_intros(1))
next
  case True
  then obtain a where a: "cr_attempt c = Some a" "a_status a = At_running" by blast
  let ?f = "or_failure (snd fin) unsettled_summary"
  let ?p = "\<lparr>mf_attempt_id = attempt_id a, mf_outcome = attempt_outcome (fst fin), mf_error = Some ?f\<rparr>"
  have out: "close_compaction c fin = [CompactionEvent (CompactionAttemptFinished (record_key c) ?p)]
      @ [CompactionEvent (CompactionRejected (record_key c) (summary_outcome (fst fin)) ?f False)]"
    using a by (simp add: close_compaction_def record_key_def Let_def)
  obtain xs ys where split: "es = xs @ ys"
      "carries (thread_id th) (turn_id t) (th_sequence th) [CompactionEvent (CompactionAttemptFinished (record_key c) ?p)] xs"
      "carries (thread_id th) (turn_id t) (th_sequence th + length xs)
         [CompactionEvent (CompactionRejected (record_key c) (summary_outcome (fst fin)) ?f False)] ys"
    by (rule carries_append [OF es [unfolded out]])
  have p: "mf_attempt_id ?p = attempt_id a" "mf_outcome ?p \<notin> {At_running, At_completed}" "mf_error ?p \<noteq> None"
    by (simp_all add: attempt_outcome_def)
  have run: "apply_compaction W th t e (CompactionAttemptFinished (record_key c) ?p)
      = Inr (t\<lparr>t_compactions := as @ abandoned ?p (occurred_at e) c # bs\<rparr>)" if "xs = [e]" for e
    using times that usage split(1)
    by (intro abandon_applies [OF cs c st a p]) (simp_all add: timely_def)
  define mid where "mid e = t\<lparr>t_compactions := as @ abandoned ?p (occurred_at e) c # bs\<rparr>" for e :: agent_event
  obtain e u where e: "xs = [e]" "turn_run W th us t xs u (mid e)" "th_updated_at u = occurred_at e"
    by (rule compaction_event_runs [OF live split(2), where W = W and f = mid]) (simp_all add: mid_def run)
  let ?c = "abandoned ?p (occurred_at e) c"
  have started: "a_started_at a \<le> occurred_at e" using times a(1) e(1) split(1) by (simp add: timely_def recorded_times_def)
  note ok = abandoned_ok [OF c(2,1) a p(2,3) started]
  have idle: "case cr_attempt ?c of None \<Rightarrow> True | Some a \<Rightarrow> a_status a \<noteq> At_running"
    using a(1) p(2) by (simp add: abandoned_def finished_attempt_def)
  have u: "thread_id u = thread_id th" "th_sequence u = th_sequence th + 1" "turn_id (mid e) = turn_id t" "live u us (mid e)"
    using e(1,2) by (simp_all add: turn_run_def)
  have keys: "distinct (map record_key (t_compactions (mid e)))" using cs ok(3) by (simp add: mid_def)
  have seq': "cr_created_event_sequence ?c \<le> th_sequence u" using seq u(2) by (simp add: abandoned_def)
  have st': "t_status (mid e) \<in> {Ts_PREPARING_CONTEXT, Ts_CANCELLING}" using st by (simp add: mid_def)
  have ys: "carries (thread_id u) (turn_id (mid e)) (th_sequence u)
      [CompactionEvent (CompactionRejected (record_key ?c) (summary_outcome (fst fin)) ?f False)] ys"
    using split(3) u ok(3) e(1) by simp
  have "timely u [?c] ys"
    using times e(1,3) split(1) a(1)
    by (auto simp: timely_def recorded_times_def abandoned_def finished_attempt_def)
  obtain e' v where v: "ys = [e']" "th_updated_at v = occurred_at e'"
      "turn_run W u us (mid e) ys v ((mid e)\<lparr>t_compactions := as @ rejected (summary_outcome (fst fin)) ?f e' ?c # bs\<rparr>)"
      "compaction_record_ok (rejected (summary_outcome (fst fin)) ?f e' ?c)"
      "\<not> is_open (rejected (summary_outcome (fst fin)) ?f e' ?c)"
    by (rule compaction_rejects [OF u(4) _ keys ok(2,1) idle st' seq' ys \<open>timely u [?c] ys\<close>, where W = W and as = as and bs = bs])
      (simp_all add: mid_def)
  have "(mid e)\<lparr>t_compactions := as @ rejected (summary_outcome (fst fin)) ?f e' ?c # bs\<rparr>
      = t\<lparr>t_compactions := as @ rejected (summary_outcome (fst fin)) ?f e' ?c # bs\<rparr>"
    by (simp add: mid_def)
  with turn_run_append [OF e(2) v(3)]
  have "turn_run W th us t es v (t\<lparr>t_compactions := as @ rejected (summary_outcome (fst fin)) ?f e' ?c # bs\<rparr>)"
    unfolding split(1) by simp
  moreover have "record_key (rejected (summary_outcome (fst fin)) ?f e' ?c) = record_key c"
    using ok(3) by (simp add: rejected_def record_key_def)
  moreover have "e' \<in> set es" using split(1) v(1) by simp
  ultimately show ?thesis using v(2,4,5) by blast
qed

definition closing_events :: "finish \<Rightarrow> compaction_record list \<Rightarrow> event_payload list" where
  "closing_events fin cs = concat (map (\<lambda>c. close_compaction c fin) (filter is_open cs))"

lemma closing_unchanged: "fst fin \<noteq> Ts_COMPLETED \<Longrightarrow> close_compactions cs fin = (closing_events fin cs, fin)"
  by (induction cs) (simp_all add: closing_events_def)

lemma timely_later:
  assumes "timely th cs (xs @ ys)" "ys \<noteq> [] \<Longrightarrow> \<exists>e \<in> set xs. th_updated_at u = occurred_at e" "set ds \<subseteq> set cs"
  shows "timely u ds ys"
  using assms by (cases ys) (auto simp: timely_def sorted_append)

lemma compactions_close:
  assumes "live th us t" "t_compactions t = as @ cs" "distinct (map record_key (t_compactions t))"
    and "list_all compaction_record_ok cs" "\<forall>c \<in> set cs. cr_created_event_sequence c \<le> th_sequence th"
    and "list_ex is_open cs \<longrightarrow> t_status t \<in> {Ts_PREPARING_CONTEXT, Ts_CANCELLING}"
    and "0 \<le> u_input_tokens (t_usage t)" "0 \<le> u_output_tokens (t_usage t)"
    and "carries (thread_id th) (turn_id t) (th_sequence th) (closing_events fin cs) es"
    and "timely th (filter is_open cs) es"
  shows "\<exists>u ds. turn_run W th us t es u (t\<lparr>t_compactions := as @ ds\<rparr>) \<and> list_all compaction_record_ok ds
    \<and> list_all (\<lambda>c. \<not> is_open c) ds \<and> map record_key ds = map record_key cs"
  using assms
proof (induction cs arbitrary: th t as es)
  case Nil
  then have "es = []" by (simp add: closing_events_def)
  moreover have "as = t_compactions t" using Nil.prems(2) by simp
  then have "t\<lparr>t_compactions := as @ []\<rparr> = t" by simp
  ultimately show ?case using turn_run_refl [OF Nil.prems(1), of W]
    by (intro exI [of _ th] exI [of _ "[]"]) (simp only: list.pred_inject list.map simp_thms)
next
  case (Cons c cs)
  show ?case
  proof (cases "is_open c")
    case False
    have more: "t_compactions t = (as @ [c]) @ cs" using Cons.prems(2) by simp
    have es: "carries (thread_id th) (turn_id t) (th_sequence th) (closing_events fin cs) es"
      using Cons.prems(9) False by (simp add: closing_events_def)
    obtain u ds where u: "turn_run W th us t es u (t\<lparr>t_compactions := (as @ [c]) @ ds\<rparr>)" "list_all compaction_record_ok ds"
        "list_all (\<lambda>c. \<not> is_open c) ds" "map record_key ds = map record_key cs"
      using Cons.IH [OF Cons.prems(1) more Cons.prems(3) _ _ _ Cons.prems(7,8) es] Cons.prems(4,5,6,10) False by auto
    then show ?thesis using Cons.prems(4) False by (intro exI [of _ u] exI [of _ "c # ds"]) simp
  next
    case True
    have st: "t_status t \<in> {Ts_PREPARING_CONTEXT, Ts_CANCELLING}" using Cons.prems(6) True by simp
    have out: "closing_events fin (c # cs) = close_compaction c fin @ closing_events fin cs"
      using True by (simp add: closing_events_def)
    obtain xs ys where es: "es = xs @ ys" "carries (thread_id th) (turn_id t) (th_sequence th) (close_compaction c fin) xs"
        "carries (thread_id th) (turn_id t) (th_sequence th + length xs) (closing_events fin cs) ys"
      by (rule carries_append [OF Cons.prems(9) [unfolded out]])
    have ok: "compaction_record_ok c" "cr_created_event_sequence c \<le> th_sequence th" using Cons.prems(4,5) by simp_all
    have times: "timely th [c] xs"
      using Cons.prems(10) True es(1) by (auto simp: timely_def sorted_append)
    obtain u c' e where u: "turn_run W th us t xs u (t\<lparr>t_compactions := as @ c' # cs\<rparr>)" "compaction_record_ok c'"
        "\<not> is_open c'" "record_key c' = record_key c" "e \<in> set xs" "th_updated_at u = occurred_at e"
      using compaction_closes [OF Cons.prems(1,2,3) True ok st Cons.prems(7,8) es(2) times, of W] by blast
    let ?t = "t\<lparr>t_compactions := as @ c' # cs\<rparr>"
    have p: "live u us ?t" "thread_id u = thread_id th" "th_sequence u = th_sequence th + length xs"
      using u(1) by (simp_all add: turn_run_def)
    have more: "t_compactions ?t = (as @ [c']) @ cs" by simp
    have keys: "distinct (map record_key (t_compactions ?t))" using Cons.prems(2,3) u(4) by simp
    have ys: "carries (thread_id u) (turn_id ?t) (th_sequence u) (closing_events fin cs) ys" using es(3) p by simp
    have later: "timely u (filter is_open cs) ys"
      by (rule timely_later [OF Cons.prems(10) [unfolded es(1)]]) (use u(5,6) in auto)
    have usage: "0 \<le> u_input_tokens (t_usage ?t)" "0 \<le> u_output_tokens (t_usage ?t)" using Cons.prems(7,8) by simp_all
    have seqs: "\<forall>d \<in> set cs. cr_created_event_sequence d \<le> th_sequence u" using Cons.prems(5) p(3) by fastforce
    have oks: "list_all compaction_record_ok cs" using Cons.prems(4) by simp
    have st': "list_ex is_open cs \<longrightarrow> t_status ?t \<in> {Ts_PREPARING_CONTEXT, Ts_CANCELLING}" using st by simp
    obtain v ds where v: "turn_run W u us ?t ys v (?t\<lparr>t_compactions := (as @ [c']) @ ds\<rparr>)" "list_all compaction_record_ok ds"
        "list_all (\<lambda>c. \<not> is_open c) ds" "map record_key ds = map record_key cs"
      using Cons.IH [OF p(1) more keys oks seqs st' usage ys later] by blast
    have "turn_run W th us t es v (t\<lparr>t_compactions := as @ (c' # ds)\<rparr>)"
      using turn_run_append [OF u(1) v(1)] es(1) by simp
    with u v show ?thesis by (intro exI [of _ v] exI [of _ "c' # ds"]) simp
  qed
qed

end
