(* ===== verification/Settled_Turns.thy ===== *)
theory Settled_Turns
  imports Closing_Compactions Accepted_Turns
begin

text \<open>
  A Turn always ends. If nothing but missing evidence stands behind its open calls, the batch that ends
  it is accepted in every state a Turn can stop in.
\<close>

section \<open>The results of all open calls\<close>

lemma results_publish:
  assumes "live th us t" "no_open_compactions t" "no_open_items t" "require_closed_rejection_items (t_items t) = Inr ()"
    and "pending_calls t = calls" "distinct (map tc_call_id calls)"
    and "\<forall>c \<in> set calls. process_approval t c = None \<and> bare c (R c)"
    and "\<forall>k \<in> {i..<i + length calls}. h_new_id H k \<notin> known_ids th" "inj_on (h_new_id H) {i..<i + length calls}"
    and "carries (thread_id th) (turn_id t) (th_sequence th) (publish_all H i (map (\<lambda>c. ToolResult (R c)) calls)) es"
  shows "\<exists>th' is. turn_run W th us t es th' (t\<lparr>t_items := is\<rparr>) \<and> pending_calls (t\<lparr>t_items := is\<rparr>) = []
    \<and> no_open_items (t\<lparr>t_items := is\<rparr>) \<and> require_closed_rejection_items is = Inr ()
    \<and> known_ids th' \<subseteq> known_ids th \<union> h_new_id H ` {i..<i + length calls}
    \<and> (\<forall>j \<in> set is. j \<in> set (t_items t) \<or> (\<exists>c \<in> set calls. i_content j = ToolResult (R c)))"
  using assms
proof (induction calls arbitrary: i th t es)
  case Nil
  then have "es = []" by simp
  with Nil turn_run_refl [OF Nil(1)] show ?case by (intro exI [of _ th] exI [of _ "t_items t"]) simp
next
  case (Cons c calls)
  let ?iid = "h_new_id H i" and ?r = "ToolResult (R c)"
  let ?d = "done_item ?iid ?r"
  define t1 where "t1 = t\<lparr>t_items := place th t ?d\<rparr>"
  have out: "publish_all H i (map (\<lambda>c. ToolResult (R c)) (c # calls))
      = published_item ?iid ?r @ publish_all H (i + 1) (map (\<lambda>c. ToolResult (R c)) calls)" by simp
  obtain xs ys where es: "es = xs @ ys" "carries (thread_id th) (turn_id t) (th_sequence th) (published_item ?iid ?r) xs"
      "carries (thread_id th) (turn_id t) (th_sequence th + length xs)
         (publish_all H (i + 1) (map (\<lambda>c. ToolResult (R c)) calls)) ys"
    by (rule carries_append [OF Cons.prems(10) [unfolded out]])
  have c: "process_approval t c = None" "bare c (R c)" using Cons.prems(7) by simp_all
  note starts = bare_result_starts [OF Cons.prems(5,3,4) c]
  have fresh: "?iid \<notin> known_ids th" using Cons.prems(8) by simp
  have na: "case ?r of Approval _ \<Rightarrow> False | _ \<Rightarrow> True" by simp
  obtain u where u: "turn_run W th us t xs u t1"
    unfolding t1_def by (rule publish_runs [OF Cons.prems(1) es(2) fresh starts(1) na Cons.prems(2)])
  obtain as bs where split: "t_items t = as @ bs" "t_items t1 = as @ ?d # bs"
    by (rule place_split [of t ?r th]) (simp add: t1_def)
  from c(2) have id: "tr_call_id (R c) = tc_call_id c" by (simp add: bare_def)
  have pending: "pending_calls t1 = calls" by (rule result_settles [OF split(1) Cons.prems(5,6) id split(2)])
  have open1: "no_open_items t1" using Cons.prems(3) by (simp add: no_open_items_def split)
  have closed1: "require_closed_rejection_items (t_items t1) = Inr ()"
    using closed_place [OF Cons.prems(4), of ?d th] starts(2) by (simp add: t1_def)
  have app: "process_approval t1 d = process_approval t d" for d
    using approval_kept [OF split] by simp
  have known: "known_ids u \<subseteq> insert ?iid (known_ids th)"
    using run_known [OF u] split live_items [OF Cons.prems(1)] by (auto simp: known_ids_def)
  have inj: "inj_on (h_new_id H) {i..<i + length (c # calls)}" by (rule Cons.prems(9))
  have fresh1: "\<forall>k \<in> {i + 1..<i + 1 + length calls}. h_new_id H k \<notin> known_ids u"
  proof
    fix k assume k: "k \<in> {i + 1..<i + 1 + length calls}"
    then have "h_new_id H k \<noteq> ?iid" using inj_onD [OF inj, of k i] by auto
    with k known Cons.prems(8) show "h_new_id H k \<notin> known_ids u" by auto
  qed
  have seq: "thread_id u = thread_id th" "th_sequence u = th_sequence th + length xs" "turn_id t1 = turn_id t"
    using u by (simp_all add: turn_run_def)
  have live1: "live u us t1" using turn_run_live [OF u] by simp
  have comp: "no_open_compactions t1" using Cons.prems(2) by (simp add: t1_def no_open_compactions_def)
  have all: "\<forall>d \<in> set calls. process_approval t1 d = None \<and> bare d (R d)" using Cons.prems(7) app by simp
  have dist: "distinct (map tc_call_id calls)" using Cons.prems(6) by simp
  have inj1: "inj_on (h_new_id H) {i + 1..<i + 1 + length calls}" using inj by (rule inj_on_subset) auto
  have tail: "carries (thread_id u) (turn_id t1) (th_sequence u) (publish_all H (i + 1) (map (\<lambda>c. ToolResult (R c)) calls)) ys"
    using es(3) seq by simp
  obtain th' "is" where r: "turn_run W u us t1 ys th' (t1\<lparr>t_items := is\<rparr>)" "pending_calls (t1\<lparr>t_items := is\<rparr>) = []"
      "no_open_items (t1\<lparr>t_items := is\<rparr>)" "require_closed_rejection_items is = Inr ()"
      "known_ids th' \<subseteq> known_ids u \<union> h_new_id H ` {i + 1..<i + 1 + length calls}"
      "\<forall>j \<in> set is. j \<in> set (t_items t1) \<or> (\<exists>c \<in> set calls. i_content j = ToolResult (R c))"
    using Cons.IH [OF live1 comp open1 closed1 pending dist all fresh1 inj1 tail] by blast
  have same: "t1\<lparr>t_items := is\<rparr> = t\<lparr>t_items := is\<rparr>" by (simp add: t1_def)
  have "i \<in> {i..<i + length (c # calls)}" by simp
  then have "known_ids th' \<subseteq> known_ids th \<union> h_new_id H ` {i..<i + length (c # calls)}"
    using r(5) known by fastforce
  moreover have "\<forall>j \<in> set is. j \<in> set (t_items t) \<or> (\<exists>d \<in> set (c # calls). i_content j = ToolResult (R d))"
    using r(6) by (auto simp: split)
  ultimately show ?case
    using turn_run_append [OF u r(1)] r(2-4) es(1) unfolding same by blast
qed

section \<open>Closing the items\<close>

lemma scan_closed: "scan_item s i = Inr v \<Longrightarrow> scan_item s (closed_item fin i) = Inr v"
  by (cases "i_content i") (auto simp: scan_item_def closed_item_def split: if_splits option.splits)

lemma scan_all_closed: "foldE scan_item s is = Inr v \<Longrightarrow> foldE scan_item s (map (closed_item fin) is) = Inr v"
  by (induction "is" arbitrary: s) (auto dest: scan_closed)

lemma closed_items_closed:
  "require_closed_rejection_items is = Inr () \<Longrightarrow> require_closed_rejection_items (map (closed_item fin) is) = Inr ()"
  by (auto simp: require_closed_rejection_items_def dest: scan_all_closed)

lemma completed_closed [simp]: "completed_calls (map (closed_item fin) is) = completed_calls is"
  by (induction "is") (auto simp: completed_calls_def List.map_filter_simps split: item_content.splits)

lemma settled_closed:
  "set (settled_calls (map (closed_item fin) (t_items t))) = set (recorded_results t)"
proof -
  have "settled_calls (map (closed_item fin) is)
      = List.map_filter (\<lambda>i. case i_content i of ToolResult r \<Rightarrow> Some (tr_call_id r) | _ \<Rightarrow> None) is" for "is"
    by (induction "is") (auto simp: settled_calls_def List.map_filter_simps split: item_content.splits)
  then show ?thesis by (simp add: recorded_results_def)
qed

lemma settled_recorded: "set (settled_calls (t_items t)) \<subseteq> set (recorded_results t)"
proof -
  have "set (settled_calls is)
      \<subseteq> set (List.map_filter (\<lambda>i. case i_content i of ToolResult r \<Rightarrow> Some (tr_call_id r) | _ \<Rightarrow> None) is)" for "is"
    by (induction "is") (auto simp: settled_calls_def List.map_filter_simps split: item_content.splits)
  then show ?thesis by (simp add: recorded_results_def)
qed

lemma open_calls_pending:
  assumes "t_items t' = map (closed_item fin) (t_items t)"
  shows "pending_calls t' = open_calls t"
  using settled_recorded [of t]
  by (auto simp: pending_calls_def open_calls_def assms settled_closed intro!: filter_cong)

lemma find_closed: "(\<And>i. P (closed_item fin i) = P i) \<Longrightarrow>
    find P (map (closed_item fin) is) = map_option (closed_item fin) (find P is)"
  by (induction "is") simp_all

lemma no_process_closed:
  assumes "t_items t' = map (closed_item fin) (t_items t)" "process_approval t c = None"
  shows "process_approval t' c = None"
proof -
  have "approval_for t' c = map_option (closed_item fin) (approval_for t c)"
    unfolding approval_for_def assms(1) by (rule find_closed) simp
  with assms(2) show ?thesis
    by (cases "approval_for t c") (auto simp: process_approval_def split: item_content.splits approval_content.splits)
qed

text \<open>Members of a rejection pair are committed, so an open item is none.\<close>

lemma paired_committed:
  assumes "require_closed_rejection_items (t_items t) = Inr ()" "i \<in> set (t_items t)" "rejection_pair t (i_content i)"
  shows "i_status i = Is_COMPLETED"
proof -
  have closed: "closed_rejections (t_items t)" using assms(1) by (simp add: require_closed_rejection_items_iff)
  show ?thesis
  proof (cases "i_content i")
    case (Rejection r)
    from assms(2) obtain pre post where "t_items t = pre @ i # post" by (auto dest: split_list)
    with closed have "rejection_settled (\<lambda>rs. length rs = 1) pre i post" unfolding closed_rejections_def by blast
    with Rejection show ?thesis by (simp add: rejection_settled_def committed_def)
  next
    case (ToolResult r)
    with assms(3) obtain j where j: "j \<in> set (t_items t)" "case i_content j of Rejection q \<Rightarrow> rj_call_id q = tr_call_id r | _ \<Rightarrow> False"
      unfolding rejection_pair_def ToolResult item_content.case list_ex_iff by blast
    from j(2) obtain q where q: "i_content j = Rejection q" "rj_call_id q = tr_call_id r" by (cases "i_content j") simp_all
    from j(1) obtain pre post where split: "t_items t = pre @ j # post" by (auto dest: split_list)
    with closed have "rejection_settled (\<lambda>rs. length rs = 1) pre j post" unfolding closed_rejections_def by blast
    with q have rs: "results_for (tr_call_id r) pre = []" "list_all (fixed_result q) (results_for (tr_call_id r) post)"
      by (simp_all add: rejection_settled_def)
    have "i \<in> set pre \<or> i \<in> set post" using assms(2) split q(1) ToolResult by auto
    then have "i \<in> set (results_for (tr_call_id r) pre) \<or> i \<in> set (results_for (tr_call_id r) post)"
      using ToolResult by (auto simp: results_for_def)
    with rs show ?thesis by (auto simp: list_all_iff fixed_result_def committed_def)
  qed (use assms(3) in \<open>simp_all add: rejection_pair_def\<close>)
qed

text \<open>An approval that is still open has no decision.\<close>

definition undecided :: "thread \<Rightarrow> turn \<Rightarrow> bool" where
  "undecided th t \<longleftrightarrow> list_all (\<lambda>i. i_status i = Is_STARTED \<longrightarrow>
     (case i_content i of Approval a \<Rightarrow> ap_decision a = None | _ \<Rightarrow> True)) (t_items t)"

interpretation undecided: turn_invariant W undecided for W
proof
  fix th t e t' w
  assume u: "undecided th t" and ok: "event_ok e" and run: "apply_turn_event W th t e = Inr (t', w)"
  from apply_turn_event_items [OF run] show "undecided th t'"
  proof (cases rule: item_change.cases)
    case (started iid c xs ys)
    have "case c of Approval a \<Rightarrow> ap_decision a = None | _ \<Rightarrow> True"
      using started(5) by (cases c) (auto simp: start_guard_def start_approval_def split: option.splits)
    with u started show ?thesis by (auto simp: undecided_def)
  next
    case (finished p original)
    have "fi_status p \<noteq> Is_STARTED" using ok finished(1) by (simp add: event_ok_def payload_ok_def)
    with u show ?thesis
      unfolding undecided_def finished(5) using set_replace_by_subset by (fastforce simp: list_all_iff)
  qed (use u in \<open>simp add: undecided_def\<close>)
qed (simp_all add: undecided_def)

lemma open_items_close:
  assumes "reachable W th" "t \<in> set (th_turns th)" "require_closed_rejection_items (t_items t) = Inr ()"
  shows "items_closable t"
  using undecided.every_turn [OF assms(1,2)] paired_committed [OF assms(3)]
  by (fastforce simp: items_closable_def undecided_def list_all_iff)

section \<open>The whole batch\<close>

text \<open>
  What a Turn needs to be ended: model attempts only where an attempt can be finished, and open calls
  under different identities that are no process calls and whose recovery found nothing or a result
  without evidence.
\<close>

definition settleable :: "wire \<Rightarrow> recovery_ports \<Rightarrow> thread \<Rightarrow> turn \<Rightarrow> bool" where
  "settleable W P th t \<longleftrightarrow> attempts_closable t \<and> distinct (map tc_call_id (open_calls t))
     \<and> list_all (\<lambda>c. process_approval t c = None \<and> (case recover_effect W P th t c of None \<Rightarrow> True
         | Some r \<Rightarrow> bare c r \<and> (tc_effect_class c = READ_ONLY \<longrightarrow> tr_outcome r \<noteq> Oc_unknown))) (open_calls t)"

text \<open>
  The ledger compares times: where a compaction is open, the clock of the host runs forward, from a time
  that is not before the last event of the Thread and the times the compaction recorded.
\<close>

definition clock_ahead :: "host \<Rightarrow> thread \<Rightarrow> turn \<Rightarrow> bool" where
  "clock_ahead H th t \<longleftrightarrow> (\<forall>c \<in> set (filter is_open (t_compactions t)). mono (h_utc_now H)
     \<and> th_updated_at th \<le> h_utc_now H 0 \<and> (\<forall>x \<in> set (recorded_times c). x \<le> h_utc_now H 0))"

lemma recovered_call:
  assumes "settleable W P th t" "c \<in> set (open_calls t)"
  shows "recover_pending_effects W P th t (tc_call_id c) = recover_effect W P th t c"
proof -
  have "map_of (rev (List.map_filter (\<lambda>c. map_option (Pair (tc_call_id c)) (F c)) cs)) (tc_call_id c) = F c"
    if "distinct (map tc_call_id cs)" "c \<in> set cs" for F :: "tool_call_content \<Rightarrow> tool_result_content option" and cs
  proof -
    let ?ps = "\<lambda>cs. List.map_filter (\<lambda>c. map_option (Pair (tc_call_id c)) (F c)) cs"
    have fsts: "fst ` set (?ps ds) \<subseteq> tc_call_id ` set ds" for ds
      by (induction ds) (auto simp: List.map_filter_simps split: option.splits)
    have "distinct (map fst (?ps cs))"
      using that(1)
    proof (induction cs)
      case (Cons d ds)
      with fsts [of ds] show ?case by (cases "F d") (auto simp: List.map_filter_simps)
    qed (simp add: List.map_filter_simps)
    then have "map_of (rev (?ps cs)) = map_of (?ps cs)" by (subst map_of_inject_set) (simp_all add: rev_map [symmetric])
    moreover have "map_of (?ps cs) (tc_call_id c) = F c"
      using that
    proof (induction cs)
      case (Cons d ds)
      show ?case
      proof (cases "c = d")
        case True
        with Cons.prems(1) fsts [of ds] show ?thesis
          by (cases "F d") (auto simp: List.map_filter_simps map_of_eq_None_iff)
      next
        case False
        with Cons have "tc_call_id d \<noteq> tc_call_id c" by auto
        with False Cons show ?thesis by (cases "F d") (auto simp: List.map_filter_simps)
      qed
    qed simp
    ultimately show ?thesis by simp
  qed
  with assms show ?thesis by (simp add: recover_pending_effects_def settleable_def)
qed

lemma closing_bare:
  assumes "settleable W P th t" "c \<in> set (open_calls t)"
  shows "bare c (closing_result t (recover_pending_effects W P th t) fin c)"
proof -
  from assms have "case recover_effect W P th t c of None \<Rightarrow> True | Some r \<Rightarrow> bare c r"
    by (auto simp: settleable_def list_all_iff split: option.splits)
  then show ?thesis
    by (auto simp: closing_result_def recovered_call [OF assms] unrun_result_def bare_def split: option.splits)
qed

lemma open_call_pending: "c \<in> set (open_calls t) \<Longrightarrow> c \<in> set (pending_calls t)"
  by (simp add: open_calls_def)

lemma certain_results:
  assumes set: "settleable W P th t" "c \<in> set (open_calls t)" and sure: "\<not> uncertain t (recover_pending_effects W P th t)"
    and "fst fin = Ts_CANCELLED"
  shows "tr_outcome (closing_result t (recover_pending_effects W P th t) fin c) \<noteq> Oc_unknown"
proof -
  from set have r: "case recover_effect W P th t c of None \<Rightarrow> True
      | Some r \<Rightarrow> tc_effect_class c = READ_ONLY \<longrightarrow> tr_outcome r \<noteq> Oc_unknown"
    by (auto simp: settleable_def list_all_iff split: option.splits)
  from sure open_call_pending [OF set(2)] have "tc_effect_class c \<noteq> READ_ONLY \<longrightarrow>
      (case recover_effect W P th t c of None \<Rightarrow> False | Some r \<Rightarrow> tr_outcome r \<noteq> Oc_unknown)"
    by (auto simp: uncertain_def list_ex_iff recovered_call [OF set, symmetric] split: option.splits)
  with r assms(4) show ?thesis
    by (auto simp: closing_result_def recovered_call [OF set] unrun_result_def split: option.splits)
qed

lemma attempt_sum_nonneg: "list_all model_attempt_ok as \<Longrightarrow> f \<in> set TOKEN_FIELDS \<Longrightarrow> 0 \<le> attempt_sum f as"
  by (induction as) (auto simp: model_attempt_ok_def dest: usage_observation_nonneg)

lemma usage_nonneg: "accounts th t \<Longrightarrow> 0 \<le> u_input_tokens (t_usage t) \<and> 0 \<le> u_output_tokens (t_usage t)"
  using attempt_sum_nonneg [of "accounted_attempts t"] token_fields by (fastforce simp: accounts_def covers_def)

text \<open>The events after the compactions: nothing is open any more, and the last error is the given one.\<close>

lemma rest_closes:
  assumes live: "live th us t" and tid: "turn_id t = turn" and comp: "no_open_compactions t"
    and summaries: "list_all compaction_record_ok (t_compactions t)"
    and attempts: "attempts_closable t" "distinct (map attempt_id (t_model_attempts t))"
    and usage: "0 \<le> u_input_tokens (t_usage t)" "0 \<le> u_output_tokens (t_usage t)"
    and items: "require_closed_rejection_items (t_items t) = Inr ()" "items_closable t" "distinct (map item_id (t_items t))"
    and dist: "distinct (map tc_call_id (open_calls t))"
    and results: "\<forall>c \<in> set (open_calls t). process_approval t c = None \<and> bare c (R c)"
    and fin: "snd fin = Some f"
    and es: "carries (thread_id th) turn (th_sequence th) (close_attempts fin (t_model_attempts t)
        @ close_items fin (t_items t)
        @ publish_all H 0 (map (\<lambda>c. ToolResult (R c)) (open_calls t))
        @ published_item (h_new_id H (length (open_calls t))) (Error f)) es"
    and fresh: "\<forall>k \<in> {0..length (open_calls t)}. h_new_id H k \<notin> known_ids th"
      "inj_on (h_new_id H) {0..length (open_calls t)}"
  obtains u v where "turn_run W th us t es u v" "t_status v = t_status t" "settled_turn v"
    "last (completed_errors v) = f" "completed_errors v \<noteq> []"
    "\<forall>j \<in> set (t_items v). (\<exists>i \<in> set (t_items t). i_content j = i_content i)
       \<or> (\<exists>c \<in> set (open_calls t). i_content j = ToolResult (R c)) \<or> i_content j = Error f"
proof -
  let ?n = "length (open_calls t)"
  obtain e1 r1 where s1: "es = e1 @ r1" "carries (thread_id th) turn (th_sequence th) (close_attempts fin (t_model_attempts t)) e1"
      "carries (thread_id th) turn (th_sequence th + length e1) (close_items fin (t_items t)
        @ publish_all H 0 (map (\<lambda>c. ToolResult (R c)) (open_calls t)) @ published_item (h_new_id H ?n) (Error f)) r1"
    by (rule carries_append [OF es])
  obtain u1 as where a: "turn_run W th us t e1 u1 (t\<lparr>t_model_attempts := as\<rparr>)" "list_all (\<lambda>a. a_status a \<noteq> At_running) as"
    using attempts_close [OF live comp attempts(2,1) usage, of fin e1 W] s1(2) tid by auto
  let ?t1 = "t\<lparr>t_model_attempts := as\<rparr>"
  have p1: "thread_id u1 = thread_id th" "th_sequence u1 = th_sequence th + length e1" using a(1) by (simp_all add: turn_run_def)
  obtain e2 r2 where s2: "r1 = e2 @ r2" "carries (thread_id th) turn (th_sequence th + length e1) (close_items fin (t_items t)) e2"
      "carries (thread_id th) turn (th_sequence th + length e1 + length e2)
        (publish_all H 0 (map (\<lambda>c. ToolResult (R c)) (open_calls t)) @ published_item (h_new_id H ?n) (Error f)) r2"
    by (rule carries_append [OF s1(3)])
  have closable: "items_closable ?t1"
    using items(2) rejection_pair_contents [of ?t1 t] by (simp add: items_closable_def)
  have comp1: "no_open_compactions ?t1" using comp by (simp add: no_open_compactions_def)
  have ids: "distinct (map item_id (t_items ?t1))" using items(3) by simp
  have c2: "carries (thread_id u1) (turn_id ?t1) (th_sequence u1) (close_items fin (t_items ?t1)) e2"
    using s2(2) p1 tid by simp
  obtain u2 where b: "turn_run W u1 us ?t1 e2 u2 (?t1\<lparr>t_items := map (closed_item fin) (t_items ?t1)\<rparr>)"
    using items_close [OF turn_run_live [OF a(1), THEN conjunct2] comp1 ids closable c2] by blast
  let ?t2 = "?t1\<lparr>t_items := map (closed_item fin) (t_items ?t1)\<rparr>"
  have i2: "t_items ?t2 = map (closed_item fin) (t_items t)" by simp
  have p2: "thread_id u2 = thread_id th" "th_sequence u2 = th_sequence th + length e1 + length e2"
    using b p1 by (simp_all add: turn_run_def)
  have run2: "turn_run W th us t (e1 @ e2) u2 ?t2" by (rule turn_run_append [OF a(1) b])
  have k2: "known_ids u2 \<subseteq> known_ids th"
  proof -
    have "item_id ` set (t_items ?t2) = item_id ` set (t_items t)" by (simp add: image_image)
    also have "\<dots> \<subseteq> known_ids th" using live_items [OF live] by (auto simp: known_ids_def)
    finally show ?thesis using run_known [OF run2] by blast
  qed
  obtain e3 r3 where s3: "r2 = e3 @ r3" "carries (thread_id th) turn (th_sequence th + length e1 + length e2)
        (publish_all H 0 (map (\<lambda>c. ToolResult (R c)) (open_calls t))) e3"
      "carries (thread_id th) turn (th_sequence th + length e1 + length e2 + length e3)
        (published_item (h_new_id H ?n) (Error f)) r3"
    by (rule carries_append [OF s2(3)])
  have comp2: "no_open_compactions ?t2" using comp by (simp add: no_open_compactions_def)
  have open2: "no_open_items ?t2" by (simp add: no_open_items_def list_all_iff)
  have closed2: "require_closed_rejection_items (t_items ?t2) = Inr ()" using closed_items_closed [OF items(1)] by simp
  have pend2: "pending_calls ?t2 = open_calls t" by (rule open_calls_pending [OF i2])
  have ok: "\<forall>c \<in> set (open_calls t). process_approval ?t2 c = None \<and> bare c (R c)"
    using results no_process_closed [OF i2] by blast
  have fresh2: "\<forall>k \<in> {0..<0 + ?n}. h_new_id H k \<notin> known_ids u2" using fresh(1) k2 by auto
  have inj2: "inj_on (h_new_id H) {0..<0 + ?n}" using fresh(2) by (rule inj_on_subset) auto
  have c3: "carries (thread_id u2) (turn_id ?t2) (th_sequence u2) (publish_all H 0 (map (\<lambda>c. ToolResult (R c)) (open_calls t))) e3"
    using s3(2) p2 tid by simp
  obtain u3 "is" where c: "turn_run W u2 us ?t2 e3 u3 (?t2\<lparr>t_items := is\<rparr>)" "pending_calls (?t2\<lparr>t_items := is\<rparr>) = []"
      "no_open_items (?t2\<lparr>t_items := is\<rparr>)" "require_closed_rejection_items is = Inr ()"
      "known_ids u3 \<subseteq> known_ids u2 \<union> h_new_id H ` {0..<0 + ?n}"
      "\<forall>j \<in> set is. j \<in> set (t_items ?t2) \<or> (\<exists>c \<in> set (open_calls t). i_content j = ToolResult (R c))"
    using results_publish [OF turn_run_live [OF b, THEN conjunct2] comp2 open2 closed2 pend2 dist ok fresh2 inj2 c3] by blast
  let ?t3 = "?t2\<lparr>t_items := is\<rparr>" and ?d = "done_item (h_new_id H ?n) (Error f)"
  have p3: "thread_id u3 = thread_id th" "th_sequence u3 = th_sequence th + length e1 + length e2 + length e3"
    using c(1) p2 by (simp_all add: turn_run_def)
  have fresh3: "h_new_id H ?n \<notin> known_ids u3"
  proof
    assume "h_new_id H ?n \<in> known_ids u3"
    moreover have "h_new_id H ?n \<notin> known_ids th" using fresh(1) by simp
    ultimately have "h_new_id H ?n \<in> h_new_id H ` {0..<0 + ?n}" using c(5) k2 by blast
    then obtain k where "k < ?n" "h_new_id H ?n = h_new_id H k" by auto
    with inj_onD [OF fresh(2), of ?n k] show False by simp
  qed
  have c4: "carries (thread_id u3) (turn_id ?t3) (th_sequence u3) (published_item (h_new_id H ?n) (Error f)) r3"
    using s3(3) p3 tid by simp
  have comp3: "no_open_compactions ?t3" using comp by (simp add: no_open_compactions_def)
  have ge: "start_guard W u3 ?t3 e (Error f) = Inr ()" for e by (simp add: start_guard_def)
  have na: "case Error f of Approval _ \<Rightarrow> False | _ \<Rightarrow> True" by simp
  obtain u4 where d: "turn_run W u3 us ?t3 r3 u4 (?t3\<lparr>t_items := place u3 ?t3 ?d\<rparr>)"
    by (rule publish_runs [OF turn_run_live [OF c(1), THEN conjunct2] c4 fresh3 ge na comp3])
  have place: "place u3 ?t3 ?d = is @ [?d]" by (simp add: place_def is_step_item_def)
  let ?v = "?t3\<lparr>t_items := is @ [?d]\<rparr>"
  have run: "turn_run W th us t es u4 ?v"
    using turn_run_append [OF run2 turn_run_append [OF c(1) d [unfolded place]]] s1(1) s2(1) s3(1) by simp
  have "pending_calls ?v = []"
    using c(2) by (simp add: pending_calls_def completed_calls_def settled_calls_def List.map_filter_simps)
  moreover have "require_closed_rejection_items (t_items ?v) = Inr ()"
    using closed_place [of ?t3 ?d u3] c(4) place by (simp add: unpaired_def)
  moreover have "no_open_items ?v" using c(3) by (simp add: no_open_items_def)
  moreover have "no_running_attempts ?v"
  proof -
    have "a_status a \<noteq> At_running" if "r \<in> set (t_compactions t)" "cr_attempt r = Some a" for r a
    proof -
      have "compaction_record_ok r" "\<not> is_open r"
        using summaries comp that(1) by (auto simp: no_open_compactions_def list_all_iff)
      with that(2) show ?thesis by (simp add: compaction_record_ok_def coherent_state_def)
    qed
    then have "list_all (\<lambda>a. a_status a \<noteq> At_running) (List.map_filter cr_attempt (t_compactions t))"
      by (auto simp: list_all_iff List.map_filter_def)
    with a(2) show ?thesis by (simp add: no_running_attempts_def accounted_attempts_def)
  qed
  moreover have "no_open_compactions ?v" using comp by (simp add: no_open_compactions_def)
  ultimately have settled: "settled_turn ?v" by (simp add: settled_turn_def)
  have errors: "completed_errors ?v = completed_errors ?t3 @ [f]" by (simp add: completed_errors_def List.map_filter_simps)
  have contents: "\<forall>j \<in> set (t_items ?v). (\<exists>i \<in> set (t_items t). i_content j = i_content i)
       \<or> (\<exists>c \<in> set (open_calls t). i_content j = ToolResult (R c)) \<or> i_content j = Error f"
  proof
    fix j assume "j \<in> set (t_items ?v)"
    then consider "i_content j = Error f" | "j \<in> closed_item fin ` set (t_items t)"
      | "\<exists>c \<in> set (open_calls t). i_content j = ToolResult (R c)"
      using c(6) by auto
    then show "(\<exists>i \<in> set (t_items t). i_content j = i_content i)
       \<or> (\<exists>c \<in> set (open_calls t). i_content j = ToolResult (R c)) \<or> i_content j = Error f"
      by cases auto
  qed
  have last: "last (completed_errors ?v) = f" and some: "completed_errors ?v \<noteq> []" unfolding errors by simp_all
  have same: "t_status ?v = t_status t" by simp
  show ?thesis by (rule that [OF run same settled last some contents])
qed

text \<open>The batch up to the last event, from the compactions on.\<close>

lemma turn_closes:
  assumes reach: "reachable W th" and closed: "require_closed_rejections th = Inr ()"
    and act: "th_active_turn_id th = Some turn" and get: "get_turn th turn = Inr t"
    and set: "settleable W P th t" and fin: "snd fin = Some f"
    and es: "carries (thread_id th) turn (th_sequence th) (closing_events fin (t_compactions t)
        @ close_attempts fin (t_model_attempts t) @ close_items fin (t_items t)
        @ publish_all H 0 (map (\<lambda>c. ToolResult (closing_result t rec fin c)) (open_calls t))
        @ published_item (h_new_id H (length (open_calls t))) (Error f)) es"
    and times: "filter is_open (t_compactions t) \<noteq> [] \<Longrightarrow> timely th (filter is_open (t_compactions t)) es"
    and fresh: "\<forall>k \<in> {0..length (open_calls t)}. h_new_id H k \<notin> known_ids th"
      "inj_on (h_new_id H) {0..length (open_calls t)}"
    and rec: "rec = recover_pending_effects W P th t"
  obtains us u v where "turn_run W th us t es u v" "t_status v = t_status t" "settled_turn v"
    "last (completed_errors v) = f" "completed_errors v \<noteq> []"
    "\<forall>j \<in> set (t_items v). (\<exists>i \<in> set (t_items t). i_content j = i_content i)
       \<or> (\<exists>c \<in> set (open_calls t). i_content j = ToolResult (closing_result t rec fin c)) \<or> i_content j = Error f"
proof -
  let ?R = "\<lambda>c. closing_result t rec fin c"
  obtain us t' where live: "live th us t'" and tid: "turn_id t' = turn" by (rule shape_live [OF reachable_shape [OF reach] act])
  from live_get [OF live] get tid have t': "t' = t" by simp
  note live = live [unfolded t'] and tid = tid [unfolded t']
  have mem: "t \<in> set (th_turns th)" using live by (simp add: live_def)
  note acc = accounts.every_turn [OF reach mem] and led = reachable_ledger [OF reach mem]
  have items: "require_closed_rejection_items (t_items t) = Inr ()"
    using closed_thread_turns [OF closed] mem by (simp add: list_all_iff)
  have usage: "0 \<le> u_input_tokens (t_usage t)" "0 \<le> u_output_tokens (t_usage t)" using usage_nonneg [OF acc] by simp_all
  obtain e0 r0 where s0: "es = e0 @ r0" "carries (thread_id th) turn (th_sequence th) (closing_events fin (t_compactions t)) e0"
      "carries (thread_id th) turn (th_sequence th + length e0) (close_attempts fin (t_model_attempts t) @ close_items fin (t_items t)
        @ publish_all H 0 (map (\<lambda>c. ToolResult (?R c)) (open_calls t))
        @ published_item (h_new_id H (length (open_calls t))) (Error f)) r0"
    by (rule carries_append [OF es])
  have times0: "timely th (filter is_open (t_compactions t)) e0"
  proof (cases "filter is_open (t_compactions t) = []")
    case True
    with s0(2) have "e0 = []" by (simp add: closing_events_def)
    then show ?thesis by (simp add: timely_def)
  next
    case False
    from times [OF this] show ?thesis unfolding s0(1) by (auto simp: timely_def sorted_append)
  qed
  have "\<exists>u ds. turn_run W th us t e0 u (t\<lparr>t_compactions := [] @ ds\<rparr>) \<and> list_all compaction_record_ok ds
      \<and> list_all (\<lambda>c. \<not> is_open c) ds \<and> map record_key ds = map record_key (t_compactions t)"
  proof (rule compactions_close [OF live _ _ _ _ _ usage _ times0])
    show "distinct (map record_key (t_compactions t))" "list_all compaction_record_ok (t_compactions t)"
      using acc by (simp_all add: accounts_def)
    show "\<forall>c \<in> set (t_compactions t). cr_created_event_sequence c \<le> th_sequence th"
      using led by (simp add: ledger_inv_def)
    show "list_ex is_open (t_compactions t) \<longrightarrow> t_status t \<in> {Ts_PREPARING_CONTEXT, Ts_CANCELLING}"
      using led by (auto simp: ledger_inv_def no_open_compactions_def list_all_iff list_ex_iff)
  qed (use s0(2) tid in simp_all)
  then obtain u0 ds where u0: "turn_run W th us t e0 u0 (t\<lparr>t_compactions := ds\<rparr>)" "list_all compaction_record_ok ds"
      "list_all (\<lambda>c. \<not> is_open c) ds"
    by auto
  let ?t = "t\<lparr>t_compactions := ds\<rparr>"
  have p: "thread_id u0 = thread_id th" "th_sequence u0 = th_sequence th + length e0" "live u0 us ?t"
    using u0(1) by (simp_all add: turn_run_def)
  have calls: "open_calls ?t = open_calls t" by (simp add: open_calls_def pending_calls_def recorded_results_def)
  have app: "process_approval ?t c = process_approval t c" for c by (simp add: process_approval_def approval_for_def)
  have ready: "attempts_closable ?t" "distinct (map attempt_id (t_model_attempts ?t))" "distinct (map tc_call_id (open_calls ?t))"
    using set acc by (simp_all add: settleable_def attempts_closable_def accounts_def calls)
  have closable: "items_closable ?t"
    using open_items_close [OF reach mem items] rejection_pair_contents [of ?t t] by (simp add: items_closable_def)
  have results: "\<forall>c \<in> set (open_calls ?t). process_approval ?t c = None \<and> bare c (?R c)"
    using set closing_bare [OF set] rec by (auto simp: settleable_def list_all_iff calls app)
  have "known_ids u0 \<subseteq> known_ids th"
    using run_known [OF u0(1)] live_items [OF live] by (auto simp: known_ids_def)
  then have fresh0: "\<forall>k \<in> {0..length (open_calls ?t)}. h_new_id H k \<notin> known_ids u0"
      "inj_on (h_new_id H) {0..length (open_calls ?t)}"
    using fresh calls by auto
  have es0: "carries (thread_id u0) turn (th_sequence u0) (close_attempts fin (t_model_attempts ?t) @ close_items fin (t_items ?t)
        @ publish_all H 0 (map (\<lambda>c. ToolResult (?R c)) (open_calls ?t))
        @ published_item (h_new_id H (length (open_calls ?t))) (Error f)) r0"
    using s0(3) p calls by simp
  have plain: "turn_id ?t = turn" "no_open_compactions ?t" "list_all compaction_record_ok (t_compactions ?t)"
      "require_closed_rejection_items (t_items ?t) = Inr ()" "distinct (map item_id (t_items ?t))"
      "0 \<le> u_input_tokens (t_usage ?t)" "0 \<le> u_output_tokens (t_usage ?t)"
    using tid u0(2,3) items reachable_distinct_items [OF reach mem] usage by (simp_all add: no_open_compactions_def)
  obtain u v where v: "turn_run W u0 us ?t r0 u v" "t_status v = t_status ?t" "settled_turn v"
      "last (completed_errors v) = f" "completed_errors v \<noteq> []"
      "\<forall>j \<in> set (t_items v). (\<exists>i \<in> set (t_items ?t). i_content j = i_content i)
         \<or> (\<exists>c \<in> set (open_calls ?t). i_content j = ToolResult (?R c)) \<or> i_content j = Error f"
    by (rule rest_closes [OF p(3) plain(1-3) ready(1,2) plain(6,7,4) closable plain(5) ready(3) results fin es0 fresh0])
  show ?thesis
    using that [OF turn_run_append [OF u0(1) v(1), folded s0(1)]] v calls by simp
qed

section \<open>The end\<close>

definition finish_of :: "wire \<Rightarrow> recovery_ports \<Rightarrow> thread \<Rightarrow> turn \<Rightarrow> finish \<Rightarrow> finish" where
  "finish_of W P th t fin = final_finish t (recover_pending_effects W P th t) fin"

text \<open>The states a Turn can be ended in from where it stands.\<close>

definition endable :: "turn \<Rightarrow> finish \<Rightarrow> bool" where
  "endable t fin \<longleftrightarrow> snd fin \<noteq> None
     \<and> (fst fin \<in> {Ts_FAILED, Ts_INTERRUPTED} \<or> fst fin = Ts_CANCELLED \<and> t_status t = Ts_CANCELLING)"

lemma final_endable:
  assumes "endable t fin"
  shows "snd (finish_of W P th t fin) \<noteq> None" "fst (finish_of W P th t fin) \<in> {Ts_FAILED, Ts_CANCELLED, Ts_INTERRUPTED}"
    "t_status t = Ts_CANCELLING \<Longrightarrow> fst (finish_of W P th t fin) \<noteq> Ts_FAILED"
    "t_status t \<noteq> Ts_CANCELLING \<Longrightarrow> fst (finish_of W P th t fin) \<noteq> Ts_CANCELLED"
    "fst (finish_of W P th t fin) = Ts_CANCELLED \<Longrightarrow> \<not> uncertain t (recover_pending_effects W P th t)"
  using assms by (auto simp: endable_def finish_of_def final_finish_def cancelled_finish_def Let_def)

lemma final_allowed:
  assumes "endable t fin" "\<not> terminal t"
  shows "fst (finish_of W P th t fin) \<in> set (allowed_targets t)"
  using final_endable(2,3,4) [OF assms(1), of W P th] assms(2)
  by (cases "t_status t") (auto simp: allowed_targets_def TERMINAL_TURNS_def)

lemma end_runs:
  assumes live: "live th us v" and e: "carries (thread_id th) (turn_id v) (th_sequence th)
      [TurnStateChanged \<lparr>tsc_status = target, tsc_error = Some f, tsc_reason = Normal\<rparr>] es"
    and target: "target \<in> {Ts_FAILED, Ts_CANCELLED, Ts_INTERRUPTED}" "target \<in> set (allowed_targets v)"
    and settled: "settled_turn v" and errors: "completed_errors v \<noteq> []" "last (completed_errors v) = f"
    and known: "target = Ts_CANCELLED \<Longrightarrow> \<not> has_unknown_result (t_items v)"
  obtains e v' where "foldE (apply_to_thread W) th es = Inr (update_thread th e v' (us @ [v']))"
    "t_status v' = target" "t_error v' = Some f" "turn_id v' = turn_id v" "t_items v' = t_items v" "settled_turn v'"
proof -
  let ?p = "\<lparr>tsc_status = target, tsc_error = Some f, tsc_reason = Normal\<rparr>"
  from e obtain e where e: "es = [e]" "e_thread_id e = thread_id th" "e_sequence e = th_sequence th + 1"
      "e_turn_id e = Some (turn_id v)" "payload e = TurnStateChanged ?p" "schema_version e = 22"
    by (auto split: list.splits)
  let ?v = "v\<lparr>t_status := target, t_error := Some f, t_completed_at := Some (occurred_at e)\<rparr>"
  have addr: "addressed th v e" using e by (simp add: addressed_def)
  have terminal: "target \<in> set TERMINAL_TURNS" using target(1) by (auto simp: TERMINAL_TURNS_def)
  have "terminal_guard v e ?p"
    using settled errors known target(1) by (auto simp: terminal_guard_def Let_def)
  moreover have "reentry_guard th v e ?p"
    using target(1) by (auto simp: reentry_guard_def model_reentry_def)
  ultimately have "change_state th v e ?p = Inr ?v"
    using target(2) terminal by (simp add: change_state_def Let_def)
  then have ev: "apply_turn_event W th v e = Inr (?v, None)" using e(5) by (simp add: apply_turn_event_def)
  have pay: "turn_payload (payload e)" "open_compaction_guard v (payload e)"
    using e(5) settled by (simp_all add: turn_payload_def open_compaction_guard_def settled_turn_def)
  from active_step [OF live addr pay ev] have "foldE (apply_to_thread W) th es = Inr (update_thread th e ?v (us @ [?v]))"
    by (simp add: e(1) add_window_def)
  moreover have "settled_turn ?v"
    using settled by (simp add: settled_turn_def no_running_attempts_def accounted_attempts_def no_open_compactions_def
        no_open_items_def pending_calls_def)
  ultimately show ?thesis by (intro that [of e ?v]) simp_all
qed

definition unused_ids :: "host \<Rightarrow> nat \<Rightarrow> thread \<Rightarrow> bool" where
  "unused_ids H n th \<longleftrightarrow> (\<forall>k \<in> {0..n}. h_new_id H k \<notin> known_ids th) \<and> inj_on (h_new_id H) {0..n}"

lemma published_payloads: "p \<in> set (publish_all H i cs) \<Longrightarrow> turn_payload p"
  by (induction cs arbitrary: i) (auto simp: published_item_def turn_payload_def)

lemma stamped_times: "map occurred_at (positioned tid n (stamped H turn i k ps)) = map (h_utc_now H) [k..<k + length ps]"
proof (induction ps arbitrary: n i k)
  case (Cons p ps)
  have "occurred_at (at_position (legacy_draft d) tid m) = d_occurred_at d" for d and m :: nat
    by (simp add: legacy_draft_def at_position_def)
  with Cons show ?case by (simp add: legacy_draft_def at_position_def upt_conv_Cons del: upt_Suc)
qed simp

lemma stamped_timely:
  assumes "mono (h_utc_now H)" "th_updated_at th \<le> h_utc_now H 0"
    and "\<forall>c \<in> set cs. \<forall>x \<in> set (recorded_times c). x \<le> h_utc_now H 0"
  shows "timely th cs (positioned tid n (stamped H turn i 0 ps))"
proof -
  let ?es = "positioned tid n (stamped H turn i 0 ps)"
  have times: "map occurred_at ?es = map (h_utc_now H) [0..<length ps]" using stamped_times [of tid n H turn i 0 ps] by simp
  have "h_utc_now H 0 \<le> occurred_at e" if "e \<in> set ?es" for e
  proof -
    from that have "occurred_at e \<in> set (map occurred_at ?es)" by simp
    then show ?thesis unfolding times using monoD [OF assms(1)] by auto
  qed
  moreover have "sorted (map occurred_at ?es)"
    unfolding times by (intro sorted_map_mono mono_onI monoD [OF assms(1)]) simp_all
  ultimately show ?thesis using assms(2,3) unfolding timely_def by (meson order_trans)
qed

lemma finish_commits:
  assumes rep: "represents K W s hist" and th: "replay W (hist tid) = Inr th" "readable K th"
    and act: "th_active_turn_id th = Some turn" and get: "get_turn th turn = Inr t"
    and set: "settleable W P th t" and fin: "endable t fin"
    and clean: "clean_drafts K s (finish_drafts H turn t (recover_pending_effects W P th t) (finish_of W P th t fin))"
    and fresh: "unused_ids H (length (open_calls t)) th" and clock: "clock_ahead H th t"
  obtains t' s' hist' th' where "finish_turn K W H P s tid turn fin = Inr (t', s')"
    "(t_status t', t_error t') = finish_of W P th t fin" "settled_turn t'"
    "represents K W s' hist'" "replay W (hist' tid) = Inr th'" "get_turn th' turn = Inr t'" "th_active_turn_id th' = None"
proof -
  let ?rec = "recover_pending_effects W P th t" and ?fin = "finish_of W P th t fin"
  let ?ds = "finish_drafts H turn t ?rec ?fin"
  note ev = representsD(2) [OF rep]
  from hist_replay [OF ev th(1)] have tid: "thread_id th = tid" by simp
  have reach: "reachable W th" by (rule replay_reachable [OF th(1) represented_ok [OF rep]])
  have closed: "require_closed_rejections th = Inr ()" using th(1) by (simp add: replay_run)
  from final_endable(1) [OF fin, of W P th] obtain f where f: "snd ?fin = Some f" by blast
  have going: "fst ?fin \<noteq> Ts_COMPLETED" using final_endable(2) [OF fin, of W P th] by auto
  let ?R = "\<lambda>c. closing_result t ?rec ?fin c" and ?n = "length (open_calls t)"
  have publish: "publish_all H i (cs @ ds) = publish_all H i cs @ publish_all H (i + length cs) ds" for i cs ds
    by (induction cs arbitrary: i) simp_all
  let ?ps = "closing_events ?fin (t_compactions t) @ close_attempts ?fin (t_model_attempts t) @ close_items ?fin (t_items t)
      @ publish_all H 0 (map (\<lambda>c. ToolResult (?R c)) (open_calls t)) @ published_item (h_new_id H ?n) (Error f)"
    and ?q = "[TurnStateChanged \<lparr>tsc_status = fst ?fin, tsc_error = Some f, tsc_reason = Normal\<rparr>]"
  have payloads: "finish_payloads H t ?rec ?fin = ?ps @ ?q"
    by (simp add: finish_payloads_def closing_unchanged [OF going] closing_contents_def publish f)
  have pos: "carries tid turn (th_sequence th) (?ps @ ?q) (positioned tid (th_sequence th) ?ds)"
    unfolding finish_drafts_def payloads by (rule carries_stamped)
  obtain xs ys where es: "positioned tid (th_sequence th) ?ds = xs @ ys" "carries tid turn (th_sequence th) ?ps xs"
      "carries tid turn (th_sequence th + length xs) ?q ys"
    by (rule carries_append [OF pos])
  have times: "timely th (filter is_open (t_compactions t)) xs" if open_ones: "filter is_open (t_compactions t) \<noteq> []"
  proof -
    from clock open_ones have ahead: "mono (h_utc_now H)" "th_updated_at th \<le> h_utc_now H 0"
        "\<forall>c \<in> set (filter is_open (t_compactions t)). \<forall>x \<in> set (recorded_times c). x \<le> h_utc_now H 0"
      by (cases "filter is_open (t_compactions t)"; fastforce simp: clock_ahead_def)+
    have "timely th (filter is_open (t_compactions t)) (positioned tid (th_sequence th) ?ds)"
      unfolding finish_drafts_def by (rule stamped_timely [OF ahead])
    then show ?thesis unfolding es(1) by (auto simp: timely_def sorted_append)
  qed
  obtain us u v where run: "turn_run W th us t xs u v" "t_status v = t_status t" "settled_turn v"
    "last (completed_errors v) = f" "completed_errors v \<noteq> []"
    "\<forall>j \<in> set (t_items v). (\<exists>i \<in> set (t_items t). i_content j = i_content i)
       \<or> (\<exists>c \<in> set (open_calls t). i_content j = ToolResult (?R c)) \<or> i_content j = Error f"
    by (rule turn_closes [OF reach closed act get set f es(2) [folded tid] times _ _ refl])
      (use fresh in \<open>simp_all add: unused_ids_def\<close>)
  have live: "live u us v" using turn_run_live [OF run(1)] by simp
  have vid: "turn_id v = turn" using run(1) get by (auto simp: turn_run_def get_turn_def dest: find_SomeD split: option.splits)
  have target: "fst ?fin \<in> set (allowed_targets v)"
    using final_allowed [OF fin, of W P th] live run(2) by (simp add: allowed_targets_def live_def)
  have sure: "\<not> has_unknown_result (t_items v)" if "fst ?fin = Ts_CANCELLED"
  proof -
    note certain = final_endable(5) [OF fin that]
    let ?F = "\<lambda>c. case c of ToolResult r \<Rightarrow> tr_outcome r = Oc_unknown | _ \<Rightarrow> False"
    have unknown: "has_unknown_result is \<longleftrightarrow> (\<exists>j \<in> set is. ?F (i_content j))" for "is"
      by (simp only: has_unknown_result_def list_ex_iff)
    have old: "\<not> ?F (i_content i)" if "i \<in> set (t_items t)" for i
      using certain that unknown [of "t_items t"] unfolding uncertain_def by blast
    have new: "\<not> ?F (ToolResult (?R c))" if "c \<in> set (open_calls t)" for c
      using certain_results [OF set that certain \<open>fst ?fin = Ts_CANCELLED\<close>] by simp
    have none: "\<not> ?F (Error f)" by simp
    have "\<not> ?F (i_content j)" if "j \<in> set (t_items v)" for j
      using run(6) [rule_format, OF that] old new none by metis
    then show ?thesis unfolding unknown by blast
  qed
  have ys: "carries (thread_id u) (turn_id v) (th_sequence u) ?q ys"
  proof -
    have "thread_id u = tid" "th_sequence u = th_sequence th + length xs"
      using run(1) tid by (simp_all add: turn_run_def)
    with es(3) vid show ?thesis by (simp only:)
  qed
  obtain e v' where last: "foldE (apply_to_thread W) u ys = Inr (update_thread u e v' (us @ [v']))"
    "t_status v' = fst ?fin" "t_error v' = Some f" "turn_id v' = turn_id v" "t_items v' = t_items v" "settled_turn v'"
    by (rule end_runs [OF live ys final_endable(2) [OF fin] target run(3,5,4) sure])
  let ?th = "update_thread u e v' (us @ [v'])"
  have all: "foldE (apply_to_thread W) th (positioned tid (th_sequence th) ?ds) = Inr ?th"
    using run(1) last(1) es(1) by (simp add: turn_run_def foldE_append)
  have turns: "th_turns th = us @ [t]" using run(1) by (simp add: turn_run_def live_def)
  have "require_closed_rejection_items (t_items v') = Inr ()" using last(6) by (simp add: settled_turn_def)
  then have "list_all (\<lambda>t. require_closed_rejection_items (t_items t) = Inr ()) (us @ [v'])"
    using closed_thread_turns [OF closed] turns by simp
  moreover from run(1) have "u = th \<or> (\<exists>e ts w. u = update_thread th e w ts)" by (auto simp: turn_run_def)
  ultimately have closed': "require_closed_rejections ?th = Inr ()"
    using closed_update [OF closed] by (auto simp: update_twice)
  have no_fork: "\<not> list_ex is_fork ?ds"
  proof -
    have "list_all turn_payload (?ps @ ?q)"
      by (auto simp: list_all_iff closing_events_def close_compaction_def close_attempts_def close_items_def
          published_item_def turn_payload_def Let_def dest: published_payloads split: option.splits if_splits)
    then show ?thesis unfolding finish_drafts_def payloads by (rule stamped_not_fork)
  qed
  from clean have fb: "freeze_batch K ?ds = Inr ?ds" "list_all (\<lambda>d. event_row_with s (d_event_id d) = None) ?ds"
    by (simp_all add: clean_drafts_def)
  obtain s' where s': "append_events K W s tid ?ds (th_sequence th) = Inr (?th, True, s')"
      "represents K W s' (hist(tid := hist tid @ positioned tid (th_sequence th) ?ds))"
      "replay W (hist tid @ positioned tid (th_sequence th) ?ds) = Inr ?th"
    by (rule append_commits [OF rep th fb(1) no_fork fb(2) all closed'])
  have read: "get_thread K s tid = Inr th" using read_snapshot_present [OF rep th(1)] th(2) by (simp add: get_thread_def)
  have get': "get_turn ?th turn = Inr v'"
    using find_last [of us "\<lambda>t. turn_id t = turn" v'] last(4) vid live by (auto simp: get_turn_def live_def)
  have open_t: "t_status t \<notin> set TERMINAL_TURNS" using run(1) by (simp add: turn_run_def live_def)
  have ok: "list_all draft_ok ?ds" using freeze_batch_Inr(1) [OF fb(1)] by (auto simp: list_all_iff frozen_draft_def)
  have "finish_turn K W H P s tid turn fin = Inr (v', s')"
    using read get open_t ok s'(1) get'
    by (simp add: finish_turn_def Let_def commit_def finish_of_def)
  moreover have "th_active_turn_id ?th = None"
    using last(2) final_endable(2) [OF fin, of W P th] by (auto simp: update_thread_def TERMINAL_TURNS_def)
  moreover have "(t_status v', t_error v') = ?fin" using last(2,3) f by (simp add: prod_eq_iff)
  ultimately show ?thesis using that [OF _ _ last(6) s'(2) _ get'] s'(3) by simp
qed

end
