(* ===== verification/Turn_Endings.thy ===== *)
theory Turn_Endings
  imports Settled_Turns Settled_Requests
begin

text \<open>
  The end of a Turn as the callers of \<^verbatim>\<open>_finish\<close> see it, on any store and on the Turn of Asking_Run.
\<close>

section \<open>Ending the Turn that asks\<close>

definition no_ports :: recovery_ports where
  "no_ports = \<lparr>rp_owned = (\<lambda>_. False), rp_gateway = (\<lambda>_ _ _ _. Inr None), rp_patches = None, rp_batches = None,
     rp_tools = ask_tools, rp_texts = (\<lambda>_. ([], False))\<rparr>"

definition late :: "string \<Rightarrow> finish" where
  "late m = (Ts_FAILED, Some (failure ''time_budget_exceeded'' m))"

lemma asking_settles:
  assumes "asking_turn_ok t" "t_compactions t = []" "list_all (\<lambda>a. a_status a \<noteq> At_running) (t_model_attempts t)"
  shows "settleable no_wire no_ports th t" "endable t (late m)" "open_calls t = [ask_call]"
    "finish_of no_wire no_ports th t (late m) = (late m)" "recover_pending_effects no_wire no_ports th t = Map.empty"
    "finish_drafts answering_host 7 t Map.empty (late m)
       = stamped answering_host (Some 7) 2 0 (published_item 5000 (ToolResult (unrun_result t (late m) ask_call))
           @ published_item 5001 (Error (failure ''time_budget_exceeded'' m))
           @ [TurnStateChanged \<lparr>tsc_status = Ts_FAILED, tsc_error = snd (late m), tsc_reason = Normal\<rparr>])"
    "unrun_result t (late m) ask_call = \<lparr>tr_call_id = 50, tr_outcome = Oc_failed, tr_output = JNull,
       tr_error = snd (late m), tr_action_id = None, tr_patch = None, tr_patch_batch = None, tr_process = None,
       tr_trusted_action = None, tr_diff_artifact = None\<rparr>"
proof -
  note items = assms(1) [unfolded asking_turn_ok_def settled_item_def said_def]
  have calls: "pending_calls t = [ask_call]" by (rule asking_state [OF assms(1)])
  have none: "recorded_results t = []" using items by (simp add: recorded_results_def List.map_filter_simps)
  show o: "open_calls t = [ask_call]" using calls none by (simp add: open_calls_def)
  have app: "approval_for t ask_call = None" using items by (simp add: approval_for_def)
  have rec: "recover_effect no_wire no_ports th t ask_call = None"
    by (simp add: recover_effect_def no_ports_def ask_call_def)
  have running: "filter (\<lambda>a. a_status a = At_running) (t_model_attempts t) = []"
    using assms(3) by (auto simp: list_all_iff filter_empty_conv)
  show "settleable no_wire no_ports th t"
    using assms(2,3) o app rec by (auto simp: settleable_def attempts_closable_def process_approval_def list_all_iff)
  show "endable t (late m)" by (simp add: endable_def late_def)
  show r: "recover_pending_effects no_wire no_ports th t = Map.empty"
    using o rec by (simp add: recover_pending_effects_def List.map_filter_simps)
  have "\<not> uncertain t Map.empty"
    using calls items by (simp add: uncertain_def has_unknown_result_def ask_call_def)
  then show "finish_of no_wire no_ports th t (late m) = (late m)"
    using items r by (simp add: finish_of_def final_finish_def cancelled_finish_def late_def Let_def)
  show "unrun_result t (late m) ask_call = \<lparr>tr_call_id = 50, tr_outcome = Oc_failed, tr_output = JNull,
       tr_error = snd (late m), tr_action_id = None, tr_patch = None, tr_patch_batch = None, tr_process = None,
       tr_trusted_action = None, tr_diff_artifact = None\<rparr>"
    using app by (simp add: unrun_result_def ask_call_def approval_action_id_def late_def)
  show "finish_drafts answering_host 7 t Map.empty (late m)
       = stamped answering_host (Some 7) 2 0 (published_item 5000 (ToolResult (unrun_result t (late m) ask_call))
           @ published_item 5001 (Error (failure ''time_budget_exceeded'' m))
           @ [TurnStateChanged \<lparr>tsc_status = Ts_FAILED, tsc_error = snd (late m), tsc_reason = Normal\<rparr>])"
    using o items assms(2) running
    by (simp add: finish_drafts_def drawn_def finish_payloads_def closing_contents_def closing_result_def close_attempts_def
        close_items_def late_def answering_host_def numeral_2_eq_2)
qed

lemma ending_clean:
  assumes "py_len m \<le> 2000" "asking_turn_ok t" "t_compactions t = []" "list_all (\<lambda>a. a_status a \<noteq> At_running) (t_model_attempts t)"
  shows "clean_drafts plain_codec asking_store
    (finish_drafts answering_host 7 t (recover_pending_effects no_wire no_ports th t) (finish_of no_wire no_ports th t (late m)))"
  unfolding asking_settles(4,5) [OF assms(2-4)] asking_settles(6) [OF assms(2-4)] asking_settles(7) [OF assms(2-4)] asking_store_def
  using assms(1)
  by (intro stored_drafts_clean)
    (auto simp: published_item_def answering_host_def asking_defs run_defs draft_ok_def payload_ok_def item_content_ok_def
        tool_result_ok_def independent_effects_def count_some_def py_len_def is_continuation_def byte_of_def boundary_defs
        late_def failure_def agent_failure_ok_def AgentFailure_def)

lemma asking_unused:
  assumes "get_turn (thread_of asking_run) 7 = Inr t" "asking_turn_ok t" "th_turns (thread_of asking_run) = [t]"
  shows "unused_ids answering_host n (thread_of asking_run)"
proof -
  have "th_fork_snapshot (thread_of asking_run) = None"
    by (rule asking_facts) (use replay_fork asking_events in metis)
  then have "known_ids (thread_of asking_run) = item_id ` set (t_items t)"
    using assms(3) by (auto simp: known_ids_def history_items_def inherited_items_def thread_items_def)
  then have "known_ids (thread_of asking_run) = {10, 11, 12}"
    using assms(2) by (simp add: asking_turn_ok_def settled_item_def)
  then show ?thesis by (auto simp: unused_ids_def answering_host_def intro: inj_onI)
qed

section \<open>Property\<close>

text \<open>C33. A Turn can be ended wherever it stands. Take an active Turn of a readable Thread, and a state and
  error it may be ended with. Let its running model attempts belong to the current model call, and its
  open calls have different identities, be no process calls, and carry no evidence of an effect: their
  recovery finds nothing, or a result without evidence that is no success (and not of unknown effect
  where the call only reads). Open compactions are allowed; where there is
  one, the clock has not stepped back behind the times it recorded. (The store keeps a valid draft as it
  is, and the identities the host draws are new.) Then the request to end the Turn succeeds, the Turn it
  returns is in the state and has the error the uncertainty rules give, with no call, item, model attempt
  or compaction left open, and the Thread that is read afterwards holds exactly this Turn and is free for
  the next one; the only other outcome of that read is \<open>projection_corrupt\<close>, where the new projection does
  not read back.\<close>

theorem running_turn_settles:
  assumes "represents K W s hist" and "replay W (hist tid) = Inr th" "readable K th"
    and "th_active_turn_id th = Some turn" "get_turn th turn = Inr t"
    and "settleable W P th t" "endable t fin" "unused_ids H (length (open_calls t)) th" "clock_ahead H th t"
    and "clean_drafts K s (finish_drafts H turn t (recover_pending_effects W P th t) (finish_of W P th t fin))"
  shows "case finish_turn K W H P s tid turn fin of
      Inl e \<Rightarrow> False
    | Inr (t', s') \<Rightarrow> (t_status t', t_error t') = final_finish t (recover_pending_effects W P th t) fin
        \<and> terminal t' \<and> pending_calls t' = [] \<and> no_open_items t' \<and> no_running_attempts t' \<and> no_open_compactions t'
        \<and> (case get_thread K s' tid of
             Inl e \<Rightarrow> e = projection_corrupt
           | Inr th' \<Rightarrow> th_active_turn_id th' = None \<and> get_turn th' turn = Inr t')"
proof -
  obtain t' s' hist' th' where run: "finish_turn K W H P s tid turn fin = Inr (t', s')"
    and t': "(t_status t', t_error t') = finish_of W P th t fin" "settled_turn t'"
    and th': "represents K W s' hist'" "replay W (hist' tid) = Inr th'" "get_turn th' turn = Inr t'" "th_active_turn_id th' = None"
    by (rule finish_commits [OF assms(1-7,10,8,9)])
  have "terminal t'"
    using final_endable(2) [OF assms(7), of W P th] t'(1) by (auto simp: TERMINAL_TURNS_def dest: arg_cong [of _ _ fst])
  moreover have "case get_thread K s' tid of Inl e \<Rightarrow> e = projection_corrupt
      | Inr v \<Rightarrow> th_active_turn_id v = None \<and> get_turn v turn = Inr t'"
    using read_snapshot_present [OF th'(1,2)] th'(3,4) by (simp add: get_thread_def)
  ultimately show ?thesis using run t' by (simp add: settled_turn_def finish_of_def)
qed

theorem running_turn_settles_witness:
  "\<exists>t s'. finish_turn plain_codec no_wire answering_host no_ports asking_store 1 7 (late ''late'') = Inr (t, s')
    \<and> t_status t = Ts_FAILED \<and> pending_calls t = []"
proof -
  obtain t where f: "replay no_wire asking_run = Inr (thread_of asking_run)"
    "thread_id (thread_of asking_run) = 1" "th_compaction_windows (thread_of asking_run) = []"
    "th_archive (thread_of asking_run) = None" "th_sequence (thread_of asking_run) = 16"
    "th_turns (thread_of asking_run) = [t]" "asking_turn_ok t" by (rule asking_facts)
  have get: "get_turn (thread_of asking_run) 7 = Inr t" using f(6,7) by (simp add: get_turn_def asking_turn_ok_def)
  have idle: "t_compactions t = []" "list_all (\<lambda>a. a_status a \<noteq> At_running) (t_model_attempts t)"
    and act: "th_active_turn_id (thread_of asking_run) = Some 7"
    using asking_idle f(6) by simp_all
  note st = asking_settles [OF f(7) idle]
  have fin: "final_finish t (recover_pending_effects no_wire no_ports (thread_of asking_run) t) (late ''late'') = (late ''late'')"
    using st(4) by (simp add: finish_of_def)
  have short: "py_len ''late'' \<le> 2000" by (simp add: py_len_def)
  have hist: "replay no_wire (((\<lambda>_. [])(1 := asking_run)) 1) = Inr (thread_of asking_run)" using f(1) by simp
  have clock: "clock_ahead answering_host (thread_of asking_run) t" using idle(1) by (simp add: clock_ahead_def)
  from running_turn_settles [OF asking_represents hist plain_readable [OF f(1) asking_run_ok f(3)] act get
      st(1,2) asking_unused [OF get f(7,6)] clock ending_clean [OF short f(7) idle]]
  show ?thesis
    unfolding fin
    by (cases "finish_turn plain_codec no_wire answering_host no_ports asking_store 1 7 (late ''late'')")
      (simp_all add: late_def split: prod.splits)
qed

end
