(* ===== verification/Turn_Recovery.thy ===== *)
theory Turn_Recovery
  imports Turn_Settlement
begin

text \<open>
  What happens to a Turn that is open when the process starts again, and when driving it ends
  (\<^verbatim>\<open>_recover\<close>, \<^verbatim>\<open>resume_turn\<close>, \<^verbatim>\<open>_continue\<close> and \<^verbatim>\<open>_activate_compaction_window\<close> of
  src/src/harnessix/agent/runtime.py, with the predicates of agent/runtime_recovery.py), for a runtime without trusted
  actions. Driving a Turn, which talks to providers and tools, is an argument: the store it leaves and how
  it ended.
\<close>

section \<open>Where a Turn may be resumed\<close>

definition completed_answers :: "turn \<Rightarrow> question_answer list" where
  "completed_answers t = List.map_filter (\<lambda>i. case i_content i of
     QuestionAnswer a \<Rightarrow> if i_status i = Is_COMPLETED then Some a else None | _ \<Rightarrow> None) (t_items t)"

definition completed_result :: "(tool_result_content \<Rightarrow> bool) \<Rightarrow> turn \<Rightarrow> bool" where
  "completed_result P t = list_ex (\<lambda>i. i_status i = Is_COMPLETED
     \<and> (case i_content i of ToolResult r \<Rightarrow> P r | _ \<Rightarrow> False)) (t_items t)"

definition result_resume_safe :: "turn \<Rightarrow> bool" where
  "result_resume_safe t =
    (let answers = completed_answers t
     in (answers \<noteq> [] \<and> completed_result (\<lambda>r. tr_call_id r = qa_call_id (last answers) \<and> tr_outcome r = Oc_succeeded) t)
        \<or> (pending_calls t = [] \<and> completed_result (\<lambda>r. tr_trusted_action r \<noteq> None) t))"

definition recoverable_compaction :: "turn \<Rightarrow> nat \<Rightarrow> compaction_record option" where
  "recoverable_compaction t event_sequence =
     find (\<lambda>r. cr_status r = Cs_summarized \<and> cr_finished_event_sequence r = Some event_sequence) (rev (t_compactions t))"

definition approval_of_first :: "turn \<Rightarrow> item option" where
  "approval_of_first t = (case pending_calls t of [] \<Rightarrow> None | call # _ \<Rightarrow> approval_for t call)"

definition waits_for_process :: "turn \<Rightarrow> bool" where
  "waits_for_process t = (case approval_of_first t of None \<Rightarrow> False
     | Some i \<Rightarrow> (case i_content i of Approval (ProcessApproval _) \<Rightarrow> True | _ \<Rightarrow> False))"

section \<open>Single steps under the lock\<close>

definition move_state :: "'d codec \<Rightarrow> wire \<Rightarrow> host \<Rightarrow> 'd session_store \<Rightarrow> uuid \<Rightarrow> uuid \<Rightarrow> turn_status \<Rightarrow> reentry_reason
    \<Rightarrow> (thread \<times> 'd session_store) result" where
  "move_state K W H s tid turn status reason =
     bindE (get_thread K s tid) (\<lambda>th.
     bindE (new_drafts H (Some turn) 0 0 [TurnStateChanged \<lparr>tsc_status = status, tsc_error = None, tsc_reason = reason\<rparr>]) (\<lambda>ds.
     commit K W s tid ds (th_sequence th)))"

definition consume_decided_approval :: "'d codec \<Rightarrow> wire \<Rightarrow> host \<Rightarrow> 'd session_store \<Rightarrow> thread \<Rightarrow> turn
    \<Rightarrow> (thread \<times> turn \<times> 'd session_store) result" where
  "consume_decided_approval K W H s th t =
     (if t_status t = Ts_WAITING_APPROVAL
      then bindE (move_state K W H s (thread_id th) (turn_id t) Ts_EXECUTING_TOOLS Normal) (\<lambda>(th', s').
           bindE (get_turn th' (turn_id t)) (\<lambda>t'. Inr (th', t', s')))
      else check (t_status t = Ts_EXECUTING_TOOLS) (KernelError ''approval_projection_mismatch'') (Inr (th, t, s)))"

text \<open>A finished summary becomes the active window; the window draws the first identity of the host.\<close>

definition activate_window :: "'d codec \<Rightarrow> wire \<Rightarrow> host \<Rightarrow> 'd session_store \<Rightarrow> uuid \<Rightarrow> uuid \<Rightarrow> uuid
    \<Rightarrow> (thread \<times> 'd session_store) result" where
  "activate_window K W H s tid turn compaction =
     bindE (get_thread K s tid) (\<lambda>th.
     bindE (get_turn th turn) (\<lambda>t.
      let conflict = KernelError ''context_compaction_window_conflict''
      in case find (\<lambda>c. compaction_id (cr_plan c) = compaction) (t_compactions t) of
           None \<Rightarrow> Inl conflict
         | Some record \<Rightarrow>
            (case cr_summary record of
               None \<Rightarrow> Inl conflict
             | Some summary \<Rightarrow>
                check (cr_status record = Cs_summarized \<and> cr_finished_event_sequence record = Some (th_sequence th)) conflict
                (bindE (replay_compaction_candidate W (compaction_source th t record) (cr_plan record) summary) (\<lambda>candidate.
                 bindE (build_compaction_window th record (vc_history candidate) (vc_history_sha256 candidate)
                     (vc_history_tokens candidate) (h_new_id H 0) (th_sequence th + 1) (h_utc_now H 0)) (\<lambda>window.
                 bindE (new_drafts H (Some turn) 1 0 [CompactionWindowActivated window]) (\<lambda>ds.
                 commit K W s tid ds (th_sequence th))))))))"

section \<open>Recovery\<close>

text \<open>The messages as UTF-8 bytes.\<close>

definition OUT_OF_TIME :: string where
  "OUT_OF_TIME = of_bytes
     [84, 117, 114, 110, 32, 230, 151, 182, 233, 151, 180, 233, 162, 132, 231, 174, 151, 232,
      128, 151, 229, 176, 189]"

definition INTERRUPTED_MESSAGE :: string where
  "INTERRUPTED_MESSAGE = of_bytes
     [228, 184, 138, 230, 172, 161, 232, 191, 155, 231, 168, 139, 228, 184, 173, 230, 150,
      173, 239, 188, 140, 230, 156, 170, 232, 135, 170, 229, 138, 168, 233, 135, 141, 230,
      148, 190]"

definition USER_CANCELLED :: string where
  "USER_CANCELLED = of_bytes
     [231, 148, 168, 230, 136, 183, 229, 143, 150, 230, 182, 136, 228, 186, 134, 229, 189,
      147, 229, 137, 141, 32, 84, 117, 114, 110]"

definition TASK_CANCELLED :: string where
  "TASK_CANCELLED = of_bytes
     [232, 176, 131, 231, 148, 168, 230, 150, 185, 228, 187, 187, 229, 138, 161, 229, 143,
      150, 230, 182, 136]"

definition RUNTIME_FAILED :: string where
  "RUNTIME_FAILED = of_bytes
     [82, 117, 110, 116, 105, 109, 101, 32, 230, 137, 167, 232, 161, 140, 229, 164, 177, 232,
      180, 165, 239, 188, 155, 229, 142, 159, 229, 167, 139, 229, 188, 130, 229, 184, 184,
      230, 156, 170, 230, 140, 129, 228, 185, 133, 229, 140, 150]"

definition out_of_budget :: finish where
  "out_of_budget = (Ts_FAILED, Some (failure ''time_budget_exceeded'' OUT_OF_TIME))"

definition process_interrupted :: finish where
  "process_interrupted = (Ts_INTERRUPTED, Some (failure ''process_interrupted'' INTERRUPTED_MESSAGE))"

text \<open>A window that was ready to be activated is activated first.\<close>

definition recovery_start :: "'d codec \<Rightarrow> wire \<Rightarrow> host \<Rightarrow> 'd session_store \<Rightarrow> thread
    \<Rightarrow> (thread \<times> turn \<times> 'd session_store) result" where
  "recovery_start K W H s th =
     (case th_active_turn_id th of
        None \<Rightarrow> Inl AssertionError
      | Some turn \<Rightarrow>
          bindE (get_turn th turn) (\<lambda>t.
          case recoverable_compaction t (th_sequence th) of
            Some record \<Rightarrow>
              if t_status t = Ts_PREPARING_CONTEXT
              then bindE (activate_window K W H s (thread_id th) turn (compaction_id (cr_plan record))) (\<lambda>(th', s').
                   bindE (get_turn th' turn) (\<lambda>t'. Inr (th', t', s')))
              else Inr (th, t, s)
          | None \<Rightarrow> Inr (th, t, s)))"

text \<open>The Turns that recovery leaves as they are, at a reading of the clock.\<close>

definition may_wait :: "datetime \<Rightarrow> turn \<Rightarrow> bool" where
  "may_wait now t =
     (t_status t = Ts_ACCEPTED \<and> t_execution_mode t = Deferred
      \<or> t_status t = Ts_WAITING_INPUT \<and> 0 < remaining_us t now
      \<or> t_status t = Ts_EXECUTING_TOOLS \<and> result_resume_safe t
      \<or> t_status t = Ts_WAITING_ACTION
      \<or> t_status t = Ts_WAITING_APPROVAL \<and> (0 < remaining_us t now \<or> waits_for_process t))"

definition recovery_finish :: "turn \<Rightarrow> finish" where
  "recovery_finish t =
     (if t_status t \<in> {Ts_WAITING_INPUT, Ts_WAITING_APPROVAL} then out_of_budget else process_interrupted)"

definition recover_turn :: "'d codec \<Rightarrow> wire \<Rightarrow> host \<Rightarrow> host \<Rightarrow> recovery_ports \<Rightarrow> datetime \<Rightarrow> 'd session_store \<Rightarrow> thread
    \<Rightarrow> (turn \<times> 'd session_store) result" where
  "recover_turn K W H H' P now s th =
     bindE (recovery_start K W H s th) (\<lambda>(th', t, s').
     if may_wait now t then Inr (t, s')
     else finish_turn K W H' P s' (thread_id th') (turn_id t) (recovery_finish t))"

section \<open>Resuming and driving\<close>

datatype resumption = Unchanged | Expire | Drive

definition resume_admission :: "bool \<Rightarrow> datetime \<Rightarrow> turn \<Rightarrow> resumption result" where
  "resume_admission active now t =
    (let archived = KernelError ''legacy_process_state_archived''
     in if t_status t \<in> set TERMINAL_TURNS then Inr Unchanged
        else check (\<not> (t_status t = Ts_WAITING_APPROVAL \<and> waits_for_process t)) archived
        (if t_status t = Ts_WAITING_INPUT then Inr (if 0 < remaining_us t now then Unchanged else Expire)
         else check (t_status t \<in> {Ts_ACCEPTED, Ts_EXECUTING_TOOLS, Ts_WAITING_APPROVAL, Ts_WAITING_ACTION})
                (KernelError ''turn_not_resumable'')
              (check (t_status t = Ts_EXECUTING_TOOLS \<longrightarrow> result_resume_safe t) (KernelError ''turn_not_resumable'')
              (check (t_status t \<noteq> Ts_WAITING_ACTION) archived
              (check (\<not> active) (KernelError ''turn_busy'') (Inr Drive))))))"

text \<open>How driving a Turn ends: it pauses or completes, or an exception stops it.\<close>

datatype drive_end = Driven turn | Cancelled_turn | Cancelled_task | Timed_out | Raised py_error

definition raised_failure :: "error_texts \<Rightarrow> py_error \<Rightarrow> agent_failure" where
  "raised_failure X e = failure_of X (failure ''runtime_error'' RUNTIME_FAILED) e"

definition cancel_running :: "'d codec \<Rightarrow> wire \<Rightarrow> host \<Rightarrow> host \<Rightarrow> recovery_ports \<Rightarrow> 'd session_store \<Rightarrow> uuid \<Rightarrow> uuid
    \<Rightarrow> string \<Rightarrow> (turn \<times> 'd session_store) result" where
  "cancel_running K W H H' P s tid turn message =
     bindE (record_cancel K W H s tid turn) (\<lambda>(_, s').
     finish_turn K W H' P s' tid turn (Ts_CANCELLED, Some (failure ''cancelled'' message)))"

text \<open>\<^verbatim>\<open>_settle_cancel_task\<close>: the caller's task was cancelled; a Turn that is no longer active is left alone.\<close>

definition settle_cancel_task :: "'d codec \<Rightarrow> wire \<Rightarrow> host \<Rightarrow> host \<Rightarrow> recovery_ports \<Rightarrow> 'd session_store \<Rightarrow> uuid \<Rightarrow> uuid
    \<Rightarrow> 'd session_store result" where
  "settle_cancel_task K W H H' P s tid turn =
     bindE (get_thread K s tid) (\<lambda>th.
     if th_active_turn_id th = Some turn
     then bindE (cancel_running K W H H' P s tid turn TASK_CANCELLED) (\<lambda>(_, s'). Inr s')
     else Inr s)"

text \<open>
  \<^verbatim>\<open>_continue\<close> after the drive; \<open>token\<close> is whether the Turn's token was cancelled meanwhile. A cancelled task
  settles the Turn and raises again, which is \<open>None\<close>.
\<close>

definition after_drive :: "'d codec \<Rightarrow> wire \<Rightarrow> host \<Rightarrow> host \<Rightarrow> recovery_ports \<Rightarrow> bool \<Rightarrow> 'd session_store \<Rightarrow> uuid \<Rightarrow> uuid
    \<Rightarrow> drive_end \<Rightarrow> (turn option \<times> 'd session_store) result" where
  "after_drive K W H H' P token s tid turn result =
    (let returned = (\<lambda>m. bindE m (\<lambda>(t, s'). Inr (Some t, s')));
         cancelled = returned (cancel_running K W H H' P s tid turn USER_CANCELLED)
     in case result of
          Driven t \<Rightarrow> if token then cancelled else Inr (Some t, s)
        | Cancelled_turn \<Rightarrow> cancelled
        | Cancelled_task \<Rightarrow> bindE (settle_cancel_task K W H H' P s tid turn) (\<lambda>s'. Inr (None, s'))
        | Timed_out \<Rightarrow> returned (finish_turn K W H' P s tid turn out_of_budget)
        | Raised e \<Rightarrow>
            if token then cancelled
            else returned (finish_turn K W H' P s tid turn (Ts_FAILED, Some (raised_failure (rp_texts P) e))))"

end
