(* ===== verification/Recovered_Turns.thy ===== *)
theory Recovered_Turns
  imports Turn_Endings Turn_Recovery
begin

text \<open>
  After a restart no Turn is left running: it is ended, or it waits where it may be resumed.
\<close>

section \<open>Recovery of the Turn that asks\<close>

lemma py_len_le: "py_len s \<le> length s"
  by (simp add: py_len_def)

lemma out_of_budget_late: "out_of_budget = late OUT_OF_TIME" "py_len OUT_OF_TIME \<le> 2000"
  using py_len_le [of OUT_OF_TIME] by (simp_all add: out_of_budget_def late_def OUT_OF_TIME_def of_bytes_def)

lemma recovery_endable: "endable t (recovery_finish t)"
  by (simp add: endable_def recovery_finish_def out_of_budget_def process_interrupted_def)

text \<open>How a Turn that may not wait is ended.\<close>

lemma recovery_end:
  "fst (finish_of W P th t (recovery_finish t)) = Ts_INTERRUPTED
   \<or> fst (finish_of W P th t (recovery_finish t)) = Ts_FAILED \<and> t_status t \<in> {Ts_WAITING_INPUT, Ts_WAITING_APPROVAL}"
  by (cases "t_status t")
    (simp_all add: finish_of_def final_finish_def cancelled_finish_def recovery_finish_def out_of_budget_def
      process_interrupted_def Let_def)

section \<open>Property\<close>

text \<open>C36. After a restart of a runtime without trusted actions no Turn is left running. Let the first step of the recovery of a Thread have
  succeeded: it reads the active Turn and, where a summary is ready, activates its window. Let the
  running attempts of the Turn belong to the current model call, and its open calls have different
  identities, be no process calls and carry no evidence of an effect, as when a running Turn is ended;
  open compactions are allowed, with a clock that has not stepped back behind them. (The store keeps a
  valid draft as it is, and the identities the host draws are new.) Then the recovery succeeds. A Turn that may be resumed
  (accepted for deferred execution, waiting within its time, or with a recorded result to continue from)
  is left exactly as it is. Every other Turn is ended: as interrupted, or as failed when it only waited
  and ran out of time; no call, item, attempt or compaction of it stays open, and the Thread is free when
  it is read (a projection that does not read back is refused with \<open>projection_corrupt\<close>).\<close>

theorem restart_leaves_nothing_running:
  assumes "recovery_start K W H s th0 = Inr (th, t, s1)" and "represents K W s1 hist" "replay W (hist (thread_id th)) = Inr th"
    and "readable K th" "th_active_turn_id th = Some (turn_id t)" "get_turn th (turn_id t) = Inr t"
    and "settleable W P th t" "unused_ids H' (length (open_calls t)) th" "clock_ahead H' th t"
    and "clean_drafts K s1 (finish_drafts H' (turn_id t) t (recover_pending_effects W P th t)
          (finish_of W P th t (recovery_finish t)))"
  shows "case recover_turn K W H H' P now s th0 of
      Inl e \<Rightarrow> False
    | Inr (t', s') \<Rightarrow>
        if may_wait now t then t' = t \<and> s' = s1
        else (t_status t' = Ts_INTERRUPTED
              \<or> t_status t' = Ts_FAILED \<and> t_status t \<in> {Ts_WAITING_INPUT, Ts_WAITING_APPROVAL})
          \<and> pending_calls t' = [] \<and> no_open_items t' \<and> no_running_attempts t' \<and> no_open_compactions t'
          \<and> (case get_thread K s' (thread_id th) of
               Inl e \<Rightarrow> e = projection_corrupt
             | Inr v \<Rightarrow> th_active_turn_id v = None \<and> get_turn v (turn_id t) = Inr t')"
proof (cases "may_wait now t")
  case True
  then show ?thesis using assms(1) by (simp add: recover_turn_def)
next
  case False
  obtain t' s' hist' th' where run: "finish_turn K W H' P s1 (thread_id th) (turn_id t) (recovery_finish t) = Inr (t', s')"
    and t': "(t_status t', t_error t') = finish_of W P th t (recovery_finish t)" "settled_turn t'"
    and th': "represents K W s' hist'" "replay W (hist' (thread_id th)) = Inr th'" "get_turn th' (turn_id t) = Inr t'"
      "th_active_turn_id th' = None"
    by (rule finish_commits [OF assms(2-7) recovery_endable assms(10,8,9)])
  have "t_status t' = Ts_INTERRUPTED \<or> t_status t' = Ts_FAILED \<and> t_status t \<in> {Ts_WAITING_INPUT, Ts_WAITING_APPROVAL}"
    using recovery_end [of W P th t] t'(1) [symmetric] by simp
  moreover have "case get_thread K s' (thread_id th) of Inl e \<Rightarrow> e = projection_corrupt
      | Inr v \<Rightarrow> th_active_turn_id v = None \<and> get_turn v (turn_id t) = Inr t'"
    using read_snapshot_present [OF th'(1,2)] th'(3,4) by (simp add: get_thread_def)
  ultimately show ?thesis using run t'(2) False assms(1) by (simp add: recover_turn_def settled_turn_def)
qed

theorem restart_leaves_nothing_running_witness:
  "\<exists>t s'. recover_turn plain_codec no_wire some_host answering_host no_ports 70000000 asking_store (thread_of asking_run)
      = Inr (t, s') \<and> t_status t \<in> {Ts_INTERRUPTED, Ts_FAILED} \<and> pending_calls t = []"
proof -
  obtain t where f: "replay no_wire asking_run = Inr (thread_of asking_run)"
    "thread_id (thread_of asking_run) = 1" "th_compaction_windows (thread_of asking_run) = []"
    "th_archive (thread_of asking_run) = None" "th_sequence (thread_of asking_run) = 16"
    "th_turns (thread_of asking_run) = [t]" "asking_turn_ok t" by (rule asking_facts)
  have id: "turn_id t = 7" and st: "t_status t = Ts_WAITING_INPUT" using f(7) by (simp_all add: asking_turn_ok_def)
  have get: "get_turn (thread_of asking_run) 7 = Inr t" using f(6) id by (simp add: get_turn_def)
  have idle: "t_compactions t = []" "list_all (\<lambda>a. a_status a \<noteq> At_running) (t_model_attempts t)"
    and act: "th_active_turn_id (thread_of asking_run) = Some 7"
    using asking_idle f(6) by simp_all
  have start: "recovery_start plain_codec no_wire some_host asking_store (thread_of asking_run)
      = Inr (thread_of asking_run, t, asking_store)"
    using act get idle by (simp add: recovery_start_def recoverable_compaction_def)
  have hist: "replay no_wire (((\<lambda>_. [])(1 := asking_run)) (thread_id (thread_of asking_run))) = Inr (thread_of asking_run)"
    using f(1,2) by simp
  have late: "recovery_finish t = late OUT_OF_TIME" using st by (simp add: recovery_finish_def out_of_budget_late)
  have "remaining_us t 70000000 = - 8000000"
    using f(7) by (simp add: asking_turn_ok_def small_budget_def remaining_us_def deadline_def timedelta_us_def float_rat_def)
  then have over: "\<not> may_wait 70000000 t" using st by (simp add: may_wait_def)
  have clock: "clock_ahead answering_host (thread_of asking_run) t" using idle(1) by (simp add: clock_ahead_def)
  from restart_leaves_nothing_running [OF start asking_represents hist plain_readable [OF f(1) asking_run_ok f(3)],
      unfolded id late, OF act get asking_settles(1) [OF f(7) idle] asking_unused [OF get f(7,6)] clock
        ending_clean [OF out_of_budget_late(2) f(7) idle], where now = 70000000] over
  show ?thesis
    by (cases "recover_turn plain_codec no_wire some_host answering_host no_ports 70000000 asking_store (thread_of asking_run)")
      (auto split: prod.splits)
qed

end
