(* ===== verification/Exact_Edits.thy ===== *)
theory Exact_Edits
  imports Patch_Contracts "HOL-Library.Sublist" "HOL-Library.Multiset"
begin

text \<open>
  Exact edits of one file (src/src/harnessix/patches/planner.py): every edit names a text that must occur
  exactly once in the file, the places must not overlap, and the result must differ and stay within a
  bound. Files are their bytes. A checkpoint of the operation may stop the work at any step: the \<open>k\<close>-th
  checkpoint is a parameter, \<open>Some code\<close> where it raises \<^verbatim>\<open>ReadToolError(code)\<close>.
\<close>

section \<open>Searching\<close>

fun find_in :: "nat \<Rightarrow> string \<Rightarrow> string \<Rightarrow> nat option" where
  "find_in i sub [] = (if sub = [] then Some i else None)"
| "find_in i sub (c # cs) = (if prefix sub (c # cs) then Some i else find_in (i + 1) sub cs)"

text \<open>\<^verbatim>\<open>bytes.find(sub, start)\<close>.\<close>

definition py_find :: "string \<Rightarrow> string \<Rightarrow> nat \<Rightarrow> nat option" where
  "py_find s sub start = (if length s < start then None else find_in start sub (drop start s))"

section \<open>The ranges of the edits\<close>

type_synonym checkpoints = "nat \<Rightarrow> string option"

definition checkpoint :: "checkpoints \<Rightarrow> nat \<Rightarrow> 'a result \<Rightarrow> 'a result" where
  "checkpoint C k r = (case C k of None \<Rightarrow> r | Some code \<Rightarrow> Inl (KernelError (''patch_'' @ code)))"

type_synonym edit_range = "nat \<times> nat \<times> string"

definition edit_range_of :: "string \<Rightarrow> exact_edit \<Rightarrow> edit_range result" where
  "edit_range_of before e =
     (case py_find before (old_text e) 0 of
        None \<Rightarrow> Inl (KernelError ''patch_context_not_found'')
      | Some start \<Rightarrow>
          check (py_find before (old_text e) (start + 1) = None) (KernelError ''patch_ambiguous_context'')
            (Inr (start, start + length (old_text e), new_text e)))"

fun located :: "checkpoints \<Rightarrow> nat \<Rightarrow> string \<Rightarrow> exact_edit list \<Rightarrow> edit_range list result" where
  "located C k before [] = Inr []"
| "located C k before (e # es) =
     checkpoint C k (bindE (edit_range_of before e) (\<lambda>r.
       bindE (located C (k + 1) before es) (\<lambda>rs. Inr (r # rs))))"

text \<open>The loop over the sorted ranges: no overlap, and the change of the size.\<close>

fun ranges_size :: "nat \<Rightarrow> int \<Rightarrow> edit_range list \<Rightarrow> int result" where
  "ranges_size reached bytes [] = Inr bytes"
| "ranges_size reached bytes ((start, stop, new) # rs) =
     check (reached \<le> start) (KernelError ''patch_overlapping_edits'')
       (ranges_size stop (bytes + (int (length new) - int (stop - start))) rs)"

definition edit_ranges :: "checkpoints \<Rightarrow> string \<Rightarrow> exact_edit list \<Rightarrow> int \<Rightarrow> edit_range list result" where
  "edit_ranges C before edits max_bytes =
     bindE (located C 0 before edits) (\<lambda>found.
      let rs = sort_key fst found
      in bindE (ranges_size 0 (int (length before)) rs) (\<lambda>bytes.
         check (bytes \<le> max_bytes) (KernelError ''patch_limit_exceeded'') (Inr rs)))"

section \<open>Applying them\<close>

fun spliced :: "checkpoints \<Rightarrow> nat \<Rightarrow> string \<Rightarrow> nat \<Rightarrow> edit_range list \<Rightarrow> string result" where
  "spliced C k before offset [] = Inr (drop offset before)"
| "spliced C k before offset ((start, stop, new) # rs) =
     checkpoint C k (bindE (spliced C (k + 1) before stop rs) (\<lambda>rest.
       Inr (drop offset (take start before) @ new @ rest)))"

definition apply_exact_edits :: "checkpoints \<Rightarrow> string \<Rightarrow> exact_edit list \<Rightarrow> int \<Rightarrow> string result" where
  "apply_exact_edits C before edits max_bytes =
     bindE (edit_ranges C before edits max_bytes) (\<lambda>rs.
     bindE (spliced C (length edits) before 0 rs) (\<lambda>after.
     check (before \<noteq> after) (KernelError ''patch_no_change'') (Inr after)))"

section \<open>What an edit script means\<close>

text \<open>A text cut into gaps, replaced pieces and a rest.\<close>

type_synonym script = "(string \<times> string \<times> string) list"

fun source_text :: "script \<Rightarrow> string \<Rightarrow> string" where
  "source_text [] rest = rest"
| "source_text ((gap, old, new) # ps) rest = gap @ old @ source_text ps rest"

fun target_text :: "script \<Rightarrow> string \<Rightarrow> string" where
  "target_text [] rest = rest"
| "target_text ((gap, old, new) # ps) rest = gap @ new @ target_text ps rest"

definition occurs_at :: "string \<Rightarrow> string \<Rightarrow> nat \<Rightarrow> bool" where
  "occurs_at s sub i \<longleftrightarrow> i \<le> length s \<and> prefix sub (drop i s)"

definition occurs_once :: "string \<Rightarrow> string \<Rightarrow> bool" where
  "occurs_once s sub \<longleftrightarrow> (\<exists>!i. occurs_at s sub i)"

section \<open>Searching is exact\<close>

lemma find_in_Some:
  "find_in i sub s = Some j \<longleftrightarrow> i \<le> j \<and> occurs_at s sub (j - i) \<and> (\<forall>k < j - i. \<not> occurs_at s sub k)"
proof (induction i sub s arbitrary: j rule: find_in.induct)
  case (1 i sub)
  then show ?case by (auto simp: occurs_at_def)
next
  case (2 i sub c cs)
  have step: "occurs_at (c # cs) sub (Suc k) = occurs_at cs sub k" for k by (simp add: occurs_at_def)
  have zero: "occurs_at (c # cs) sub 0 = prefix sub (c # cs)" by (simp add: occurs_at_def)
  show ?case
  proof (cases "prefix sub (c # cs)")
    case True
    with zero have here: "occurs_at (c # cs) sub 0" by simp
    then have "(\<forall>k < j - i. \<not> occurs_at (c # cs) sub k) \<longleftrightarrow> j - i = 0" by (metis less_nat_zero_code neq0_conv)
    then show ?thesis using True here by auto
  next
    case False
    have "find_in i sub (c # cs) = Some j \<longleftrightarrow> i + 1 \<le> j \<and> occurs_at cs sub (j - (i + 1)) \<and> (\<forall>k < j - (i + 1). \<not> occurs_at cs sub k)"
      using False 2 by simp
    also have "\<dots> \<longleftrightarrow> i \<le> j \<and> occurs_at (c # cs) sub (j - i) \<and> (\<forall>k < j - i. \<not> occurs_at (c # cs) sub k)"
    proof (cases "i < j")
      case True
      then obtain d where "j - i = Suc d" "j - (i + 1) = d" by (metis Suc_diff_Suc Suc_eq_plus1)
      with True step zero False show ?thesis by (auto simp: less_Suc_eq_0_disj)
    next
      case i: False
      with zero False show ?thesis by auto
    qed
    finally show ?thesis .
  qed
qed

lemma find_in_None: "find_in i sub s = None \<longleftrightarrow> (\<forall>k. \<not> occurs_at s sub k)"
proof (induction i sub s rule: find_in.induct)
  case (2 i sub c cs)
  have "occurs_at (c # cs) sub k \<longleftrightarrow> (case k of 0 \<Rightarrow> prefix sub (c # cs) | Suc m \<Rightarrow> occurs_at cs sub m)" for k
    by (simp add: occurs_at_def split: nat.splits)
  with 2 show ?case by (auto split: nat.splits)
qed (simp add: occurs_at_def)

lemma occurs_at_drop: "start \<le> length s \<Longrightarrow> occurs_at (drop start s) sub k = occurs_at s sub (start + k)"
  by (auto simp: occurs_at_def add.commute)

lemma py_find_first:
  "py_find s sub 0 = Some i \<longleftrightarrow> occurs_at s sub i \<and> (\<forall>k < i. \<not> occurs_at s sub k)"
  by (simp add: py_find_def find_in_Some)

lemma py_find_none_after: "py_find s sub (Suc i) = None \<longleftrightarrow> (\<forall>k > i. \<not> occurs_at s sub k)"
proof (cases "length s < Suc i")
  case True
  then show ?thesis by (auto simp: py_find_def occurs_at_def)
next
  case False
  then have "py_find s sub (Suc i) = None \<longleftrightarrow> (\<forall>k. \<not> occurs_at s sub (Suc i + k))"
    by (simp add: py_find_def find_in_None occurs_at_drop)
  also have "\<dots> \<longleftrightarrow> (\<forall>k > i. \<not> occurs_at s sub k)" by (metis Suc_leI le_iff_add less_eq_Suc_le)
  finally show ?thesis .
qed

lemma edit_range_Inr:
  "edit_range_of before e = Inr r \<longleftrightarrow> occurs_once before (old_text e)
     \<and> (\<exists>i. occurs_at before (old_text e) i \<and> r = (i, i + length (old_text e), new_text e))"
proof
  assume "edit_range_of before e = Inr r"
  then obtain i where i: "py_find before (old_text e) 0 = Some i" "py_find before (old_text e) (Suc i) = None"
      "r = (i, i + length (old_text e), new_text e)"
    by (auto simp: edit_range_of_def split: option.splits)
  then have "occurs_at before (old_text e) k \<longleftrightarrow> k = i" for k
    unfolding py_find_first py_find_none_after by (metis nat_neq_iff)
  with i(3) show "occurs_once before (old_text e)
     \<and> (\<exists>i. occurs_at before (old_text e) i \<and> r = (i, i + length (old_text e), new_text e))"
    by (auto simp: occurs_once_def)
next
  assume a: "occurs_once before (old_text e)
     \<and> (\<exists>i. occurs_at before (old_text e) i \<and> r = (i, i + length (old_text e), new_text e))"
  then obtain i where i: "occurs_at before (old_text e) i" "r = (i, i + length (old_text e), new_text e)" by blast
  with a have only: "occurs_at before (old_text e) k \<longleftrightarrow> k = i" for k by (auto simp: occurs_once_def)
  then have "py_find before (old_text e) 0 = Some i" "py_find before (old_text e) (Suc i) = None"
    by (simp_all add: py_find_first py_find_none_after)
  with i(2) show "edit_range_of before e = Inr r" by (simp add: edit_range_of_def)
qed

section \<open>Ranges and scripts\<close>

fun script_ranges :: "nat \<Rightarrow> script \<Rightarrow> edit_range list" where
  "script_ranges off [] = []"
| "script_ranges off ((gap, old, new) # ps) =
     (off + length gap, off + length gap + length old, new) # script_ranges (off + length gap + length old) ps"

text \<open>No checkpoint of a stretch stops the work.\<close>

definition passes :: "checkpoints \<Rightarrow> nat \<Rightarrow> nat \<Rightarrow> bool" where
  "passes C k n \<longleftrightarrow> (\<forall>j < n. C (k + j) = None)"

definition growth :: "script \<Rightarrow> int" where
  "growth ps = (\<Sum>(_, old, new) \<leftarrow> ps. int (length new) - int (length old))"

lemma length_target: "int (length (target_text ps rest)) = int (length (source_text ps rest)) + growth ps"
  by (induction ps rest rule: target_text.induct) (simp_all add: growth_def)

lemma checkpoint_Inr [guard_simps]: "checkpoint C k r = Inr x \<longleftrightarrow> C k = None \<and> r = Inr x"
  by (simp add: checkpoint_def split: option.splits)

lemma passes_simps [simp]:
  "passes C k 0" "passes C k (Suc n) \<longleftrightarrow> C k = None \<and> passes C (Suc k) n"
  by (auto simp: passes_def less_Suc_eq_0_disj)

text \<open>Ranges without overlap cut the text.\<close>

lemma ranges_cut:
  assumes "ranges_size off z rs = Inr b" "off \<le> length before"
    and "\<forall>(start, stop, new) \<in> set rs. start \<le> stop \<and> stop \<le> length before"
  shows "\<exists>ps rest. drop off before = source_text ps rest \<and> script_ranges off ps = rs"
  using assms
proof (induction off z rs rule: ranges_size.induct)
  case (1 off z)
  then show ?case by (intro exI [of _ "[]"] exI [of _ "drop off before"]) simp
next
  case (2 off z start stop new rs)
  from 2(2) have le: "off \<le> start" by simp
  with 2 obtain ps rest where ps: "drop stop before = source_text ps rest" "script_ranges stop ps = rs" by auto
  let ?gap = "take (start - off) (drop off before)" and ?old = "take (stop - start) (drop start before)"
  from 2(4) have len: "start \<le> stop" "stop \<le> length before" by simp_all
  have "drop off before = ?gap @ drop start before" using le by (metis append_take_drop_id drop_drop le_add_diff_inverse2)
  also have "drop start before = ?old @ drop stop before" using len(1) by (metis append_take_drop_id drop_drop le_add_diff_inverse2)
  finally have "drop off before = source_text ((?gap, ?old, new) # ps) rest" using ps(1) by simp
  moreover have "script_ranges off ((?gap, ?old, new) # ps) = (start, stop, new) # rs"
    using ps(2) le len by simp
  ultimately show ?case by blast
qed

lemma script_size: "ranges_size off z (script_ranges off ps) = Inr (z + growth ps)"
  by (induction off ps arbitrary: z rule: script_ranges.induct) (simp_all add: growth_def algebra_simps)

lemma script_spliced:
  assumes "drop off before = source_text ps rest"
  shows "spliced C k before off (script_ranges off ps) = Inr x
    \<longleftrightarrow> passes C k (length ps) \<and> x = target_text ps rest"
  using assms
proof (induction off ps arbitrary: k x rule: script_ranges.induct)
  case (1 off)
  then show ?case by auto
next
  case (2 off gap old new ps)
  let ?a = "off + length gap" and ?b = "off + length gap + length old"
  from 2(2) have cut: "drop off before = gap @ old @ source_text ps rest" by simp
  have "drop off (take ?a before) = gap" using cut by (metis append_eq_conv_conj drop_take add_diff_cancel_left')
  moreover have "drop ?b before = source_text ps rest"
    using cut by (metis add.commute append_eq_conv_conj drop_drop)
  ultimately show ?case using 2(1) by (auto simp: checkpoint_Inr)
qed

lemma script_occurs:
  assumes "drop off before = source_text ps rest" "off \<le> length before"
  shows "list_all2 (\<lambda>r (gap, old, new). occurs_at before old (fst r) \<and> r = (fst r, fst r + length old, new)) (script_ranges off ps) ps"
  using assms
proof (induction off ps rule: script_ranges.induct)
  case (2 off gap old new ps)
  from 2(2) have cut: "drop off before = gap @ old @ source_text ps rest" by simp
  then have at: "drop (off + length gap) before = old @ source_text ps rest"
    by (metis add.commute append_eq_conv_conj drop_drop)
  then have rest: "drop (off + length gap + length old) before = source_text ps rest"
    by (metis add.commute append_eq_conv_conj drop_drop)
  have "length before - off = length gap + length old + length (source_text ps rest)"
    using arg_cong [OF cut, of length] by simp
  with 2(3) have "off + length gap \<le> length before" "off + length gap + length old \<le> length before" by simp_all
  with 2(1) rest at show ?case by (simp add: occurs_at_def)
qed simp

lemma located_Inr:
  "located C k before es = Inr found
    \<longleftrightarrow> passes C k (length es) \<and> list_all2 (\<lambda>e r. edit_range_of before e = Inr r) es found"
proof (induction es arbitrary: k found)
  case (Cons e es)
  then show ?case by (cases found) (auto simp: checkpoint_Inr)
qed auto

section \<open>The characterisation\<close>

lemma range_of_unique:
  "edit_range_of before e = Inr r \<longleftrightarrow> occurs_once before (old_text e)
     \<and> occurs_at before (old_text e) (fst r) \<and> r = (fst r, fst r + length (old_text e), new_text e)"
  unfolding edit_range_Inr by (cases r) auto

text \<open>The text a range replaces, and its replacement.\<close>

definition piece :: "string \<Rightarrow> edit_range \<Rightarrow> string \<times> string" where
  "piece before r = (take (fst (snd r) - fst r) (drop (fst r) before), snd (snd r))"

lemma piece_at: "occurs_at before old i \<Longrightarrow> piece before (i, i + length old, new) = (old, new)"
  by (auto simp: piece_def occurs_at_def prefix_def)

lemma located_pieces:
  assumes "list_all2 (\<lambda>e r. edit_range_of before e = Inr r) es rs"
  shows "map (piece before) rs = map (\<lambda>e. (old_text e, new_text e)) es"
    "list_all (\<lambda>e. occurs_once before (old_text e)) es"
    "\<forall>(start, stop, new) \<in> set rs. start \<le> stop \<and> stop \<le> length before"
  using assms
proof (induction rule: list_all2_induct)
  case (Cons e es r rs)
  note r = Cons(1) [unfolded range_of_unique]
  then obtain i where i: "r = (i, i + length (old_text e), new_text e)" "occurs_at before (old_text e) i"
    by (metis)
  {
    case 1
    then show ?case using Cons i piece_at by simp
  next
    case 2
    then show ?case using Cons r by simp
  next
    case 3
    have "i + length (old_text e) \<le> length before"
      using i(2) by (auto simp: occurs_at_def prefix_def dest: arg_cong [of _ _ length])
    then show ?case using Cons i by simp
  }
qed simp_all

lemma script_pieces:
  assumes "before = source_text ps rest"
  shows "map (piece before) (script_ranges 0 ps) = map snd ps"
proof -
  from script_occurs [of 0 before ps rest] assms
  have "list_all2 (\<lambda>r (gap, old, new). occurs_at before old (fst r) \<and> r = (fst r, fst r + length old, new)) (script_ranges 0 ps) ps"
    by simp
  then show ?thesis by (induction rule: list_all2_induct) (auto, metis piece_at prod.collapse)
qed

text \<open>A range is determined by its piece when the replaced text occurs once.\<close>

definition place_of :: "string \<Rightarrow> string \<times> string \<Rightarrow> edit_range" where
  "place_of before p = (let i = (THE i. occurs_at before (fst p) i) in (i, i + length (fst p), snd p))"

lemma place_of_at: "occurs_once before old \<Longrightarrow> occurs_at before old i \<Longrightarrow> place_of before (old, new) = (i, i + length old, new)"
  by (auto simp: place_of_def occurs_once_def Let_def)

lemma script_sorted:
  "list_all (\<lambda>(gap, old, new). old \<noteq> []) ps \<Longrightarrow>
     sorted (map fst (script_ranges off ps)) \<and> distinct (map fst (script_ranges off ps))
     \<and> (\<forall>r \<in> set (script_ranges off ps). off \<le> fst r)"
proof (induction off ps rule: script_ranges.induct)
  case (2 off gap old new ps)
  then show ?case by fastforce
qed simp

lemma length_script_ranges [simp]: "length (script_ranges off ps) = length ps"
  by (induction off ps rule: script_ranges.induct) simp_all

lemma passes_add: "passes C k (m + n) \<longleftrightarrow> passes C k m \<and> passes C (k + m) n"
  by (induction m arbitrary: k) simp_all

definition pairs_of :: "exact_edit list \<Rightarrow> (string \<times> string) list" where
  "pairs_of edits = map (\<lambda>e. (old_text e, new_text e)) edits"

text \<open>What a successful run did.\<close>

lemma edits_applied:
  assumes "apply_exact_edits C before edits max_bytes = Inr after"
  obtains ps rest where "before = source_text ps rest" "after = target_text ps rest" "mset (map snd ps) = mset (pairs_of edits)"
    "list_all (\<lambda>e. occurs_once before (old_text e)) edits" "passes C 0 (2 * length edits)" "before \<noteq> after"
    "int (length after) \<le> max_bytes"
proof -
  from assms obtain found b where f: "located C 0 before edits = Inr found"
      "ranges_size 0 (int (length before)) (sort_key fst found) = Inr b" "b \<le> max_bytes"
      "spliced C (length edits) before 0 (sort_key fst found) = Inr after" "before \<noteq> after"
    by (auto simp: apply_exact_edits_def edit_ranges_def Let_def)
  let ?rs = "sort_key fst found"
  from f(1) have l: "passes C 0 (length edits)" "list_all2 (\<lambda>e r. edit_range_of before e = Inr r) edits found"
    by (simp_all add: located_Inr)
  from located_pieces(3) [OF l(2)] have in_range: "\<forall>(start, stop, new) \<in> set ?rs. start \<le> stop \<and> stop \<le> length before" by simp
  from ranges_cut [OF f(2) _ in_range] obtain ps rest where ps: "before = source_text ps rest" "script_ranges 0 ps = ?rs" by auto
  have n: "length ps = length edits"
    using arg_cong [OF ps(2), of length] list_all2_lengthD [OF l(2)] by simp
  from script_spliced [of 0 before ps rest C "length edits" after] f(4) ps
  have s: "passes C (length edits) (length ps)" "after = target_text ps rest" by simp_all
  have "b = int (length before) + growth ps" using f(2) script_size [of 0 "int (length before)" ps] ps(2) by simp
  then have "int (length after) \<le> max_bytes" using f(3) length_target [of ps rest] s(2) ps(1) by simp
  moreover have "mset (map snd ps) = mset (pairs_of edits)"
  proof -
    have "mset (map snd ps) = image_mset (piece before) (mset ?rs)"
      using script_pieces [OF ps(1)] ps(2) by (metis mset_map)
    also have "\<dots> = mset (map (piece before) found)" by simp
    finally show ?thesis using located_pieces(1) [OF l(2)] by (simp add: pairs_of_def)
  qed
  moreover have "passes C 0 (2 * length edits)" using l(1) s(1) n passes_add [of C 0 "length edits" "length edits"] by (simp add: mult_2)
  ultimately show ?thesis using that [OF ps(1) s(2)] located_pieces(2) [OF l(2)] f(5) by blast
qed

text \<open>A script whose replaced texts are unique is found by the search.\<close>

lemma script_places:
  assumes "before = source_text ps rest" "\<forall>(gap, old, new) \<in> set ps. occurs_once before old"
  shows "script_ranges 0 ps = map (place_of before) (map snd ps)"
proof -
  from script_occurs [of 0 before ps rest] assms(1)
  have "list_all2 (\<lambda>r (gap, old, new). occurs_at before old (fst r) \<and> r = (fst r, fst r + length old, new)) (script_ranges 0 ps) ps"
    by simp
  then show ?thesis
    using assms(2)
  proof (induction rule: list_all2_induct)
    case (Cons r rs p ps)
    obtain gap old new where p: "p = (gap, old, new)" by (cases p)
    from Cons p have "occurs_at before old (fst r)" "r = (fst r, fst r + length old, new)" "occurs_once before old" by simp_all
    then have "place_of before (old, new) = r" by (metis place_of_at)
    with Cons p show ?case by simp
  qed simp
qed

lemma edits_apply:
  assumes nonempty: "list_all (\<lambda>e. old_text e \<noteq> []) edits"
    and script: "before = source_text ps rest" "after = target_text ps rest" "mset (map snd ps) = mset (pairs_of edits)"
    and once: "list_all (\<lambda>e. occurs_once before (old_text e)) edits" and pass: "passes C 0 (2 * length edits)"
    and changed: "before \<noteq> after" and bound: "int (length after) \<le> max_bytes"
  shows "apply_exact_edits C before edits max_bytes = Inr after"
proof -
  let ?found = "map (place_of before) (pairs_of edits)" and ?rs = "script_ranges 0 ps"
  have n: "length ps = length edits" using arg_cong [OF script(3), of size] by (simp add: pairs_of_def)
  have sets: "snd ` set ps = set (pairs_of edits)" using arg_cong [OF script(3), of set_mset] by simp
  have each: "old \<noteq> [] \<and> occurs_once before old" if "(gap, old, new) \<in> set ps" for gap old new
  proof -
    from that sets have "(old, new) \<in> set (pairs_of edits)" by force
    with nonempty once show ?thesis by (auto simp: pairs_of_def list_all_iff)
  qed
  have "edit_range_of before e = Inr (place_of before (old_text e, new_text e))" if "e \<in> set edits" for e
  proof -
    from that once have o: "occurs_once before (old_text e)" by (simp add: list_all_iff)
    then obtain i where "occurs_at before (old_text e) i" by (auto simp: occurs_once_def)
    with o place_of_at [OF o this, of "new_text e"] show ?thesis unfolding edit_range_Inr by blast
  qed
  then have l2: "list_all2 (\<lambda>e r. edit_range_of before e = Inr r) edits ?found"
    by (simp add: pairs_of_def comp_def list_all2_map2 list_all2_same)
  have halves: "passes C 0 (length edits)" "passes C (length edits) (length edits)"
    using pass passes_add [of C 0 "length edits" "length edits"] by (simp_all add: mult_2)
  have located: "located C 0 before edits = Inr ?found" using l2 halves(1) by (simp add: located_Inr)
  have places: "?rs = map (place_of before) (map snd ps)" by (rule script_places [OF script(1)]) (use each in auto)
  have "mset ?found = image_mset (place_of before) (mset (pairs_of edits))" by simp
  also have "\<dots> = mset ?rs" unfolding places script(3) [symmetric] by (simp add: multiset.map_comp)
  finally have same: "mset ?found = mset ?rs" .
  have sorted: "sorted (map fst ?rs)" "distinct (map fst ?rs)" using script_sorted [of ps 0] each by (auto simp: list_all_iff)
  have "inj_on fst (set ?found)"
    using sorted(2) arg_cong [OF same, of set_mset] by (simp add: distinct_map)
  then have sort: "sort_key fst ?found = ?rs" by (rule sort_key_inj_key_eq [OF same _ sorted(1)])
  have "int (length before) + growth ps \<le> max_bytes" using bound length_target [of ps rest] script(1,2) by simp
  then have "edit_ranges C before edits max_bytes = Inr ?rs"
    using located sort script_size [of 0 "int (length before)" ps] by (simp add: edit_ranges_def)
  moreover have "spliced C (length edits) before 0 ?rs = Inr after"
    using script_spliced [of 0 before ps rest C "length edits" after] script(1,2) halves(2) n by simp
  ultimately show ?thesis using changed by (simp add: apply_exact_edits_def)
qed

section \<open>Property\<close>

text \<open>C25. Applying exact edits is exactly the replacement of unique places. For edits with non-empty anchors it
  succeeds if and only if no checkpoint stops it, every anchor occurs exactly once in the file, the file
  can be cut into gaps and the anchors of all edits in some order (so no two of them overlap), the result
  differs from the file and is within the bound; and the result is then the file with every anchor
  replaced by its own new text and all gaps kept.\<close>

theorem exact_edits_characterised:
  assumes "list_all (\<lambda>e. old_text e \<noteq> []) edits"
  shows "apply_exact_edits C before edits max_bytes = Inr after \<longleftrightarrow>
    passes C 0 (2 * length edits) \<and> before \<noteq> after \<and> int (length after) \<le> max_bytes
    \<and> list_all (\<lambda>e. occurs_once before (old_text e)) edits
    \<and> (\<exists>ps rest. before = source_text ps rest \<and> after = target_text ps rest \<and> mset (map snd ps) = mset (pairs_of edits))"
proof
  assume "apply_exact_edits C before edits max_bytes = Inr after"
  then show "passes C 0 (2 * length edits) \<and> before \<noteq> after \<and> int (length after) \<le> max_bytes
    \<and> list_all (\<lambda>e. occurs_once before (old_text e)) edits
    \<and> (\<exists>ps rest. before = source_text ps rest \<and> after = target_text ps rest \<and> mset (map snd ps) = mset (pairs_of edits))"
    by (elim edits_applied) blast
qed (use edits_apply [OF assms] in blast)

definition two_edits :: "exact_edit list" where
  "two_edits = [\<lparr>old_text = ''cd'', new_text = ''X''\<rparr>, \<lparr>old_text = ''a'', new_text = ''YZ''\<rparr>]"

theorem exact_edits_characterised_witness:
  "apply_exact_edits (\<lambda>_. None) ''abcde'' two_edits 100 = Inr ''YZbXe''
    \<and> list_all (\<lambda>e. occurs_once ''abcde'' (old_text e)) two_edits"
proof -
  have run: "apply_exact_edits (\<lambda>_. None) ''abcde'' two_edits 100 = Inr ''YZbXe''" by code_simp
  have "list_all (\<lambda>e. old_text e \<noteq> []) two_edits" by (simp add: two_edits_def)
  from exact_edits_characterised [OF this, of "\<lambda>_. None" "''abcde''" 100 "''YZbXe''"] run show ?thesis by blast
qed

end
