(* ===== verification/Prepared_Patches.thy ===== *)
theory Prepared_Patches
  imports Exact_Edits
begin

text \<open>
  Prepared patches (src/src/harnessix/patches/planner.py): reading the file a proposal was made for,
  planning the edits, and checking a plan again before it is carried out. Opening and reading a file are
  parameters: \<open>fs path\<close> is what \<^verbatim>\<open>workspace.open\<close>, \<^verbatim>\<open>os.fstat\<close>, the successive \<^verbatim>\<open>os.read\<close>
  calls and the checks of \<^verbatim>\<open>workspace.open\<close> after the body (the file and the directories on its path are
  the ones that were opened) give. The checkpoints of the three phases (plain ones, reading, editing) are parameters too; a
  cancellation, which leaves the operation by an exception of its own, is not modelled.
\<close>

section \<open>Reading a file image\<close>

definition continuations :: "nat \<Rightarrow> char list \<Rightarrow> bool" where
  "continuations n cs = (n \<le> length cs \<and> list_all is_continuation (take n cs))"

text \<open>\<^verbatim>\<open>bytes.decode("utf-8")\<close>: no overlong forms, no surrogates, nothing above U+10FFFF.\<close>

fun utf8_decodes :: "string \<Rightarrow> bool" where
  "utf8_decodes [] = True"
| "utf8_decodes (c # cs) =
     (let b = byte_of c; d = byte_of (hd (cs @ [CHR 0x00]))
      in if b < 128 then utf8_decodes cs
         else if 194 \<le> b \<and> b \<le> 223 then continuations 1 cs \<and> utf8_decodes (drop 1 cs)
         else if 224 \<le> b \<and> b \<le> 239 then
           continuations 2 cs \<and> (b = 224 \<longrightarrow> 160 \<le> d) \<and> (b = 237 \<longrightarrow> d < 160) \<and> utf8_decodes (drop 2 cs)
         else if 240 \<le> b \<and> b \<le> 244 then
           continuations 3 cs \<and> (b = 240 \<longrightarrow> 144 \<le> d) \<and> (b = 244 \<longrightarrow> d < 144) \<and> utf8_decodes (drop 3 cs)
         else False)"

text \<open>\<^verbatim>\<open>_decode\<close> of tools/files.py; the error is the code of a \<^verbatim>\<open>ReadToolError\<close>.\<close>

definition decode_file :: "string \<Rightarrow> string + unit" where
  "decode_file data =
     (if \<not> utf8_decodes data then Inl ''invalid_utf8''
      else if \<not> text_ok data then Inl ''binary_file'' else Inr ())"

definition read_tool_error :: "string \<Rightarrow> py_error" where
  "read_tool_error code = KernelError (''patch_'' @ code)"

definition os_error :: "int \<Rightarrow> py_error" where
  "os_error errno = KernelError (''patch_'' @
     (if errno = 2 then ''not_found''
      else if errno = 13 \<or> errno = 1 then ''path_denied''
      else if errno = 20 then ''wrong_file_type'' else ''io_failed''))"

record stat_result =
  st_dev :: int
  st_ino :: int
  st_mode :: int
  st_nlink :: int
  st_size :: int
  st_mtime_ns :: int
  st_ctime_ns :: int

definition S_IMODE :: "int \<Rightarrow> int" where
  "S_IMODE mode = mode mod 4096"

definition revision_state :: "stat_result \<Rightarrow> json" where
  "revision_state info = JArr (map JInt [st_dev info, st_ino info, st_mode info, st_nlink info, st_size info,
     st_mtime_ns info, st_ctime_ns info])"

datatype read_step = Read_bytes string | Read_error int

datatype open_failure = Denied string | Failed int

definition open_error :: "open_failure \<Rightarrow> py_error" where
  "open_error f = (case f of Denied code \<Rightarrow> read_tool_error code | Failed e \<Rightarrow> os_error e)"

text \<open>A file that was opened carries the failure of the checks after its body, if they fail.\<close>

datatype opened = Open_failed open_failure | Opened stat_result "read_step list" "open_failure option"

fun read_chunks :: "checkpoints \<Rightarrow> nat \<Rightarrow> string \<Rightarrow> read_step list \<Rightarrow> string result" where
  "read_chunks C k content [] = checkpoint C k (Inr content)"
| "read_chunks C k content (Read_error e # steps) = checkpoint C k (Inl (os_error e))"
| "read_chunks C k content (Read_bytes chunk # steps) =
     checkpoint C k
       (if chunk = [] then Inr content
        else check (int (length (content @ chunk)) \<le> MAX_PATCH_BYTES) (KernelError ''patch_limit_exceeded'')
          (read_chunks C (k + 1) (content @ chunk) steps))"

definition read_image ::
  "checkpoints \<Rightarrow> string \<Rightarrow> (string \<Rightarrow> opened) \<Rightarrow> string \<Rightarrow> string \<Rightarrow> (string \<times> string \<times> int) result" where
  "read_image C scope fs path expected =
     (case fs path of
        Open_failed f \<Rightarrow> Inl (open_error f)
      | Opened info steps closing \<Rightarrow>
          (let mode = S_IMODE (st_mode info);
               revision = digest (JArr [JStr scope, JStr path, revision_state info])
           in check (mode \<le> 511) (KernelError ''patch_unsupported_mode'')
             (check (st_size info \<le> MAX_PATCH_BYTES) (KernelError ''patch_limit_exceeded'')
             (check (revision = expected) (KernelError ''patch_source_changed'')
             (bindE (read_chunks C 0 [] steps) (\<lambda>body.
               case decode_file body of
                 Inl code \<Rightarrow> Inl (read_tool_error code)
               | Inr _ \<Rightarrow> (case closing of Some f \<Rightarrow> Inl (open_error f) | None \<Rightarrow> Inr (body, revision, mode))))))))"

section \<open>Plans\<close>

record prepared_patch =
  prep_manifest :: patch_manifest
  prep_proposal :: patch_proposal
  prep_before :: string
  prep_after :: string

definition target_of :: "checkpoints \<Rightarrow> string \<Rightarrow> patch_proposal \<Rightarrow> string result" where
  "target_of C before proposal = apply_exact_edits C before (pp_edits proposal) MAX_PATCH_BYTES"

definition plan_manifest :: "string \<Rightarrow> patch_proposal \<Rightarrow> string \<Rightarrow> string \<Rightarrow> int \<Rightarrow> patch_manifest result" where
  "plan_manifest scope proposal before after mode =
     (let data = \<lparr>pm_path = pp_path proposal, pm_workspace_scope = scope,
            pm_source_revision = pp_expected_revision proposal, pm_source_mode = mode,
            pm_proposal_sha256 = digest (proposal_json proposal),
            pm_before_sha256 = sha256_hex before, pm_after_sha256 = sha256_hex after,
            pm_before_bytes = int (length before), pm_after_bytes = int (length after),
            pm_edit_count = int (length (pp_edits proposal)), pm_fingerprint = []\<rparr>;
          m = data\<lparr>pm_fingerprint := digest (jobj (manifest_fields data))\<rparr>
      in check (patch_manifest_ok m) ValueError (Inr m))"

text \<open>The checkpoints: \<open>C 0\<close> those of the operation itself, \<open>C 1\<close> of reading, \<open>C 2\<close> of editing.\<close>

definition prepare_patch ::
  "(nat \<Rightarrow> checkpoints) \<Rightarrow> string \<Rightarrow> (string \<Rightarrow> opened) \<Rightarrow> patch_proposal \<Rightarrow> prepared_patch result" where
  "prepare_patch C scope fs proposal =
     checkpoint (C 0) 0
     (check (patch_proposal_ok proposal) ValueError
     (bindE (read_image (C 1) scope fs (pp_path proposal) (pp_expected_revision proposal)) (\<lambda>(before, _, mode).
      bindE (target_of (C 2) before proposal) (\<lambda>after.
      checkpoint (C 0) 1
      (bindE (plan_manifest scope proposal before after mode) (\<lambda>m.
        Inr \<lparr>prep_manifest = m, prep_proposal = proposal, prep_before = before, prep_after = after\<rparr>))))))"

definition plan_corrupt :: py_error where
  "plan_corrupt = KernelError ''patch_plan_corrupt''"

text \<open>The handlers of \<^verbatim>\<open>validate_prepared\<close>: only a timeout passes.\<close>

definition corrupt_unless_timeout :: "'a result \<Rightarrow> 'a result" where
  "corrupt_unless_timeout r =
     (case r of
        Inl (KernelError code) \<Rightarrow> if code = ''patch_timeout'' then r else Inl plan_corrupt
      | Inl ValueError \<Rightarrow> Inl plan_corrupt
      | _ \<Rightarrow> r)"

definition validate_prepared :: "(nat \<Rightarrow> checkpoints) \<Rightarrow> string \<Rightarrow> prepared_patch \<Rightarrow> unit result" where
  "validate_prepared C scope p =
     checkpoint (C 0) 0
     (check (patch_proposal_ok (prep_proposal p) \<and> patch_manifest_ok (prep_manifest p)) plan_corrupt
     (check (int (length (prep_before p)) \<le> MAX_PATCH_BYTES \<and> int (length (prep_after p)) \<le> MAX_PATCH_BYTES)
        plan_corrupt
     (check (scope = pm_workspace_scope (prep_manifest p)) (KernelError ''patch_workspace_changed'')
     (corrupt_unless_timeout
       (bindE (plan_manifest scope (prep_proposal p) (prep_before p) (prep_after p)
                 (pm_source_mode (prep_manifest p))) (\<lambda>expected.
        check (decode_file (prep_before p) = Inr ()) ValueError
        (check (expected = prep_manifest p) ValueError
        (bindE (target_of (C 2) (prep_before p) (prep_proposal p)) (\<lambda>after.
         check (after = prep_after p) ValueError (Inr ()))))))))))"

definition verify_prepared ::
  "(nat \<Rightarrow> checkpoints) \<Rightarrow> string \<Rightarrow> (string \<Rightarrow> opened) \<Rightarrow> prepared_patch \<Rightarrow> unit result" where
  "verify_prepared C scope fs p =
     bindE (validate_prepared C scope p) (\<lambda>_.
     bindE (read_image (C 1) scope fs (pm_path (prep_manifest p)) (pm_source_revision (prep_manifest p)))
       (\<lambda>(current, revision, mode).
     check (current = prep_before p \<and> revision = pm_source_revision (prep_manifest p)
            \<and> mode = pm_source_mode (prep_manifest p)) (KernelError ''patch_source_changed'')
       (checkpoint (C 0) 1 (Inr ()))))"

section \<open>What the steps guarantee\<close>

lemma corrupt_unless_timeout_Inr [simp]: "corrupt_unless_timeout r = Inr x \<longleftrightarrow> r = Inr x"
  by (cases r rule: sum.exhaust) (auto simp: corrupt_unless_timeout_def split: py_error.splits)

lemma checkpoint_none [simp]: "checkpoint (\<lambda>_. None) k r = r"
  by (simp add: checkpoint_def)

lemma read_chunks_bound:
  "read_chunks C k content steps = Inr body \<Longrightarrow> int (length content) \<le> MAX_PATCH_BYTES \<Longrightarrow> int (length body) \<le> MAX_PATCH_BYTES"
  by (induction C k content steps rule: read_chunks.induct) (auto simp: checkpoint_Inr split: if_splits)

lemma decoded_Inr [simp]:
  "(case decode_file s of Inl code \<Rightarrow> Inl (f code) | Inr _ \<Rightarrow> r) = Inr x \<longleftrightarrow> decode_file s = Inr () \<and> r = Inr x"
  by (cases "decode_file s") auto

lemma image_read:
  assumes "read_image C scope fs path expected = Inr (body, revision, mode)"
  shows "int (length body) \<le> MAX_PATCH_BYTES" "decode_file body = Inr ()" "revision = expected"
proof -
  from assms obtain steps where "read_chunks C 0 [] steps = Inr body" "decode_file body = Inr ()" "revision = expected"
    by (auto simp: read_image_def Let_def split: opened.splits option.splits)
  then show "int (length body) \<le> MAX_PATCH_BYTES" "decode_file body = Inr ()" "revision = expected"
    using read_chunks_bound [of C 0 "[]" steps body] by (simp_all add: MAX_PATCH_BYTES_def)
qed

lemma target_bound: "target_of C before proposal = Inr after \<Longrightarrow> int (length after) \<le> MAX_PATCH_BYTES"
  unfolding target_of_def by (erule edits_applied)

lemma planned:
  assumes "plan_manifest scope proposal before after mode = Inr m"
  shows "pm_path m = pp_path proposal" "pm_workspace_scope m = scope" "pm_source_mode m = mode"
    "pm_source_revision m = pp_expected_revision proposal" "patch_manifest_ok m"
  using assms by (auto simp: plan_manifest_def Let_def)

section \<open>Property\<close>

text \<open>C24. Verifying a plan is preparing it again: when nothing interrupts them, a plan passes the check
  against the current file if and only if preparing its proposal on the current file now gives this very
  plan. So a plan that was altered anywhere (manifest, proposal, either image), that belongs to another
  workspace, or whose file has since changed in content, revision or mode never passes, and a fresh plan
  always does.\<close>

theorem verification_is_preparation:
  "verify_prepared (\<lambda>_ _. None) scope fs p = Inr ()
    \<longleftrightarrow> prepare_patch (\<lambda>_ _. None) scope fs (prep_proposal p) = Inr p"
proof
  assume "verify_prepared (\<lambda>_ _. None) scope fs p = Inr ()"
  then have "patch_proposal_ok (prep_proposal p)"
      and plan: "plan_manifest scope (prep_proposal p) (prep_before p) (prep_after p) (pm_source_mode (prep_manifest p))
        = Inr (prep_manifest p)"
      and "target_of (\<lambda>_. None) (prep_before p) (prep_proposal p) = Inr (prep_after p)"
      and "read_image (\<lambda>_. None) scope fs (pm_path (prep_manifest p)) (pm_source_revision (prep_manifest p))
        = Inr (prep_before p, pm_source_revision (prep_manifest p), pm_source_mode (prep_manifest p))"
    by (auto simp: verify_prepared_def validate_prepared_def)
  then show "prepare_patch (\<lambda>_ _. None) scope fs (prep_proposal p) = Inr p"
    using planned [OF plan] by (simp add: prepare_patch_def)
next
  assume "prepare_patch (\<lambda>_ _. None) scope fs (prep_proposal p) = Inr p"
  then obtain rev mode where ok: "patch_proposal_ok (prep_proposal p)"
      and image: "read_image (\<lambda>_. None) scope fs (pp_path (prep_proposal p)) (pp_expected_revision (prep_proposal p))
         = Inr (prep_before p, rev, mode)"
      and target: "target_of (\<lambda>_. None) (prep_before p) (prep_proposal p) = Inr (prep_after p)"
      and plan: "plan_manifest scope (prep_proposal p) (prep_before p) (prep_after p) mode = Inr (prep_manifest p)"
    by (cases p) (auto simp: prepare_patch_def)
  then show "verify_prepared (\<lambda>_ _. None) scope fs p = Inr ()"
    using planned [OF plan] image_read [OF image] target_bound [OF target]
    by (simp add: verify_prepared_def validate_prepared_def)
qed

end
