(* ===== verification/Foreign_Results.thy ===== *)
theory Foreign_Results
  imports Settling_Steps Reducer_Gaps
begin

text \<open>
  A trusted action result for a call without a tool fingerprint, in any Thread: the error that leaves
  the reducer is of the wrong kind.
\<close>

lemma trusted_result_alone:
  assumes "event_ok e" "payload e = ItemStarted iid (ToolResult r)" "tr_trusted_action r \<noteq> None"
  shows "tr_patch r = None" "tr_patch_batch r = None" "tr_process r = None"
proof -
  from assms have "independent_effects r"
    by (simp add: event_ok_def payload_ok_def item_content_ok_def tool_result_ok_def)
  with assms(3) show "tr_patch r = None" "tr_patch_batch r = None" "tr_process r = None"
    by (auto simp: independent_effects_def count_some_def split: if_splits)
qed

lemma start_foreign_result:
  assumes "tr_trusted_action r = Some effect" "tr_patch_batch r = None" "tr_process r = None"
    and "pending_calls t = call # calls" "tr_call_id r = tc_call_id call" "tc_tool_fingerprint call = None"
    and "process_approval t call = None" "results_for (tc_call_id call) (t_items t) = []"
  shows "start_result W th t r = Inl ValueError"
  using assms
  by (simp add: start_result_def first_pending_def validate_process_result_def validate_trusted_action_effect_def
      trusted_action_invocation_id_def)

text \<open>A pending call is never one that was rejected.\<close>

lemma pending_not_rejected:
  assumes "require_closed_rejection_items (t_items t) = Inr ()" "call \<in> set (pending_calls t)"
  shows "\<not> result_of_rejection t (tc_call_id call)"
proof
  obtain i where i: "i \<in> set (t_items t)" "i_content i = ToolCall call" by (rule pending_item [OF assms(2)])
  note rej = call_not_rejected [OF assms(1) i]
  assume "result_of_rejection t (tc_call_id call)"
  then obtain j where j: "j \<in> set (t_items t)" "case i_content j of Rejection r \<Rightarrow> i_status j = Is_COMPLETED
      \<and> rj_call_id r = tc_call_id call | _ \<Rightarrow> False"
    unfolding result_of_rejection_def list_ex_iff by blast
  from j(2) obtain q where "i_content j = Rejection q" "rj_call_id q = tc_call_id call"
    by (cases "i_content j") simp_all
  with j(1) rejection_mem rej show False by force
qed

text \<open>C39. A gap of the reducer: a trusted action result for a call without a tool fingerprint is not
  refused with \<open>KernelError("invalid_event")\<close> as every other mismatch. In any Thread with an active
  Turn with no open compaction, whose first pending call has no fingerprint, no process approval and no
  result yet, the valid event that
  starts such a result for this call, addressed to the Turn under a fresh item identity, raises a plain
  \<open>ValueError\<close> through \<open>apply_event\<close>: the identity of the invocation is computed before anything is
  required.\<close>

theorem foreign_trusted_result_leaks:
  assumes "replay W es = Inr th" and "list_all event_ok (es @ [e])"
    and "th_active_turn_id th = Some turn" and "get_turn th turn = Inr t" and "no_open_compactions t"
    and "pending_calls t = call # calls" and "tc_tool_fingerprint call = None"
    and "process_approval t call = None" and "results_for (tc_call_id call) (t_items t) = []"
    and "e_thread_id e = thread_id th" and "e_sequence e = th_sequence th + 1" and "e_turn_id e = Some turn"
    and "payload e = ItemStarted iid (ToolResult r)" and "iid \<notin> known_ids th"
    and "tr_call_id r = tc_call_id call" and "tr_trusted_action r = Some effect"
  shows "apply_event W (Some th) e = Inl ValueError"
proof -
  have ok: "list_all event_ok es" "event_ok e" using assms(2) by simp_all
  have reach: "reachable W th" by (rule replay_reachable [OF assms(1) ok(1)])
  obtain us t0 where live: "live th us t0" "turn_id t0 = turn" by (rule shape_live [OF reachable_shape [OF reach] assms(3)])
  from live_get [OF live(1)] live(2) assms(4) have t: "t0 = t" by simp
  have "require_closed_rejections th = Inr ()" using assms(1) by (simp add: replay_run)
  then have closed: "require_closed_rejection_items (t_items t) = Inr ()"
    using closed_thread_turns live t by (fastforce simp: list_all_iff live_def)
  have alone: "tr_patch_batch r = None" "tr_process r = None"
    using trusted_result_alone [OF ok(2) assms(13)] assms(16) by simp_all
  have "start_result W th t r = Inl ValueError"
    by (rule start_foreign_result [OF assms(16) alone assms(6,15,7,8,9)])
  moreover have "\<not> result_of_rejection t (tr_call_id r)"
    using pending_not_rejected [OF closed, of call] assms(6,15) by simp
  ultimately have guard: "start_guard W th t e (ToolResult r) = Inl ValueError" by (simp add: start_guard_def)
  have fresh: "fresh_item th t iid" using fresh_known [OF live(1) assms(14)] t by simp
  have "apply_turn_event W th t e = Inl ValueError"
    using guard fresh assms(13) by (simp add: apply_turn_event_def start_item_def fresh_item_def require_def)
  moreover have "t_status t \<notin> set TERMINAL_TURNS" "th_archive th = None"
    using live(1) t by (simp_all add: live_def)
  ultimately show ?thesis
    using assms(3,4,5,10-13)
    by (simp add: apply_event_def apply_to_thread_def apply_active_def open_compaction_guard_def require_def)
qed

theorem foreign_trusted_result_leaks_witness:
  "replay no_wire before_result = Inr (thread_of before_result)
     \<and> apply_event no_wire (Some (thread_of before_result)) foreign_event = Inl ValueError"
proof -
  from yields_thread_of [OF before_result_yields] obtain t where f: "replay no_wire before_result = Inr (thread_of before_result)"
      "thread_id (thread_of before_result) = 1" "th_sequence (thread_of before_result) = 13"
      "th_active_turn_id (thread_of before_result) = Some 7" "th_fork_snapshot (thread_of before_result) = None"
      "th_turns (thread_of before_result) = [t]" "waiting_for_result t"
    by (auto simp: length_Suc_conv)
  note t = f(7) [unfolded waiting_for_result_def said_def]
  have fresh: "12 \<notin> known_ids (thread_of before_result)"
    using f(5,6) t by (auto simp: known_ids_def history_items_def inherited_items_def thread_items_def)
  have pending: "pending_calls t = [plain_call]" "results_for 50 (t_items t) = []" "process_approval t plain_call = None"
    using t by (simp_all add: pending_calls_def completed_calls_def settled_calls_def List.map_filter_simps results_for_def
        process_approval_def approval_for_def)
  obtain r where r: "foreign_result = ToolResult r" "tr_call_id r = 50" "tr_trusted_action r \<noteq> None"
    by (simp add: foreign_result_def)
  then obtain effect where effect: "tr_trusted_action r = Some effect" by blast
  have "apply_event no_wire (Some (thread_of before_result)) foreign_event = Inl ValueError"
    by (rule foreign_trusted_result_leaks [OF f(1), of foreign_event 7 t plain_call "[]" 12 r effect])
      (use f(2-6) t pending fresh r effect foreign_event_ok in \<open>simp_all add: get_turn_def no_open_compactions_def foreign_event_def
        event_def plain_call_def guarded_call_def\<close>)
  with f(1) show ?thesis by simp
qed

end
