(* ===== verification/Spec2Isabelle.thy ===== *)
theory Spec2Isabelle
  imports Approval_Safety Window_Chain Reducer_Gaps Cost_Reports Session_Listing Recovered_Writes Approval_Replies Recovered_Turns
    Prepared_Patches Foreign_Results
begin

text \<open>
  A verification development for the Agent kernel of Harnessix Code (src/src/harnessix/).

  \<^bold>\<open>The program.\<close> Harnessix is a coding agent. Everything an Agent does is recorded as a transcript
  of events; the state of a conversation (a \<^emph>\<open>Thread\<close> with its \<^emph>\<open>Turns\<close> and \<^emph>\<open>Items\<close>) is never stored
  but projected from the events by one pure function, \<^verbatim>\<open>apply_event\<close> in agent/reducer.py. The online
  runtime proposes an event, the reducer accepts or refuses it, and the session store appends it; a
  restart replays the same events through the same reducer. All safety rules of the product (no tool
  effect without a recorded approval, no second effect after a crash, budgets, no silent loss of an
  unknown effect, a history that only ever grows) are guards of this reducer.

  \<^bold>\<open>Theories and sources.\<close>
  \<^item> Py_Stdlib, Prelude, Py_Json: what the source uses of Python (text, hashes, UUIDs, times,
    exceptions as values, loops with early exit, JSON with the canonical dump behind every
    fingerprint).
  \<^item> Domain_Models: domain/models.py, domain/artifact_pagination.py, artifacts/contracts.py,
    agent/errors.py.
  \<^item> Patch_Contracts, Process_Contracts: patches/*contracts*.py, processes/*contracts*.py.
  \<^item> Exact_Edits, Prepared_Patches: patches/planner.py. Applying edits is characterised as the replacement of
    unique, disjoint places; verifying a plan is shown to be the same as preparing it again.
  \<^item> Usage: agent/usage.py, agent/billing.py, agent/attempt_accounting.py.
  \<^item> Context_Contracts: context/*contracts*.py. Search_Contracts: tools/search_contracts.py.
  \<^item> Agent_Models, Item_Json, Agent_Thread: agent/models.py, agent/trusted_action_contracts.py.
  \<^item> Tool_Rejections: agent/tool_rejections.py. Event_Compatibility: agent/event_compatibility.py.
  \<^item> Approvals: agent/approvals.py. Reducer_Support: agent/reducer_support.py,
    agent/trusted_action_reducer.py, agent/batch_patching.py.
  \<^item> Tool_Result_View, Model_View, Compaction_Plan: context/tool_result_view.py,
    context/working_set_view.py, context/compaction_window.py, context/compaction_projection.py,
    context/compaction.py.
  \<^item> Turn_Reducer, Item_Reducer, Compaction_Reducer, Reducer: the files of the same names in agent/.
  \<^item> Reducer_Steps, Transcripts: the shapes of one accepted event, and concrete transcripts on which the
    properties are applied (Finishing_Run: the completed one, one event before its end).
  \<^item> Reducer_Invariants: the Threads that valid events can produce and their shape (locale
    \<open>event_machine\<close>: replay as a machine, so that invariants follow from one event). Turn_Invariants:
    locale \<open>turn_invariant\<close>, which lifts a property of single Turns to all Turns of a Thread; items and
    the growth of the history. Accounting: budgets and token accounts. Turn_Outcomes: the life cycle
    automaton and what a terminal Turn has settled. Approval_Safety: approvals behind successes.
    Window_Chain: the ledger of compactions, the chain of windows, the class validators of a Thread.
    Pricing, Model_Costs: models/pricing.py, models/billing.py, models/costs.py, the URL check of
    models/config.py. Clock_Runs, Cost_Reports: estimates are exact, every Turn has a cost report.
    Thread_Lifecycle: agent/lifecycle.py. Session_Records, Session_Store: session/sqlite.py,
    session/sqlite_append.py and the tables behind them, each operation one transaction.
    Session_Refinement, Session_Safety: the store implements a map from Threads to transcripts
    (\<open>represents\<close>). Session_Properties: the port session/ports.py as the locale \<open>transcript_store\<close>,
    interpreted on the SQLite operations, and what clients may rely on; Session_Forks, Session_Listing:
    forks, the recovery scan and the paged list.
    Reducer_Gaps: transcripts the reducer accepts against what its guards announce; Foreign_Results: a trusted
    result that leaves the reducer with the wrong kind of error, in any Thread.
  \<^item> Session_Commits: when an append succeeds, and what a later read finds. Active_Steps: what an item that
    starts and finishes in one batch does to the running Turn. Thread_Requests: the client requests of
    agent/runtime.py that read and append under the lock of one Thread, and agent/question_events.py;
    what a request draws from its host (identities, times) is the record \<open>host\<close>. Accepted_Turns: one request
    identity starts one Turn and is bound to its input.
    Running_Requests: a committed batch read backwards, at most one answer per question.
    Settled_Requests: steering and answers are recorded once, archiving is final; Asking_Run, Known_Identities
    and Stored_Runs hold the transcripts, hashes and stores of its examples.
  \<^item> Patch_Recovery: how a write without a result is examined afterwards (agent/runtime_recovery.py,
    agent/patching.py, agent/batch_patching.py, agent/execution.py); Recovered_Writes: what that can report.
    Turn_Settlement: the batch that ends a Turn (\<^verbatim>\<open>_finish\<close> of agent/runtime.py, with the trusted actions of
    agent/trusted_action_session.py). Settling_Steps: a run of events on one Turn, and how attempts, items and
    calls close one by one; Closing_Compactions: what every replayed Thread guarantees of its open compactions,
    and that the events which close them are accepted; Settled_Turns: the batch as a whole is accepted; Turn_Endings: every such Turn ends.
    The back ends, the gateway and the texts of errors are the record \<open>recovery_ports\<close>.
  \<^item> Approval_Requests: the reply to an approval request (\<^verbatim>\<open>reply_approval\<close>), with the reviews before it as the
    record \<open>review_ports\<close>; Decided_Approvals, Approval_Replies: it is decided once (Waiting_Run is the example).
    Turn_Recovery: what a restart does with an open Turn (\<^verbatim>\<open>_recover\<close>), when a Turn may be resumed
    (\<^verbatim>\<open>resume_turn\<close>), and how the end of a drive is settled (\<^verbatim>\<open>_continue\<close>), for a runtime without trusted
    actions; Recovered_Turns: after a restart no Turn is left running.

  \<^bold>\<open>Correspondence.\<close> A contract class is a record, an enumeration or tagged union a datatype, its
  validators a boolean function \<open>..._ok\<close>, its JSON dump a function \<open>..._json\<close>. A function that raises
  returns \<open>Inl\<close> of a \<open>py_error\<close>; \<open>require\<close> is the guard of the reducers. A Python string is the list
  of its UTF-8 bytes, a dictionary an association list with increasing keys, a UUID its number, a
  time its microseconds, a float its exact value with its text. Functions of the source longer than a
  page are split at their branches, one definition per branch, and composed in the order of the
  source.

  \<^bold>\<open>Parameters.\<close> Structural parsing of JSON by pydantic is code outside the repository. It is the
  record \<open>wire\<close> of parsing functions that every definition which parses takes as an argument; the
  validators of the repository run on what the parser returns. No property assumes anything about it. The texts pydantic writes for events and Threads, and
  reads back, are the record \<open>codec\<close>; the properties of the store assume \<open>codec_ok\<close>: what was read from
  JSON reads back from its own JSON, or not at all.
  SHA-256 and UUIDv5 are the real functions, so fingerprint properties name collisions explicitly.

  \<^bold>\<open>Loops.\<close> Every loop of the source runs over a finite list and is structural recursion or a fold,
  except the worklist of \<^verbatim>\<open>_action_status_reachable\<close>, which has a termination measure (the statuses
  not visited yet), and \<^verbatim>\<open>_validated_replay\<close>, which follows fork sources (measure: the Threads of the
  event table that are no ancestor yet). No definition uses fuel.

  \<^bold>\<open>Not modelled.\<close> The asynchronous loop of the runtime around the reducer (its result is an argument where the
  end of a drive is settled), the optional protection of
  public texts, connections, migrations and keys of the
  database, providers, tools, user
  interfaces, delivery and evaluation are I/O; messages of exceptions carry no state and are dropped
  except where the source compares them.
\<close>

end
